(* ===== verification/Prelude.thy ===== *)
theory Prelude
  imports Main "HOL-Library.Word"
begin

text \<open>
  Shared vocabulary of the development: Go's sized integers as words, its byte slices as
  lists of bytes with partial reads (\<open>go_index\<close>, \<open>go_slice\<close>), its single \<^verbatim>\<open>error\<close> interface as one datatype, the little-endian and
  big-endian byte orders of \<^verbatim>\<open>encoding/binary\<close> and \<^verbatim>\<open>math/big\<close>, and the generic lemmas on
  slices and words that the component theories use.  Three collections of theorems carry
  the component proofs: \<open>wire_simps\<close> (what an operation appends to a buffer),
  \<open>decodes_intros\<close> (which bytes a decoder reads back) and \<open>safe_intros\<close> (that a decoder
  stays inside its buffer).
\<close>

unbundle bit_operations_syntax

section \<open>Types\<close>

type_synonym byte = "8 word"
type_synonym uint32 = "32 word"
type_synonym uint64 = "64 word"

text \<open>
  A signed Go integer is the word with the same bits; \<^const>\<open>sint\<close> reads its value.  The
  conversions \<^verbatim>\<open>uint32(v)\<close> and \<^verbatim>\<open>int32(v)\<close> between equal widths then are the identity.
\<close>

type_synonym int32 = "32 word"
type_synonym int64 = "64 word"

text \<open>\<^verbatim>\<open>[]byte\<close> and \<^verbatim>\<open>[N]byte\<close>.\<close>

type_synonym bytes = "byte list"

named_theorems wire_simps "buffer contents after an encoding operation"
named_theorems decodes_intros "bytes a decoding operation reads back"
named_theorems safe_intros "decoding operations that stay inside their buffer"

section \<open>Errors\<close>

text \<open>
  Go's \<^verbatim>\<open>error\<close> is one interface type.  Its values here are the sentinels and the error
  structs the packages declare; \<open>NewError\<close> is \<^verbatim>\<open>errors.New\<close> or \<^verbatim>\<open>fmt.Errorf\<close> with no wrapped
  error, and \<open>Wrapped\<close> is \<^verbatim>\<open>fmt.Errorf\<close> with a \<^verbatim>\<open>%w\<close> verb.  \<open>RuntimePanic\<close> is no value of the
  interface: it stands for the run-time panic of an index or a slice expression out of range.
\<close>

datatype goerror =
    ErrUnexpectedEOF | ErrInvalidBool | ErrInvalidVector | ErrNegativeLength
  | ErrLengthTooLarge | ErrInvalidPadding
  | MismatchedConstructor uint32 uint32 | UnknownConstructor string uint32
  | IoEOF | IoUnexpectedEOF | IoError nat
  | ErrInvalidLength | ErrCRCMismatch | ErrClosed
  | ErrInvalidBlockSize | ErrInvalidIVLength | ErrInvalidKeyLength
  | ErrPacketTooShort | ErrAuthKeyMismatch | ErrMsgKeyMismatch
  | ErrSessionMismatch | ErrInvalidMsgLength
  | ErrNotFound
  | RPCError int string string
  | FloodWaitError int64
  | MigrateError int string
  | FileRefExpiredError
  | ContextError nat
  | NewError string
  | Wrapped string goerror
  | RuntimePanic

section \<open>Slices\<close>

definition slice_of :: "'a list \<Rightarrow> nat \<Rightarrow> nat \<Rightarrow> 'a list" where
  "slice_of xs i j = take (j - i) (drop i xs)"

lemma length_slice_of [simp]: "j \<le> length xs \<Longrightarrow> length (slice_of xs i j) = j - i"
  by (simp add: slice_of_def)

lemma slice_of_append_mid [simp]:
  "length pre = i \<Longrightarrow> j = i + length mid \<Longrightarrow> slice_of (pre @ mid @ rest) i j = mid"
  by (simp add: slice_of_def)

lemma slice_of_prefix [simp]:
  "j = length pre \<Longrightarrow> slice_of (pre @ rest) 0 j = pre"
  by (simp add: slice_of_def)

lemma slice_of_zero: "slice_of xs 0 j = take j xs"
  by (simp add: slice_of_def)

lemma take_slice_drop:
  "i \<le> j \<Longrightarrow> take i xs @ slice_of xs i j @ drop j xs = xs"
  by (metis append.assoc append_take_drop_id drop_drop le_add_diff_inverse2 slice_of_def take_add
      le_add_diff_inverse)

lemma drop_eq_slice:
  "i \<le> j \<Longrightarrow> j \<le> length xs \<Longrightarrow> drop i xs = slice_of xs i j @ drop j xs"
  by (metis append_take_drop_id drop_drop le_add_diff_inverse2 slice_of_def)

text \<open>
  The slice expression \<^verbatim>\<open>xs[i:j]\<close> and the index expression \<^verbatim>\<open>xs[i]\<close> as partial reads.  Go lets
  a slice expression run on into the capacity of \<^verbatim>\<open>xs\<close>; here every bound beyond its length
  counts as out of range, so that a read that is no panic reads bytes of \<^verbatim>\<open>xs\<close> only.
\<close>

definition go_slice :: "'a list \<Rightarrow> nat \<Rightarrow> nat \<Rightarrow> goerror + 'a list" where
  "go_slice xs i j = (if i \<le> j \<and> j \<le> length xs then Inr (slice_of xs i j) else Inl RuntimePanic)"

definition go_index :: "'a list \<Rightarrow> nat \<Rightarrow> goerror + 'a" where
  "go_index xs i = (if i < length xs then Inr (xs ! i) else Inl RuntimePanic)"

section \<open>Byte orders\<close>

text \<open>
  \<open>le_put n w\<close> is what \<^verbatim>\<open>binary.LittleEndian.PutUint32\<close> (\<open>n = 4\<close>) and \<^verbatim>\<open>PutUint64\<close> (\<open>n = 8\<close>)
  store: the low byte first.  \<open>le_get\<close> is \<^verbatim>\<open>Uint32\<close> / \<^verbatim>\<open>Uint64\<close> on a slice of that length.
\<close>

fun le_put :: "nat \<Rightarrow> 'a::len word \<Rightarrow> bytes" where
  "le_put 0 w = []"
| "le_put (Suc n) w = ucast w # le_put n (drop_bit 8 w)"

fun le_get :: "bytes \<Rightarrow> 'a::len word" where
  "le_get [] = 0"
| "le_get (b # bs) = ucast b OR push_bit 8 (le_get bs)"

lemma le_put_numeral:
  "le_put (numeral k) w = ucast w # le_put (pred_numeral k) (drop_bit 8 w)"
  by (simp add: numeral_eq_Suc)

lemma length_le_put [simp]: "length (le_put n w) = n"
  by (induction n arbitrary: w) auto

lemma le_get_le_put_take_bit: "le_get (le_put n w) = take_bit (8 * n) w"
proof (induction n arbitrary: w)
  case 0
  then show ?case by simp
next
  case (Suc n)
  show ?case
    by (rule bit_word_eqI)
      (auto simp: Suc bit_simps not_less)
qed

lemma le_get_le_put [simp]:
  fixes w :: "'a::len word"
  assumes "LENGTH('a) \<le> 8 * n"
  shows "le_get (le_put n w) = w"
  using assms by (simp add: le_get_le_put_take_bit take_bit_word_eq_self)

lemma le_put_le_get:
  "8 * length bs \<le> LENGTH('a) \<Longrightarrow> le_put (length bs) (le_get bs :: 'a::len word) = bs"
proof (induction bs)
  case Nil
  then show ?case by simp
next
  case (Cons b bs)
  define w where "w = (le_get bs :: 'a word)"
  have low: "ucast (ucast b OR push_bit 8 w) = b"
    using Cons.prems by (intro bit_word_eqI) (auto simp: bit_simps)
  have fits: "take_bit (8 * length bs) w = w"
    using Cons.IH Cons.prems le_get_le_put_take_bit [of "length bs" w] w_def by simp
  have bitw: "bit w k \<Longrightarrow> k < 8 * length bs" for k
    using fits by (metis bit_take_bit_iff)
  have high: "drop_bit 8 (ucast b OR push_bit 8 w) = w"
    using Cons.prems bitw
    by (intro bit_word_eqI) (fastforce simp: bit_simps dest: bit_imp_le_length)
  show ?case
    using Cons low high by (simp add: w_def)
qed

lemma le_put_inject:
  fixes v w :: "'a::len word"
  assumes "LENGTH('a) \<le> 8 * n"
  shows "le_put n v = le_put n w \<longleftrightarrow> v = w"
  using assms by (metis le_get_le_put)

text \<open>The three-byte little-endian lengths of the TL and the abridged formats.\<close>

lemma len24_bytes:
  assumes "n < 2 ^ 24"
  shows "unat (of_nat n :: byte) OR push_bit 8 (unat (of_nat (drop_bit 8 n) :: byte))
    OR push_bit 16 (unat (of_nat (drop_bit 16 n) :: byte)) = n"
proof -
  have n: "take_bit 24 n = n" using assms by (simp add: take_bit_nat_eq_self)
  have "take_bit 8 n OR push_bit 8 (take_bit 8 (drop_bit 8 n))
      OR push_bit 16 (take_bit 8 (drop_bit 16 n)) = take_bit 24 n"
  proof (rule bit_eqI)
    fix k
    show "bit (take_bit 8 n OR push_bit 8 (take_bit 8 (drop_bit 8 n))
        OR push_bit 16 (take_bit 8 (drop_bit 16 n))) k = bit (take_bit 24 n) k"
      by (cases "k < 16") (auto simp: bit_simps)
  qed
  then show ?thesis using n by (simp add: unsigned_of_nat)
qed

lemma unat_len32: "n < 2 ^ 32 \<Longrightarrow> unat (of_nat n :: uint32) = n"
  by (simp add: unsigned_of_nat take_bit_nat_eq_self)

text \<open>Signed numbers that fit.\<close>

lemma sint_of_int64: "- (2 ^ 63) \<le> x \<Longrightarrow> x < 2 ^ 63 \<Longrightarrow> sint (of_int x :: int64) = x"
  by (simp add: signed_of_int signed_take_bit_int_eq_self)

lemma sint_plus64:
  fixes a b :: int64
  assumes "- (2 ^ 63) \<le> sint a + sint b" "sint a + sint b < 2 ^ 63"
  shows "sint (a + b) = sint a + sint b"
proof -
  have "a + b = of_int (sint a + sint b)" by simp
  then show ?thesis using sint_of_int64 [OF assms] by metis
qed

end
