(* ===== verification/Encoder.thy ===== *)
theory Encoder
  imports Prelude
begin

text \<open>
  \<^verbatim>\<open>tl/encoder\<close>: the TL serializer.  The state is the contiguous byte buffer of
  \<^verbatim>\<open>Encoder\<close>; every \<^verbatim>\<open>Put\<close> method is a function from the value and the encoder to the
  new encoder.  The capacity of the Go slice, which \<^verbatim>\<open>Grow\<close> and \<^verbatim>\<open>append\<close> manage, is not part of the
  state: it never shows in the bytes.  A Go string is a byte sequence, so it is an
  Isabelle \<open>string\<close> (an 8-bit char list).
\<close>

section \<open>Strings as byte sequences\<close>

definition byte_of_char :: "char \<Rightarrow> byte" where
  "byte_of_char c = of_nat (of_char c)"

definition char_of_byte :: "byte \<Rightarrow> char" where
  "char_of_byte b = char_of (unat b)"

lemma char_of_byte_of_char [simp]: "char_of_byte (byte_of_char c) = c"
proof -
  have "of_char c < (256 :: nat)" by (rule nat_of_char_less_256)
  then have "unat (of_nat (of_char c) :: byte) = of_char c"
    by (simp add: unat_of_nat)
  then show ?thesis by (simp add: char_of_byte_def byte_of_char_def)
qed

lemma byte_of_char_of_byte [simp]: "byte_of_char (char_of_byte b) = b"
proof -
  have "unat b < 2 ^ LENGTH(8)" by (rule unsigned_less)
  then have "unat b < 256" by simp
  then have "of_char (char_of (unat b) :: char) = unat b" by simp
  then show ?thesis by (simp add: char_of_byte_def byte_of_char_def)
qed

definition string_bytes :: "string \<Rightarrow> bytes" where
  "string_bytes s = map byte_of_char s"

definition bytes_string :: "bytes \<Rightarrow> string" where
  "bytes_string bs = map char_of_byte bs"

lemma bytes_string_inverse [simp]: "bytes_string (string_bytes s) = s"
  by (simp add: bytes_string_def string_bytes_def comp_def)

lemma string_bytes_inverse [simp]: "string_bytes (bytes_string bs) = bs"
  by (simp add: bytes_string_def string_bytes_def comp_def)

lemma length_string_bytes [simp]: "length (string_bytes s) = length s"
  by (simp add: string_bytes_def)

lemma length_bytes_string [simp]: "length (bytes_string bs) = length bs"
  by (simp add: bytes_string_def)

section \<open>The encoder and its operations\<close>

definition CRCVector :: uint32 where "CRCVector = 0x1cb5c415"
definition CRCBoolTrue :: uint32 where "CRCBoolTrue = 0x997275b5"
definition CRCBoolFalse :: uint32 where "CRCBoolFalse = 0xbc799737"

record encoder =
  ebuf :: bytes

definition Encoder_New :: encoder where
  "Encoder_New = \<lparr>ebuf = []\<rparr>"

definition Encoder_NewWithBuffer :: "bytes \<Rightarrow> encoder" where
  "Encoder_NewWithBuffer buf = \<lparr>ebuf = take 0 buf\<rparr>"

definition Encoder_Reset :: "encoder \<Rightarrow> encoder" where
  "Encoder_Reset e = e\<lparr>ebuf := take 0 (ebuf e)\<rparr>"

definition Encoder_Bytes :: "encoder \<Rightarrow> bytes" where
  "Encoder_Bytes e = ebuf e"

definition Encoder_Len :: "encoder \<Rightarrow> nat" where
  "Encoder_Len e = length (ebuf e)"

definition Encoder_PutByte :: "byte \<Rightarrow> encoder \<Rightarrow> encoder" where
  "Encoder_PutByte b e = e\<lparr>ebuf := ebuf e @ [b]\<rparr>"

definition Encoder_PutRaw :: "bytes \<Rightarrow> encoder \<Rightarrow> encoder" where
  "Encoder_PutRaw b e = e\<lparr>ebuf := ebuf e @ b\<rparr>"

definition Encoder_PutUint :: "uint32 \<Rightarrow> encoder \<Rightarrow> encoder" where
  "Encoder_PutUint v e = e\<lparr>ebuf := ebuf e @ le_put 4 v\<rparr>"

definition Encoder_PutInt :: "int32 \<Rightarrow> encoder \<Rightarrow> encoder" where
  "Encoder_PutInt v e = Encoder_PutUint v e"

definition Encoder_PutUint64 :: "uint64 \<Rightarrow> encoder \<Rightarrow> encoder" where
  "Encoder_PutUint64 v e = e\<lparr>ebuf := ebuf e @ le_put 8 v\<rparr>"

definition Encoder_PutLong :: "int64 \<Rightarrow> encoder \<Rightarrow> encoder" where
  "Encoder_PutLong v e = Encoder_PutUint64 v e"

text \<open>A \<^verbatim>\<open>float64\<close> is its IEEE 754 bit pattern, so \<^verbatim>\<open>math.Float64bits\<close> is the identity.\<close>

type_synonym float64 = "64 word"

definition Encoder_PutDouble :: "float64 \<Rightarrow> encoder \<Rightarrow> encoder" where
  "Encoder_PutDouble v e = Encoder_PutUint64 v e"

definition Encoder_PutBool :: "bool \<Rightarrow> encoder \<Rightarrow> encoder" where
  "Encoder_PutBool v e =
     (if v then Encoder_PutUint CRCBoolTrue e else Encoder_PutUint CRCBoolFalse e)"

definition Encoder_PutInt128 :: "bytes \<Rightarrow> encoder \<Rightarrow> encoder" where
  "Encoder_PutInt128 v e = e\<lparr>ebuf := ebuf e @ v\<rparr>"

definition Encoder_PutInt256 :: "bytes \<Rightarrow> encoder \<Rightarrow> encoder" where
  "Encoder_PutInt256 v e = e\<lparr>ebuf := ebuf e @ v\<rparr>"

definition zeroes :: bytes where "zeroes = [0, 0, 0, 0]"

definition Encoder_PutBytes :: "bytes \<Rightarrow> encoder \<Rightarrow> encoder" where
  "Encoder_PutBytes v e =
     (let n = length v in
      if n \<le> 253 then
        let e = e\<lparr>ebuf := ebuf e @ [of_nat n]\<rparr>;
            e = e\<lparr>ebuf := ebuf e @ v\<rparr>;
            pad = (4 - ((1 + n) mod 4)) mod 4
        in if pad > 0 then e\<lparr>ebuf := ebuf e @ take pad zeroes\<rparr> else e
      else
        let hdr = [0xfe, of_nat n, of_nat (drop_bit 8 n), of_nat (drop_bit 16 n)];
            e = e\<lparr>ebuf := ebuf e @ hdr\<rparr>;
            e = e\<lparr>ebuf := ebuf e @ v\<rparr>;
            pad = (4 - (n mod 4)) mod 4
        in if pad > 0 then e\<lparr>ebuf := ebuf e @ take pad zeroes\<rparr> else e)"

definition Encoder_PutString :: "string \<Rightarrow> encoder \<Rightarrow> encoder" where
  "Encoder_PutString s e =
     (let n = length s in
      if n \<le> 253 then
        let e = e\<lparr>ebuf := ebuf e @ [of_nat n]\<rparr>;
            e = e\<lparr>ebuf := ebuf e @ string_bytes s\<rparr>;
            pad = (4 - ((1 + n) mod 4)) mod 4
        in if pad > 0 then e\<lparr>ebuf := ebuf e @ take pad zeroes\<rparr> else e
      else
        let hdr = [0xfe, of_nat n, of_nat (drop_bit 8 n), of_nat (drop_bit 16 n)];
            e = e\<lparr>ebuf := ebuf e @ hdr\<rparr>;
            e = e\<lparr>ebuf := ebuf e @ string_bytes s\<rparr>;
            pad = (4 - (n mod 4)) mod 4
        in if pad > 0 then e\<lparr>ebuf := ebuf e @ take pad zeroes\<rparr> else e)"

text \<open>\<^verbatim>\<open>int32(count)\<close> keeps the low 32 bits of the count.\<close>

definition Encoder_PutVectorHeader :: "nat \<Rightarrow> encoder \<Rightarrow> encoder" where
  "Encoder_PutVectorHeader count e = Encoder_PutInt (of_nat count) (Encoder_PutUint CRCVector e)"

section \<open>What each operation appends\<close>

text \<open>
  The specification of the TL byte-string format: a header that holds the length, the
  payload, and zeroes up to a multiple of four bytes.
\<close>

definition tl_header :: "nat \<Rightarrow> bytes" where
  "tl_header n =
     (if n \<le> 253 then [of_nat n]
      else [0xfe, of_nat n, of_nat (drop_bit 8 n), of_nat (drop_bit 16 n)])"

definition tl_padding :: "nat \<Rightarrow> nat" where
  "tl_padding n = (4 - n mod 4) mod 4"

definition tl_bytes :: "bytes \<Rightarrow> bytes" where
  "tl_bytes v = tl_header (length v) @ v @
     replicate (tl_padding (length (tl_header (length v)) + length v)) 0"

definition app :: "bytes \<Rightarrow> encoder \<Rightarrow> encoder" where
  "app bs e = e\<lparr>ebuf := ebuf e @ bs\<rparr>"

lemma app_app [simp]: "app bs (app as e) = app (as @ bs) e"
  by (simp add: app_def)

lemma app_Nil [simp]: "app [] e = e"
  by (simp add: app_def)

lemma ebuf_app [simp]: "ebuf (app bs e) = ebuf e @ bs"
  by (simp add: app_def)

lemma Encoder_Bytes_app [simp]: "Encoder_Bytes (app bs e) = Encoder_Bytes e @ bs"
  by (simp add: Encoder_Bytes_def)

lemma Encoder_Bytes_New [simp]: "Encoder_Bytes Encoder_New = []"
  by (simp add: Encoder_Bytes_def Encoder_New_def)

lemma Encoder_Reset_New [simp]: "Encoder_Reset e = Encoder_New"
  by (simp add: Encoder_Reset_def Encoder_New_def)

lemma tl_padding_less: "tl_padding n < 4"
  by (simp add: tl_padding_def)

lemma tl_padding_aligned: "(n + tl_padding n) mod 4 = 0"
proof -
  have "n mod 4 < 4" by simp
  then consider "n mod 4 = 0" | "n mod 4 = 1" | "n mod 4 = 2" | "n mod 4 = 3" by linarith
  then show ?thesis
    by cases (simp_all add: tl_padding_def, presburger+)
qed

lemma take_zeroes: "n < 4 \<Longrightarrow> take n zeroes = replicate n 0"
proof -
  assume "n < 4"
  then have "n = 0 \<or> n = 1 \<or> n = 2 \<or> n = 3" by arith
  then show ?thesis by (elim disjE) (simp_all add: zeroes_def numeral_eq_Suc)
qed

lemma PutUint_wire [wire_simps]: "Encoder_PutUint v e = app (le_put 4 v) e"
  by (simp add: Encoder_PutUint_def app_def)

lemma PutInt_wire [wire_simps]: "Encoder_PutInt v e = app (le_put 4 v) e"
  by (simp add: Encoder_PutInt_def PutUint_wire)

lemma PutUint64_wire [wire_simps]: "Encoder_PutUint64 v e = app (le_put 8 v) e"
  by (simp add: Encoder_PutUint64_def app_def)

lemma PutLong_wire [wire_simps]: "Encoder_PutLong v e = app (le_put 8 v) e"
  by (simp add: Encoder_PutLong_def PutUint64_wire)

lemma PutDouble_wire [wire_simps]: "Encoder_PutDouble v e = app (le_put 8 v) e"
  by (simp add: Encoder_PutDouble_def PutUint64_wire)

lemma PutBool_wire [wire_simps]:
  "Encoder_PutBool v e = app (le_put 4 (if v then CRCBoolTrue else CRCBoolFalse)) e"
  by (simp add: Encoder_PutBool_def PutUint_wire)

lemma PutInt128_wire [wire_simps]: "Encoder_PutInt128 v e = app v e"
  by (simp add: Encoder_PutInt128_def app_def)

lemma PutInt256_wire [wire_simps]: "Encoder_PutInt256 v e = app v e"
  by (simp add: Encoder_PutInt256_def app_def)

lemma PutRaw_wire [wire_simps]: "Encoder_PutRaw v e = app v e"
  by (simp add: Encoder_PutRaw_def app_def)

lemma PutBytes_wire [wire_simps]: "Encoder_PutBytes v e = app (tl_bytes v) e"
  by (auto simp: Encoder_PutBytes_def Let_def app_def take_zeroes tl_bytes_def tl_header_def
      tl_padding_def)

lemma PutString_PutBytes: "Encoder_PutString s e = Encoder_PutBytes (string_bytes s) e"
  by (simp add: Encoder_PutString_def Encoder_PutBytes_def)

lemma PutString_wire [wire_simps]: "Encoder_PutString s e = app (tl_bytes (string_bytes s)) e"
  by (simp add: PutString_PutBytes PutBytes_wire)

lemma PutVectorHeader_wire [wire_simps]:
  "Encoder_PutVectorHeader n e = app (le_put 4 CRCVector @ le_put 4 (of_nat n :: int32)) e"
  by (simp add: Encoder_PutVectorHeader_def PutUint_wire PutInt_wire)

lemma length_tl_bytes_mod4: "length (tl_bytes v) mod 4 = 0"
  using tl_padding_aligned [of "length (tl_header (length v)) + length v"]
  by (simp add: tl_bytes_def add.assoc)

lemma length_tl_bytes_pos: "0 < length (tl_bytes v)"
  by (simp add: tl_bytes_def tl_header_def)

end
