(* ===== verification/Decoder.thy ===== *)
theory Decoder
  imports Encoder
begin

text \<open>
  \<^verbatim>\<open>tl/decoder\<close>: the bounds-checked TL deserializer.  The state is the buffer and the
  read position of \<^verbatim>\<open>Decoder\<close>.  A method is a function from the decoder to its result (an
  error or a value) and the decoder after the call, because some methods advance the position before
  they fail (\<^verbatim>\<open>Bool\<close>, \<^verbatim>\<open>VectorHeader\<close>).  Every index and slice expression is \<open>go_index\<close> or \<open>go_slice\<close>
  of \<open>Prelude\<close>, which are \<open>RuntimePanic\<close> outside the buffer, so that a length check that is missing shows.
  \<open>dec_safe\<close> is the memory-safety contract of every method: inside the buffer it does not panic, leave the
  buffer, move back or change the bytes; and \<open>decodes\<close> says which bytes a method reads back as which value; both
  compose over the sequencing \<open>dec_bind\<close> of the generated code.
\<close>

section \<open>The decoder\<close>

record decoder =
  dbuf :: bytes
  dpos :: nat

type_synonym 'a dec = "decoder \<Rightarrow> (goerror + 'a) \<times> decoder"

definition Decoder_New :: "bytes \<Rightarrow> decoder" where
  "Decoder_New data = \<lparr>dbuf = data, dpos = 0\<rparr>"

definition Decoder_Reset :: "bytes \<Rightarrow> decoder \<Rightarrow> decoder" where
  "Decoder_Reset data d = d\<lparr>dbuf := data, dpos := 0\<rparr>"

definition Decoder_Remaining :: "decoder \<Rightarrow> int" where
  "Decoder_Remaining d = int (length (dbuf d)) - int (dpos d)"

definition Decoder_Consumed :: "decoder \<Rightarrow> nat" where
  "Decoder_Consumed d = dpos d"

definition Decoder_BytesRemaining :: "decoder \<Rightarrow> bytes" where
  "Decoder_BytesRemaining d = drop (dpos d) (dbuf d)"

definition advance :: "nat \<Rightarrow> decoder \<Rightarrow> decoder" where
  "advance n d = d\<lparr>dpos := dpos d + n\<rparr>"

definition Decoder_Skip :: "int \<Rightarrow> unit dec" where
  "Decoder_Skip n d =
     (if n < 0 \<or> Decoder_Remaining d < n then (Inl ErrUnexpectedEOF, d)
      else (Inr (), advance (nat n) d))"

section \<open>Primitives\<close>

definition Decoder_Uint :: "uint32 dec" where
  "Decoder_Uint d =
     (if Decoder_Remaining d < 4 then (Inl ErrUnexpectedEOF, d)
      else (case go_slice (dbuf d) (dpos d) (dpos d + 4) of
          Inl panic \<Rightarrow> (Inl panic, d)
        | Inr b \<Rightarrow> (Inr (le_get b), advance 4 d)))"

definition Decoder_Int :: "int32 dec" where
  "Decoder_Int d = Decoder_Uint d"

definition Decoder_Uint64 :: "uint64 dec" where
  "Decoder_Uint64 d =
     (if Decoder_Remaining d < 8 then (Inl ErrUnexpectedEOF, d)
      else (case go_slice (dbuf d) (dpos d) (dpos d + 8) of
          Inl panic \<Rightarrow> (Inl panic, d)
        | Inr b \<Rightarrow> (Inr (le_get b), advance 8 d)))"

definition Decoder_Long :: "int64 dec" where
  "Decoder_Long d = Decoder_Uint64 d"

definition Decoder_Double :: "float64 dec" where
  "Decoder_Double d =
     (case Decoder_Uint64 d of (Inl err, d) \<Rightarrow> (Inl err, d) | (Inr v, d) \<Rightarrow> (Inr v, d))"

definition Decoder_Bool :: "bool dec" where
  "Decoder_Bool d =
     (case Decoder_Uint d of
        (Inl err, d) \<Rightarrow> (Inl err, d)
      | (Inr crc, d) \<Rightarrow>
          if crc = CRCBoolTrue then (Inr True, d)
          else if crc = CRCBoolFalse then (Inr False, d)
          else (Inl ErrInvalidBool, d))"

definition Decoder_Int128 :: "bytes dec" where
  "Decoder_Int128 d =
     (if Decoder_Remaining d < 16 then (Inl ErrUnexpectedEOF, d)
      else (case go_slice (dbuf d) (dpos d) (dpos d + 16) of
          Inl panic \<Rightarrow> (Inl panic, d)
        | Inr b \<Rightarrow> (Inr b, advance 16 d)))"

definition Decoder_Int256 :: "bytes dec" where
  "Decoder_Int256 d =
     (if Decoder_Remaining d < 32 then (Inl ErrUnexpectedEOF, d)
      else (case go_slice (dbuf d) (dpos d) (dpos d + 32) of
          Inl panic \<Rightarrow> (Inl panic, d)
        | Inr b \<Rightarrow> (Inr b, advance 32 d)))"

text \<open>\<^verbatim>\<open>Raw\<close> copies and \<^verbatim>\<open>RawBorrow\<close> aliases; as values both return the same slice.\<close>

definition Decoder_RawBorrow :: "int \<Rightarrow> bytes dec" where
  "Decoder_RawBorrow n d =
     (if n < 0 then (Inl ErrNegativeLength, d)
      else if Decoder_Remaining d < n then (Inl ErrUnexpectedEOF, d)
      else (case go_slice (dbuf d) (dpos d) (dpos d + nat n) of
          Inl panic \<Rightarrow> (Inl panic, d)
        | Inr b \<Rightarrow> (Inr b, advance (nat n) d)))"

definition Decoder_Raw :: "int \<Rightarrow> bytes dec" where
  "Decoder_Raw n d =
     (if n < 0 then (Inl ErrNegativeLength, d)
      else if Decoder_Remaining d < n then (Inl ErrUnexpectedEOF, d)
      else (case go_slice (dbuf d) (dpos d) (dpos d + nat n) of
          Inl panic \<Rightarrow> (Inl panic, d)
        | Inr b \<Rightarrow> (Inr b, advance (nat n) d)))"

text \<open>
  The tail of \<^verbatim>\<open>readBytesView\<close>, from \<^verbatim>\<open>total := headerLen + length + pad\<close> on: the length check,
  the loop that checks that the padding bytes are zero, and the result.
\<close>

fun check_padding :: "bytes \<Rightarrow> nat \<Rightarrow> nat \<Rightarrow> goerror + unit" where
  "check_padding buf k 0 = Inr ()"
| "check_padding buf k (Suc n) =
     (case go_index buf k of
        Inl panic \<Rightarrow> Inl panic
      | Inr b \<Rightarrow> if b \<noteq> 0 then Inl ErrInvalidPadding else check_padding buf (Suc k) n)"

definition readBytes_finish :: "nat \<Rightarrow> nat \<Rightarrow> nat \<Rightarrow> bytes dec" where
  "readBytes_finish len headerLen pad d =
     (let total = headerLen + len + pad in
      if Decoder_Remaining d < int total then (Inl ErrUnexpectedEOF, d)
      else
        let padStart = dpos d + headerLen + len in
        (case check_padding (dbuf d) padStart pad of
           Inl err \<Rightarrow> (Inl err, d)
         | Inr _ \<Rightarrow>
             let dataStart = dpos d + headerLen in
             (case go_slice (dbuf d) dataStart (dataStart + len) of
                Inl panic \<Rightarrow> (Inl panic, d)
              | Inr out \<Rightarrow> (Inr out, advance total d))))"

text \<open>The three index expressions of the long form, from left to right.\<close>

definition long_length :: "bytes \<Rightarrow> nat \<Rightarrow> goerror + nat" where
  "long_length buf pos =
     (case go_index buf (pos + 1) of Inl panic \<Rightarrow> Inl panic | Inr b1 \<Rightarrow>
     (case go_index buf (pos + 2) of Inl panic \<Rightarrow> Inl panic | Inr b2 \<Rightarrow>
     (case go_index buf (pos + 3) of Inl panic \<Rightarrow> Inl panic | Inr b3 \<Rightarrow>
        Inr (unat b1 OR push_bit 8 (unat b2) OR push_bit 16 (unat b3)))))"

definition Decoder_readBytesView :: "bytes dec" where
  "Decoder_readBytesView d =
     (if Decoder_Remaining d < 1 then (Inl ErrUnexpectedEOF, d)
      else (case go_index (dbuf d) (dpos d) of
          Inl panic \<Rightarrow> (Inl panic, d)
        | Inr first \<Rightarrow>
            if first \<le> 253 then
              let len = unat first; pad = (4 - ((1 + len) mod 4)) mod 4
              in readBytes_finish len 1 pad d
            else if Decoder_Remaining d < 4 then (Inl ErrUnexpectedEOF, d)
            else (case long_length (dbuf d) (dpos d) of
                Inl panic \<Rightarrow> (Inl panic, d)
              | Inr len \<Rightarrow>
                  let pad = (4 - (len mod 4)) mod 4
                  in readBytes_finish len 4 pad d)))"

definition Decoder_BytesBorrow :: "bytes dec" where
  "Decoder_BytesBorrow d = Decoder_readBytesView d"

definition Decoder_Bytes :: "bytes dec" where
  "Decoder_Bytes d =
     (case Decoder_readBytesView d of
        (Inl err, d) \<Rightarrow> (Inl err, d) | (Inr data, d) \<Rightarrow> (Inr data, d))"

definition Decoder_String :: "string dec" where
  "Decoder_String d =
     (case Decoder_readBytesView d of
        (Inl err, d) \<Rightarrow> (Inl err, d) | (Inr data, d) \<Rightarrow> (Inr (bytes_string data), d))"

definition Decoder_VectorHeader :: "nat dec" where
  "Decoder_VectorHeader d =
     (case Decoder_Uint d of
        (Inl err, d) \<Rightarrow> (Inl err, d)
      | (Inr crc, d) \<Rightarrow>
          if crc \<noteq> CRCVector then (Inl ErrInvalidVector, d)
          else (case Decoder_Int d of
              (Inl err, d) \<Rightarrow> (Inl err, d)
            | (Inr count, d) \<Rightarrow>
                if sint count < 0 then (Inl ErrNegativeLength, d)
                else if sint count > Decoder_Remaining d div 4 then (Inl ErrLengthTooLarge, d)
                else (Inr (nat (sint count)), d)))"

definition Decoder_PeekUint :: "decoder \<Rightarrow> goerror + uint32" where
  "Decoder_PeekUint d =
     (if Decoder_Remaining d < 4 then Inl ErrUnexpectedEOF
      else (case go_slice (dbuf d) (dpos d) (dpos d + 4) of
          Inl panic \<Rightarrow> Inl panic
        | Inr b \<Rightarrow> Inr (le_get b)))"

text \<open>
  Behind their length checks the partial reads are total; these are the equations the proofs use.
\<close>

lemma go_slice_ok: "i \<le> j \<Longrightarrow> j \<le> length xs \<Longrightarrow> go_slice xs i j = Inr (slice_of xs i j)"
  by (simp add: go_slice_def)

lemma go_index_ok: "i < length xs \<Longrightarrow> go_index xs i = Inr (xs ! i)"
  by (simp add: go_index_def)

lemma remaining_go_slice:
  "int n \<le> Decoder_Remaining d \<Longrightarrow>
    go_slice (dbuf d) (dpos d) (dpos d + n) = Inr (slice_of (dbuf d) (dpos d) (dpos d + n))"
  by (rule go_slice_ok) (simp_all add: Decoder_Remaining_def)

lemma check_padding_eq:
  "k + n \<le> length buf \<Longrightarrow> check_padding buf k n =
     (if list_ex (\<lambda>b. b \<noteq> 0) (slice_of buf k (k + n)) then Inl ErrInvalidPadding else Inr ())"
proof (induction n arbitrary: k)
  case 0
  then show ?case by (simp add: slice_of_def)
next
  case (Suc n)
  then have k: "k < length buf" by simp
  then have "slice_of buf k (k + Suc n) = buf ! k # slice_of buf (Suc k) (Suc k + n)"
    by (simp add: slice_of_def Cons_nth_drop_Suc [symmetric])
  with Suc k show ?case by (simp add: go_index_ok)
qed

lemma Decoder_Uint_eq:
  "Decoder_Uint d =
     (if Decoder_Remaining d < 4 then (Inl ErrUnexpectedEOF, d)
      else (Inr (le_get (slice_of (dbuf d) (dpos d) (dpos d + 4))), advance 4 d))"
  using remaining_go_slice [of 4 d] by (simp add: Decoder_Uint_def)

lemma Decoder_Uint64_eq:
  "Decoder_Uint64 d =
     (if Decoder_Remaining d < 8 then (Inl ErrUnexpectedEOF, d)
      else (Inr (le_get (slice_of (dbuf d) (dpos d) (dpos d + 8))), advance 8 d))"
  using remaining_go_slice [of 8 d] by (simp add: Decoder_Uint64_def)

lemma Decoder_Int128_eq:
  "Decoder_Int128 d =
     (if Decoder_Remaining d < 16 then (Inl ErrUnexpectedEOF, d)
      else (Inr (slice_of (dbuf d) (dpos d) (dpos d + 16)), advance 16 d))"
  using remaining_go_slice [of 16 d] by (simp add: Decoder_Int128_def)

lemma Decoder_Int256_eq:
  "Decoder_Int256 d =
     (if Decoder_Remaining d < 32 then (Inl ErrUnexpectedEOF, d)
      else (Inr (slice_of (dbuf d) (dpos d) (dpos d + 32)), advance 32 d))"
  using remaining_go_slice [of 32 d] by (simp add: Decoder_Int256_def)

lemma Decoder_RawBorrow_eq:
  "Decoder_RawBorrow n d =
     (if n < 0 then (Inl ErrNegativeLength, d)
      else if Decoder_Remaining d < n then (Inl ErrUnexpectedEOF, d)
      else (Inr (slice_of (dbuf d) (dpos d) (dpos d + nat n)), advance (nat n) d))"
  using remaining_go_slice [of "nat n" d] by (simp add: Decoder_RawBorrow_def)

lemma Raw_RawBorrow: "Decoder_Raw n = Decoder_RawBorrow n"
  by (rule ext) (simp add: Decoder_Raw_def Decoder_RawBorrow_def)

lemmas Decoder_Raw_eq = Decoder_RawBorrow_eq [folded Raw_RawBorrow]

lemma Decoder_PeekUint_eq:
  "Decoder_PeekUint d =
     (if Decoder_Remaining d < 4 then Inl ErrUnexpectedEOF
      else Inr (le_get (slice_of (dbuf d) (dpos d) (dpos d + 4))))"
  using remaining_go_slice [of 4 d] by (simp add: Decoder_PeekUint_def)

lemma readBytes_finish_eq:
  "readBytes_finish len headerLen pad d =
     (let total = headerLen + len + pad in
      if Decoder_Remaining d < int total then (Inl ErrUnexpectedEOF, d)
      else
        let padStart = dpos d + headerLen + len in
        if list_ex (\<lambda>b. b \<noteq> 0) (slice_of (dbuf d) padStart (padStart + pad))
        then (Inl ErrInvalidPadding, d)
        else
          let dataStart = dpos d + headerLen
          in (Inr (slice_of (dbuf d) dataStart (dataStart + len)), advance total d))"
proof (cases "Decoder_Remaining d < int (headerLen + len + pad)")
  case True
  then show ?thesis by (simp add: readBytes_finish_def)
next
  case False
  then have fits: "dpos d + headerLen + len + pad \<le> length (dbuf d)"
    by (simp add: Decoder_Remaining_def)
  then have "go_slice (dbuf d) (dpos d + headerLen) (dpos d + headerLen + len) =
      Inr (slice_of (dbuf d) (dpos d + headerLen) (dpos d + headerLen + len))"
    by (intro go_slice_ok) simp_all
  with False show ?thesis
    by (simp add: readBytes_finish_def check_padding_eq [OF fits])
qed

lemma long_length_ok:
  assumes "pos + 4 \<le> length buf"
  shows "long_length buf pos = Inr (unat (buf ! (pos + 1)) OR push_bit 8 (unat (buf ! (pos + 2)))
    OR push_bit 16 (unat (buf ! (pos + 3))))"
  using assms by (simp add: long_length_def go_index_ok)

lemma Decoder_readBytesView_eq:
  "Decoder_readBytesView d =
     (if Decoder_Remaining d < 1 then (Inl ErrUnexpectedEOF, d)
      else
        let first = dbuf d ! dpos d in
        if first \<le> 253 then
          let len = unat first; pad = (4 - ((1 + len) mod 4)) mod 4
          in readBytes_finish len 1 pad d
        else if Decoder_Remaining d < 4 then (Inl ErrUnexpectedEOF, d)
        else
          let len = unat (dbuf d ! (dpos d + 1)) OR push_bit 8 (unat (dbuf d ! (dpos d + 2)))
                      OR push_bit 16 (unat (dbuf d ! (dpos d + 3)));
              pad = (4 - (len mod 4)) mod 4
          in readBytes_finish len 4 pad d)"
proof -
  have "\<not> Decoder_Remaining d < 1 \<Longrightarrow> go_index (dbuf d) (dpos d) = Inr (dbuf d ! dpos d)"
    by (rule go_index_ok) (simp add: Decoder_Remaining_def)
  moreover note long_length_ok [of "dpos d" "dbuf d"]
  ultimately show ?thesis
    by (simp add: Decoder_readBytesView_def Let_def Decoder_Remaining_def)
qed

section \<open>Sequencing\<close>

text \<open>
  \<^verbatim>\<open>if x, err = d.M(); err != nil { return err }\<close> followed by the rest of the body.
\<close>

definition dec_return :: "'a \<Rightarrow> 'a dec" where
  "dec_return v d = (Inr v, d)"

definition dec_fail :: "goerror \<Rightarrow> 'a dec" where
  "dec_fail err d = (Inl err, d)"

definition dec_bind :: "'a dec \<Rightarrow> ('a \<Rightarrow> 'b dec) \<Rightarrow> 'b dec" where
  "dec_bind m f d = (case m d of (Inl err, d') \<Rightarrow> (Inl err, d') | (Inr v, d') \<Rightarrow> f v d')"

text \<open>The loop \<^verbatim>\<open>for i := 0; i < vecLen; i++ { v[i] = ... }\<close>.\<close>

fun dec_times :: "nat \<Rightarrow> 'a dec \<Rightarrow> 'a list dec" where
  "dec_times 0 m = dec_return []"
| "dec_times (Suc n) m = dec_bind m (\<lambda>v. dec_bind (dec_times n m) (\<lambda>vs. dec_return (v # vs)))"

definition dec_vector :: "'a dec \<Rightarrow> 'a list dec" where
  "dec_vector m = dec_bind Decoder_VectorHeader (\<lambda>vecLen. dec_times vecLen m)"

section \<open>Safety: every method stays inside its buffer\<close>

definition dec_ok :: "decoder \<Rightarrow> bool" where
  "dec_ok d \<longleftrightarrow> dpos d \<le> length (dbuf d)"

definition dec_safe :: "'a dec \<Rightarrow> bool" where
  "dec_safe m \<longleftrightarrow> (\<forall>d. dec_ok d \<longrightarrow>
     dbuf (snd (m d)) = dbuf d \<and> dpos d \<le> dpos (snd (m d)) \<and> dec_ok (snd (m d)) \<and>
     fst (m d) \<noteq> Inl RuntimePanic)"

text \<open>
  A decoder method reads back the bytes \<open>ws\<close> as the value \<open>v\<close>, whatever surrounds them,
  and stops right after them.
\<close>

definition decodes :: "'a dec \<Rightarrow> 'a \<Rightarrow> bytes \<Rightarrow> bool" where
  "decodes m v ws \<longleftrightarrow> (\<forall>pre rest.
     m \<lparr>dbuf = pre @ ws @ rest, dpos = length pre\<rparr> =
       (Inr v, \<lparr>dbuf = pre @ ws @ rest, dpos = length pre + length ws\<rparr>))"

lemma dec_safeI [intro?]:
  assumes "\<And>d. dec_ok d \<Longrightarrow>
     dbuf (snd (m d)) = dbuf d \<and> dpos d \<le> dpos (snd (m d)) \<and> dec_ok (snd (m d)) \<and>
     fst (m d) \<noteq> Inl RuntimePanic"
  shows "dec_safe m"
  using assms by (simp add: dec_safe_def)

lemma dec_safeD:
  assumes "dec_safe m" and "dec_ok d" and "m d = (r, d')"
  shows "dbuf d' = dbuf d" and "dpos d \<le> dpos d'" and "dec_ok d'" and "r \<noteq> Inl RuntimePanic"
  using assms by (auto simp: dec_safe_def dest!: spec [of _ d])

lemma dec_ok_New [simp]: "dec_ok (Decoder_New data)"
  by (simp add: dec_ok_def Decoder_New_def)

lemma advance_simps [simp]:
  "dbuf (advance n d) = dbuf d" "dpos (advance n d) = dpos d + n"
  by (simp_all add: advance_def)

lemma dec_ok_advance:
  "int n \<le> Decoder_Remaining d \<Longrightarrow> dec_ok (advance n d)"
  by (simp add: dec_ok_def Decoder_Remaining_def)

lemma safe_return [safe_intros]: "dec_safe (dec_return v)"
  by (rule dec_safeI) (simp add: dec_return_def)

lemma not_panic [safe_intros]:
  "ErrUnexpectedEOF \<noteq> RuntimePanic" "ErrInvalidBool \<noteq> RuntimePanic"
  "ErrInvalidVector \<noteq> RuntimePanic" "ErrNegativeLength \<noteq> RuntimePanic"
  "ErrLengthTooLarge \<noteq> RuntimePanic" "ErrInvalidPadding \<noteq> RuntimePanic"
  "MismatchedConstructor c1 c2 \<noteq> RuntimePanic" "UnknownConstructor name c1 \<noteq> RuntimePanic"
  by simp_all

lemma safe_fail [safe_intros]: "err \<noteq> RuntimePanic \<Longrightarrow> dec_safe (dec_fail err)"
  by (rule dec_safeI) (simp add: dec_fail_def)

lemma safe_bind [safe_intros]:
  assumes "dec_safe m" and "\<And>v. dec_safe (f v)"
  shows "dec_safe (dec_bind m f)"
proof (rule dec_safeI)
  fix d assume d: "dec_ok d"
  obtain r d' where m: "m d = (r, d')" by (cases "m d")
  note d' = dec_safeD [OF assms(1) d m]
  show "dbuf (snd (dec_bind m f d)) = dbuf d \<and> dpos d \<le> dpos (snd (dec_bind m f d)) \<and>
    dec_ok (snd (dec_bind m f d)) \<and> fst (dec_bind m f d) \<noteq> Inl RuntimePanic"
  proof (cases r)
    case (Inl e)
    with m d' show ?thesis by (simp add: dec_bind_def)
  next
    case (Inr v)
    obtain r2 d2 where f: "f v d' = (r2, d2)" by (cases "f v d'")
    from dec_safeD [OF assms(2) d'(3) f] d' Inr m f show ?thesis
      by (simp add: dec_bind_def)
  qed
qed

lemma safe_if [safe_intros]:
  "dec_safe m \<Longrightarrow> dec_safe n \<Longrightarrow> dec_safe (if c then m else n)"
  by simp

lemma safe_Skip [safe_intros]: "dec_safe (Decoder_Skip n)"
  by (rule dec_safeI) (auto simp: Decoder_Skip_def intro: dec_ok_advance)

lemma safe_Uint [safe_intros]: "dec_safe Decoder_Uint"
  by (rule dec_safeI) (auto simp: Decoder_Uint_eq intro: dec_ok_advance)

lemma safe_Int [safe_intros]: "dec_safe Decoder_Int"
  using safe_Uint by (simp add: dec_safe_def Decoder_Int_def)

lemma safe_Uint64 [safe_intros]: "dec_safe Decoder_Uint64"
  by (rule dec_safeI) (auto simp: Decoder_Uint64_eq intro: dec_ok_advance)

lemma safe_Long [safe_intros]: "dec_safe Decoder_Long"
  using safe_Uint64 by (simp add: dec_safe_def Decoder_Long_def)

lemma PeekUint_no_panic: "Decoder_PeekUint d \<noteq> Inl RuntimePanic"
  by (simp add: Decoder_PeekUint_eq)

lemma Double_Long: "Decoder_Double = Decoder_Long"
  by (rule ext) (auto simp: Decoder_Double_def Decoder_Long_def split: prod.splits sum.splits)

lemma safe_Double [safe_intros]: "dec_safe Decoder_Double"
  by (simp add: Double_Long safe_Long)

lemma safe_Int128 [safe_intros]: "dec_safe Decoder_Int128"
  by (rule dec_safeI) (auto simp: Decoder_Int128_eq intro: dec_ok_advance)

lemma safe_Int256 [safe_intros]: "dec_safe Decoder_Int256"
  by (rule dec_safeI) (auto simp: Decoder_Int256_eq intro: dec_ok_advance)

lemma safe_Raw [safe_intros]: "dec_safe (Decoder_Raw n)"
  by (rule dec_safeI) (auto simp: Decoder_Raw_eq intro: dec_ok_advance)

lemma safe_readBytes_finish: "dec_safe (readBytes_finish len h pad)"
  by (rule dec_safeI) (auto simp: readBytes_finish_eq Let_def intro: dec_ok_advance)

lemma safe_readBytesView [safe_intros]: "dec_safe Decoder_readBytesView"
  using safe_readBytes_finish
  by (intro dec_safeI) (auto simp: Decoder_readBytesView_eq Let_def dec_safe_def)

lemma Bytes_view: "Decoder_Bytes = Decoder_readBytesView"
  by (rule ext) (auto simp: Decoder_Bytes_def split: prod.splits sum.splits)

lemma safe_Bytes [safe_intros]: "dec_safe Decoder_Bytes"
  by (simp add: Bytes_view safe_readBytesView)

lemma String_bind:
  "Decoder_String = dec_bind Decoder_readBytesView (\<lambda>data. dec_return (bytes_string data))"
  by (rule ext)
    (auto simp: Decoder_String_def dec_bind_def dec_return_def split: prod.splits sum.splits)

lemma safe_String [safe_intros]: "dec_safe Decoder_String"
  unfolding String_bind by (intro safe_intros)

lemma Bool_bind:
  "Decoder_Bool = dec_bind Decoder_Uint (\<lambda>crc.
     if crc = CRCBoolTrue then dec_return True
     else if crc = CRCBoolFalse then dec_return False else dec_fail ErrInvalidBool)"
  by (rule ext)
    (auto simp: Decoder_Bool_def dec_bind_def dec_return_def dec_fail_def
      split: prod.splits sum.splits)

lemma safe_Bool [safe_intros]: "dec_safe Decoder_Bool"
  unfolding Bool_bind by (intro safe_intros)

definition check_count :: "int32 \<Rightarrow> nat dec" where
  "check_count count d =
     (if sint count < 0 then (Inl ErrNegativeLength, d)
      else if sint count > Decoder_Remaining d div 4 then (Inl ErrLengthTooLarge, d)
      else (Inr (nat (sint count)), d))"

lemma VectorHeader_bind:
  "Decoder_VectorHeader = dec_bind Decoder_Uint (\<lambda>crc.
     if crc \<noteq> CRCVector then dec_fail ErrInvalidVector
     else dec_bind Decoder_Int check_count)"
  by (rule ext)
    (auto simp: Decoder_VectorHeader_def dec_bind_def dec_fail_def check_count_def
      split: prod.splits sum.splits)

lemma safe_check_count: "dec_safe (check_count c)"
  by (rule dec_safeI) (simp add: check_count_def)

lemma safe_VectorHeader [safe_intros]: "dec_safe Decoder_VectorHeader"
  unfolding VectorHeader_bind by (intro safe_intros safe_check_count)

lemma safe_times [safe_intros]: "dec_safe m \<Longrightarrow> dec_safe (dec_times n m)"
  by (induction n) (auto intro: safe_intros)

lemma safe_vector [safe_intros]: "dec_safe m \<Longrightarrow> dec_safe (dec_vector m)"
  unfolding dec_vector_def by (intro safe_intros)

end
