(* ===== verification/TL_Codec.thy ===== *)
theory TL_Codec
  imports Decoder
begin

text \<open>
  The contract between \<^verbatim>\<open>tl/encoder\<close> and \<^verbatim>\<open>tl/decoder\<close>: a locale for a pair of
  an encoding and a decoding operation that agree on a wire format, the facts it gives
  every such pair (round trip, unique decodability, vectors of such values), and its
  interpretation for each primitive.  \<^verbatim>\<open>tl.Object\<close> of \<^verbatim>\<open>tl/tl.go\<close> is this contract for
  the generated types.
\<close>

section \<open>Reading back a run of bytes\<close>

lemma decodesI:
  assumes "\<And>pre rest. m \<lparr>dbuf = pre @ ws @ rest, dpos = length pre\<rparr> =
     (Inr v, \<lparr>dbuf = pre @ ws @ rest, dpos = length pre + length ws\<rparr>)"
  shows "decodes m v ws"
  using assms by (simp add: decodes_def)

lemma decodes_at:
  assumes "decodes m v ws" and "dbuf d = pre @ ws @ rest" and "dpos d = length pre"
  shows "m d = (Inr v, advance (length ws) d)"
proof -
  have "d = \<lparr>dbuf = pre @ ws @ rest, dpos = length pre\<rparr>"
    using assms by (cases d) simp
  then show ?thesis using assms(1) by (simp add: decodes_def advance_def)
qed

lemma decodes_New:
  assumes "decodes m v ws"
  shows "m (Decoder_New (ws @ rest)) = (Inr v, \<lparr>dbuf = ws @ rest, dpos = length ws\<rparr>)"
  using decodes_at [OF assms, of "Decoder_New (ws @ rest)" "[]" rest]
  by (simp add: Decoder_New_def advance_def)

lemma decodes_return [decodes_intros]: "decodes (dec_return v) v []"
  by (rule decodesI) (simp add: dec_return_def)

lemma decodes_bind [decodes_intros]:
  assumes "decodes m a as" and "decodes (f a) b bs"
  shows "decodes (dec_bind m f) b (as @ bs)"
proof (rule decodesI)
  fix pre rest
  have "m \<lparr>dbuf = pre @ (as @ bs) @ rest, dpos = length pre\<rparr> =
      (Inr a, advance (length as) \<lparr>dbuf = pre @ (as @ bs) @ rest, dpos = length pre\<rparr>)"
    by (rule decodes_at [OF assms(1), of _ pre "bs @ rest"]) simp_all
  moreover have "f a (advance (length as) \<lparr>dbuf = pre @ (as @ bs) @ rest, dpos = length pre\<rparr>) =
      (Inr b, advance (length bs)
        (advance (length as) \<lparr>dbuf = pre @ (as @ bs) @ rest, dpos = length pre\<rparr>))"
    by (rule decodes_at [OF assms(2), of _ "pre @ as" rest]) simp_all
  ultimately show "dec_bind m f \<lparr>dbuf = pre @ (as @ bs) @ rest, dpos = length pre\<rparr> =
      (Inr b, \<lparr>dbuf = pre @ (as @ bs) @ rest, dpos = length pre + length (as @ bs)\<rparr>)"
    by (simp add: dec_bind_def advance_def)
qed

lemma decodes_bind_return:
  "decodes m a as \<Longrightarrow> decodes (f a) b [] \<Longrightarrow> decodes (dec_bind m f) b as"
  using decodes_bind [of m a as f b "[]"] by simp

lemma decodes_Uint [decodes_intros]: "decodes Decoder_Uint v (le_put 4 v)"
  by (rule decodesI) (simp add: Decoder_Uint_eq Decoder_Remaining_def advance_def)

lemma decodes_Int [decodes_intros]: "decodes Decoder_Int v (le_put 4 v)"
  using decodes_Uint by (simp add: decodes_def Decoder_Int_def)

lemma decodes_Uint64 [decodes_intros]: "decodes Decoder_Uint64 v (le_put 8 v)"
  by (rule decodesI) (simp add: Decoder_Uint64_eq Decoder_Remaining_def advance_def)

lemma decodes_Long [decodes_intros]: "decodes Decoder_Long v (le_put 8 v)"
  using decodes_Uint64 by (simp add: decodes_def Decoder_Long_def)

lemma decodes_Double [decodes_intros]: "decodes Decoder_Double v (le_put 8 v)"
  by (simp add: Double_Long decodes_Long)

lemma decodes_Int128 [decodes_intros]: "length v = 16 \<Longrightarrow> decodes Decoder_Int128 v v"
  by (rule decodesI) (simp add: Decoder_Int128_eq Decoder_Remaining_def advance_def)

lemma decodes_Int256 [decodes_intros]: "length v = 32 \<Longrightarrow> decodes Decoder_Int256 v v"
  by (rule decodesI) (simp add: Decoder_Int256_eq Decoder_Remaining_def advance_def)

lemma decodes_Raw: "decodes (Decoder_Raw (int (length v))) v v"
  by (rule decodesI) (simp add: Decoder_Raw_eq Decoder_Remaining_def advance_def)

lemma bool_crcs_differ: "CRCBoolTrue \<noteq> CRCBoolFalse"
  by (simp add: CRCBoolTrue_def CRCBoolFalse_def)

lemma decodes_Bool [decodes_intros]:
  "decodes Decoder_Bool v (le_put 4 (if v then CRCBoolTrue else CRCBoolFalse))"
proof -
  let ?crc = "if v then CRCBoolTrue else CRCBoolFalse"
  have "decodes Decoder_Bool v (le_put 4 ?crc @ [])"
    unfolding Bool_bind
    by (rule decodes_bind [OF decodes_Uint]) (use bool_crcs_differ in \<open>auto intro: decodes_return\<close>)
  then show ?thesis by simp
qed

section \<open>Byte strings\<close>

lemma decodes_finish:
  assumes "length hdr = h"
  shows "decodes (readBytes_finish (length v) h pad) v (hdr @ v @ replicate pad 0)"
proof (rule decodesI)
  fix pre rest :: bytes
  let ?d = "\<lparr>dbuf = pre @ (hdr @ v @ replicate pad 0) @ rest, dpos = length pre\<rparr>"
  have "slice_of (dbuf ?d) (length pre + h + length v) (length pre + h + length v + pad)
      = replicate pad 0"
    using slice_of_append_mid [of "pre @ hdr @ v" _ _ "replicate pad 0" rest] assms by simp
  moreover have "slice_of (dbuf ?d) (length pre + h) (length pre + h + length v) = v"
    using slice_of_append_mid [of "pre @ hdr" _ _ v "replicate pad 0 @ rest"] assms by simp
  ultimately show "readBytes_finish (length v) h pad ?d =
      (Inr v, \<lparr>dbuf = pre @ (hdr @ v @ replicate pad 0) @ rest,
        dpos = length pre + length (hdr @ v @ replicate pad 0)\<rparr>)"
    using assms
    by (simp add: readBytes_finish_eq Let_def Decoder_Remaining_def advance_def list_ex_iff)
qed

lemma decodes_readBytesView:
  assumes "length v < 2 ^ 24"
  shows "decodes Decoder_readBytesView v (tl_bytes v)"
proof (cases "length v \<le> 253")
  case True
  let ?hdr = "[of_nat (length v)] :: bytes"
  let ?pad = "(4 - ((1 + length v) mod 4)) mod 4"
  have small: "(of_nat (length v) :: byte) \<le> 253"
    using True by (simp add: word_le_nat_alt unat_of_nat)
  have same: "unat (of_nat (length v) :: byte) = length v"
    using True by (simp add: unat_of_nat)
  show ?thesis
  proof (rule decodesI)
    fix pre rest :: bytes
    let ?d = "\<lparr>dbuf = pre @ tl_bytes v @ rest, dpos = length pre\<rparr>"
    have ws: "tl_bytes v = ?hdr @ v @ replicate ?pad 0"
      using True by (simp add: tl_bytes_def tl_header_def tl_padding_def)
    have "Decoder_readBytesView ?d = readBytes_finish (length v) 1 ?pad ?d"
      using small same
      by (simp add: Decoder_readBytesView_eq Decoder_Remaining_def ws Let_def nth_append)
    also have "\<dots> = (Inr v, \<lparr>dbuf = pre @ tl_bytes v @ rest,
        dpos = length pre + length (tl_bytes v)\<rparr>)"
      using decodes_finish [of ?hdr 1 v ?pad] by (simp add: decodes_def ws)
    finally show "Decoder_readBytesView ?d = (Inr v, \<lparr>dbuf = pre @ tl_bytes v @ rest,
        dpos = length pre + length (tl_bytes v)\<rparr>)" .
  qed
next
  case False
  let ?hdr = "[0xfe, of_nat (length v), of_nat (drop_bit 8 (length v)),
    of_nat (drop_bit 16 (length v))] :: bytes"
  let ?pad = "(4 - (length v mod 4)) mod 4"
  show ?thesis
  proof (rule decodesI)
    fix pre rest :: bytes
    let ?d = "\<lparr>dbuf = pre @ tl_bytes v @ rest, dpos = length pre\<rparr>"
    have "Suc (Suc (Suc (Suc (length v)))) mod 4 = length v mod 4"
      by presburger
    then have ws: "tl_bytes v = ?hdr @ v @ replicate ?pad 0"
      using False by (simp add: tl_bytes_def tl_header_def tl_padding_def)
    have "Decoder_readBytesView ?d = readBytes_finish (length v) 4 ?pad ?d"
      using len24_bytes [OF assms]
      by (simp add: Decoder_readBytesView_eq Decoder_Remaining_def ws Let_def nth_append)
    also have "\<dots> = (Inr v, \<lparr>dbuf = pre @ tl_bytes v @ rest,
        dpos = length pre + length (tl_bytes v)\<rparr>)"
      using decodes_finish [of ?hdr 4 v ?pad] by (simp add: decodes_def ws)
    finally show "Decoder_readBytesView ?d = (Inr v, \<lparr>dbuf = pre @ tl_bytes v @ rest,
        dpos = length pre + length (tl_bytes v)\<rparr>)" .
  qed
qed

lemma decodes_Bytes [decodes_intros]:
  "length v < 2 ^ 24 \<Longrightarrow> decodes Decoder_Bytes v (tl_bytes v)"
  by (simp add: Bytes_view decodes_readBytesView)

lemma decodes_String [decodes_intros]:
  assumes "length s < 2 ^ 24"
  shows "decodes Decoder_String s (tl_bytes (string_bytes s))"
  unfolding String_bind
  by (rule decodes_bind_return [OF decodes_readBytesView])
    (use assms decodes_return [of s] in simp_all)

section \<open>Vectors\<close>

lemma decodes_times:
  assumes "\<And>v. v \<in> set vs \<Longrightarrow> decodes m v (w v)"
  shows "decodes (dec_times (length vs) m) vs (concat (map w vs))"
  using assms
proof (induction vs)
  case Nil
  then show ?case by (simp add: decodes_return)
next
  case (Cons v vs)
  have "decodes (dec_bind (dec_times (length vs) m) (\<lambda>vs. dec_return (v # vs)))
      (v # vs) (concat (map w vs))"
    by (rule decodes_bind_return) (use Cons in \<open>auto intro: decodes_return\<close>)
  then show ?case
    using Cons.prems by (auto intro!: decodes_bind)
qed

lemma length_concat_ge:
  assumes "\<And>v. v \<in> set vs \<Longrightarrow> 4 \<le> length (w v)"
  shows "4 * length vs \<le> length (concat (map w vs))"
  using assms by (induction vs) fastforce+

definition tl_vector :: "('a \<Rightarrow> bytes) \<Rightarrow> 'a list \<Rightarrow> bytes" where
  "tl_vector w vs = (le_put 4 CRCVector @ le_put 4 (of_nat (length vs) :: int32))
     @ concat (map w vs)"

lemma sint_of_nat_int32: "n < 2 ^ 31 \<Longrightarrow> sint (of_nat n :: int32) = int n"
  by (simp add: signed_of_nat signed_take_bit_int_eq_self)

lemma VectorHeader_at:
  assumes "dbuf d = pre @ (le_put 4 CRCVector @ le_put 4 (of_nat n :: int32)) @ rest"
    and "dpos d = length pre" and "n < 2 ^ 31" and "4 * n \<le> length rest"
  shows "Decoder_VectorHeader d = (Inr n, advance 8 d)"
proof -
  have 1: "Decoder_Uint d = (Inr CRCVector, advance 4 d)"
    using decodes_at [OF decodes_Uint [of CRCVector], of d pre] assms by simp
  have 2: "Decoder_Int (advance 4 d) = (Inr (of_nat n), advance 4 (advance 4 d))"
    using decodes_at [OF decodes_Int [of "of_nat n"], of "advance 4 d" "pre @ le_put 4 CRCVector"]
      assms by simp
  have 3: "advance 4 (advance 4 d) = advance 8 d" by (simp add: advance_def)
  have "Decoder_Remaining (advance 8 d) = int (length rest)"
    using assms(1,2) by (simp add: Decoder_Remaining_def)
  then have "\<not> int n > Decoder_Remaining (advance 8 d) div 4"
    using assms(4) by linarith
  then show ?thesis
    using 1 2 3 assms(3) by (simp add: Decoder_VectorHeader_def sint_of_nat_int32)
qed

lemma decodes_vector:
  assumes "\<And>v. v \<in> set vs \<Longrightarrow> decodes m v (w v)"
    and "\<And>v. v \<in> set vs \<Longrightarrow> 4 \<le> length (w v)" and "length vs < 2 ^ 31"
  shows "decodes (dec_vector m) vs (tl_vector w vs)"
proof (rule decodesI)
  fix pre rest
  let ?hdr = "le_put 4 CRCVector @ le_put 4 (of_nat (length vs) :: int32)"
  let ?d = "\<lparr>dbuf = pre @ tl_vector w vs @ rest, dpos = length pre\<rparr>"
  have "Decoder_VectorHeader ?d = (Inr (length vs), advance 8 ?d)"
    by (rule VectorHeader_at [of _ pre _ "concat (map w vs) @ rest"])
      (use assms(3) length_concat_ge [of vs w] assms(2) in \<open>simp_all add: tl_vector_def trans_le_add1\<close>)
  moreover have "dec_times (length vs) m (advance 8 ?d) =
      (Inr vs, advance (length (concat (map w vs))) (advance 8 ?d))"
    by (rule decodes_at [where pre = "pre @ ?hdr" and rest = rest])
      (simp_all add: tl_vector_def decodes_times assms(1))
  ultimately show "dec_vector m ?d = (Inr vs, \<lparr>dbuf = pre @ tl_vector w vs @ rest,
      dpos = length pre + length (tl_vector w vs)\<rparr>)"
    by (simp add: dec_vector_def dec_bind_def advance_def tl_vector_def)
qed

section \<open>Truncated input\<close>

text \<open>
  No proper prefix of the bytes \<open>ws\<close> is accepted: the method returns an error on each.
\<close>

definition cuts :: "'a dec \<Rightarrow> bytes \<Rightarrow> bool" where
  "cuts m ws \<longleftrightarrow> (\<forall>pre k. k < length ws \<longrightarrow>
     isl (fst (m \<lparr>dbuf = pre @ take k ws, dpos = length pre\<rparr>)))"

lemma cutsI:
  assumes "\<And>pre k. k < length ws \<Longrightarrow>
    isl (fst (m \<lparr>dbuf = pre @ take k ws, dpos = length pre\<rparr>))"
  shows "cuts m ws"
  using assms by (simp add: cuts_def)

lemma cuts_at:
  assumes "cuts m ws" and "dbuf d = pre @ take k ws" and "dpos d = length pre"
    and "k < length ws"
  shows "isl (fst (m d))"
proof -
  have "d = \<lparr>dbuf = pre @ take k ws, dpos = length pre\<rparr>" using assms by (cases d) simp
  then show ?thesis using assms(1,4) by (simp add: cuts_def)
qed

lemma cuts_Nil [decodes_intros]: "cuts m []"
  by (simp add: cuts_def)

lemma isl_bindI: "isl (fst (m d)) \<Longrightarrow> isl (fst (dec_bind m f d))"
  by (auto simp: dec_bind_def split: prod.splits sum.splits)

lemma cuts_bind [decodes_intros]:
  assumes "decodes m a as" and "cuts m as" and "cuts (f a) bs"
  shows "cuts (dec_bind m f) (as @ bs)"
proof (rule cutsI)
  fix pre k assume k: "k < length (as @ bs)"
  let ?d = "\<lparr>dbuf = pre @ take k (as @ bs), dpos = length pre\<rparr>"
  show "isl (fst (dec_bind m f ?d))"
  proof (cases "k < length as")
    case True
    then show ?thesis by (intro isl_bindI cuts_at [OF assms(2), of _ pre k]) simp_all
  next
    case False
    have "m ?d = (Inr a, advance (length as) ?d)"
      by (rule decodes_at [OF assms(1), of _ pre "take (k - length as) bs"]) (use False in simp_all)
    moreover have "isl (fst (f a (advance (length as) ?d)))"
      by (rule cuts_at [OF assms(3), of _ "pre @ as" "k - length as"])
        (use False k in simp_all)
    ultimately show ?thesis by (simp add: dec_bind_def)
  qed
qed

lemma cuts_bind_return:
  "decodes m a as \<Longrightarrow> cuts m as \<Longrightarrow> cuts (dec_bind m f) as"
  by (metis append_Nil2 cuts_bind cuts_Nil)

lemma cuts_Uint [decodes_intros]: "length ws = 4 \<Longrightarrow> cuts Decoder_Uint ws"
  by (rule cutsI) (simp add: Decoder_Uint_eq Decoder_Remaining_def)

lemma cuts_Int [decodes_intros]: "length ws = 4 \<Longrightarrow> cuts Decoder_Int ws"
  using cuts_Uint by (simp add: cuts_def Decoder_Int_def)

lemma cuts_Uint64 [decodes_intros]: "length ws = 8 \<Longrightarrow> cuts Decoder_Uint64 ws"
  by (rule cutsI) (simp add: Decoder_Uint64_eq Decoder_Remaining_def)

lemma cuts_Long [decodes_intros]: "length ws = 8 \<Longrightarrow> cuts Decoder_Long ws"
  using cuts_Uint64 by (simp add: cuts_def Decoder_Long_def)

lemma cuts_Int128 [decodes_intros]: "length v = 16 \<Longrightarrow> cuts Decoder_Int128 v"
  by (rule cutsI) (simp add: Decoder_Int128_eq Decoder_Remaining_def)

lemma cuts_Int256 [decodes_intros]: "length v = 32 \<Longrightarrow> cuts Decoder_Int256 v"
  by (rule cutsI) (simp add: Decoder_Int256_eq Decoder_Remaining_def)

lemma cuts_Bool [decodes_intros]: "length ws = 4 \<Longrightarrow> cuts Decoder_Bool ws"
  unfolding Bool_bind using cuts_Uint by (auto simp: cuts_def intro: isl_bindI)

lemma finish_short:
  "Decoder_Remaining d < int (h + len + pad) \<Longrightarrow> isl (fst (readBytes_finish len h pad d))"
  by (simp add: readBytes_finish_eq)

lemma cuts_readBytesView:
  assumes "length v < 2 ^ 24"
  shows "cuts Decoder_readBytesView (tl_bytes v)"
proof (rule cutsI)
  fix pre :: bytes and k assume k: "k < length (tl_bytes v)"
  let ?d = "\<lparr>dbuf = pre @ take k (tl_bytes v), dpos = length pre\<rparr>"
  let ?n = "length v"
  have rem: "Decoder_Remaining ?d = int k"
    using k by (simp add: Decoder_Remaining_def)
  show "isl (fst (Decoder_readBytesView ?d))"
  proof (cases "?n \<le> 253")
    case True
    have len: "length (tl_bytes v) = 1 + ?n + (4 - ((1 + ?n) mod 4)) mod 4"
      using True by (simp add: tl_bytes_def tl_header_def tl_padding_def)
    have small: "(of_nat ?n :: byte) \<le> 253" and same: "unat (of_nat ?n :: byte) = ?n"
      using True by (simp_all add: word_le_nat_alt unat_of_nat)
    show ?thesis
    proof (cases k)
      case 0
      then show ?thesis using rem by (simp add: Decoder_readBytesView_eq)
    next
      case (Suc k')
      then have "dbuf ?d ! dpos ?d = of_nat ?n"
        using True by (simp add: nth_append tl_bytes_def tl_header_def)
      then have "Decoder_readBytesView ?d =
          readBytes_finish ?n 1 ((4 - ((1 + ?n) mod 4)) mod 4) ?d"
        using small same rem Suc by (simp add: Decoder_readBytesView_eq Let_def)
      then show ?thesis using finish_short rem k len by simp
    qed
  next
    case False
    have "Suc (Suc (Suc (Suc ?n))) mod 4 = ?n mod 4" by presburger
    then have len: "length (tl_bytes v) = 4 + ?n + (4 - (?n mod 4)) mod 4"
      using False by (simp add: tl_bytes_def tl_header_def tl_padding_def)
    show ?thesis
    proof (cases "k < 4")
      case True
      then show ?thesis
        using rem False
        by (cases k) (simp_all add: Decoder_readBytesView_eq Let_def nth_append tl_bytes_def
            tl_header_def)
    next
      case k4: False
      then obtain j where j: "k = Suc (Suc (Suc (Suc j)))"
        by (auto dest!: le_Suc_ex simp: not_less numeral_eq_Suc)
      have "Decoder_readBytesView ?d =
          readBytes_finish ?n 4 ((4 - (?n mod 4)) mod 4) ?d"
        using len24_bytes [OF assms] rem False
        by (simp add: Decoder_readBytesView_eq Let_def nth_append tl_bytes_def tl_header_def j)
      then show ?thesis using finish_short rem k len by simp
    qed
  qed
qed

lemma cuts_Bytes [decodes_intros]: "length v < 2 ^ 24 \<Longrightarrow> cuts Decoder_Bytes (tl_bytes v)"
  by (simp add: Bytes_view cuts_readBytesView)

lemma cuts_String [decodes_intros]:
  assumes "length s < 2 ^ 24"
  shows "cuts Decoder_String (tl_bytes (string_bytes s))"
  unfolding String_bind
  by (rule cuts_bind_return [OF decodes_readBytesView cuts_readBytesView]) (use assms in simp_all)

lemma cuts_times:
  assumes "\<And>v. v \<in> set vs \<Longrightarrow> decodes m v (w v)" and "\<And>v. v \<in> set vs \<Longrightarrow> cuts m (w v)"
  shows "cuts (dec_times (length vs) m) (concat (map w vs))"
  using assms
proof (induction vs)
  case Nil
  then show ?case by (simp add: cuts_Nil)
next
  case (Cons v vs)
  have "cuts (dec_bind (dec_times (length vs) m) (\<lambda>vs. dec_return (v # vs))) (concat (map w vs))"
    by (rule cuts_bind_return [OF decodes_times [of vs m w]]) (use Cons in auto)
  then show ?case using Cons.prems by (auto intro!: cuts_bind)
qed

lemma cuts_vector:
  assumes "\<And>v. v \<in> set vs \<Longrightarrow> decodes m v (w v)" and "\<And>v. v \<in> set vs \<Longrightarrow> cuts m (w v)"
    and "length vs < 2 ^ 31"
  shows "cuts (dec_vector m) (tl_vector w vs)"
proof (rule cutsI)
  fix pre k assume k: "k < length (tl_vector w vs)"
  let ?crc = "le_put 4 CRCVector" and ?n = "of_nat (length vs) :: int32"
  let ?d = "\<lparr>dbuf = pre @ take k (tl_vector w vs), dpos = length pre\<rparr>"
  have hdr: "cuts Decoder_VectorHeader (?crc @ le_put 4 ?n)"
    unfolding VectorHeader_bind
  proof (rule cuts_bind [OF decodes_Uint cuts_Uint])
    show "cuts (if CRCVector \<noteq> CRCVector then dec_fail ErrInvalidVector
        else dec_bind Decoder_Int check_count) (le_put 4 ?n)"
      by (simp add: cuts_bind_return [OF decodes_Int cuts_Int])
  qed simp
  show "isl (fst (dec_vector m ?d))"
  proof (cases "k < 8")
    case True
    then show ?thesis
      unfolding dec_vector_def
      by (intro isl_bindI cuts_at [OF hdr, of _ pre k]) (simp_all add: tl_vector_def)
  next
    case False
    obtain j where j: "k = 8 + j" using False by (auto dest!: le_Suc_ex simp: not_less)
    have buf: "dbuf ?d = pre @ (?crc @ le_put 4 ?n) @ take j (concat (map w vs))"
      using j by (simp add: tl_vector_def)
    show ?thesis
    proof (cases "4 * length vs \<le> j")
      case True
      then have "Decoder_VectorHeader ?d = (Inr (length vs), advance 8 ?d)"
        using k j by (intro VectorHeader_at [OF buf]) (use assms(3) in \<open>simp_all add: tl_vector_def\<close>)
      moreover have "isl (fst (dec_times (length vs) m (advance 8 ?d)))"
        by (rule cuts_at [OF cuts_times [of vs m w], of _ "pre @ ?crc @ le_put 4 ?n" j])
          (use assms k j in \<open>simp_all add: tl_vector_def\<close>)
      ultimately show ?thesis by (simp add: dec_vector_def dec_bind_def)
    next
      case False
      have 1: "Decoder_Uint ?d = (Inr CRCVector, advance 4 ?d)"
        using decodes_at [OF decodes_Uint [of CRCVector], of ?d pre] buf by simp
      have 2: "Decoder_Int (advance 4 ?d) = (Inr ?n, advance 4 (advance 4 ?d))"
        using decodes_at [OF decodes_Int [of ?n], of "advance 4 ?d" "pre @ ?crc"] buf by simp
      have rem: "Decoder_Remaining (advance 4 (advance 4 ?d)) = int j"
        using k j by (simp add: Decoder_Remaining_def tl_vector_def)
      have "int (length vs) > int j div 4" using False by linarith
      then have "isl (fst (Decoder_VectorHeader ?d))"
        using 1 2 rem assms(3) by (simp add: Decoder_VectorHeader_def sint_of_nat_int32)
      then show ?thesis unfolding dec_vector_def by (rule isl_bindI)
    qed
  qed
qed

section \<open>The codec contract\<close>

definition put_vector :: "('a \<Rightarrow> encoder \<Rightarrow> encoder) \<Rightarrow> 'a list \<Rightarrow> encoder \<Rightarrow> encoder" where
  "put_vector put vs e = fold put vs (Encoder_PutVectorHeader (length vs) e)"

locale tl_codec =
  fixes put :: "'a \<Rightarrow> encoder \<Rightarrow> encoder"
    and get :: "'a dec"
    and wire :: "'a \<Rightarrow> bytes"
    and ok :: "'a \<Rightarrow> bool"
  assumes put_wire: "put v e = app (wire v) e"
    and get_wire: "ok v \<Longrightarrow> decodes get v (wire v)"
    and get_cuts: "ok v \<Longrightarrow> cuts get (wire v)"
    and get_safe: "dec_safe get"
    and wire_aligned: "ok v \<Longrightarrow> length (wire v) mod 4 = 0"
    and wire_min: "ok v \<Longrightarrow> 4 \<le> length (wire v)"
begin

lemma roundtrip_in_stream:
  assumes "ok v" and "Encoder_Bytes e = pre"
  shows "get \<lparr>dbuf = Encoder_Bytes (put v e) @ rest, dpos = length pre\<rparr> =
    (Inr v, \<lparr>dbuf = Encoder_Bytes (put v e) @ rest, dpos = Encoder_Len (put v e)\<rparr>)"
  using get_wire [OF assms(1)] assms(2)
  by (simp add: decodes_def put_wire Encoder_Len_def flip: Encoder_Bytes_def)

lemma roundtrip:
  assumes "ok v"
  shows "get (Decoder_New (Encoder_Bytes (put v Encoder_New) @ rest)) =
    (Inr v, \<lparr>dbuf = Encoder_Bytes (put v Encoder_New) @ rest, dpos = length (wire v)\<rparr>)"
  using decodes_New [OF get_wire [OF assms], of rest] by (simp add: put_wire)

lemma truncated_rejected:
  assumes "ok v" and "k < Encoder_Len (put v Encoder_New)"
  shows "\<exists>err. fst (get (Decoder_New (take k (Encoder_Bytes (put v Encoder_New))))) = Inl err"
proof -
  have "k < length (wire v)"
    using assms(2) by (simp add: put_wire Encoder_Len_def Encoder_New_def)
  then have "isl (fst (get (Decoder_New (take k (wire v)))))"
    by (intro cuts_at [OF get_cuts [OF assms(1)], of _ "[]" k]) (simp_all add: Decoder_New_def)
  then show ?thesis by (simp add: put_wire isl_def)
qed

lemma unique_decodability:
  assumes "ok v" and "ok u" and "wire v @ r = wire u @ s"
  shows "v = u \<and> r = s"
proof -
  have "(Inr v, \<lparr>dbuf = wire v @ r, dpos = length (wire v)\<rparr>) =
      ((Inr u :: goerror + 'a), \<lparr>dbuf = wire v @ r, dpos = length (wire u)\<rparr>)"
    using decodes_New [OF get_wire [OF assms(1)], of r]
      decodes_New [OF get_wire [OF assms(2)], of s] assms(3) by simp
  then show ?thesis using assms(3) by simp
qed

lemma put_keeps_alignment:
  "ok v \<Longrightarrow> Encoder_Len e mod 4 = 0 \<Longrightarrow> Encoder_Len (put v e) mod 4 = 0"
  using wire_aligned [of v] by (simp add: put_wire Encoder_Len_def mod_add_eq [symmetric])

lemma fold_put: "fold put vs e = app (concat (map wire vs)) e"
  by (induction vs arbitrary: e) (simp_all add: put_wire)

lemma put_vector_wire: "put_vector put vs e = app (tl_vector wire vs) e"
  by (simp add: put_vector_def fold_put PutVectorHeader_wire tl_vector_def)

lemma concat_wire_aligned:
  "\<forall>v \<in> set vs. ok v \<Longrightarrow> length (concat (map wire vs)) mod 4 = 0"
  using wire_aligned by (induction vs) (simp_all add: mod_add_eq [symmetric])

lemma vector_codec:
  "tl_codec (put_vector put) (dec_vector get) (tl_vector wire)
     (\<lambda>vs. (\<forall>v \<in> set vs. ok v) \<and> length vs < 2 ^ 31)"
proof
  fix vs :: "'a list" and e
  show "put_vector put vs e = app (tl_vector wire vs) e" by (rule put_vector_wire)
next
  fix vs assume "(\<forall>v \<in> set vs. ok v) \<and> length vs < 2 ^ 31"
  then show "decodes (dec_vector get) vs (tl_vector wire vs)"
    by (intro decodes_vector) (auto intro: get_wire wire_min)
next
  fix vs assume "(\<forall>v \<in> set vs. ok v) \<and> length vs < 2 ^ 31"
  then show "cuts (dec_vector get) (tl_vector wire vs)"
    by (intro cuts_vector) (auto intro: get_wire get_cuts)
next
  show "dec_safe (dec_vector get)" by (intro safe_vector get_safe)
next
  fix vs assume "(\<forall>v \<in> set vs. ok v) \<and> length vs < 2 ^ 31"
  then show "length (tl_vector wire vs) mod 4 = 0"
    using concat_wire_aligned [of vs]
    by (simp add: tl_vector_def mod_add_left_eq [symmetric, of 8] del: mod_add_left_eq)
next
  fix vs :: "'a list"
  show "4 \<le> length (tl_vector wire vs)" by (simp add: tl_vector_def)
qed

end

section \<open>The primitives are codecs\<close>

lemmas prim_rules = wire_simps decodes_intros safe_intros

interpretation uint_codec: tl_codec Encoder_PutUint Decoder_Uint "le_put 4" "\<lambda>_. True"
  by unfold_locales (auto intro: prim_rules simp: wire_simps)

interpretation int_codec: tl_codec Encoder_PutInt Decoder_Int "le_put 4" "\<lambda>_. True"
  by unfold_locales (auto intro: prim_rules simp: wire_simps)

interpretation long_codec: tl_codec Encoder_PutLong Decoder_Long "le_put 8" "\<lambda>_. True"
  by unfold_locales (auto intro: prim_rules simp: wire_simps)

interpretation double_codec: tl_codec Encoder_PutDouble Decoder_Double "le_put 8" "\<lambda>_. True"
  by unfold_locales (auto intro: prim_rules simp: wire_simps Double_Long)

interpretation bool_codec: tl_codec Encoder_PutBool Decoder_Bool
    "\<lambda>v. le_put 4 (if v then CRCBoolTrue else CRCBoolFalse)" "\<lambda>_. True"
  by unfold_locales (rule PutBool_wire decodes_Bool safe_Bool | simp add: cuts_Bool)+

interpretation int128_codec: tl_codec Encoder_PutInt128 Decoder_Int128 "\<lambda>v. v"
    "\<lambda>v. length v = 16"
  by unfold_locales (auto intro: prim_rules simp: wire_simps)

interpretation int256_codec: tl_codec Encoder_PutInt256 Decoder_Int256 "\<lambda>v. v"
    "\<lambda>v. length v = 32"
  by unfold_locales (auto intro: prim_rules simp: wire_simps)

lemma tl_bytes_min: "4 \<le> length (tl_bytes v)"
  using length_tl_bytes_mod4 [of v] length_tl_bytes_pos [of v] by presburger

interpretation bytes_codec: tl_codec Encoder_PutBytes Decoder_Bytes tl_bytes
    "\<lambda>v. length v < 2 ^ 24"
  by unfold_locales (auto intro: prim_rules simp: wire_simps length_tl_bytes_mod4 tl_bytes_min)

interpretation string_codec: tl_codec Encoder_PutString Decoder_String
    "\<lambda>s. tl_bytes (string_bytes s)" "\<lambda>s. length s < 2 ^ 24"
  by unfold_locales (auto intro: prim_rules simp: wire_simps length_tl_bytes_mod4 tl_bytes_min)

interpretation long_vector: tl_codec "put_vector Encoder_PutLong" "dec_vector Decoder_Long"
    "tl_vector (le_put 8)" "\<lambda>vs. (\<forall>v \<in> set vs. True) \<and> length vs < 2 ^ 31"
  by (rule long_codec.vector_codec)

section \<open>Properties\<close>

lemma or_len24_bound:
  "unat (a :: byte) OR push_bit 8 (unat (b :: byte)) OR push_bit 16 (unat (c :: byte)) < 2 ^ 24"
proof -
  have byte: "take_bit 8 (unat x) = unat x" for x :: byte
  proof -
    have "unat x < 2 ^ 8" using unsigned_less [of x] by simp
    then show ?thesis by (simp add: take_bit_nat_eq_self)
  qed
  have "take_bit 24 (unat a OR push_bit 8 (unat b) OR push_bit 16 (unat c)) =
      unat a OR push_bit 8 (unat b) OR push_bit 16 (unat c)"
    by (subst (1 2 3 4 5 6) byte [symmetric], rule bit_eqI) (auto simp: bit_simps)
  then show ?thesis by (metis take_bit_nat_less_exp)
qed

lemma readBytes_finish_length:
  "readBytes_finish len h pad d = (Inr v, d') \<Longrightarrow> dec_ok d \<Longrightarrow> length v = len"
  by (auto simp: readBytes_finish_eq Let_def dec_ok_def Decoder_Remaining_def split: if_splits)

lemma Bytes_length_bound:
  assumes "Decoder_Bytes d = (Inr v, d')" "dec_ok d"
  shows "length v < 2 ^ 24"
proof -
  have "unat (dbuf d ! dpos d) < 2 ^ 8" using unsigned_less [of "dbuf d ! dpos d"] by simp
  then show ?thesis
    using assms or_len24_bound
    by (auto simp: Bytes_view Decoder_readBytesView_eq Let_def split: if_splits
        dest!: readBytes_finish_length)
qed

text \<open>
  A TL string is read back, wherever it stands in a stream, and the decoder stops right
  after its padding.
\<close>
theorem tl_string_roundtrip:
  assumes "length s < 2 ^ 24"
  shows "Decoder_String \<lparr>dbuf = Encoder_Bytes (Encoder_PutString s e) @ rest, dpos = Encoder_Len e\<rparr> =
    (Inr s, \<lparr>dbuf = Encoder_Bytes (Encoder_PutString s e) @ rest,
             dpos = Encoder_Len (Encoder_PutString s e)\<rparr>)"
  using string_codec.roundtrip_in_stream [OF assms refl, of e rest]
  by (simp add: Encoder_Len_def Encoder_Bytes_def)

theorem tl_string_roundtrip_witness:
  "fst (Decoder_String \<lparr>dbuf = Encoder_Bytes (Encoder_PutString ''TeleGofer'' Encoder_New) @ [7],
     dpos = Encoder_Len Encoder_New\<rparr>) = Inr ''TeleGofer''"
  using tl_string_roundtrip [of "''TeleGofer''" Encoder_New "[7]"] by simp

text \<open>
  C25. The three-byte length is the limit of the format, and the encoder does not enforce it: a byte
  string comes back unchanged exactly when it is shorter than \<open>2 ^ 24\<close> bytes.
\<close>
theorem tl_bytes_roundtrip_iff:
  "fst (Decoder_Bytes (Decoder_New (Encoder_Bytes (Encoder_PutBytes v Encoder_New)))) = Inr v
     \<longleftrightarrow> length v < 2 ^ 24"
proof
  let ?d = "Decoder_New (Encoder_Bytes (Encoder_PutBytes v Encoder_New))"
  assume "fst (Decoder_Bytes ?d) = Inr v"
  then show "length v < 2 ^ 24"
    using Bytes_length_bound [of ?d v "snd (Decoder_Bytes ?d)"] dec_ok_New by (metis prod.collapse)
next
  assume "length v < 2 ^ 24"
  from bytes_codec.roundtrip [OF this, of "[]"]
  show "fst (Decoder_Bytes (Decoder_New (Encoder_Bytes (Encoder_PutBytes v Encoder_New)))) = Inr v"
    by simp
qed


text \<open>
  A vector header announces no more elements than the rest of the input can hold, so the slice
  the generated decoders allocate for it is bounded by the input.
\<close>
theorem vector_header_bounded:
  assumes "Decoder_VectorHeader d = (Inr count, d')"
  shows "4 * int count \<le> Decoder_Remaining d' \<and> count < 2 ^ 31"
proof -
  have s: "sint c < 2 ^ 31" for c :: int32 using sint_less [of c] by simp
  then show ?thesis
    using assms
    by (auto simp: Decoder_VectorHeader_def nat_less_iff split: prod.splits sum.splits if_splits)
qed

theorem vector_header_bounded_witness:
  "fst (Decoder_VectorHeader (Decoder_New (tl_vector (le_put 8) [5 :: int64]))) = Inr 1 \<and>
   4 * int 1 \<le> Decoder_Remaining (snd (Decoder_VectorHeader (Decoder_New (tl_vector (le_put 8) [5 :: int64]))))"
proof -
  let ?d = "Decoder_New (tl_vector (le_put 8) [5 :: int64])"
  have "Decoder_VectorHeader ?d = (Inr (length [5 :: int64]), advance 8 ?d)"
    by (rule VectorHeader_at [of ?d "[]" "length [5 :: int64]" "le_put 8 (5 :: int64)"])
      (simp_all add: Decoder_New_def tl_vector_def)
  then show ?thesis using vector_header_bounded [of ?d 1 "advance 8 ?d"] by simp
qed

text \<open>
  A vector of 64-bit integers is read back, and a truncated one is rejected with an error.
\<close>
theorem long_vector_roundtrip:
  assumes "length vs < 2 ^ 31"
  shows "fst (dec_vector Decoder_Long (Decoder_New
      (Encoder_Bytes (put_vector Encoder_PutLong vs Encoder_New) @ rest))) = Inr vs \<and>
    (\<forall>k < Encoder_Len (put_vector Encoder_PutLong vs Encoder_New). \<exists>err.
       fst (dec_vector Decoder_Long (Decoder_New
         (take k (Encoder_Bytes (put_vector Encoder_PutLong vs Encoder_New))))) = Inl err)"
  using long_vector.roundtrip [of vs rest] long_vector.truncated_rejected [of vs] assms by simp

theorem long_vector_roundtrip_witness:
  "fst (dec_vector Decoder_Long (Decoder_New
      (Encoder_Bytes (put_vector Encoder_PutLong [3, 4] Encoder_New) @ []))) = Inr [3, 4]"
  using long_vector_roundtrip [of "[3, 4]" "[]"] by simp

end
