(* ===== verification/Generated_Base.thy ===== *)
theory Generated_Base
  imports TL_Codec
begin

text \<open>
  The shapes \<^verbatim>\<open>tl/generator\<close> emits again and again into \<^verbatim>\<open>tl/generated/core.go\<close>: the check of
  the constructor number at the head of every \<^verbatim>\<open>Decode\<close> method, and the \<^verbatim>\<open>switch\<close> on the
  peeked number in the decoder of every sum type.  The theories \<open>Generated_Auth\<close>,
  \<open>Generated_Service\<close> and \<open>Generated_Files\<close> model the types built from them; each type is an
  interpretation of the codec contract of \<open>TL_Codec\<close>.
\<close>

text \<open>
  \<^verbatim>\<open>crc, err := d.Uint(); if err != nil { return err }; if crc != ID { return mismatched }\<close>.
\<close>

definition dec_crc :: "uint32 \<Rightarrow> unit dec" where
  "dec_crc expected = dec_bind Decoder_Uint (\<lambda>crc.
     if crc \<noteq> expected then dec_fail (MismatchedConstructor expected crc) else dec_return ())"

text \<open>\<^verbatim>\<open>v := &T{}; if err := v.Decode(d); err != nil { return nil, err }; return v, nil\<close>.\<close>

definition dec_map :: "('a \<Rightarrow> 'b) \<Rightarrow> 'a dec \<Rightarrow> 'b dec" where
  "dec_map f m = dec_bind m (\<lambda>v. dec_return (f v))"

text \<open>\<^verbatim>\<open>crc, err := d.PeekUint(); switch crc { case ...: ... default: unknown constructor }\<close>.\<close>

definition dec_switch :: "string \<Rightarrow> (uint32 \<times> 'a dec) list \<Rightarrow> 'a dec" where
  "dec_switch name alts d =
     (case Decoder_PeekUint d of
        Inl err \<Rightarrow> (Inl err, d)
      | Inr crc \<Rightarrow>
          (case map_of alts crc of
             None \<Rightarrow> (Inl (UnknownConstructor name crc), d)
           | Some m \<Rightarrow> m d))"

lemma safe_crc [safe_intros]: "dec_safe (dec_crc c)"
  unfolding dec_crc_def by (intro safe_intros)

lemma safe_map [safe_intros]: "dec_safe m \<Longrightarrow> dec_safe (dec_map f m)"
  unfolding dec_map_def by (intro safe_intros)

lemma safe_switch:
  assumes "\<And>c m. (c, m) \<in> set alts \<Longrightarrow> dec_safe m"
  shows "dec_safe (dec_switch name alts)"
proof (rule dec_safeI)
  fix d assume "dec_ok d"
  moreover have "map_of alts c = Some m \<Longrightarrow> dec_safe m" for c m
    using assms map_of_SomeD by metis
  ultimately show "dbuf (snd (dec_switch name alts d)) = dbuf d \<and>
      dpos d \<le> dpos (snd (dec_switch name alts d)) \<and> dec_ok (snd (dec_switch name alts d)) \<and>
      fst (dec_switch name alts d) \<noteq> Inl RuntimePanic"
    using PeekUint_no_panic [of d]
    by (auto simp: dec_switch_def dec_safe_def split: sum.split option.split)
qed

lemma decodes_crc [decodes_intros]: "decodes (dec_crc c) () (le_put 4 c)"
  unfolding dec_crc_def by (rule decodes_bind_return [OF decodes_Uint]) (simp add: decodes_return)

lemma cuts_crc [decodes_intros]: "cuts (dec_crc c) (le_put 4 c)"
  unfolding dec_crc_def by (rule cuts_bind_return [OF decodes_Uint cuts_Uint]) simp

lemma decodes_map [decodes_intros]: "decodes m v ws \<Longrightarrow> u = f v \<Longrightarrow> decodes (dec_map f m) u ws"
  unfolding dec_map_def by (rule decodes_bind_return [of m v]) (simp_all add: decodes_return)

lemma cuts_map [decodes_intros]: "cuts m ws \<Longrightarrow> cuts (dec_map f m) ws"
  unfolding dec_map_def by (simp add: cuts_def isl_bindI)

lemma PeekUint_at:
  assumes "dbuf d = pre @ le_put 4 crc @ rest" and "dpos d = length pre"
  shows "Decoder_PeekUint d = Inr crc"
  using assms by (simp add: Decoder_PeekUint_eq Decoder_Remaining_def)

lemma decodes_switch:
  assumes "map_of alts crc = Some m" and "decodes m v (le_put 4 crc @ ws)"
  shows "decodes (dec_switch name alts) v (le_put 4 crc @ ws)"
proof (rule decodesI)
  fix pre rest
  let ?d = "\<lparr>dbuf = pre @ (le_put 4 crc @ ws) @ rest, dpos = length pre\<rparr>"
  have "Decoder_PeekUint ?d = Inr crc"
    by (rule PeekUint_at [of _ pre _ "ws @ rest"]) simp_all
  then show "dec_switch name alts ?d = (Inr v, \<lparr>dbuf = pre @ (le_put 4 crc @ ws) @ rest,
      dpos = length pre + length (le_put 4 crc @ ws)\<rparr>)"
    using assms by (simp add: dec_switch_def decodes_def)
qed

lemma cuts_switch:
  assumes "map_of alts crc = Some m" and "cuts m (le_put 4 crc @ ws)"
  shows "cuts (dec_switch name alts) (le_put 4 crc @ ws)"
proof (rule cutsI)
  fix pre k assume k: "k < length (le_put 4 crc @ ws)"
  let ?d = "\<lparr>dbuf = pre @ take k (le_put 4 crc @ ws), dpos = length pre\<rparr>"
  show "isl (fst (dec_switch name alts ?d))"
  proof (cases "k < 4")
    case True
    then show ?thesis
      by (simp add: dec_switch_def Decoder_PeekUint_eq Decoder_Remaining_def)
  next
    case False
    then have "Decoder_PeekUint ?d = Inr crc"
      by (intro PeekUint_at [of _ pre _ "take (k - 4) ws"]) simp_all
    moreover have "isl (fst (m ?d))"
      by (rule cuts_at [OF assms(2), of _ pre k]) (use k in simp_all)
    ultimately show ?thesis using assms(1) by (simp add: dec_switch_def)
  qed
qed

text \<open>A peeked number no branch of the switch has is an error, and nothing is consumed.\<close>

lemma switch_unknown:
  "Decoder_PeekUint d = Inr crc \<Longrightarrow> crc \<notin> fst ` set alts \<Longrightarrow>
    dec_switch name alts d = (Inl (UnknownConstructor name crc), d)"
  by (simp add: dec_switch_def map_of_eq_None_iff [THEN iffD2] split: option.split)

lemma decodes_returnI: "r = v \<Longrightarrow> decodes (dec_return r) v []"
  by (simp add: decodes_return)

lemma length_append_mod4:
  "length xs mod 4 = 0 \<Longrightarrow> length ys mod 4 = 0 \<Longrightarrow> length (xs @ ys) mod 4 = 0"
  by (simp add: mod_add_eq [symmetric])

section \<open>Codecs of the generated types\<close>

lemmas codec_simps = wire_simps Let_def long_codec.put_vector_wire
lemmas codec_rules = decodes_intros decodes_returnI safe_intros
  long_vector.get_wire long_vector.get_cuts length_append_mod4
  long_vector.wire_aligned length_tl_bytes_mod4

text \<open>
  One value of a sum type meets the codec contract if the constructor it is built with does and
  the switch sends that constructor's number to its decoder.
\<close>

definition switch_alt :: "string \<Rightarrow> (uint32 \<times> 'a dec) list \<Rightarrow> ('a \<Rightarrow> encoder \<Rightarrow> encoder) \<Rightarrow>
    ('a \<Rightarrow> bytes) \<Rightarrow> ('a \<Rightarrow> bool) \<Rightarrow> 'a \<Rightarrow> bool" where
  "switch_alt name alts put wire ok v \<longleftrightarrow>
     (\<forall>e. put v e = app (wire v) e) \<and>
     (ok v \<longrightarrow> decodes (dec_switch name alts) v (wire v) \<and> cuts (dec_switch name alts) (wire v) \<and>
       length (wire v) mod 4 = 0 \<and> 4 \<le> length (wire v))"

lemma switch_altI:
  assumes "tl_codec cput cget cwire cok" and "\<And>u. cwire u = le_put 4 crc @ drop 4 (cwire u)"
    and "map_of alts crc = Some (dec_map C cget)"
    and "put (C u) = cput u" and "wire (C u) = cwire u" and "ok (C u) = cok u"
  shows "switch_alt name alts put wire ok (C u)"
proof -
  have "decodes (dec_switch name alts) (C u) (cwire u)" if "cok u"
    using decodes_switch [OF assms(3), of "C u" "drop 4 (cwire u)" name]
      decodes_map [OF tl_codec.get_wire [OF assms(1) that] refl, of C]
    by (simp flip: assms(2))
  moreover have "cuts (dec_switch name alts) (cwire u)" if "cok u"
    using cuts_switch [OF assms(3), of "drop 4 (cwire u)" name]
      cuts_map [OF tl_codec.get_cuts [OF assms(1) that], of C]
    by (simp flip: assms(2))
  ultimately show ?thesis
    using assms(4-6) tl_codec.put_wire [OF assms(1)] tl_codec.wire_aligned [OF assms(1)]
      tl_codec.wire_min [OF assms(1)]
    by (simp add: switch_alt_def)
qed

lemma switch_codecI:
  assumes "\<And>v. switch_alt name alts put wire ok v" and "\<And>c m. (c, m) \<in> set alts \<Longrightarrow> dec_safe m"
  shows "tl_codec put (dec_switch name alts) wire ok"
proof -
  have "dec_safe (dec_switch name alts)" by (rule safe_switch) (rule assms(2))
  then show ?thesis using assms(1) by (unfold_locales) (simp_all add: switch_alt_def)
qed

end
