(* ===== verification/Generated_Auth.thy ===== *)
theory Generated_Auth
  imports Generated_Base
begin

text \<open>
  \<^verbatim>\<open>tl/generated/core.go\<close>: the types of the authorization key exchange.  A struct is a record with
  the prefix of its type on each field, \<^verbatim>\<open>Encode\<close> is a function on the encoder (the Go method
  never returns an error) and \<^verbatim>\<open>Decode\<close> a decoder of the record: the Go method fills a
  receiver that every caller allocates fresh and drops when an error is returned.  \<open>T_wire\<close> is the
  byte layout and \<open>T_ok\<close> the field sizes the wire format can carry.  Every type is an
  interpretation of the codec contract, which gives its round trip, its rejection of
  truncated input and its unique decodability.
\<close>

section \<open>Types and methods\<close>

subsection \<open>\<^verbatim>\<open>ResPQ\<close>: \<^verbatim>\<open>resPQ#05162463\<close>\<close>

record ResPQ =
  ResPQ_Nonce :: bytes
  ResPQ_ServerNonce :: bytes
  ResPQ_Pq :: string
  ResPQ_ServerPublicKeyFingerprints :: "int64 list"

definition ResPQ_TLID :: uint32 where
  "ResPQ_TLID = 0x05162463"

definition ResPQ_Encode :: "ResPQ \<Rightarrow> encoder \<Rightarrow> encoder" where
  "ResPQ_Encode v e =
     (let e = Encoder_PutUint 0x05162463 e;
          e = Encoder_PutInt128 (ResPQ_Nonce v) e;
          e = Encoder_PutInt128 (ResPQ_ServerNonce v) e;
          e = Encoder_PutString (ResPQ_Pq v) e;
          e = put_vector Encoder_PutLong (ResPQ_ServerPublicKeyFingerprints v) e
      in e)"

definition ResPQ_Decode :: "ResPQ dec" where
  "ResPQ_Decode = dec_bind (dec_crc 0x05162463) (\<lambda>_.
     dec_bind Decoder_Int128 (\<lambda>Nonce.
     dec_bind Decoder_Int128 (\<lambda>ServerNonce.
     dec_bind Decoder_String (\<lambda>Pq.
     dec_bind (dec_vector Decoder_Long) (\<lambda>ServerPublicKeyFingerprints.
     dec_return \<lparr>ResPQ_Nonce = Nonce,
       ResPQ_ServerNonce = ServerNonce,
       ResPQ_Pq = Pq,
       ResPQ_ServerPublicKeyFingerprints = ServerPublicKeyFingerprints\<rparr>)))))"

definition ResPQ_wire :: "ResPQ \<Rightarrow> bytes" where
  "ResPQ_wire v = concat [le_put 4 (0x05162463 :: uint32),
     ResPQ_Nonce v,
     ResPQ_ServerNonce v,
     tl_bytes (string_bytes (ResPQ_Pq v)),
     tl_vector (le_put 8) (ResPQ_ServerPublicKeyFingerprints v)]"

definition ResPQ_ok :: "ResPQ \<Rightarrow> bool" where
  "ResPQ_ok v \<longleftrightarrow> length (ResPQ_Nonce v) = 16 \<and>
     length (ResPQ_ServerNonce v) = 16 \<and>
     length (ResPQ_Pq v) < 2 ^ 24 \<and>
     length (ResPQ_ServerPublicKeyFingerprints v) < 2 ^ 31"

subsection \<open>\<^verbatim>\<open>PQInnerDataDc\<close>: \<^verbatim>\<open>p_q_inner_data_dc#a9f55f95\<close>\<close>

record PQInnerDataDc =
  PQInnerDataDc_Pq :: string
  PQInnerDataDc_P :: string
  PQInnerDataDc_Q :: string
  PQInnerDataDc_Nonce :: bytes
  PQInnerDataDc_ServerNonce :: bytes
  PQInnerDataDc_NewNonce :: bytes
  PQInnerDataDc_Dc :: int32

definition PQInnerDataDc_TLID :: uint32 where
  "PQInnerDataDc_TLID = 0xa9f55f95"

definition PQInnerDataDc_Encode :: "PQInnerDataDc \<Rightarrow> encoder \<Rightarrow> encoder" where
  "PQInnerDataDc_Encode v e =
     (let e = Encoder_PutUint 0xa9f55f95 e;
          e = Encoder_PutString (PQInnerDataDc_Pq v) e;
          e = Encoder_PutString (PQInnerDataDc_P v) e;
          e = Encoder_PutString (PQInnerDataDc_Q v) e;
          e = Encoder_PutInt128 (PQInnerDataDc_Nonce v) e;
          e = Encoder_PutInt128 (PQInnerDataDc_ServerNonce v) e;
          e = Encoder_PutInt256 (PQInnerDataDc_NewNonce v) e;
          e = Encoder_PutInt (PQInnerDataDc_Dc v) e
      in e)"

definition PQInnerDataDc_Decode :: "PQInnerDataDc dec" where
  "PQInnerDataDc_Decode = dec_bind (dec_crc 0xa9f55f95) (\<lambda>_.
     dec_bind Decoder_String (\<lambda>Pq.
     dec_bind Decoder_String (\<lambda>P.
     dec_bind Decoder_String (\<lambda>Q.
     dec_bind Decoder_Int128 (\<lambda>Nonce.
     dec_bind Decoder_Int128 (\<lambda>ServerNonce.
     dec_bind Decoder_Int256 (\<lambda>NewNonce.
     dec_bind Decoder_Int (\<lambda>Dc.
     dec_return \<lparr>PQInnerDataDc_Pq = Pq,
       PQInnerDataDc_P = P,
       PQInnerDataDc_Q = Q,
       PQInnerDataDc_Nonce = Nonce,
       PQInnerDataDc_ServerNonce = ServerNonce,
       PQInnerDataDc_NewNonce = NewNonce,
       PQInnerDataDc_Dc = Dc\<rparr>))))))))"

definition PQInnerDataDc_wire :: "PQInnerDataDc \<Rightarrow> bytes" where
  "PQInnerDataDc_wire v = concat [le_put 4 (0xa9f55f95 :: uint32),
     tl_bytes (string_bytes (PQInnerDataDc_Pq v)),
     tl_bytes (string_bytes (PQInnerDataDc_P v)),
     tl_bytes (string_bytes (PQInnerDataDc_Q v)),
     PQInnerDataDc_Nonce v,
     PQInnerDataDc_ServerNonce v,
     PQInnerDataDc_NewNonce v,
     le_put 4 (PQInnerDataDc_Dc v)]"

definition PQInnerDataDc_ok :: "PQInnerDataDc \<Rightarrow> bool" where
  "PQInnerDataDc_ok v \<longleftrightarrow> length (PQInnerDataDc_Pq v) < 2 ^ 24 \<and>
     length (PQInnerDataDc_P v) < 2 ^ 24 \<and>
     length (PQInnerDataDc_Q v) < 2 ^ 24 \<and>
     length (PQInnerDataDc_Nonce v) = 16 \<and>
     length (PQInnerDataDc_ServerNonce v) = 16 \<and>
     length (PQInnerDataDc_NewNonce v) = 32"

subsection \<open>\<^verbatim>\<open>ServerDHParamsOk\<close>: \<^verbatim>\<open>server_DH_params_ok#d0e8075c\<close>\<close>

record ServerDHParamsOk =
  ServerDHParamsOk_Nonce :: bytes
  ServerDHParamsOk_ServerNonce :: bytes
  ServerDHParamsOk_EncryptedAnswer :: string

definition ServerDHParamsOk_TLID :: uint32 where
  "ServerDHParamsOk_TLID = 0xd0e8075c"

definition ServerDHParamsOk_Encode :: "ServerDHParamsOk \<Rightarrow> encoder \<Rightarrow> encoder" where
  "ServerDHParamsOk_Encode v e =
     (let e = Encoder_PutUint 0xd0e8075c e;
          e = Encoder_PutInt128 (ServerDHParamsOk_Nonce v) e;
          e = Encoder_PutInt128 (ServerDHParamsOk_ServerNonce v) e;
          e = Encoder_PutString (ServerDHParamsOk_EncryptedAnswer v) e
      in e)"

definition ServerDHParamsOk_Decode :: "ServerDHParamsOk dec" where
  "ServerDHParamsOk_Decode = dec_bind (dec_crc 0xd0e8075c) (\<lambda>_.
     dec_bind Decoder_Int128 (\<lambda>Nonce.
     dec_bind Decoder_Int128 (\<lambda>ServerNonce.
     dec_bind Decoder_String (\<lambda>EncryptedAnswer.
     dec_return \<lparr>ServerDHParamsOk_Nonce = Nonce,
       ServerDHParamsOk_ServerNonce = ServerNonce,
       ServerDHParamsOk_EncryptedAnswer = EncryptedAnswer\<rparr>))))"

definition ServerDHParamsOk_wire :: "ServerDHParamsOk \<Rightarrow> bytes" where
  "ServerDHParamsOk_wire v = concat [le_put 4 (0xd0e8075c :: uint32),
     ServerDHParamsOk_Nonce v,
     ServerDHParamsOk_ServerNonce v,
     tl_bytes (string_bytes (ServerDHParamsOk_EncryptedAnswer v))]"

definition ServerDHParamsOk_ok :: "ServerDHParamsOk \<Rightarrow> bool" where
  "ServerDHParamsOk_ok v \<longleftrightarrow> length (ServerDHParamsOk_Nonce v) = 16 \<and>
     length (ServerDHParamsOk_ServerNonce v) = 16 \<and>
     length (ServerDHParamsOk_EncryptedAnswer v) < 2 ^ 24"

subsection \<open>\<^verbatim>\<open>ServerDHParamsFail\<close>: \<^verbatim>\<open>server_DH_params_fail#79cb045d\<close>\<close>

record ServerDHParamsFail =
  ServerDHParamsFail_Nonce :: bytes
  ServerDHParamsFail_ServerNonce :: bytes
  ServerDHParamsFail_NewNonceHash :: bytes

definition ServerDHParamsFail_TLID :: uint32 where
  "ServerDHParamsFail_TLID = 0x79cb045d"

definition ServerDHParamsFail_Encode :: "ServerDHParamsFail \<Rightarrow> encoder \<Rightarrow> encoder" where
  "ServerDHParamsFail_Encode v e =
     (let e = Encoder_PutUint 0x79cb045d e;
          e = Encoder_PutInt128 (ServerDHParamsFail_Nonce v) e;
          e = Encoder_PutInt128 (ServerDHParamsFail_ServerNonce v) e;
          e = Encoder_PutInt128 (ServerDHParamsFail_NewNonceHash v) e
      in e)"

definition ServerDHParamsFail_Decode :: "ServerDHParamsFail dec" where
  "ServerDHParamsFail_Decode = dec_bind (dec_crc 0x79cb045d) (\<lambda>_.
     dec_bind Decoder_Int128 (\<lambda>Nonce.
     dec_bind Decoder_Int128 (\<lambda>ServerNonce.
     dec_bind Decoder_Int128 (\<lambda>NewNonceHash.
     dec_return \<lparr>ServerDHParamsFail_Nonce = Nonce,
       ServerDHParamsFail_ServerNonce = ServerNonce,
       ServerDHParamsFail_NewNonceHash = NewNonceHash\<rparr>))))"

definition ServerDHParamsFail_wire :: "ServerDHParamsFail \<Rightarrow> bytes" where
  "ServerDHParamsFail_wire v = concat [le_put 4 (0x79cb045d :: uint32),
     ServerDHParamsFail_Nonce v,
     ServerDHParamsFail_ServerNonce v,
     ServerDHParamsFail_NewNonceHash v]"

definition ServerDHParamsFail_ok :: "ServerDHParamsFail \<Rightarrow> bool" where
  "ServerDHParamsFail_ok v \<longleftrightarrow> length (ServerDHParamsFail_Nonce v) = 16 \<and>
     length (ServerDHParamsFail_ServerNonce v) = 16 \<and>
     length (ServerDHParamsFail_NewNonceHash v) = 16"

subsection \<open>\<^verbatim>\<open>ServerDHInnerData\<close>: \<^verbatim>\<open>server_DH_inner_data#b5890dba\<close>\<close>

record ServerDHInnerData =
  ServerDHInnerData_Nonce :: bytes
  ServerDHInnerData_ServerNonce :: bytes
  ServerDHInnerData_G :: int32
  ServerDHInnerData_DhPrime :: string
  ServerDHInnerData_GA :: string
  ServerDHInnerData_ServerTime :: int32

definition ServerDHInnerData_TLID :: uint32 where
  "ServerDHInnerData_TLID = 0xb5890dba"

definition ServerDHInnerData_Encode :: "ServerDHInnerData \<Rightarrow> encoder \<Rightarrow> encoder" where
  "ServerDHInnerData_Encode v e =
     (let e = Encoder_PutUint 0xb5890dba e;
          e = Encoder_PutInt128 (ServerDHInnerData_Nonce v) e;
          e = Encoder_PutInt128 (ServerDHInnerData_ServerNonce v) e;
          e = Encoder_PutInt (ServerDHInnerData_G v) e;
          e = Encoder_PutString (ServerDHInnerData_DhPrime v) e;
          e = Encoder_PutString (ServerDHInnerData_GA v) e;
          e = Encoder_PutInt (ServerDHInnerData_ServerTime v) e
      in e)"

definition ServerDHInnerData_Decode :: "ServerDHInnerData dec" where
  "ServerDHInnerData_Decode = dec_bind (dec_crc 0xb5890dba) (\<lambda>_.
     dec_bind Decoder_Int128 (\<lambda>Nonce.
     dec_bind Decoder_Int128 (\<lambda>ServerNonce.
     dec_bind Decoder_Int (\<lambda>G.
     dec_bind Decoder_String (\<lambda>DhPrime.
     dec_bind Decoder_String (\<lambda>GA.
     dec_bind Decoder_Int (\<lambda>ServerTime.
     dec_return \<lparr>ServerDHInnerData_Nonce = Nonce,
       ServerDHInnerData_ServerNonce = ServerNonce,
       ServerDHInnerData_G = G,
       ServerDHInnerData_DhPrime = DhPrime,
       ServerDHInnerData_GA = GA,
       ServerDHInnerData_ServerTime = ServerTime\<rparr>)))))))"

definition ServerDHInnerData_wire :: "ServerDHInnerData \<Rightarrow> bytes" where
  "ServerDHInnerData_wire v = concat [le_put 4 (0xb5890dba :: uint32),
     ServerDHInnerData_Nonce v,
     ServerDHInnerData_ServerNonce v,
     le_put 4 (ServerDHInnerData_G v),
     tl_bytes (string_bytes (ServerDHInnerData_DhPrime v)),
     tl_bytes (string_bytes (ServerDHInnerData_GA v)),
     le_put 4 (ServerDHInnerData_ServerTime v)]"

definition ServerDHInnerData_ok :: "ServerDHInnerData \<Rightarrow> bool" where
  "ServerDHInnerData_ok v \<longleftrightarrow> length (ServerDHInnerData_Nonce v) = 16 \<and>
     length (ServerDHInnerData_ServerNonce v) = 16 \<and>
     length (ServerDHInnerData_DhPrime v) < 2 ^ 24 \<and>
     length (ServerDHInnerData_GA v) < 2 ^ 24"

subsection \<open>\<^verbatim>\<open>ClientDHInnerData\<close>: \<^verbatim>\<open>client_DH_inner_data#6643b654\<close>\<close>

record ClientDHInnerData =
  ClientDHInnerData_Nonce :: bytes
  ClientDHInnerData_ServerNonce :: bytes
  ClientDHInnerData_RetryId :: int64
  ClientDHInnerData_GB :: string

definition ClientDHInnerData_TLID :: uint32 where
  "ClientDHInnerData_TLID = 0x6643b654"

definition ClientDHInnerData_Encode :: "ClientDHInnerData \<Rightarrow> encoder \<Rightarrow> encoder" where
  "ClientDHInnerData_Encode v e =
     (let e = Encoder_PutUint 0x6643b654 e;
          e = Encoder_PutInt128 (ClientDHInnerData_Nonce v) e;
          e = Encoder_PutInt128 (ClientDHInnerData_ServerNonce v) e;
          e = Encoder_PutLong (ClientDHInnerData_RetryId v) e;
          e = Encoder_PutString (ClientDHInnerData_GB v) e
      in e)"

definition ClientDHInnerData_Decode :: "ClientDHInnerData dec" where
  "ClientDHInnerData_Decode = dec_bind (dec_crc 0x6643b654) (\<lambda>_.
     dec_bind Decoder_Int128 (\<lambda>Nonce.
     dec_bind Decoder_Int128 (\<lambda>ServerNonce.
     dec_bind Decoder_Long (\<lambda>RetryId.
     dec_bind Decoder_String (\<lambda>GB.
     dec_return \<lparr>ClientDHInnerData_Nonce = Nonce,
       ClientDHInnerData_ServerNonce = ServerNonce,
       ClientDHInnerData_RetryId = RetryId,
       ClientDHInnerData_GB = GB\<rparr>)))))"

definition ClientDHInnerData_wire :: "ClientDHInnerData \<Rightarrow> bytes" where
  "ClientDHInnerData_wire v = concat [le_put 4 (0x6643b654 :: uint32),
     ClientDHInnerData_Nonce v,
     ClientDHInnerData_ServerNonce v,
     le_put 8 (ClientDHInnerData_RetryId v),
     tl_bytes (string_bytes (ClientDHInnerData_GB v))]"

definition ClientDHInnerData_ok :: "ClientDHInnerData \<Rightarrow> bool" where
  "ClientDHInnerData_ok v \<longleftrightarrow> length (ClientDHInnerData_Nonce v) = 16 \<and>
     length (ClientDHInnerData_ServerNonce v) = 16 \<and>
     length (ClientDHInnerData_GB v) < 2 ^ 24"

subsection \<open>\<^verbatim>\<open>DhGenOk\<close>: \<^verbatim>\<open>dh_gen_ok#3bcbf734\<close>\<close>

record DhGenOk =
  DhGenOk_Nonce :: bytes
  DhGenOk_ServerNonce :: bytes
  DhGenOk_NewNonceHash1 :: bytes

definition DhGenOk_TLID :: uint32 where
  "DhGenOk_TLID = 0x3bcbf734"

definition DhGenOk_Encode :: "DhGenOk \<Rightarrow> encoder \<Rightarrow> encoder" where
  "DhGenOk_Encode v e =
     (let e = Encoder_PutUint 0x3bcbf734 e;
          e = Encoder_PutInt128 (DhGenOk_Nonce v) e;
          e = Encoder_PutInt128 (DhGenOk_ServerNonce v) e;
          e = Encoder_PutInt128 (DhGenOk_NewNonceHash1 v) e
      in e)"

definition DhGenOk_Decode :: "DhGenOk dec" where
  "DhGenOk_Decode = dec_bind (dec_crc 0x3bcbf734) (\<lambda>_.
     dec_bind Decoder_Int128 (\<lambda>Nonce.
     dec_bind Decoder_Int128 (\<lambda>ServerNonce.
     dec_bind Decoder_Int128 (\<lambda>NewNonceHash1.
     dec_return \<lparr>DhGenOk_Nonce = Nonce,
       DhGenOk_ServerNonce = ServerNonce,
       DhGenOk_NewNonceHash1 = NewNonceHash1\<rparr>))))"

definition DhGenOk_wire :: "DhGenOk \<Rightarrow> bytes" where
  "DhGenOk_wire v = concat [le_put 4 (0x3bcbf734 :: uint32),
     DhGenOk_Nonce v,
     DhGenOk_ServerNonce v,
     DhGenOk_NewNonceHash1 v]"

definition DhGenOk_ok :: "DhGenOk \<Rightarrow> bool" where
  "DhGenOk_ok v \<longleftrightarrow> length (DhGenOk_Nonce v) = 16 \<and>
     length (DhGenOk_ServerNonce v) = 16 \<and>
     length (DhGenOk_NewNonceHash1 v) = 16"

subsection \<open>\<^verbatim>\<open>DhGenRetry\<close>: \<^verbatim>\<open>dh_gen_retry#462de825\<close>\<close>

record DhGenRetry =
  DhGenRetry_Nonce :: bytes
  DhGenRetry_ServerNonce :: bytes
  DhGenRetry_NewNonceHash2 :: bytes

definition DhGenRetry_TLID :: uint32 where
  "DhGenRetry_TLID = 0x462de825"

definition DhGenRetry_Encode :: "DhGenRetry \<Rightarrow> encoder \<Rightarrow> encoder" where
  "DhGenRetry_Encode v e =
     (let e = Encoder_PutUint 0x462de825 e;
          e = Encoder_PutInt128 (DhGenRetry_Nonce v) e;
          e = Encoder_PutInt128 (DhGenRetry_ServerNonce v) e;
          e = Encoder_PutInt128 (DhGenRetry_NewNonceHash2 v) e
      in e)"

definition DhGenRetry_Decode :: "DhGenRetry dec" where
  "DhGenRetry_Decode = dec_bind (dec_crc 0x462de825) (\<lambda>_.
     dec_bind Decoder_Int128 (\<lambda>Nonce.
     dec_bind Decoder_Int128 (\<lambda>ServerNonce.
     dec_bind Decoder_Int128 (\<lambda>NewNonceHash2.
     dec_return \<lparr>DhGenRetry_Nonce = Nonce,
       DhGenRetry_ServerNonce = ServerNonce,
       DhGenRetry_NewNonceHash2 = NewNonceHash2\<rparr>))))"

definition DhGenRetry_wire :: "DhGenRetry \<Rightarrow> bytes" where
  "DhGenRetry_wire v = concat [le_put 4 (0x462de825 :: uint32),
     DhGenRetry_Nonce v,
     DhGenRetry_ServerNonce v,
     DhGenRetry_NewNonceHash2 v]"

definition DhGenRetry_ok :: "DhGenRetry \<Rightarrow> bool" where
  "DhGenRetry_ok v \<longleftrightarrow> length (DhGenRetry_Nonce v) = 16 \<and>
     length (DhGenRetry_ServerNonce v) = 16 \<and>
     length (DhGenRetry_NewNonceHash2 v) = 16"

subsection \<open>\<^verbatim>\<open>DhGenFail\<close>: \<^verbatim>\<open>dh_gen_fail#a69dae02\<close>\<close>

record DhGenFail =
  DhGenFail_Nonce :: bytes
  DhGenFail_ServerNonce :: bytes
  DhGenFail_NewNonceHash3 :: bytes

definition DhGenFail_TLID :: uint32 where
  "DhGenFail_TLID = 0xa69dae02"

definition DhGenFail_Encode :: "DhGenFail \<Rightarrow> encoder \<Rightarrow> encoder" where
  "DhGenFail_Encode v e =
     (let e = Encoder_PutUint 0xa69dae02 e;
          e = Encoder_PutInt128 (DhGenFail_Nonce v) e;
          e = Encoder_PutInt128 (DhGenFail_ServerNonce v) e;
          e = Encoder_PutInt128 (DhGenFail_NewNonceHash3 v) e
      in e)"

definition DhGenFail_Decode :: "DhGenFail dec" where
  "DhGenFail_Decode = dec_bind (dec_crc 0xa69dae02) (\<lambda>_.
     dec_bind Decoder_Int128 (\<lambda>Nonce.
     dec_bind Decoder_Int128 (\<lambda>ServerNonce.
     dec_bind Decoder_Int128 (\<lambda>NewNonceHash3.
     dec_return \<lparr>DhGenFail_Nonce = Nonce,
       DhGenFail_ServerNonce = ServerNonce,
       DhGenFail_NewNonceHash3 = NewNonceHash3\<rparr>))))"

definition DhGenFail_wire :: "DhGenFail \<Rightarrow> bytes" where
  "DhGenFail_wire v = concat [le_put 4 (0xa69dae02 :: uint32),
     DhGenFail_Nonce v,
     DhGenFail_ServerNonce v,
     DhGenFail_NewNonceHash3 v]"

definition DhGenFail_ok :: "DhGenFail \<Rightarrow> bool" where
  "DhGenFail_ok v \<longleftrightarrow> length (DhGenFail_Nonce v) = 16 \<and>
     length (DhGenFail_ServerNonce v) = 16 \<and>
     length (DhGenFail_NewNonceHash3 v) = 16"

subsection \<open>\<^verbatim>\<open>ReqPqMulti\<close>: \<^verbatim>\<open>req_pq_multi#be7e8ef1\<close>\<close>

record ReqPqMulti =
  ReqPqMulti_Nonce :: bytes

definition ReqPqMulti_TLID :: uint32 where
  "ReqPqMulti_TLID = 0xbe7e8ef1"

definition ReqPqMulti_Encode :: "ReqPqMulti \<Rightarrow> encoder \<Rightarrow> encoder" where
  "ReqPqMulti_Encode v e =
     (let e = Encoder_PutUint 0xbe7e8ef1 e;
          e = Encoder_PutInt128 (ReqPqMulti_Nonce v) e
      in e)"

definition ReqPqMulti_Decode :: "ReqPqMulti dec" where
  "ReqPqMulti_Decode = dec_bind (dec_crc 0xbe7e8ef1) (\<lambda>_.
     dec_bind Decoder_Int128 (\<lambda>Nonce.
     dec_return \<lparr>ReqPqMulti_Nonce = Nonce\<rparr>))"

definition ReqPqMulti_wire :: "ReqPqMulti \<Rightarrow> bytes" where
  "ReqPqMulti_wire v = concat [le_put 4 (0xbe7e8ef1 :: uint32),
     ReqPqMulti_Nonce v]"

definition ReqPqMulti_ok :: "ReqPqMulti \<Rightarrow> bool" where
  "ReqPqMulti_ok v \<longleftrightarrow> length (ReqPqMulti_Nonce v) = 16"

subsection \<open>\<^verbatim>\<open>ReqDHParams\<close>: \<^verbatim>\<open>req_DH_params#d712e4be\<close>\<close>

record ReqDHParams =
  ReqDHParams_Nonce :: bytes
  ReqDHParams_ServerNonce :: bytes
  ReqDHParams_P :: string
  ReqDHParams_Q :: string
  ReqDHParams_PublicKeyFingerprint :: int64
  ReqDHParams_EncryptedData :: string

definition ReqDHParams_TLID :: uint32 where
  "ReqDHParams_TLID = 0xd712e4be"

definition ReqDHParams_Encode :: "ReqDHParams \<Rightarrow> encoder \<Rightarrow> encoder" where
  "ReqDHParams_Encode v e =
     (let e = Encoder_PutUint 0xd712e4be e;
          e = Encoder_PutInt128 (ReqDHParams_Nonce v) e;
          e = Encoder_PutInt128 (ReqDHParams_ServerNonce v) e;
          e = Encoder_PutString (ReqDHParams_P v) e;
          e = Encoder_PutString (ReqDHParams_Q v) e;
          e = Encoder_PutLong (ReqDHParams_PublicKeyFingerprint v) e;
          e = Encoder_PutString (ReqDHParams_EncryptedData v) e
      in e)"

definition ReqDHParams_Decode :: "ReqDHParams dec" where
  "ReqDHParams_Decode = dec_bind (dec_crc 0xd712e4be) (\<lambda>_.
     dec_bind Decoder_Int128 (\<lambda>Nonce.
     dec_bind Decoder_Int128 (\<lambda>ServerNonce.
     dec_bind Decoder_String (\<lambda>P.
     dec_bind Decoder_String (\<lambda>Q.
     dec_bind Decoder_Long (\<lambda>PublicKeyFingerprint.
     dec_bind Decoder_String (\<lambda>EncryptedData.
     dec_return \<lparr>ReqDHParams_Nonce = Nonce,
       ReqDHParams_ServerNonce = ServerNonce,
       ReqDHParams_P = P,
       ReqDHParams_Q = Q,
       ReqDHParams_PublicKeyFingerprint = PublicKeyFingerprint,
       ReqDHParams_EncryptedData = EncryptedData\<rparr>)))))))"

definition ReqDHParams_wire :: "ReqDHParams \<Rightarrow> bytes" where
  "ReqDHParams_wire v = concat [le_put 4 (0xd712e4be :: uint32),
     ReqDHParams_Nonce v,
     ReqDHParams_ServerNonce v,
     tl_bytes (string_bytes (ReqDHParams_P v)),
     tl_bytes (string_bytes (ReqDHParams_Q v)),
     le_put 8 (ReqDHParams_PublicKeyFingerprint v),
     tl_bytes (string_bytes (ReqDHParams_EncryptedData v))]"

definition ReqDHParams_ok :: "ReqDHParams \<Rightarrow> bool" where
  "ReqDHParams_ok v \<longleftrightarrow> length (ReqDHParams_Nonce v) = 16 \<and>
     length (ReqDHParams_ServerNonce v) = 16 \<and>
     length (ReqDHParams_P v) < 2 ^ 24 \<and>
     length (ReqDHParams_Q v) < 2 ^ 24 \<and>
     length (ReqDHParams_EncryptedData v) < 2 ^ 24"

subsection \<open>\<^verbatim>\<open>SetClientDHParams\<close>: \<^verbatim>\<open>set_client_DH_params#f5045f1f\<close>\<close>

record SetClientDHParams =
  SetClientDHParams_Nonce :: bytes
  SetClientDHParams_ServerNonce :: bytes
  SetClientDHParams_EncryptedData :: string

definition SetClientDHParams_TLID :: uint32 where
  "SetClientDHParams_TLID = 0xf5045f1f"

definition SetClientDHParams_Encode :: "SetClientDHParams \<Rightarrow> encoder \<Rightarrow> encoder" where
  "SetClientDHParams_Encode v e =
     (let e = Encoder_PutUint 0xf5045f1f e;
          e = Encoder_PutInt128 (SetClientDHParams_Nonce v) e;
          e = Encoder_PutInt128 (SetClientDHParams_ServerNonce v) e;
          e = Encoder_PutString (SetClientDHParams_EncryptedData v) e
      in e)"

definition SetClientDHParams_Decode :: "SetClientDHParams dec" where
  "SetClientDHParams_Decode = dec_bind (dec_crc 0xf5045f1f) (\<lambda>_.
     dec_bind Decoder_Int128 (\<lambda>Nonce.
     dec_bind Decoder_Int128 (\<lambda>ServerNonce.
     dec_bind Decoder_String (\<lambda>EncryptedData.
     dec_return \<lparr>SetClientDHParams_Nonce = Nonce,
       SetClientDHParams_ServerNonce = ServerNonce,
       SetClientDHParams_EncryptedData = EncryptedData\<rparr>))))"

definition SetClientDHParams_wire :: "SetClientDHParams \<Rightarrow> bytes" where
  "SetClientDHParams_wire v = concat [le_put 4 (0xf5045f1f :: uint32),
     SetClientDHParams_Nonce v,
     SetClientDHParams_ServerNonce v,
     tl_bytes (string_bytes (SetClientDHParams_EncryptedData v))]"

definition SetClientDHParams_ok :: "SetClientDHParams \<Rightarrow> bool" where
  "SetClientDHParams_ok v \<longleftrightarrow> length (SetClientDHParams_Nonce v) = 16 \<and>
     length (SetClientDHParams_ServerNonce v) = 16 \<and>
     length (SetClientDHParams_EncryptedData v) < 2 ^ 24"

section \<open>Sum types\<close>

subsection \<open>\<^verbatim>\<open>ServerDHParams\<close>\<close>

datatype ServerDHParams =
    ServerDHParams_ServerDHParamsOk ServerDHParamsOk
  | ServerDHParams_ServerDHParamsFail ServerDHParamsFail

primrec ServerDHParams_Encode :: "ServerDHParams \<Rightarrow> encoder \<Rightarrow> encoder" where
  "ServerDHParams_Encode (ServerDHParams_ServerDHParamsOk v) e = ServerDHParamsOk_Encode v e"
| "ServerDHParams_Encode (ServerDHParams_ServerDHParamsFail v) e = ServerDHParamsFail_Encode v e"

definition DecodeServerDHParams :: "ServerDHParams dec" where
  "DecodeServerDHParams = dec_switch ''ServerDHParams''
     [(0xd0e8075c, dec_map ServerDHParams_ServerDHParamsOk ServerDHParamsOk_Decode),
      (0x79cb045d, dec_map ServerDHParams_ServerDHParamsFail ServerDHParamsFail_Decode)]"

primrec ServerDHParams_wire :: "ServerDHParams \<Rightarrow> bytes" where
  "ServerDHParams_wire (ServerDHParams_ServerDHParamsOk v) = ServerDHParamsOk_wire v"
| "ServerDHParams_wire (ServerDHParams_ServerDHParamsFail v) = ServerDHParamsFail_wire v"

primrec ServerDHParams_ok :: "ServerDHParams \<Rightarrow> bool" where
  "ServerDHParams_ok (ServerDHParams_ServerDHParamsOk v) \<longleftrightarrow> ServerDHParamsOk_ok v"
| "ServerDHParams_ok (ServerDHParams_ServerDHParamsFail v) \<longleftrightarrow> ServerDHParamsFail_ok v"

subsection \<open>\<^verbatim>\<open>SetClientDHParamsAnswer\<close>\<close>

datatype SetClientDHParamsAnswer =
    SetClientDHParamsAnswer_DhGenOk DhGenOk
  | SetClientDHParamsAnswer_DhGenRetry DhGenRetry
  | SetClientDHParamsAnswer_DhGenFail DhGenFail

primrec SetClientDHParamsAnswer_Encode :: "SetClientDHParamsAnswer \<Rightarrow> encoder \<Rightarrow> encoder" where
  "SetClientDHParamsAnswer_Encode (SetClientDHParamsAnswer_DhGenOk v) e = DhGenOk_Encode v e"
| "SetClientDHParamsAnswer_Encode (SetClientDHParamsAnswer_DhGenRetry v) e = DhGenRetry_Encode v e"
| "SetClientDHParamsAnswer_Encode (SetClientDHParamsAnswer_DhGenFail v) e = DhGenFail_Encode v e"

definition DecodeSetClientDHParamsAnswer :: "SetClientDHParamsAnswer dec" where
  "DecodeSetClientDHParamsAnswer = dec_switch ''SetClientDHParamsAnswer''
     [(0x3bcbf734, dec_map SetClientDHParamsAnswer_DhGenOk DhGenOk_Decode),
      (0x462de825, dec_map SetClientDHParamsAnswer_DhGenRetry DhGenRetry_Decode),
      (0xa69dae02, dec_map SetClientDHParamsAnswer_DhGenFail DhGenFail_Decode)]"

primrec SetClientDHParamsAnswer_wire :: "SetClientDHParamsAnswer \<Rightarrow> bytes" where
  "SetClientDHParamsAnswer_wire (SetClientDHParamsAnswer_DhGenOk v) = DhGenOk_wire v"
| "SetClientDHParamsAnswer_wire (SetClientDHParamsAnswer_DhGenRetry v) = DhGenRetry_wire v"
| "SetClientDHParamsAnswer_wire (SetClientDHParamsAnswer_DhGenFail v) = DhGenFail_wire v"

primrec SetClientDHParamsAnswer_ok :: "SetClientDHParamsAnswer \<Rightarrow> bool" where
  "SetClientDHParamsAnswer_ok (SetClientDHParamsAnswer_DhGenOk v) \<longleftrightarrow> DhGenOk_ok v"
| "SetClientDHParamsAnswer_ok (SetClientDHParamsAnswer_DhGenRetry v) \<longleftrightarrow> DhGenRetry_ok v"
| "SetClientDHParamsAnswer_ok (SetClientDHParamsAnswer_DhGenFail v) \<longleftrightarrow> DhGenFail_ok v"

section \<open>Every type is a codec\<close>

lemmas ResPQ_defs = ResPQ_Encode_def ResPQ_Decode_def ResPQ_wire_def ResPQ_ok_def

interpretation ResPQ: tl_codec ResPQ_Encode ResPQ_Decode ResPQ_wire ResPQ_ok
  by (unfold_locales; unfold ResPQ_defs concat.simps; (elim conjE)?;
      (rule codec_rules | simp add: codec_simps)+)

lemmas PQInnerDataDc_defs = PQInnerDataDc_Encode_def PQInnerDataDc_Decode_def PQInnerDataDc_wire_def PQInnerDataDc_ok_def

interpretation PQInnerDataDc: tl_codec PQInnerDataDc_Encode PQInnerDataDc_Decode PQInnerDataDc_wire PQInnerDataDc_ok
  by (unfold_locales; unfold PQInnerDataDc_defs concat.simps; (elim conjE)?;
      (rule codec_rules | simp add: codec_simps)+)

lemmas ServerDHParamsOk_defs = ServerDHParamsOk_Encode_def ServerDHParamsOk_Decode_def ServerDHParamsOk_wire_def ServerDHParamsOk_ok_def

interpretation ServerDHParamsOk: tl_codec ServerDHParamsOk_Encode ServerDHParamsOk_Decode ServerDHParamsOk_wire ServerDHParamsOk_ok
  by (unfold_locales; unfold ServerDHParamsOk_defs concat.simps; (elim conjE)?;
      (rule codec_rules | simp add: codec_simps)+)

lemmas ServerDHParamsFail_defs = ServerDHParamsFail_Encode_def ServerDHParamsFail_Decode_def ServerDHParamsFail_wire_def ServerDHParamsFail_ok_def

interpretation ServerDHParamsFail: tl_codec ServerDHParamsFail_Encode ServerDHParamsFail_Decode ServerDHParamsFail_wire ServerDHParamsFail_ok
  by (unfold_locales; unfold ServerDHParamsFail_defs concat.simps; (elim conjE)?;
      (rule codec_rules | simp add: codec_simps)+)

lemmas ServerDHInnerData_defs = ServerDHInnerData_Encode_def ServerDHInnerData_Decode_def ServerDHInnerData_wire_def ServerDHInnerData_ok_def

interpretation ServerDHInnerData: tl_codec ServerDHInnerData_Encode ServerDHInnerData_Decode ServerDHInnerData_wire ServerDHInnerData_ok
  by (unfold_locales; unfold ServerDHInnerData_defs concat.simps; (elim conjE)?;
      (rule codec_rules | simp add: codec_simps)+)

lemmas ClientDHInnerData_defs = ClientDHInnerData_Encode_def ClientDHInnerData_Decode_def ClientDHInnerData_wire_def ClientDHInnerData_ok_def

interpretation ClientDHInnerData: tl_codec ClientDHInnerData_Encode ClientDHInnerData_Decode ClientDHInnerData_wire ClientDHInnerData_ok
  by (unfold_locales; unfold ClientDHInnerData_defs concat.simps; (elim conjE)?;
      (rule codec_rules | simp add: codec_simps)+)

lemmas DhGenOk_defs = DhGenOk_Encode_def DhGenOk_Decode_def DhGenOk_wire_def DhGenOk_ok_def

interpretation DhGenOk: tl_codec DhGenOk_Encode DhGenOk_Decode DhGenOk_wire DhGenOk_ok
  by (unfold_locales; unfold DhGenOk_defs concat.simps; (elim conjE)?;
      (rule codec_rules | simp add: codec_simps)+)

lemmas DhGenRetry_defs = DhGenRetry_Encode_def DhGenRetry_Decode_def DhGenRetry_wire_def DhGenRetry_ok_def

interpretation DhGenRetry: tl_codec DhGenRetry_Encode DhGenRetry_Decode DhGenRetry_wire DhGenRetry_ok
  by (unfold_locales; unfold DhGenRetry_defs concat.simps; (elim conjE)?;
      (rule codec_rules | simp add: codec_simps)+)

lemmas DhGenFail_defs = DhGenFail_Encode_def DhGenFail_Decode_def DhGenFail_wire_def DhGenFail_ok_def

interpretation DhGenFail: tl_codec DhGenFail_Encode DhGenFail_Decode DhGenFail_wire DhGenFail_ok
  by (unfold_locales; unfold DhGenFail_defs concat.simps; (elim conjE)?;
      (rule codec_rules | simp add: codec_simps)+)

lemmas ReqPqMulti_defs = ReqPqMulti_Encode_def ReqPqMulti_Decode_def ReqPqMulti_wire_def ReqPqMulti_ok_def

interpretation ReqPqMulti: tl_codec ReqPqMulti_Encode ReqPqMulti_Decode ReqPqMulti_wire ReqPqMulti_ok
  by (unfold_locales; unfold ReqPqMulti_defs concat.simps; (elim conjE)?;
      (rule codec_rules | simp add: codec_simps)+)

lemmas ReqDHParams_defs = ReqDHParams_Encode_def ReqDHParams_Decode_def ReqDHParams_wire_def ReqDHParams_ok_def

interpretation ReqDHParams: tl_codec ReqDHParams_Encode ReqDHParams_Decode ReqDHParams_wire ReqDHParams_ok
  by (unfold_locales; unfold ReqDHParams_defs concat.simps; (elim conjE)?;
      (rule codec_rules | simp add: codec_simps)+)

lemmas SetClientDHParams_defs = SetClientDHParams_Encode_def SetClientDHParams_Decode_def SetClientDHParams_wire_def SetClientDHParams_ok_def

interpretation SetClientDHParams: tl_codec SetClientDHParams_Encode SetClientDHParams_Decode SetClientDHParams_wire SetClientDHParams_ok
  by (unfold_locales; unfold SetClientDHParams_defs concat.simps; (elim conjE)?;
      (rule codec_rules | simp add: codec_simps)+)

lemma ServerDHParamsOk_wire_head: "ServerDHParamsOk_wire v = le_put 4 (0xd0e8075c :: uint32) @ drop 4 (ServerDHParamsOk_wire v)"
  by (simp add: ServerDHParamsOk_wire_def)

lemma ServerDHParamsFail_wire_head: "ServerDHParamsFail_wire v = le_put 4 (0x79cb045d :: uint32) @ drop 4 (ServerDHParamsFail_wire v)"
  by (simp add: ServerDHParamsFail_wire_def)

lemmas ServerDHParams_alts =
  switch_altI [where C = ServerDHParams_ServerDHParamsOk,
    OF ServerDHParamsOk.tl_codec_axioms ServerDHParamsOk_wire_head]
  switch_altI [where C = ServerDHParams_ServerDHParamsFail,
    OF ServerDHParamsFail.tl_codec_axioms ServerDHParamsFail_wire_head]

interpretation ServerDHParams: tl_codec ServerDHParams_Encode DecodeServerDHParams ServerDHParams_wire ServerDHParams_ok
  unfolding DecodeServerDHParams_def
proof (rule switch_codecI)
  fix v
  show "switch_alt ''ServerDHParams''
     [(0xd0e8075c, dec_map ServerDHParams_ServerDHParamsOk ServerDHParamsOk_Decode),
      (0x79cb045d, dec_map ServerDHParams_ServerDHParamsFail ServerDHParamsFail_Decode)]
     ServerDHParams_Encode ServerDHParams_wire ServerDHParams_ok v"
    by (cases v) (auto intro!: ServerDHParams_alts)
qed (auto intro!: safe_map ServerDHParamsOk.get_safe ServerDHParamsFail.get_safe)

lemma DhGenOk_wire_head: "DhGenOk_wire v = le_put 4 (0x3bcbf734 :: uint32) @ drop 4 (DhGenOk_wire v)"
  by (simp add: DhGenOk_wire_def)

lemma DhGenRetry_wire_head: "DhGenRetry_wire v = le_put 4 (0x462de825 :: uint32) @ drop 4 (DhGenRetry_wire v)"
  by (simp add: DhGenRetry_wire_def)

lemma DhGenFail_wire_head: "DhGenFail_wire v = le_put 4 (0xa69dae02 :: uint32) @ drop 4 (DhGenFail_wire v)"
  by (simp add: DhGenFail_wire_def)

lemmas SetClientDHParamsAnswer_alts =
  switch_altI [where C = SetClientDHParamsAnswer_DhGenOk,
    OF DhGenOk.tl_codec_axioms DhGenOk_wire_head]
  switch_altI [where C = SetClientDHParamsAnswer_DhGenRetry,
    OF DhGenRetry.tl_codec_axioms DhGenRetry_wire_head]
  switch_altI [where C = SetClientDHParamsAnswer_DhGenFail,
    OF DhGenFail.tl_codec_axioms DhGenFail_wire_head]

interpretation SetClientDHParamsAnswer: tl_codec SetClientDHParamsAnswer_Encode DecodeSetClientDHParamsAnswer SetClientDHParamsAnswer_wire SetClientDHParamsAnswer_ok
  unfolding DecodeSetClientDHParamsAnswer_def
proof (rule switch_codecI)
  fix v
  show "switch_alt ''SetClientDHParamsAnswer''
     [(0x3bcbf734, dec_map SetClientDHParamsAnswer_DhGenOk DhGenOk_Decode),
      (0x462de825, dec_map SetClientDHParamsAnswer_DhGenRetry DhGenRetry_Decode),
      (0xa69dae02, dec_map SetClientDHParamsAnswer_DhGenFail DhGenFail_Decode)]
     SetClientDHParamsAnswer_Encode SetClientDHParamsAnswer_wire SetClientDHParamsAnswer_ok v"
    by (cases v) (auto intro!: SetClientDHParamsAnswer_alts)
qed (auto intro!: safe_map DhGenOk.get_safe DhGenRetry.get_safe DhGenFail.get_safe)

end
