(* ===== verification/Generated_Service.thy ===== *)
theory Generated_Service
  imports Generated_Base
begin

text \<open>
  \<^verbatim>\<open>tl/generated/core.go\<close>: the service messages, the peers and the storage file types.  A struct is a record with
  the prefix of its type on each field, \<^verbatim>\<open>Encode\<close> is a function on the encoder (the Go method
  never returns an error) and \<^verbatim>\<open>Decode\<close> a decoder of the record: the Go method fills a
  receiver that every caller allocates fresh and drops when an error is returned.  \<open>T_wire\<close> is the
  byte layout and \<open>T_ok\<close> the field sizes the wire format can carry.  Every type is an
  interpretation of the codec contract, which gives its round trip, its rejection of
  truncated input and its unique decodability.
\<close>

section \<open>Types and methods\<close>

subsection \<open>\<^verbatim>\<open>RpcError\<close>: \<^verbatim>\<open>rpc_error#2144ca19\<close>\<close>

record RpcError =
  RpcError_ErrorCode :: int32
  RpcError_ErrorMessage :: string

definition RpcError_TLID :: uint32 where
  "RpcError_TLID = 0x2144ca19"

definition RpcError_Encode :: "RpcError \<Rightarrow> encoder \<Rightarrow> encoder" where
  "RpcError_Encode v e =
     (let e = Encoder_PutUint 0x2144ca19 e;
          e = Encoder_PutInt (RpcError_ErrorCode v) e;
          e = Encoder_PutString (RpcError_ErrorMessage v) e
      in e)"

definition RpcError_Decode :: "RpcError dec" where
  "RpcError_Decode = dec_bind (dec_crc 0x2144ca19) (\<lambda>_.
     dec_bind Decoder_Int (\<lambda>ErrorCode.
     dec_bind Decoder_String (\<lambda>ErrorMessage.
     dec_return \<lparr>RpcError_ErrorCode = ErrorCode,
       RpcError_ErrorMessage = ErrorMessage\<rparr>)))"

definition RpcError_wire :: "RpcError \<Rightarrow> bytes" where
  "RpcError_wire v = concat [le_put 4 (0x2144ca19 :: uint32),
     le_put 4 (RpcError_ErrorCode v),
     tl_bytes (string_bytes (RpcError_ErrorMessage v))]"

definition RpcError_ok :: "RpcError \<Rightarrow> bool" where
  "RpcError_ok v \<longleftrightarrow> length (RpcError_ErrorMessage v) < 2 ^ 24"

subsection \<open>\<^verbatim>\<open>MsgsAck\<close>: \<^verbatim>\<open>msgs_ack#62d6b459\<close>\<close>

record MsgsAck =
  MsgsAck_MsgIds :: "int64 list"

definition MsgsAck_TLID :: uint32 where
  "MsgsAck_TLID = 0x62d6b459"

definition MsgsAck_Encode :: "MsgsAck \<Rightarrow> encoder \<Rightarrow> encoder" where
  "MsgsAck_Encode v e =
     (let e = Encoder_PutUint 0x62d6b459 e;
          e = put_vector Encoder_PutLong (MsgsAck_MsgIds v) e
      in e)"

definition MsgsAck_Decode :: "MsgsAck dec" where
  "MsgsAck_Decode = dec_bind (dec_crc 0x62d6b459) (\<lambda>_.
     dec_bind (dec_vector Decoder_Long) (\<lambda>MsgIds.
     dec_return \<lparr>MsgsAck_MsgIds = MsgIds\<rparr>))"

definition MsgsAck_wire :: "MsgsAck \<Rightarrow> bytes" where
  "MsgsAck_wire v = concat [le_put 4 (0x62d6b459 :: uint32),
     tl_vector (le_put 8) (MsgsAck_MsgIds v)]"

definition MsgsAck_ok :: "MsgsAck \<Rightarrow> bool" where
  "MsgsAck_ok v \<longleftrightarrow> length (MsgsAck_MsgIds v) < 2 ^ 31"

subsection \<open>\<^verbatim>\<open>BadMsgNotification\<close>: \<^verbatim>\<open>bad_msg_notification#a7eff811\<close>\<close>

record BadMsgNotification =
  BadMsgNotification_BadMsgId :: int64
  BadMsgNotification_BadMsgSeqno :: int32
  BadMsgNotification_ErrorCode :: int32

definition BadMsgNotification_TLID :: uint32 where
  "BadMsgNotification_TLID = 0xa7eff811"

definition BadMsgNotification_Encode :: "BadMsgNotification \<Rightarrow> encoder \<Rightarrow> encoder" where
  "BadMsgNotification_Encode v e =
     (let e = Encoder_PutUint 0xa7eff811 e;
          e = Encoder_PutLong (BadMsgNotification_BadMsgId v) e;
          e = Encoder_PutInt (BadMsgNotification_BadMsgSeqno v) e;
          e = Encoder_PutInt (BadMsgNotification_ErrorCode v) e
      in e)"

definition BadMsgNotification_Decode :: "BadMsgNotification dec" where
  "BadMsgNotification_Decode = dec_bind (dec_crc 0xa7eff811) (\<lambda>_.
     dec_bind Decoder_Long (\<lambda>BadMsgId.
     dec_bind Decoder_Int (\<lambda>BadMsgSeqno.
     dec_bind Decoder_Int (\<lambda>ErrorCode.
     dec_return \<lparr>BadMsgNotification_BadMsgId = BadMsgId,
       BadMsgNotification_BadMsgSeqno = BadMsgSeqno,
       BadMsgNotification_ErrorCode = ErrorCode\<rparr>))))"

definition BadMsgNotification_wire :: "BadMsgNotification \<Rightarrow> bytes" where
  "BadMsgNotification_wire v = concat [le_put 4 (0xa7eff811 :: uint32),
     le_put 8 (BadMsgNotification_BadMsgId v),
     le_put 4 (BadMsgNotification_BadMsgSeqno v),
     le_put 4 (BadMsgNotification_ErrorCode v)]"

definition BadMsgNotification_ok :: "BadMsgNotification \<Rightarrow> bool" where
  "BadMsgNotification_ok v \<longleftrightarrow> True"

subsection \<open>\<^verbatim>\<open>BadServerSalt\<close>: \<^verbatim>\<open>bad_server_salt#edab447b\<close>\<close>

record BadServerSalt =
  BadServerSalt_BadMsgId :: int64
  BadServerSalt_BadMsgSeqno :: int32
  BadServerSalt_ErrorCode :: int32
  BadServerSalt_NewServerSalt :: int64

definition BadServerSalt_TLID :: uint32 where
  "BadServerSalt_TLID = 0xedab447b"

definition BadServerSalt_Encode :: "BadServerSalt \<Rightarrow> encoder \<Rightarrow> encoder" where
  "BadServerSalt_Encode v e =
     (let e = Encoder_PutUint 0xedab447b e;
          e = Encoder_PutLong (BadServerSalt_BadMsgId v) e;
          e = Encoder_PutInt (BadServerSalt_BadMsgSeqno v) e;
          e = Encoder_PutInt (BadServerSalt_ErrorCode v) e;
          e = Encoder_PutLong (BadServerSalt_NewServerSalt v) e
      in e)"

definition BadServerSalt_Decode :: "BadServerSalt dec" where
  "BadServerSalt_Decode = dec_bind (dec_crc 0xedab447b) (\<lambda>_.
     dec_bind Decoder_Long (\<lambda>BadMsgId.
     dec_bind Decoder_Int (\<lambda>BadMsgSeqno.
     dec_bind Decoder_Int (\<lambda>ErrorCode.
     dec_bind Decoder_Long (\<lambda>NewServerSalt.
     dec_return \<lparr>BadServerSalt_BadMsgId = BadMsgId,
       BadServerSalt_BadMsgSeqno = BadMsgSeqno,
       BadServerSalt_ErrorCode = ErrorCode,
       BadServerSalt_NewServerSalt = NewServerSalt\<rparr>)))))"

definition BadServerSalt_wire :: "BadServerSalt \<Rightarrow> bytes" where
  "BadServerSalt_wire v = concat [le_put 4 (0xedab447b :: uint32),
     le_put 8 (BadServerSalt_BadMsgId v),
     le_put 4 (BadServerSalt_BadMsgSeqno v),
     le_put 4 (BadServerSalt_ErrorCode v),
     le_put 8 (BadServerSalt_NewServerSalt v)]"

definition BadServerSalt_ok :: "BadServerSalt \<Rightarrow> bool" where
  "BadServerSalt_ok v \<longleftrightarrow> True"

subsection \<open>\<^verbatim>\<open>NewSessionCreated\<close>: \<^verbatim>\<open>new_session_created#9ec20908\<close>\<close>

record NewSessionCreated =
  NewSessionCreated_FirstMsgId :: int64
  NewSessionCreated_UniqueId :: int64
  NewSessionCreated_ServerSalt :: int64

definition NewSessionCreated_TLID :: uint32 where
  "NewSessionCreated_TLID = 0x9ec20908"

definition NewSessionCreated_Encode :: "NewSessionCreated \<Rightarrow> encoder \<Rightarrow> encoder" where
  "NewSessionCreated_Encode v e =
     (let e = Encoder_PutUint 0x9ec20908 e;
          e = Encoder_PutLong (NewSessionCreated_FirstMsgId v) e;
          e = Encoder_PutLong (NewSessionCreated_UniqueId v) e;
          e = Encoder_PutLong (NewSessionCreated_ServerSalt v) e
      in e)"

definition NewSessionCreated_Decode :: "NewSessionCreated dec" where
  "NewSessionCreated_Decode = dec_bind (dec_crc 0x9ec20908) (\<lambda>_.
     dec_bind Decoder_Long (\<lambda>FirstMsgId.
     dec_bind Decoder_Long (\<lambda>UniqueId.
     dec_bind Decoder_Long (\<lambda>ServerSalt.
     dec_return \<lparr>NewSessionCreated_FirstMsgId = FirstMsgId,
       NewSessionCreated_UniqueId = UniqueId,
       NewSessionCreated_ServerSalt = ServerSalt\<rparr>))))"

definition NewSessionCreated_wire :: "NewSessionCreated \<Rightarrow> bytes" where
  "NewSessionCreated_wire v = concat [le_put 4 (0x9ec20908 :: uint32),
     le_put 8 (NewSessionCreated_FirstMsgId v),
     le_put 8 (NewSessionCreated_UniqueId v),
     le_put 8 (NewSessionCreated_ServerSalt v)]"

definition NewSessionCreated_ok :: "NewSessionCreated \<Rightarrow> bool" where
  "NewSessionCreated_ok v \<longleftrightarrow> True"

subsection \<open>\<^verbatim>\<open>Pong\<close>: \<^verbatim>\<open>pong#347773c5\<close>\<close>

record Pong =
  Pong_MsgId :: int64
  Pong_PingId :: int64

definition Pong_TLID :: uint32 where
  "Pong_TLID = 0x347773c5"

definition Pong_Encode :: "Pong \<Rightarrow> encoder \<Rightarrow> encoder" where
  "Pong_Encode v e =
     (let e = Encoder_PutUint 0x347773c5 e;
          e = Encoder_PutLong (Pong_MsgId v) e;
          e = Encoder_PutLong (Pong_PingId v) e
      in e)"

definition Pong_Decode :: "Pong dec" where
  "Pong_Decode = dec_bind (dec_crc 0x347773c5) (\<lambda>_.
     dec_bind Decoder_Long (\<lambda>MsgId.
     dec_bind Decoder_Long (\<lambda>PingId.
     dec_return \<lparr>Pong_MsgId = MsgId,
       Pong_PingId = PingId\<rparr>)))"

definition Pong_wire :: "Pong \<Rightarrow> bytes" where
  "Pong_wire v = concat [le_put 4 (0x347773c5 :: uint32),
     le_put 8 (Pong_MsgId v),
     le_put 8 (Pong_PingId v)]"

definition Pong_ok :: "Pong \<Rightarrow> bool" where
  "Pong_ok v \<longleftrightarrow> True"

subsection \<open>\<^verbatim>\<open>DestroySessionOk\<close>: \<^verbatim>\<open>destroy_session_ok#e22045fc\<close>\<close>

record DestroySessionOk =
  DestroySessionOk_SessionId :: int64

definition DestroySessionOk_TLID :: uint32 where
  "DestroySessionOk_TLID = 0xe22045fc"

definition DestroySessionOk_Encode :: "DestroySessionOk \<Rightarrow> encoder \<Rightarrow> encoder" where
  "DestroySessionOk_Encode v e =
     (let e = Encoder_PutUint 0xe22045fc e;
          e = Encoder_PutLong (DestroySessionOk_SessionId v) e
      in e)"

definition DestroySessionOk_Decode :: "DestroySessionOk dec" where
  "DestroySessionOk_Decode = dec_bind (dec_crc 0xe22045fc) (\<lambda>_.
     dec_bind Decoder_Long (\<lambda>SessionId.
     dec_return \<lparr>DestroySessionOk_SessionId = SessionId\<rparr>))"

definition DestroySessionOk_wire :: "DestroySessionOk \<Rightarrow> bytes" where
  "DestroySessionOk_wire v = concat [le_put 4 (0xe22045fc :: uint32),
     le_put 8 (DestroySessionOk_SessionId v)]"

definition DestroySessionOk_ok :: "DestroySessionOk \<Rightarrow> bool" where
  "DestroySessionOk_ok v \<longleftrightarrow> True"

subsection \<open>\<^verbatim>\<open>DestroySessionNone\<close>: \<^verbatim>\<open>destroy_session_none#62d350c9\<close>\<close>

record DestroySessionNone =
  DestroySessionNone_SessionId :: int64

definition DestroySessionNone_TLID :: uint32 where
  "DestroySessionNone_TLID = 0x62d350c9"

definition DestroySessionNone_Encode :: "DestroySessionNone \<Rightarrow> encoder \<Rightarrow> encoder" where
  "DestroySessionNone_Encode v e =
     (let e = Encoder_PutUint 0x62d350c9 e;
          e = Encoder_PutLong (DestroySessionNone_SessionId v) e
      in e)"

definition DestroySessionNone_Decode :: "DestroySessionNone dec" where
  "DestroySessionNone_Decode = dec_bind (dec_crc 0x62d350c9) (\<lambda>_.
     dec_bind Decoder_Long (\<lambda>SessionId.
     dec_return \<lparr>DestroySessionNone_SessionId = SessionId\<rparr>))"

definition DestroySessionNone_wire :: "DestroySessionNone \<Rightarrow> bytes" where
  "DestroySessionNone_wire v = concat [le_put 4 (0x62d350c9 :: uint32),
     le_put 8 (DestroySessionNone_SessionId v)]"

definition DestroySessionNone_ok :: "DestroySessionNone \<Rightarrow> bool" where
  "DestroySessionNone_ok v \<longleftrightarrow> True"

subsection \<open>\<^verbatim>\<open>Ping\<close>: \<^verbatim>\<open>ping#7abe77ec\<close>\<close>

record Ping =
  Ping_PingId :: int64

definition Ping_TLID :: uint32 where
  "Ping_TLID = 0x7abe77ec"

definition Ping_Encode :: "Ping \<Rightarrow> encoder \<Rightarrow> encoder" where
  "Ping_Encode v e =
     (let e = Encoder_PutUint 0x7abe77ec e;
          e = Encoder_PutLong (Ping_PingId v) e
      in e)"

definition Ping_Decode :: "Ping dec" where
  "Ping_Decode = dec_bind (dec_crc 0x7abe77ec) (\<lambda>_.
     dec_bind Decoder_Long (\<lambda>PingId.
     dec_return \<lparr>Ping_PingId = PingId\<rparr>))"

definition Ping_wire :: "Ping \<Rightarrow> bytes" where
  "Ping_wire v = concat [le_put 4 (0x7abe77ec :: uint32),
     le_put 8 (Ping_PingId v)]"

definition Ping_ok :: "Ping \<Rightarrow> bool" where
  "Ping_ok v \<longleftrightarrow> True"

subsection \<open>\<^verbatim>\<open>DestroySession\<close>: \<^verbatim>\<open>destroy_session#e7512126\<close>\<close>

record DestroySession =
  DestroySession_SessionId :: int64

definition DestroySession_TLID :: uint32 where
  "DestroySession_TLID = 0xe7512126"

definition DestroySession_Encode :: "DestroySession \<Rightarrow> encoder \<Rightarrow> encoder" where
  "DestroySession_Encode v e =
     (let e = Encoder_PutUint 0xe7512126 e;
          e = Encoder_PutLong (DestroySession_SessionId v) e
      in e)"

definition DestroySession_Decode :: "DestroySession dec" where
  "DestroySession_Decode = dec_bind (dec_crc 0xe7512126) (\<lambda>_.
     dec_bind Decoder_Long (\<lambda>SessionId.
     dec_return \<lparr>DestroySession_SessionId = SessionId\<rparr>))"

definition DestroySession_wire :: "DestroySession \<Rightarrow> bytes" where
  "DestroySession_wire v = concat [le_put 4 (0xe7512126 :: uint32),
     le_put 8 (DestroySession_SessionId v)]"

definition DestroySession_ok :: "DestroySession \<Rightarrow> bool" where
  "DestroySession_ok v \<longleftrightarrow> True"

subsection \<open>\<^verbatim>\<open>InputPeerEmpty\<close>: \<^verbatim>\<open>inputPeerEmpty#7f0783fa\<close>\<close>

datatype InputPeerEmpty = InputPeerEmpty

definition InputPeerEmpty_TLID :: uint32 where
  "InputPeerEmpty_TLID = 0x7f0783fa"

definition InputPeerEmpty_Encode :: "InputPeerEmpty \<Rightarrow> encoder \<Rightarrow> encoder" where
  "InputPeerEmpty_Encode v e =
     (let e = Encoder_PutUint 0x7f0783fa e
      in e)"

definition InputPeerEmpty_Decode :: "InputPeerEmpty dec" where
  "InputPeerEmpty_Decode = dec_bind (dec_crc 0x7f0783fa) (\<lambda>_.
     dec_return InputPeerEmpty)"

definition InputPeerEmpty_wire :: "InputPeerEmpty \<Rightarrow> bytes" where
  "InputPeerEmpty_wire v = concat [le_put 4 (0x7f0783fa :: uint32)]"

definition InputPeerEmpty_ok :: "InputPeerEmpty \<Rightarrow> bool" where
  "InputPeerEmpty_ok v \<longleftrightarrow> True"

subsection \<open>\<^verbatim>\<open>InputPeerSelf\<close>: \<^verbatim>\<open>inputPeerSelf#7da07ec9\<close>\<close>

datatype InputPeerSelf = InputPeerSelf

definition InputPeerSelf_TLID :: uint32 where
  "InputPeerSelf_TLID = 0x7da07ec9"

definition InputPeerSelf_Encode :: "InputPeerSelf \<Rightarrow> encoder \<Rightarrow> encoder" where
  "InputPeerSelf_Encode v e =
     (let e = Encoder_PutUint 0x7da07ec9 e
      in e)"

definition InputPeerSelf_Decode :: "InputPeerSelf dec" where
  "InputPeerSelf_Decode = dec_bind (dec_crc 0x7da07ec9) (\<lambda>_.
     dec_return InputPeerSelf)"

definition InputPeerSelf_wire :: "InputPeerSelf \<Rightarrow> bytes" where
  "InputPeerSelf_wire v = concat [le_put 4 (0x7da07ec9 :: uint32)]"

definition InputPeerSelf_ok :: "InputPeerSelf \<Rightarrow> bool" where
  "InputPeerSelf_ok v \<longleftrightarrow> True"

subsection \<open>\<^verbatim>\<open>InputPeerChat\<close>: \<^verbatim>\<open>inputPeerChat#35a95697\<close>\<close>

record InputPeerChat =
  InputPeerChat_ChatId :: int64

definition InputPeerChat_TLID :: uint32 where
  "InputPeerChat_TLID = 0x35a95697"

definition InputPeerChat_Encode :: "InputPeerChat \<Rightarrow> encoder \<Rightarrow> encoder" where
  "InputPeerChat_Encode v e =
     (let e = Encoder_PutUint 0x35a95697 e;
          e = Encoder_PutLong (InputPeerChat_ChatId v) e
      in e)"

definition InputPeerChat_Decode :: "InputPeerChat dec" where
  "InputPeerChat_Decode = dec_bind (dec_crc 0x35a95697) (\<lambda>_.
     dec_bind Decoder_Long (\<lambda>ChatId.
     dec_return \<lparr>InputPeerChat_ChatId = ChatId\<rparr>))"

definition InputPeerChat_wire :: "InputPeerChat \<Rightarrow> bytes" where
  "InputPeerChat_wire v = concat [le_put 4 (0x35a95697 :: uint32),
     le_put 8 (InputPeerChat_ChatId v)]"

definition InputPeerChat_ok :: "InputPeerChat \<Rightarrow> bool" where
  "InputPeerChat_ok v \<longleftrightarrow> True"

subsection \<open>\<^verbatim>\<open>InputPeerUser\<close>: \<^verbatim>\<open>inputPeerUser#dde8a529\<close>\<close>

record InputPeerUser =
  InputPeerUser_UserId :: int64
  InputPeerUser_AccessHash :: int64

definition InputPeerUser_TLID :: uint32 where
  "InputPeerUser_TLID = 0xdde8a529"

definition InputPeerUser_Encode :: "InputPeerUser \<Rightarrow> encoder \<Rightarrow> encoder" where
  "InputPeerUser_Encode v e =
     (let e = Encoder_PutUint 0xdde8a529 e;
          e = Encoder_PutLong (InputPeerUser_UserId v) e;
          e = Encoder_PutLong (InputPeerUser_AccessHash v) e
      in e)"

definition InputPeerUser_Decode :: "InputPeerUser dec" where
  "InputPeerUser_Decode = dec_bind (dec_crc 0xdde8a529) (\<lambda>_.
     dec_bind Decoder_Long (\<lambda>UserId.
     dec_bind Decoder_Long (\<lambda>AccessHash.
     dec_return \<lparr>InputPeerUser_UserId = UserId,
       InputPeerUser_AccessHash = AccessHash\<rparr>)))"

definition InputPeerUser_wire :: "InputPeerUser \<Rightarrow> bytes" where
  "InputPeerUser_wire v = concat [le_put 4 (0xdde8a529 :: uint32),
     le_put 8 (InputPeerUser_UserId v),
     le_put 8 (InputPeerUser_AccessHash v)]"

definition InputPeerUser_ok :: "InputPeerUser \<Rightarrow> bool" where
  "InputPeerUser_ok v \<longleftrightarrow> True"

subsection \<open>\<^verbatim>\<open>InputPeerChannel\<close>: \<^verbatim>\<open>inputPeerChannel#27bcb61f\<close>\<close>

record InputPeerChannel =
  InputPeerChannel_ChannelId :: int64
  InputPeerChannel_AccessHash :: int64

definition InputPeerChannel_TLID :: uint32 where
  "InputPeerChannel_TLID = 0x27bcb61f"

definition InputPeerChannel_Encode :: "InputPeerChannel \<Rightarrow> encoder \<Rightarrow> encoder" where
  "InputPeerChannel_Encode v e =
     (let e = Encoder_PutUint 0x27bcb61f e;
          e = Encoder_PutLong (InputPeerChannel_ChannelId v) e;
          e = Encoder_PutLong (InputPeerChannel_AccessHash v) e
      in e)"

definition InputPeerChannel_Decode :: "InputPeerChannel dec" where
  "InputPeerChannel_Decode = dec_bind (dec_crc 0x27bcb61f) (\<lambda>_.
     dec_bind Decoder_Long (\<lambda>ChannelId.
     dec_bind Decoder_Long (\<lambda>AccessHash.
     dec_return \<lparr>InputPeerChannel_ChannelId = ChannelId,
       InputPeerChannel_AccessHash = AccessHash\<rparr>)))"

definition InputPeerChannel_wire :: "InputPeerChannel \<Rightarrow> bytes" where
  "InputPeerChannel_wire v = concat [le_put 4 (0x27bcb61f :: uint32),
     le_put 8 (InputPeerChannel_ChannelId v),
     le_put 8 (InputPeerChannel_AccessHash v)]"

definition InputPeerChannel_ok :: "InputPeerChannel \<Rightarrow> bool" where
  "InputPeerChannel_ok v \<longleftrightarrow> True"

subsection \<open>\<^verbatim>\<open>StorageFileUnknown\<close>: \<^verbatim>\<open>storage_fileUnknown#aa963b05\<close>\<close>

datatype StorageFileUnknown = StorageFileUnknown

definition StorageFileUnknown_TLID :: uint32 where
  "StorageFileUnknown_TLID = 0xaa963b05"

definition StorageFileUnknown_Encode :: "StorageFileUnknown \<Rightarrow> encoder \<Rightarrow> encoder" where
  "StorageFileUnknown_Encode v e =
     (let e = Encoder_PutUint 0xaa963b05 e
      in e)"

definition StorageFileUnknown_Decode :: "StorageFileUnknown dec" where
  "StorageFileUnknown_Decode = dec_bind (dec_crc 0xaa963b05) (\<lambda>_.
     dec_return StorageFileUnknown)"

definition StorageFileUnknown_wire :: "StorageFileUnknown \<Rightarrow> bytes" where
  "StorageFileUnknown_wire v = concat [le_put 4 (0xaa963b05 :: uint32)]"

definition StorageFileUnknown_ok :: "StorageFileUnknown \<Rightarrow> bool" where
  "StorageFileUnknown_ok v \<longleftrightarrow> True"

subsection \<open>\<^verbatim>\<open>StorageFilePartial\<close>: \<^verbatim>\<open>storage_filePartial#40bc6f52\<close>\<close>

datatype StorageFilePartial = StorageFilePartial

definition StorageFilePartial_TLID :: uint32 where
  "StorageFilePartial_TLID = 0x40bc6f52"

definition StorageFilePartial_Encode :: "StorageFilePartial \<Rightarrow> encoder \<Rightarrow> encoder" where
  "StorageFilePartial_Encode v e =
     (let e = Encoder_PutUint 0x40bc6f52 e
      in e)"

definition StorageFilePartial_Decode :: "StorageFilePartial dec" where
  "StorageFilePartial_Decode = dec_bind (dec_crc 0x40bc6f52) (\<lambda>_.
     dec_return StorageFilePartial)"

definition StorageFilePartial_wire :: "StorageFilePartial \<Rightarrow> bytes" where
  "StorageFilePartial_wire v = concat [le_put 4 (0x40bc6f52 :: uint32)]"

definition StorageFilePartial_ok :: "StorageFilePartial \<Rightarrow> bool" where
  "StorageFilePartial_ok v \<longleftrightarrow> True"

subsection \<open>\<^verbatim>\<open>StorageFileJpeg\<close>: \<^verbatim>\<open>storage_fileJpeg#007efe0e\<close>\<close>

datatype StorageFileJpeg = StorageFileJpeg

definition StorageFileJpeg_TLID :: uint32 where
  "StorageFileJpeg_TLID = 0x007efe0e"

definition StorageFileJpeg_Encode :: "StorageFileJpeg \<Rightarrow> encoder \<Rightarrow> encoder" where
  "StorageFileJpeg_Encode v e =
     (let e = Encoder_PutUint 0x007efe0e e
      in e)"

definition StorageFileJpeg_Decode :: "StorageFileJpeg dec" where
  "StorageFileJpeg_Decode = dec_bind (dec_crc 0x007efe0e) (\<lambda>_.
     dec_return StorageFileJpeg)"

definition StorageFileJpeg_wire :: "StorageFileJpeg \<Rightarrow> bytes" where
  "StorageFileJpeg_wire v = concat [le_put 4 (0x007efe0e :: uint32)]"

definition StorageFileJpeg_ok :: "StorageFileJpeg \<Rightarrow> bool" where
  "StorageFileJpeg_ok v \<longleftrightarrow> True"

subsection \<open>\<^verbatim>\<open>StorageFilePng\<close>: \<^verbatim>\<open>storage_filePng#0a4f63c0\<close>\<close>

datatype StorageFilePng = StorageFilePng

definition StorageFilePng_TLID :: uint32 where
  "StorageFilePng_TLID = 0x0a4f63c0"

definition StorageFilePng_Encode :: "StorageFilePng \<Rightarrow> encoder \<Rightarrow> encoder" where
  "StorageFilePng_Encode v e =
     (let e = Encoder_PutUint 0x0a4f63c0 e
      in e)"

definition StorageFilePng_Decode :: "StorageFilePng dec" where
  "StorageFilePng_Decode = dec_bind (dec_crc 0x0a4f63c0) (\<lambda>_.
     dec_return StorageFilePng)"

definition StorageFilePng_wire :: "StorageFilePng \<Rightarrow> bytes" where
  "StorageFilePng_wire v = concat [le_put 4 (0x0a4f63c0 :: uint32)]"

definition StorageFilePng_ok :: "StorageFilePng \<Rightarrow> bool" where
  "StorageFilePng_ok v \<longleftrightarrow> True"

subsection \<open>\<^verbatim>\<open>StorageFileMp4\<close>: \<^verbatim>\<open>storage_fileMp4#b3cea0e4\<close>\<close>

datatype StorageFileMp4 = StorageFileMp4

definition StorageFileMp4_TLID :: uint32 where
  "StorageFileMp4_TLID = 0xb3cea0e4"

definition StorageFileMp4_Encode :: "StorageFileMp4 \<Rightarrow> encoder \<Rightarrow> encoder" where
  "StorageFileMp4_Encode v e =
     (let e = Encoder_PutUint 0xb3cea0e4 e
      in e)"

definition StorageFileMp4_Decode :: "StorageFileMp4 dec" where
  "StorageFileMp4_Decode = dec_bind (dec_crc 0xb3cea0e4) (\<lambda>_.
     dec_return StorageFileMp4)"

definition StorageFileMp4_wire :: "StorageFileMp4 \<Rightarrow> bytes" where
  "StorageFileMp4_wire v = concat [le_put 4 (0xb3cea0e4 :: uint32)]"

definition StorageFileMp4_ok :: "StorageFileMp4 \<Rightarrow> bool" where
  "StorageFileMp4_ok v \<longleftrightarrow> True"

section \<open>Sum types\<close>

subsection \<open>\<^verbatim>\<open>BadMsgNotificationClass\<close>\<close>

datatype BadMsgNotificationClass =
    BadMsgNotificationClass_BadMsgNotification BadMsgNotification
  | BadMsgNotificationClass_BadServerSalt BadServerSalt

primrec BadMsgNotificationClass_Encode :: "BadMsgNotificationClass \<Rightarrow> encoder \<Rightarrow> encoder" where
  "BadMsgNotificationClass_Encode (BadMsgNotificationClass_BadMsgNotification v) e = BadMsgNotification_Encode v e"
| "BadMsgNotificationClass_Encode (BadMsgNotificationClass_BadServerSalt v) e = BadServerSalt_Encode v e"

definition DecodeBadMsgNotificationClass :: "BadMsgNotificationClass dec" where
  "DecodeBadMsgNotificationClass = dec_switch ''BadMsgNotificationClass''
     [(0xa7eff811, dec_map BadMsgNotificationClass_BadMsgNotification BadMsgNotification_Decode),
      (0xedab447b, dec_map BadMsgNotificationClass_BadServerSalt BadServerSalt_Decode)]"

primrec BadMsgNotificationClass_wire :: "BadMsgNotificationClass \<Rightarrow> bytes" where
  "BadMsgNotificationClass_wire (BadMsgNotificationClass_BadMsgNotification v) = BadMsgNotification_wire v"
| "BadMsgNotificationClass_wire (BadMsgNotificationClass_BadServerSalt v) = BadServerSalt_wire v"

primrec BadMsgNotificationClass_ok :: "BadMsgNotificationClass \<Rightarrow> bool" where
  "BadMsgNotificationClass_ok (BadMsgNotificationClass_BadMsgNotification v) \<longleftrightarrow> BadMsgNotification_ok v"
| "BadMsgNotificationClass_ok (BadMsgNotificationClass_BadServerSalt v) \<longleftrightarrow> BadServerSalt_ok v"

subsection \<open>\<^verbatim>\<open>DestroySessionRes\<close>\<close>

datatype DestroySessionRes =
    DestroySessionRes_DestroySessionOk DestroySessionOk
  | DestroySessionRes_DestroySessionNone DestroySessionNone

primrec DestroySessionRes_Encode :: "DestroySessionRes \<Rightarrow> encoder \<Rightarrow> encoder" where
  "DestroySessionRes_Encode (DestroySessionRes_DestroySessionOk v) e = DestroySessionOk_Encode v e"
| "DestroySessionRes_Encode (DestroySessionRes_DestroySessionNone v) e = DestroySessionNone_Encode v e"

definition DecodeDestroySessionRes :: "DestroySessionRes dec" where
  "DecodeDestroySessionRes = dec_switch ''DestroySessionRes''
     [(0xe22045fc, dec_map DestroySessionRes_DestroySessionOk DestroySessionOk_Decode),
      (0x62d350c9, dec_map DestroySessionRes_DestroySessionNone DestroySessionNone_Decode)]"

primrec DestroySessionRes_wire :: "DestroySessionRes \<Rightarrow> bytes" where
  "DestroySessionRes_wire (DestroySessionRes_DestroySessionOk v) = DestroySessionOk_wire v"
| "DestroySessionRes_wire (DestroySessionRes_DestroySessionNone v) = DestroySessionNone_wire v"

primrec DestroySessionRes_ok :: "DestroySessionRes \<Rightarrow> bool" where
  "DestroySessionRes_ok (DestroySessionRes_DestroySessionOk v) \<longleftrightarrow> DestroySessionOk_ok v"
| "DestroySessionRes_ok (DestroySessionRes_DestroySessionNone v) \<longleftrightarrow> DestroySessionNone_ok v"

subsection \<open>\<^verbatim>\<open>InputPeer\<close>\<close>

datatype InputPeer =
    InputPeer_InputPeerEmpty InputPeerEmpty
  | InputPeer_InputPeerSelf InputPeerSelf
  | InputPeer_InputPeerChat InputPeerChat
  | InputPeer_InputPeerUser InputPeerUser
  | InputPeer_InputPeerChannel InputPeerChannel

primrec InputPeer_Encode :: "InputPeer \<Rightarrow> encoder \<Rightarrow> encoder" where
  "InputPeer_Encode (InputPeer_InputPeerEmpty v) e = InputPeerEmpty_Encode v e"
| "InputPeer_Encode (InputPeer_InputPeerSelf v) e = InputPeerSelf_Encode v e"
| "InputPeer_Encode (InputPeer_InputPeerChat v) e = InputPeerChat_Encode v e"
| "InputPeer_Encode (InputPeer_InputPeerUser v) e = InputPeerUser_Encode v e"
| "InputPeer_Encode (InputPeer_InputPeerChannel v) e = InputPeerChannel_Encode v e"

definition DecodeInputPeer :: "InputPeer dec" where
  "DecodeInputPeer = dec_switch ''InputPeer''
     [(0x7f0783fa, dec_map InputPeer_InputPeerEmpty InputPeerEmpty_Decode),
      (0x7da07ec9, dec_map InputPeer_InputPeerSelf InputPeerSelf_Decode),
      (0x35a95697, dec_map InputPeer_InputPeerChat InputPeerChat_Decode),
      (0xdde8a529, dec_map InputPeer_InputPeerUser InputPeerUser_Decode),
      (0x27bcb61f, dec_map InputPeer_InputPeerChannel InputPeerChannel_Decode)]"

primrec InputPeer_wire :: "InputPeer \<Rightarrow> bytes" where
  "InputPeer_wire (InputPeer_InputPeerEmpty v) = InputPeerEmpty_wire v"
| "InputPeer_wire (InputPeer_InputPeerSelf v) = InputPeerSelf_wire v"
| "InputPeer_wire (InputPeer_InputPeerChat v) = InputPeerChat_wire v"
| "InputPeer_wire (InputPeer_InputPeerUser v) = InputPeerUser_wire v"
| "InputPeer_wire (InputPeer_InputPeerChannel v) = InputPeerChannel_wire v"

primrec InputPeer_ok :: "InputPeer \<Rightarrow> bool" where
  "InputPeer_ok (InputPeer_InputPeerEmpty v) \<longleftrightarrow> InputPeerEmpty_ok v"
| "InputPeer_ok (InputPeer_InputPeerSelf v) \<longleftrightarrow> InputPeerSelf_ok v"
| "InputPeer_ok (InputPeer_InputPeerChat v) \<longleftrightarrow> InputPeerChat_ok v"
| "InputPeer_ok (InputPeer_InputPeerUser v) \<longleftrightarrow> InputPeerUser_ok v"
| "InputPeer_ok (InputPeer_InputPeerChannel v) \<longleftrightarrow> InputPeerChannel_ok v"

subsection \<open>\<^verbatim>\<open>StorageFileType\<close>\<close>

datatype StorageFileType =
    StorageFileType_StorageFileUnknown StorageFileUnknown
  | StorageFileType_StorageFilePartial StorageFilePartial
  | StorageFileType_StorageFileJpeg StorageFileJpeg
  | StorageFileType_StorageFilePng StorageFilePng
  | StorageFileType_StorageFileMp4 StorageFileMp4

primrec StorageFileType_Encode :: "StorageFileType \<Rightarrow> encoder \<Rightarrow> encoder" where
  "StorageFileType_Encode (StorageFileType_StorageFileUnknown v) e = StorageFileUnknown_Encode v e"
| "StorageFileType_Encode (StorageFileType_StorageFilePartial v) e = StorageFilePartial_Encode v e"
| "StorageFileType_Encode (StorageFileType_StorageFileJpeg v) e = StorageFileJpeg_Encode v e"
| "StorageFileType_Encode (StorageFileType_StorageFilePng v) e = StorageFilePng_Encode v e"
| "StorageFileType_Encode (StorageFileType_StorageFileMp4 v) e = StorageFileMp4_Encode v e"

definition DecodeStorageFileType :: "StorageFileType dec" where
  "DecodeStorageFileType = dec_switch ''StorageFileType''
     [(0xaa963b05, dec_map StorageFileType_StorageFileUnknown StorageFileUnknown_Decode),
      (0x40bc6f52, dec_map StorageFileType_StorageFilePartial StorageFilePartial_Decode),
      (0x007efe0e, dec_map StorageFileType_StorageFileJpeg StorageFileJpeg_Decode),
      (0x0a4f63c0, dec_map StorageFileType_StorageFilePng StorageFilePng_Decode),
      (0xb3cea0e4, dec_map StorageFileType_StorageFileMp4 StorageFileMp4_Decode)]"

primrec StorageFileType_wire :: "StorageFileType \<Rightarrow> bytes" where
  "StorageFileType_wire (StorageFileType_StorageFileUnknown v) = StorageFileUnknown_wire v"
| "StorageFileType_wire (StorageFileType_StorageFilePartial v) = StorageFilePartial_wire v"
| "StorageFileType_wire (StorageFileType_StorageFileJpeg v) = StorageFileJpeg_wire v"
| "StorageFileType_wire (StorageFileType_StorageFilePng v) = StorageFilePng_wire v"
| "StorageFileType_wire (StorageFileType_StorageFileMp4 v) = StorageFileMp4_wire v"

primrec StorageFileType_ok :: "StorageFileType \<Rightarrow> bool" where
  "StorageFileType_ok (StorageFileType_StorageFileUnknown v) \<longleftrightarrow> StorageFileUnknown_ok v"
| "StorageFileType_ok (StorageFileType_StorageFilePartial v) \<longleftrightarrow> StorageFilePartial_ok v"
| "StorageFileType_ok (StorageFileType_StorageFileJpeg v) \<longleftrightarrow> StorageFileJpeg_ok v"
| "StorageFileType_ok (StorageFileType_StorageFilePng v) \<longleftrightarrow> StorageFilePng_ok v"
| "StorageFileType_ok (StorageFileType_StorageFileMp4 v) \<longleftrightarrow> StorageFileMp4_ok v"

section \<open>Every type is a codec\<close>

lemmas RpcError_defs = RpcError_Encode_def RpcError_Decode_def RpcError_wire_def RpcError_ok_def

interpretation RpcError: tl_codec RpcError_Encode RpcError_Decode RpcError_wire RpcError_ok
  by (unfold_locales; unfold RpcError_defs concat.simps; (elim conjE)?;
      (rule codec_rules | simp add: codec_simps)+)

lemmas MsgsAck_defs = MsgsAck_Encode_def MsgsAck_Decode_def MsgsAck_wire_def MsgsAck_ok_def

interpretation MsgsAck: tl_codec MsgsAck_Encode MsgsAck_Decode MsgsAck_wire MsgsAck_ok
  by (unfold_locales; unfold MsgsAck_defs concat.simps; (elim conjE)?;
      (rule codec_rules | simp add: codec_simps)+)

lemmas BadMsgNotification_defs = BadMsgNotification_Encode_def BadMsgNotification_Decode_def BadMsgNotification_wire_def BadMsgNotification_ok_def

interpretation BadMsgNotification: tl_codec BadMsgNotification_Encode BadMsgNotification_Decode BadMsgNotification_wire BadMsgNotification_ok
  by (unfold_locales; unfold BadMsgNotification_defs concat.simps; (elim conjE)?;
      (rule codec_rules | simp add: codec_simps)+)

lemmas BadServerSalt_defs = BadServerSalt_Encode_def BadServerSalt_Decode_def BadServerSalt_wire_def BadServerSalt_ok_def

interpretation BadServerSalt: tl_codec BadServerSalt_Encode BadServerSalt_Decode BadServerSalt_wire BadServerSalt_ok
  by (unfold_locales; unfold BadServerSalt_defs concat.simps; (elim conjE)?;
      (rule codec_rules | simp add: codec_simps)+)

lemmas NewSessionCreated_defs = NewSessionCreated_Encode_def NewSessionCreated_Decode_def NewSessionCreated_wire_def NewSessionCreated_ok_def

interpretation NewSessionCreated: tl_codec NewSessionCreated_Encode NewSessionCreated_Decode NewSessionCreated_wire NewSessionCreated_ok
  by (unfold_locales; unfold NewSessionCreated_defs concat.simps; (elim conjE)?;
      (rule codec_rules | simp add: codec_simps)+)

lemmas Pong_defs = Pong_Encode_def Pong_Decode_def Pong_wire_def Pong_ok_def

interpretation Pong: tl_codec Pong_Encode Pong_Decode Pong_wire Pong_ok
  by (unfold_locales; unfold Pong_defs concat.simps; (elim conjE)?;
      (rule codec_rules | simp add: codec_simps)+)

lemmas DestroySessionOk_defs = DestroySessionOk_Encode_def DestroySessionOk_Decode_def DestroySessionOk_wire_def DestroySessionOk_ok_def

interpretation DestroySessionOk: tl_codec DestroySessionOk_Encode DestroySessionOk_Decode DestroySessionOk_wire DestroySessionOk_ok
  by (unfold_locales; unfold DestroySessionOk_defs concat.simps; (elim conjE)?;
      (rule codec_rules | simp add: codec_simps)+)

lemmas DestroySessionNone_defs = DestroySessionNone_Encode_def DestroySessionNone_Decode_def DestroySessionNone_wire_def DestroySessionNone_ok_def

interpretation DestroySessionNone: tl_codec DestroySessionNone_Encode DestroySessionNone_Decode DestroySessionNone_wire DestroySessionNone_ok
  by (unfold_locales; unfold DestroySessionNone_defs concat.simps; (elim conjE)?;
      (rule codec_rules | simp add: codec_simps)+)

lemmas Ping_defs = Ping_Encode_def Ping_Decode_def Ping_wire_def Ping_ok_def

interpretation Ping: tl_codec Ping_Encode Ping_Decode Ping_wire Ping_ok
  by (unfold_locales; unfold Ping_defs concat.simps; (elim conjE)?;
      (rule codec_rules | simp add: codec_simps)+)

lemmas DestroySession_defs = DestroySession_Encode_def DestroySession_Decode_def DestroySession_wire_def DestroySession_ok_def

interpretation DestroySession: tl_codec DestroySession_Encode DestroySession_Decode DestroySession_wire DestroySession_ok
  by (unfold_locales; unfold DestroySession_defs concat.simps; (elim conjE)?;
      (rule codec_rules | simp add: codec_simps)+)

lemma InputPeerEmpty_eq: "InputPeerEmpty = v"
  by (cases v) simp

lemmas InputPeerEmpty_defs = InputPeerEmpty_Encode_def InputPeerEmpty_Decode_def InputPeerEmpty_wire_def InputPeerEmpty_ok_def

interpretation InputPeerEmpty: tl_codec InputPeerEmpty_Encode InputPeerEmpty_Decode InputPeerEmpty_wire InputPeerEmpty_ok
  by (unfold_locales; unfold InputPeerEmpty_defs concat.simps; (elim conjE)?;
      (rule codec_rules InputPeerEmpty_eq | simp add: codec_simps)+)

lemma InputPeerSelf_eq: "InputPeerSelf = v"
  by (cases v) simp

lemmas InputPeerSelf_defs = InputPeerSelf_Encode_def InputPeerSelf_Decode_def InputPeerSelf_wire_def InputPeerSelf_ok_def

interpretation InputPeerSelf: tl_codec InputPeerSelf_Encode InputPeerSelf_Decode InputPeerSelf_wire InputPeerSelf_ok
  by (unfold_locales; unfold InputPeerSelf_defs concat.simps; (elim conjE)?;
      (rule codec_rules InputPeerSelf_eq | simp add: codec_simps)+)

lemmas InputPeerChat_defs = InputPeerChat_Encode_def InputPeerChat_Decode_def InputPeerChat_wire_def InputPeerChat_ok_def

interpretation InputPeerChat: tl_codec InputPeerChat_Encode InputPeerChat_Decode InputPeerChat_wire InputPeerChat_ok
  by (unfold_locales; unfold InputPeerChat_defs concat.simps; (elim conjE)?;
      (rule codec_rules | simp add: codec_simps)+)

lemmas InputPeerUser_defs = InputPeerUser_Encode_def InputPeerUser_Decode_def InputPeerUser_wire_def InputPeerUser_ok_def

interpretation InputPeerUser: tl_codec InputPeerUser_Encode InputPeerUser_Decode InputPeerUser_wire InputPeerUser_ok
  by (unfold_locales; unfold InputPeerUser_defs concat.simps; (elim conjE)?;
      (rule codec_rules | simp add: codec_simps)+)

lemmas InputPeerChannel_defs = InputPeerChannel_Encode_def InputPeerChannel_Decode_def InputPeerChannel_wire_def InputPeerChannel_ok_def

interpretation InputPeerChannel: tl_codec InputPeerChannel_Encode InputPeerChannel_Decode InputPeerChannel_wire InputPeerChannel_ok
  by (unfold_locales; unfold InputPeerChannel_defs concat.simps; (elim conjE)?;
      (rule codec_rules | simp add: codec_simps)+)

lemma StorageFileUnknown_eq: "StorageFileUnknown = v"
  by (cases v) simp

lemmas StorageFileUnknown_defs = StorageFileUnknown_Encode_def StorageFileUnknown_Decode_def StorageFileUnknown_wire_def StorageFileUnknown_ok_def

interpretation StorageFileUnknown: tl_codec StorageFileUnknown_Encode StorageFileUnknown_Decode StorageFileUnknown_wire StorageFileUnknown_ok
  by (unfold_locales; unfold StorageFileUnknown_defs concat.simps; (elim conjE)?;
      (rule codec_rules StorageFileUnknown_eq | simp add: codec_simps)+)

lemma StorageFilePartial_eq: "StorageFilePartial = v"
  by (cases v) simp

lemmas StorageFilePartial_defs = StorageFilePartial_Encode_def StorageFilePartial_Decode_def StorageFilePartial_wire_def StorageFilePartial_ok_def

interpretation StorageFilePartial: tl_codec StorageFilePartial_Encode StorageFilePartial_Decode StorageFilePartial_wire StorageFilePartial_ok
  by (unfold_locales; unfold StorageFilePartial_defs concat.simps; (elim conjE)?;
      (rule codec_rules StorageFilePartial_eq | simp add: codec_simps)+)

lemma StorageFileJpeg_eq: "StorageFileJpeg = v"
  by (cases v) simp

lemmas StorageFileJpeg_defs = StorageFileJpeg_Encode_def StorageFileJpeg_Decode_def StorageFileJpeg_wire_def StorageFileJpeg_ok_def

interpretation StorageFileJpeg: tl_codec StorageFileJpeg_Encode StorageFileJpeg_Decode StorageFileJpeg_wire StorageFileJpeg_ok
  by (unfold_locales; unfold StorageFileJpeg_defs concat.simps; (elim conjE)?;
      (rule codec_rules StorageFileJpeg_eq | simp add: codec_simps)+)

lemma StorageFilePng_eq: "StorageFilePng = v"
  by (cases v) simp

lemmas StorageFilePng_defs = StorageFilePng_Encode_def StorageFilePng_Decode_def StorageFilePng_wire_def StorageFilePng_ok_def

interpretation StorageFilePng: tl_codec StorageFilePng_Encode StorageFilePng_Decode StorageFilePng_wire StorageFilePng_ok
  by (unfold_locales; unfold StorageFilePng_defs concat.simps; (elim conjE)?;
      (rule codec_rules StorageFilePng_eq | simp add: codec_simps)+)

lemma StorageFileMp4_eq: "StorageFileMp4 = v"
  by (cases v) simp

lemmas StorageFileMp4_defs = StorageFileMp4_Encode_def StorageFileMp4_Decode_def StorageFileMp4_wire_def StorageFileMp4_ok_def

interpretation StorageFileMp4: tl_codec StorageFileMp4_Encode StorageFileMp4_Decode StorageFileMp4_wire StorageFileMp4_ok
  by (unfold_locales; unfold StorageFileMp4_defs concat.simps; (elim conjE)?;
      (rule codec_rules StorageFileMp4_eq | simp add: codec_simps)+)

lemma BadMsgNotification_wire_head: "BadMsgNotification_wire v = le_put 4 (0xa7eff811 :: uint32) @ drop 4 (BadMsgNotification_wire v)"
  by (simp add: BadMsgNotification_wire_def)

lemma BadServerSalt_wire_head: "BadServerSalt_wire v = le_put 4 (0xedab447b :: uint32) @ drop 4 (BadServerSalt_wire v)"
  by (simp add: BadServerSalt_wire_def)

lemmas BadMsgNotificationClass_alts =
  switch_altI [where C = BadMsgNotificationClass_BadMsgNotification,
    OF BadMsgNotification.tl_codec_axioms BadMsgNotification_wire_head]
  switch_altI [where C = BadMsgNotificationClass_BadServerSalt,
    OF BadServerSalt.tl_codec_axioms BadServerSalt_wire_head]

interpretation BadMsgNotificationClass: tl_codec BadMsgNotificationClass_Encode DecodeBadMsgNotificationClass BadMsgNotificationClass_wire BadMsgNotificationClass_ok
  unfolding DecodeBadMsgNotificationClass_def
proof (rule switch_codecI)
  fix v
  show "switch_alt ''BadMsgNotificationClass''
     [(0xa7eff811, dec_map BadMsgNotificationClass_BadMsgNotification BadMsgNotification_Decode),
      (0xedab447b, dec_map BadMsgNotificationClass_BadServerSalt BadServerSalt_Decode)]
     BadMsgNotificationClass_Encode BadMsgNotificationClass_wire BadMsgNotificationClass_ok v"
    by (cases v) (auto intro!: BadMsgNotificationClass_alts)
qed (auto intro!: safe_map BadMsgNotification.get_safe BadServerSalt.get_safe)

lemma DestroySessionOk_wire_head: "DestroySessionOk_wire v = le_put 4 (0xe22045fc :: uint32) @ drop 4 (DestroySessionOk_wire v)"
  by (simp add: DestroySessionOk_wire_def)

lemma DestroySessionNone_wire_head: "DestroySessionNone_wire v = le_put 4 (0x62d350c9 :: uint32) @ drop 4 (DestroySessionNone_wire v)"
  by (simp add: DestroySessionNone_wire_def)

lemmas DestroySessionRes_alts =
  switch_altI [where C = DestroySessionRes_DestroySessionOk,
    OF DestroySessionOk.tl_codec_axioms DestroySessionOk_wire_head]
  switch_altI [where C = DestroySessionRes_DestroySessionNone,
    OF DestroySessionNone.tl_codec_axioms DestroySessionNone_wire_head]

interpretation DestroySessionRes: tl_codec DestroySessionRes_Encode DecodeDestroySessionRes DestroySessionRes_wire DestroySessionRes_ok
  unfolding DecodeDestroySessionRes_def
proof (rule switch_codecI)
  fix v
  show "switch_alt ''DestroySessionRes''
     [(0xe22045fc, dec_map DestroySessionRes_DestroySessionOk DestroySessionOk_Decode),
      (0x62d350c9, dec_map DestroySessionRes_DestroySessionNone DestroySessionNone_Decode)]
     DestroySessionRes_Encode DestroySessionRes_wire DestroySessionRes_ok v"
    by (cases v) (auto intro!: DestroySessionRes_alts)
qed (auto intro!: safe_map DestroySessionOk.get_safe DestroySessionNone.get_safe)

lemma InputPeerEmpty_wire_head: "InputPeerEmpty_wire v = le_put 4 (0x7f0783fa :: uint32) @ drop 4 (InputPeerEmpty_wire v)"
  by (simp add: InputPeerEmpty_wire_def)

lemma InputPeerSelf_wire_head: "InputPeerSelf_wire v = le_put 4 (0x7da07ec9 :: uint32) @ drop 4 (InputPeerSelf_wire v)"
  by (simp add: InputPeerSelf_wire_def)

lemma InputPeerChat_wire_head: "InputPeerChat_wire v = le_put 4 (0x35a95697 :: uint32) @ drop 4 (InputPeerChat_wire v)"
  by (simp add: InputPeerChat_wire_def)

lemma InputPeerUser_wire_head: "InputPeerUser_wire v = le_put 4 (0xdde8a529 :: uint32) @ drop 4 (InputPeerUser_wire v)"
  by (simp add: InputPeerUser_wire_def)

lemma InputPeerChannel_wire_head: "InputPeerChannel_wire v = le_put 4 (0x27bcb61f :: uint32) @ drop 4 (InputPeerChannel_wire v)"
  by (simp add: InputPeerChannel_wire_def)

lemmas InputPeer_alts =
  switch_altI [where C = InputPeer_InputPeerEmpty,
    OF InputPeerEmpty.tl_codec_axioms InputPeerEmpty_wire_head]
  switch_altI [where C = InputPeer_InputPeerSelf,
    OF InputPeerSelf.tl_codec_axioms InputPeerSelf_wire_head]
  switch_altI [where C = InputPeer_InputPeerChat,
    OF InputPeerChat.tl_codec_axioms InputPeerChat_wire_head]
  switch_altI [where C = InputPeer_InputPeerUser,
    OF InputPeerUser.tl_codec_axioms InputPeerUser_wire_head]
  switch_altI [where C = InputPeer_InputPeerChannel,
    OF InputPeerChannel.tl_codec_axioms InputPeerChannel_wire_head]

interpretation InputPeer: tl_codec InputPeer_Encode DecodeInputPeer InputPeer_wire InputPeer_ok
  unfolding DecodeInputPeer_def
proof (rule switch_codecI)
  fix v
  show "switch_alt ''InputPeer''
     [(0x7f0783fa, dec_map InputPeer_InputPeerEmpty InputPeerEmpty_Decode),
      (0x7da07ec9, dec_map InputPeer_InputPeerSelf InputPeerSelf_Decode),
      (0x35a95697, dec_map InputPeer_InputPeerChat InputPeerChat_Decode),
      (0xdde8a529, dec_map InputPeer_InputPeerUser InputPeerUser_Decode),
      (0x27bcb61f, dec_map InputPeer_InputPeerChannel InputPeerChannel_Decode)]
     InputPeer_Encode InputPeer_wire InputPeer_ok v"
    by (cases v) (auto intro!: InputPeer_alts)
qed (auto intro!: safe_map InputPeerEmpty.get_safe InputPeerSelf.get_safe InputPeerChat.get_safe InputPeerUser.get_safe InputPeerChannel.get_safe)

lemma StorageFileUnknown_wire_head: "StorageFileUnknown_wire v = le_put 4 (0xaa963b05 :: uint32) @ drop 4 (StorageFileUnknown_wire v)"
  by (simp add: StorageFileUnknown_wire_def)

lemma StorageFilePartial_wire_head: "StorageFilePartial_wire v = le_put 4 (0x40bc6f52 :: uint32) @ drop 4 (StorageFilePartial_wire v)"
  by (simp add: StorageFilePartial_wire_def)

lemma StorageFileJpeg_wire_head: "StorageFileJpeg_wire v = le_put 4 (0x007efe0e :: uint32) @ drop 4 (StorageFileJpeg_wire v)"
  by (simp add: StorageFileJpeg_wire_def)

lemma StorageFilePng_wire_head: "StorageFilePng_wire v = le_put 4 (0x0a4f63c0 :: uint32) @ drop 4 (StorageFilePng_wire v)"
  by (simp add: StorageFilePng_wire_def)

lemma StorageFileMp4_wire_head: "StorageFileMp4_wire v = le_put 4 (0xb3cea0e4 :: uint32) @ drop 4 (StorageFileMp4_wire v)"
  by (simp add: StorageFileMp4_wire_def)

lemmas StorageFileType_alts =
  switch_altI [where C = StorageFileType_StorageFileUnknown,
    OF StorageFileUnknown.tl_codec_axioms StorageFileUnknown_wire_head]
  switch_altI [where C = StorageFileType_StorageFilePartial,
    OF StorageFilePartial.tl_codec_axioms StorageFilePartial_wire_head]
  switch_altI [where C = StorageFileType_StorageFileJpeg,
    OF StorageFileJpeg.tl_codec_axioms StorageFileJpeg_wire_head]
  switch_altI [where C = StorageFileType_StorageFilePng,
    OF StorageFilePng.tl_codec_axioms StorageFilePng_wire_head]
  switch_altI [where C = StorageFileType_StorageFileMp4,
    OF StorageFileMp4.tl_codec_axioms StorageFileMp4_wire_head]

interpretation StorageFileType: tl_codec StorageFileType_Encode DecodeStorageFileType StorageFileType_wire StorageFileType_ok
  unfolding DecodeStorageFileType_def
proof (rule switch_codecI)
  fix v
  show "switch_alt ''StorageFileType''
     [(0xaa963b05, dec_map StorageFileType_StorageFileUnknown StorageFileUnknown_Decode),
      (0x40bc6f52, dec_map StorageFileType_StorageFilePartial StorageFilePartial_Decode),
      (0x007efe0e, dec_map StorageFileType_StorageFileJpeg StorageFileJpeg_Decode),
      (0x0a4f63c0, dec_map StorageFileType_StorageFilePng StorageFilePng_Decode),
      (0xb3cea0e4, dec_map StorageFileType_StorageFileMp4 StorageFileMp4_Decode)]
     StorageFileType_Encode StorageFileType_wire StorageFileType_ok v"
    by (cases v) (auto intro!: StorageFileType_alts)
qed (auto intro!: safe_map StorageFileUnknown.get_safe StorageFilePartial.get_safe StorageFileJpeg.get_safe StorageFilePng.get_safe StorageFileMp4.get_safe)

end
