(* ===== verification/Generated_Files.thy ===== *)
theory Generated_Files
  imports Generated_Base
begin

text \<open>
  \<^verbatim>\<open>tl/generated/core.go\<close>: the types of file upload and download.  A struct is a record with
  the prefix of its type on each field, \<^verbatim>\<open>Encode\<close> is a function on the encoder (the Go method
  never returns an error) and \<^verbatim>\<open>Decode\<close> a decoder of the record: the Go method fills a
  receiver that every caller allocates fresh and drops when an error is returned.  \<open>T_wire\<close> is the
  byte layout and \<open>T_ok\<close> the field sizes the wire format can carry.  Every type is an
  interpretation of the codec contract, which gives its round trip, its rejection of
  truncated input and its unique decodability.
\<close>

section \<open>Types and methods\<close>

subsection \<open>\<^verbatim>\<open>InputFile\<close>: \<^verbatim>\<open>inputFile#f52ff27f\<close>\<close>

record InputFile =
  InputFile_Id :: int64
  InputFile_Parts :: int32
  InputFile_Name :: string
  InputFile_Md5Checksum :: string

definition InputFile_TLID :: uint32 where
  "InputFile_TLID = 0xf52ff27f"

definition InputFile_Encode :: "InputFile \<Rightarrow> encoder \<Rightarrow> encoder" where
  "InputFile_Encode v e =
     (let e = Encoder_PutUint 0xf52ff27f e;
          e = Encoder_PutLong (InputFile_Id v) e;
          e = Encoder_PutInt (InputFile_Parts v) e;
          e = Encoder_PutString (InputFile_Name v) e;
          e = Encoder_PutString (InputFile_Md5Checksum v) e
      in e)"

definition InputFile_Decode :: "InputFile dec" where
  "InputFile_Decode = dec_bind (dec_crc 0xf52ff27f) (\<lambda>_.
     dec_bind Decoder_Long (\<lambda>Id.
     dec_bind Decoder_Int (\<lambda>Parts.
     dec_bind Decoder_String (\<lambda>Name.
     dec_bind Decoder_String (\<lambda>Md5Checksum.
     dec_return \<lparr>InputFile_Id = Id,
       InputFile_Parts = Parts,
       InputFile_Name = Name,
       InputFile_Md5Checksum = Md5Checksum\<rparr>)))))"

definition InputFile_wire :: "InputFile \<Rightarrow> bytes" where
  "InputFile_wire v = concat [le_put 4 (0xf52ff27f :: uint32),
     le_put 8 (InputFile_Id v),
     le_put 4 (InputFile_Parts v),
     tl_bytes (string_bytes (InputFile_Name v)),
     tl_bytes (string_bytes (InputFile_Md5Checksum v))]"

definition InputFile_ok :: "InputFile \<Rightarrow> bool" where
  "InputFile_ok v \<longleftrightarrow> length (InputFile_Name v) < 2 ^ 24 \<and>
     length (InputFile_Md5Checksum v) < 2 ^ 24"

subsection \<open>\<^verbatim>\<open>InputFileBig\<close>: \<^verbatim>\<open>inputFileBig#fa4f0bb5\<close>\<close>

record InputFileBig =
  InputFileBig_Id :: int64
  InputFileBig_Parts :: int32
  InputFileBig_Name :: string

definition InputFileBig_TLID :: uint32 where
  "InputFileBig_TLID = 0xfa4f0bb5"

definition InputFileBig_Encode :: "InputFileBig \<Rightarrow> encoder \<Rightarrow> encoder" where
  "InputFileBig_Encode v e =
     (let e = Encoder_PutUint 0xfa4f0bb5 e;
          e = Encoder_PutLong (InputFileBig_Id v) e;
          e = Encoder_PutInt (InputFileBig_Parts v) e;
          e = Encoder_PutString (InputFileBig_Name v) e
      in e)"

definition InputFileBig_Decode :: "InputFileBig dec" where
  "InputFileBig_Decode = dec_bind (dec_crc 0xfa4f0bb5) (\<lambda>_.
     dec_bind Decoder_Long (\<lambda>Id.
     dec_bind Decoder_Int (\<lambda>Parts.
     dec_bind Decoder_String (\<lambda>Name.
     dec_return \<lparr>InputFileBig_Id = Id,
       InputFileBig_Parts = Parts,
       InputFileBig_Name = Name\<rparr>))))"

definition InputFileBig_wire :: "InputFileBig \<Rightarrow> bytes" where
  "InputFileBig_wire v = concat [le_put 4 (0xfa4f0bb5 :: uint32),
     le_put 8 (InputFileBig_Id v),
     le_put 4 (InputFileBig_Parts v),
     tl_bytes (string_bytes (InputFileBig_Name v))]"

definition InputFileBig_ok :: "InputFileBig \<Rightarrow> bool" where
  "InputFileBig_ok v \<longleftrightarrow> length (InputFileBig_Name v) < 2 ^ 24"

subsection \<open>\<^verbatim>\<open>InputFileLocation\<close>: \<^verbatim>\<open>inputFileLocation#dfdaabe1\<close>\<close>

record InputFileLocation =
  InputFileLocation_VolumeId :: int64
  InputFileLocation_LocalId :: int32
  InputFileLocation_Secret :: int64
  InputFileLocation_FileReference :: bytes

definition InputFileLocation_TLID :: uint32 where
  "InputFileLocation_TLID = 0xdfdaabe1"

definition InputFileLocation_Encode :: "InputFileLocation \<Rightarrow> encoder \<Rightarrow> encoder" where
  "InputFileLocation_Encode v e =
     (let e = Encoder_PutUint 0xdfdaabe1 e;
          e = Encoder_PutLong (InputFileLocation_VolumeId v) e;
          e = Encoder_PutInt (InputFileLocation_LocalId v) e;
          e = Encoder_PutLong (InputFileLocation_Secret v) e;
          e = Encoder_PutBytes (InputFileLocation_FileReference v) e
      in e)"

definition InputFileLocation_Decode :: "InputFileLocation dec" where
  "InputFileLocation_Decode = dec_bind (dec_crc 0xdfdaabe1) (\<lambda>_.
     dec_bind Decoder_Long (\<lambda>VolumeId.
     dec_bind Decoder_Int (\<lambda>LocalId.
     dec_bind Decoder_Long (\<lambda>Secret.
     dec_bind Decoder_Bytes (\<lambda>FileReference.
     dec_return \<lparr>InputFileLocation_VolumeId = VolumeId,
       InputFileLocation_LocalId = LocalId,
       InputFileLocation_Secret = Secret,
       InputFileLocation_FileReference = FileReference\<rparr>)))))"

definition InputFileLocation_wire :: "InputFileLocation \<Rightarrow> bytes" where
  "InputFileLocation_wire v = concat [le_put 4 (0xdfdaabe1 :: uint32),
     le_put 8 (InputFileLocation_VolumeId v),
     le_put 4 (InputFileLocation_LocalId v),
     le_put 8 (InputFileLocation_Secret v),
     tl_bytes (InputFileLocation_FileReference v)]"

definition InputFileLocation_ok :: "InputFileLocation \<Rightarrow> bool" where
  "InputFileLocation_ok v \<longleftrightarrow> length (InputFileLocation_FileReference v) < 2 ^ 24"

subsection \<open>\<^verbatim>\<open>InputDocumentFileLocation\<close>: \<^verbatim>\<open>inputDocumentFileLocation#bad07284\<close>\<close>

record InputDocumentFileLocation =
  InputDocumentFileLocation_Id :: int64
  InputDocumentFileLocation_AccessHash :: int64
  InputDocumentFileLocation_FileReference :: bytes
  InputDocumentFileLocation_ThumbSize :: string

definition InputDocumentFileLocation_TLID :: uint32 where
  "InputDocumentFileLocation_TLID = 0xbad07284"

definition InputDocumentFileLocation_Encode :: "InputDocumentFileLocation \<Rightarrow> encoder \<Rightarrow> encoder" where
  "InputDocumentFileLocation_Encode v e =
     (let e = Encoder_PutUint 0xbad07284 e;
          e = Encoder_PutLong (InputDocumentFileLocation_Id v) e;
          e = Encoder_PutLong (InputDocumentFileLocation_AccessHash v) e;
          e = Encoder_PutBytes (InputDocumentFileLocation_FileReference v) e;
          e = Encoder_PutString (InputDocumentFileLocation_ThumbSize v) e
      in e)"

definition InputDocumentFileLocation_Decode :: "InputDocumentFileLocation dec" where
  "InputDocumentFileLocation_Decode = dec_bind (dec_crc 0xbad07284) (\<lambda>_.
     dec_bind Decoder_Long (\<lambda>Id.
     dec_bind Decoder_Long (\<lambda>AccessHash.
     dec_bind Decoder_Bytes (\<lambda>FileReference.
     dec_bind Decoder_String (\<lambda>ThumbSize.
     dec_return \<lparr>InputDocumentFileLocation_Id = Id,
       InputDocumentFileLocation_AccessHash = AccessHash,
       InputDocumentFileLocation_FileReference = FileReference,
       InputDocumentFileLocation_ThumbSize = ThumbSize\<rparr>)))))"

definition InputDocumentFileLocation_wire :: "InputDocumentFileLocation \<Rightarrow> bytes" where
  "InputDocumentFileLocation_wire v = concat [le_put 4 (0xbad07284 :: uint32),
     le_put 8 (InputDocumentFileLocation_Id v),
     le_put 8 (InputDocumentFileLocation_AccessHash v),
     tl_bytes (InputDocumentFileLocation_FileReference v),
     tl_bytes (string_bytes (InputDocumentFileLocation_ThumbSize v))]"

definition InputDocumentFileLocation_ok :: "InputDocumentFileLocation \<Rightarrow> bool" where
  "InputDocumentFileLocation_ok v \<longleftrightarrow> length (InputDocumentFileLocation_FileReference v) < 2 ^ 24 \<and>
     length (InputDocumentFileLocation_ThumbSize v) < 2 ^ 24"

subsection \<open>\<^verbatim>\<open>FileHash\<close>: \<^verbatim>\<open>fileHash#6242c773\<close>\<close>

record FileHash =
  FileHash_Offset :: int64
  FileHash_Limit :: int32
  FileHash_Hash :: bytes

definition FileHash_TLID :: uint32 where
  "FileHash_TLID = 0x6242c773"

definition FileHash_Encode :: "FileHash \<Rightarrow> encoder \<Rightarrow> encoder" where
  "FileHash_Encode v e =
     (let e = Encoder_PutUint 0x6242c773 e;
          e = Encoder_PutLong (FileHash_Offset v) e;
          e = Encoder_PutInt (FileHash_Limit v) e;
          e = Encoder_PutBytes (FileHash_Hash v) e
      in e)"

definition FileHash_Decode :: "FileHash dec" where
  "FileHash_Decode = dec_bind (dec_crc 0x6242c773) (\<lambda>_.
     dec_bind Decoder_Long (\<lambda>Offset.
     dec_bind Decoder_Int (\<lambda>Limit.
     dec_bind Decoder_Bytes (\<lambda>Hash.
     dec_return \<lparr>FileHash_Offset = Offset,
       FileHash_Limit = Limit,
       FileHash_Hash = Hash\<rparr>))))"

definition FileHash_wire :: "FileHash \<Rightarrow> bytes" where
  "FileHash_wire v = concat [le_put 4 (0x6242c773 :: uint32),
     le_put 8 (FileHash_Offset v),
     le_put 4 (FileHash_Limit v),
     tl_bytes (FileHash_Hash v)]"

definition FileHash_ok :: "FileHash \<Rightarrow> bool" where
  "FileHash_ok v \<longleftrightarrow> length (FileHash_Hash v) < 2 ^ 24"

subsection \<open>\<^verbatim>\<open>UploadFile\<close>: \<^verbatim>\<open>upload_file#096a18d3\<close>\<close>

record UploadFile =
  UploadFile_Mtime :: int32
  UploadFile_Bytes :: bytes

definition UploadFile_TLID :: uint32 where
  "UploadFile_TLID = 0x096a18d3"

definition UploadFile_Encode :: "UploadFile \<Rightarrow> encoder \<Rightarrow> encoder" where
  "UploadFile_Encode v e =
     (let e = Encoder_PutUint 0x096a18d3 e;
          e = Encoder_PutInt (UploadFile_Mtime v) e;
          e = Encoder_PutBytes (UploadFile_Bytes v) e
      in e)"

definition UploadFile_Decode :: "UploadFile dec" where
  "UploadFile_Decode = dec_bind (dec_crc 0x096a18d3) (\<lambda>_.
     dec_bind Decoder_Int (\<lambda>Mtime.
     dec_bind Decoder_Bytes (\<lambda>Bytes.
     dec_return \<lparr>UploadFile_Mtime = Mtime,
       UploadFile_Bytes = Bytes\<rparr>)))"

definition UploadFile_wire :: "UploadFile \<Rightarrow> bytes" where
  "UploadFile_wire v = concat [le_put 4 (0x096a18d3 :: uint32),
     le_put 4 (UploadFile_Mtime v),
     tl_bytes (UploadFile_Bytes v)]"

definition UploadFile_ok :: "UploadFile \<Rightarrow> bool" where
  "UploadFile_ok v \<longleftrightarrow> length (UploadFile_Bytes v) < 2 ^ 24"

subsection \<open>\<^verbatim>\<open>UploadFileCdnRedirect\<close>: \<^verbatim>\<open>upload_fileCdnRedirect#f18cda44\<close>\<close>

record UploadFileCdnRedirect =
  UploadFileCdnRedirect_DcId :: int32
  UploadFileCdnRedirect_FileToken :: bytes
  UploadFileCdnRedirect_EncryptionKey :: bytes
  UploadFileCdnRedirect_EncryptionIv :: bytes
  UploadFileCdnRedirect_FileHashes :: "FileHash list"

definition UploadFileCdnRedirect_TLID :: uint32 where
  "UploadFileCdnRedirect_TLID = 0xf18cda44"

definition UploadFileCdnRedirect_Encode :: "UploadFileCdnRedirect \<Rightarrow> encoder \<Rightarrow> encoder" where
  "UploadFileCdnRedirect_Encode v e =
     (let e = Encoder_PutUint 0xf18cda44 e;
          e = Encoder_PutInt (UploadFileCdnRedirect_DcId v) e;
          e = Encoder_PutBytes (UploadFileCdnRedirect_FileToken v) e;
          e = Encoder_PutBytes (UploadFileCdnRedirect_EncryptionKey v) e;
          e = Encoder_PutBytes (UploadFileCdnRedirect_EncryptionIv v) e;
          e = put_vector FileHash_Encode (UploadFileCdnRedirect_FileHashes v) e
      in e)"

definition UploadFileCdnRedirect_Decode :: "UploadFileCdnRedirect dec" where
  "UploadFileCdnRedirect_Decode = dec_bind (dec_crc 0xf18cda44) (\<lambda>_.
     dec_bind Decoder_Int (\<lambda>DcId.
     dec_bind Decoder_Bytes (\<lambda>FileToken.
     dec_bind Decoder_Bytes (\<lambda>EncryptionKey.
     dec_bind Decoder_Bytes (\<lambda>EncryptionIv.
     dec_bind (dec_vector FileHash_Decode) (\<lambda>FileHashes.
     dec_return \<lparr>UploadFileCdnRedirect_DcId = DcId,
       UploadFileCdnRedirect_FileToken = FileToken,
       UploadFileCdnRedirect_EncryptionKey = EncryptionKey,
       UploadFileCdnRedirect_EncryptionIv = EncryptionIv,
       UploadFileCdnRedirect_FileHashes = FileHashes\<rparr>))))))"

definition UploadFileCdnRedirect_wire :: "UploadFileCdnRedirect \<Rightarrow> bytes" where
  "UploadFileCdnRedirect_wire v = concat [le_put 4 (0xf18cda44 :: uint32),
     le_put 4 (UploadFileCdnRedirect_DcId v),
     tl_bytes (UploadFileCdnRedirect_FileToken v),
     tl_bytes (UploadFileCdnRedirect_EncryptionKey v),
     tl_bytes (UploadFileCdnRedirect_EncryptionIv v),
     tl_vector FileHash_wire (UploadFileCdnRedirect_FileHashes v)]"

definition UploadFileCdnRedirect_ok :: "UploadFileCdnRedirect \<Rightarrow> bool" where
  "UploadFileCdnRedirect_ok v \<longleftrightarrow> length (UploadFileCdnRedirect_FileToken v) < 2 ^ 24 \<and>
     length (UploadFileCdnRedirect_EncryptionKey v) < 2 ^ 24 \<and>
     length (UploadFileCdnRedirect_EncryptionIv v) < 2 ^ 24 \<and>
     (\<forall>h \<in> set (UploadFileCdnRedirect_FileHashes v). FileHash_ok h) \<and> length (UploadFileCdnRedirect_FileHashes v) < 2 ^ 31"

subsection \<open>\<^verbatim>\<open>UploadCdnFile\<close>: \<^verbatim>\<open>upload_cdnFile#a99fca4f\<close>\<close>

record UploadCdnFile =
  UploadCdnFile_Bytes :: bytes

definition UploadCdnFile_TLID :: uint32 where
  "UploadCdnFile_TLID = 0xa99fca4f"

definition UploadCdnFile_Encode :: "UploadCdnFile \<Rightarrow> encoder \<Rightarrow> encoder" where
  "UploadCdnFile_Encode v e =
     (let e = Encoder_PutUint 0xa99fca4f e;
          e = Encoder_PutBytes (UploadCdnFile_Bytes v) e
      in e)"

definition UploadCdnFile_Decode :: "UploadCdnFile dec" where
  "UploadCdnFile_Decode = dec_bind (dec_crc 0xa99fca4f) (\<lambda>_.
     dec_bind Decoder_Bytes (\<lambda>Bytes.
     dec_return \<lparr>UploadCdnFile_Bytes = Bytes\<rparr>))"

definition UploadCdnFile_wire :: "UploadCdnFile \<Rightarrow> bytes" where
  "UploadCdnFile_wire v = concat [le_put 4 (0xa99fca4f :: uint32),
     tl_bytes (UploadCdnFile_Bytes v)]"

definition UploadCdnFile_ok :: "UploadCdnFile \<Rightarrow> bool" where
  "UploadCdnFile_ok v \<longleftrightarrow> length (UploadCdnFile_Bytes v) < 2 ^ 24"

subsection \<open>\<^verbatim>\<open>UploadCdnFileReuploadNeeded\<close>: \<^verbatim>\<open>upload_cdnFileReuploadNeeded#eea8e486\<close>\<close>

record UploadCdnFileReuploadNeeded =
  UploadCdnFileReuploadNeeded_RequestToken :: bytes

definition UploadCdnFileReuploadNeeded_TLID :: uint32 where
  "UploadCdnFileReuploadNeeded_TLID = 0xeea8e486"

definition UploadCdnFileReuploadNeeded_Encode :: "UploadCdnFileReuploadNeeded \<Rightarrow> encoder \<Rightarrow> encoder" where
  "UploadCdnFileReuploadNeeded_Encode v e =
     (let e = Encoder_PutUint 0xeea8e486 e;
          e = Encoder_PutBytes (UploadCdnFileReuploadNeeded_RequestToken v) e
      in e)"

definition UploadCdnFileReuploadNeeded_Decode :: "UploadCdnFileReuploadNeeded dec" where
  "UploadCdnFileReuploadNeeded_Decode = dec_bind (dec_crc 0xeea8e486) (\<lambda>_.
     dec_bind Decoder_Bytes (\<lambda>RequestToken.
     dec_return \<lparr>UploadCdnFileReuploadNeeded_RequestToken = RequestToken\<rparr>))"

definition UploadCdnFileReuploadNeeded_wire :: "UploadCdnFileReuploadNeeded \<Rightarrow> bytes" where
  "UploadCdnFileReuploadNeeded_wire v = concat [le_put 4 (0xeea8e486 :: uint32),
     tl_bytes (UploadCdnFileReuploadNeeded_RequestToken v)]"

definition UploadCdnFileReuploadNeeded_ok :: "UploadCdnFileReuploadNeeded \<Rightarrow> bool" where
  "UploadCdnFileReuploadNeeded_ok v \<longleftrightarrow> length (UploadCdnFileReuploadNeeded_RequestToken v) < 2 ^ 24"

subsection \<open>\<^verbatim>\<open>UploadSaveFilePart\<close>: \<^verbatim>\<open>upload_saveFilePart#b304a621\<close>\<close>

record UploadSaveFilePart =
  UploadSaveFilePart_FileId :: int64
  UploadSaveFilePart_FilePart :: int32
  UploadSaveFilePart_Bytes :: bytes

definition UploadSaveFilePart_TLID :: uint32 where
  "UploadSaveFilePart_TLID = 0xb304a621"

definition UploadSaveFilePart_Encode :: "UploadSaveFilePart \<Rightarrow> encoder \<Rightarrow> encoder" where
  "UploadSaveFilePart_Encode v e =
     (let e = Encoder_PutUint 0xb304a621 e;
          e = Encoder_PutLong (UploadSaveFilePart_FileId v) e;
          e = Encoder_PutInt (UploadSaveFilePart_FilePart v) e;
          e = Encoder_PutBytes (UploadSaveFilePart_Bytes v) e
      in e)"

definition UploadSaveFilePart_Decode :: "UploadSaveFilePart dec" where
  "UploadSaveFilePart_Decode = dec_bind (dec_crc 0xb304a621) (\<lambda>_.
     dec_bind Decoder_Long (\<lambda>FileId.
     dec_bind Decoder_Int (\<lambda>FilePart.
     dec_bind Decoder_Bytes (\<lambda>Bytes.
     dec_return \<lparr>UploadSaveFilePart_FileId = FileId,
       UploadSaveFilePart_FilePart = FilePart,
       UploadSaveFilePart_Bytes = Bytes\<rparr>))))"

definition UploadSaveFilePart_wire :: "UploadSaveFilePart \<Rightarrow> bytes" where
  "UploadSaveFilePart_wire v = concat [le_put 4 (0xb304a621 :: uint32),
     le_put 8 (UploadSaveFilePart_FileId v),
     le_put 4 (UploadSaveFilePart_FilePart v),
     tl_bytes (UploadSaveFilePart_Bytes v)]"

definition UploadSaveFilePart_ok :: "UploadSaveFilePart \<Rightarrow> bool" where
  "UploadSaveFilePart_ok v \<longleftrightarrow> length (UploadSaveFilePart_Bytes v) < 2 ^ 24"

subsection \<open>\<^verbatim>\<open>UploadSaveBigFilePart\<close>: \<^verbatim>\<open>upload_saveBigFilePart#de7b673d\<close>\<close>

record UploadSaveBigFilePart =
  UploadSaveBigFilePart_FileId :: int64
  UploadSaveBigFilePart_FilePart :: int32
  UploadSaveBigFilePart_FileTotalParts :: int32
  UploadSaveBigFilePart_Bytes :: bytes

definition UploadSaveBigFilePart_TLID :: uint32 where
  "UploadSaveBigFilePart_TLID = 0xde7b673d"

definition UploadSaveBigFilePart_Encode :: "UploadSaveBigFilePart \<Rightarrow> encoder \<Rightarrow> encoder" where
  "UploadSaveBigFilePart_Encode v e =
     (let e = Encoder_PutUint 0xde7b673d e;
          e = Encoder_PutLong (UploadSaveBigFilePart_FileId v) e;
          e = Encoder_PutInt (UploadSaveBigFilePart_FilePart v) e;
          e = Encoder_PutInt (UploadSaveBigFilePart_FileTotalParts v) e;
          e = Encoder_PutBytes (UploadSaveBigFilePart_Bytes v) e
      in e)"

definition UploadSaveBigFilePart_Decode :: "UploadSaveBigFilePart dec" where
  "UploadSaveBigFilePart_Decode = dec_bind (dec_crc 0xde7b673d) (\<lambda>_.
     dec_bind Decoder_Long (\<lambda>FileId.
     dec_bind Decoder_Int (\<lambda>FilePart.
     dec_bind Decoder_Int (\<lambda>FileTotalParts.
     dec_bind Decoder_Bytes (\<lambda>Bytes.
     dec_return \<lparr>UploadSaveBigFilePart_FileId = FileId,
       UploadSaveBigFilePart_FilePart = FilePart,
       UploadSaveBigFilePart_FileTotalParts = FileTotalParts,
       UploadSaveBigFilePart_Bytes = Bytes\<rparr>)))))"

definition UploadSaveBigFilePart_wire :: "UploadSaveBigFilePart \<Rightarrow> bytes" where
  "UploadSaveBigFilePart_wire v = concat [le_put 4 (0xde7b673d :: uint32),
     le_put 8 (UploadSaveBigFilePart_FileId v),
     le_put 4 (UploadSaveBigFilePart_FilePart v),
     le_put 4 (UploadSaveBigFilePart_FileTotalParts v),
     tl_bytes (UploadSaveBigFilePart_Bytes v)]"

definition UploadSaveBigFilePart_ok :: "UploadSaveBigFilePart \<Rightarrow> bool" where
  "UploadSaveBigFilePart_ok v \<longleftrightarrow> length (UploadSaveBigFilePart_Bytes v) < 2 ^ 24"

subsection \<open>\<^verbatim>\<open>UploadGetCdnFile\<close>: \<^verbatim>\<open>upload_getCdnFile#20005570\<close>\<close>

record UploadGetCdnFile =
  UploadGetCdnFile_FileToken :: bytes
  UploadGetCdnFile_Offset :: int64
  UploadGetCdnFile_Limit :: int32

definition UploadGetCdnFile_TLID :: uint32 where
  "UploadGetCdnFile_TLID = 0x20005570"

definition UploadGetCdnFile_Encode :: "UploadGetCdnFile \<Rightarrow> encoder \<Rightarrow> encoder" where
  "UploadGetCdnFile_Encode v e =
     (let e = Encoder_PutUint 0x20005570 e;
          e = Encoder_PutBytes (UploadGetCdnFile_FileToken v) e;
          e = Encoder_PutLong (UploadGetCdnFile_Offset v) e;
          e = Encoder_PutInt (UploadGetCdnFile_Limit v) e
      in e)"

definition UploadGetCdnFile_Decode :: "UploadGetCdnFile dec" where
  "UploadGetCdnFile_Decode = dec_bind (dec_crc 0x20005570) (\<lambda>_.
     dec_bind Decoder_Bytes (\<lambda>FileToken.
     dec_bind Decoder_Long (\<lambda>Offset.
     dec_bind Decoder_Int (\<lambda>Limit.
     dec_return \<lparr>UploadGetCdnFile_FileToken = FileToken,
       UploadGetCdnFile_Offset = Offset,
       UploadGetCdnFile_Limit = Limit\<rparr>))))"

definition UploadGetCdnFile_wire :: "UploadGetCdnFile \<Rightarrow> bytes" where
  "UploadGetCdnFile_wire v = concat [le_put 4 (0x20005570 :: uint32),
     tl_bytes (UploadGetCdnFile_FileToken v),
     le_put 8 (UploadGetCdnFile_Offset v),
     le_put 4 (UploadGetCdnFile_Limit v)]"

definition UploadGetCdnFile_ok :: "UploadGetCdnFile \<Rightarrow> bool" where
  "UploadGetCdnFile_ok v \<longleftrightarrow> length (UploadGetCdnFile_FileToken v) < 2 ^ 24"

subsection \<open>\<^verbatim>\<open>UploadReuploadCdnFile\<close>: \<^verbatim>\<open>upload_reuploadCdnFile#9b2754a8\<close>\<close>

record UploadReuploadCdnFile =
  UploadReuploadCdnFile_FileToken :: bytes
  UploadReuploadCdnFile_RequestToken :: bytes

definition UploadReuploadCdnFile_TLID :: uint32 where
  "UploadReuploadCdnFile_TLID = 0x9b2754a8"

definition UploadReuploadCdnFile_Encode :: "UploadReuploadCdnFile \<Rightarrow> encoder \<Rightarrow> encoder" where
  "UploadReuploadCdnFile_Encode v e =
     (let e = Encoder_PutUint 0x9b2754a8 e;
          e = Encoder_PutBytes (UploadReuploadCdnFile_FileToken v) e;
          e = Encoder_PutBytes (UploadReuploadCdnFile_RequestToken v) e
      in e)"

definition UploadReuploadCdnFile_Decode :: "UploadReuploadCdnFile dec" where
  "UploadReuploadCdnFile_Decode = dec_bind (dec_crc 0x9b2754a8) (\<lambda>_.
     dec_bind Decoder_Bytes (\<lambda>FileToken.
     dec_bind Decoder_Bytes (\<lambda>RequestToken.
     dec_return \<lparr>UploadReuploadCdnFile_FileToken = FileToken,
       UploadReuploadCdnFile_RequestToken = RequestToken\<rparr>)))"

definition UploadReuploadCdnFile_wire :: "UploadReuploadCdnFile \<Rightarrow> bytes" where
  "UploadReuploadCdnFile_wire v = concat [le_put 4 (0x9b2754a8 :: uint32),
     tl_bytes (UploadReuploadCdnFile_FileToken v),
     tl_bytes (UploadReuploadCdnFile_RequestToken v)]"

definition UploadReuploadCdnFile_ok :: "UploadReuploadCdnFile \<Rightarrow> bool" where
  "UploadReuploadCdnFile_ok v \<longleftrightarrow> length (UploadReuploadCdnFile_FileToken v) < 2 ^ 24 \<and>
     length (UploadReuploadCdnFile_RequestToken v) < 2 ^ 24"

subsection \<open>\<^verbatim>\<open>UploadGetCdnFileHashes\<close>: \<^verbatim>\<open>upload_getCdnFileHashes#4e545469\<close>\<close>

record UploadGetCdnFileHashes =
  UploadGetCdnFileHashes_FileToken :: bytes
  UploadGetCdnFileHashes_Offset :: int64

definition UploadGetCdnFileHashes_TLID :: uint32 where
  "UploadGetCdnFileHashes_TLID = 0x4e545469"

definition UploadGetCdnFileHashes_Encode :: "UploadGetCdnFileHashes \<Rightarrow> encoder \<Rightarrow> encoder" where
  "UploadGetCdnFileHashes_Encode v e =
     (let e = Encoder_PutUint 0x4e545469 e;
          e = Encoder_PutBytes (UploadGetCdnFileHashes_FileToken v) e;
          e = Encoder_PutLong (UploadGetCdnFileHashes_Offset v) e
      in e)"

definition UploadGetCdnFileHashes_Decode :: "UploadGetCdnFileHashes dec" where
  "UploadGetCdnFileHashes_Decode = dec_bind (dec_crc 0x4e545469) (\<lambda>_.
     dec_bind Decoder_Bytes (\<lambda>FileToken.
     dec_bind Decoder_Long (\<lambda>Offset.
     dec_return \<lparr>UploadGetCdnFileHashes_FileToken = FileToken,
       UploadGetCdnFileHashes_Offset = Offset\<rparr>)))"

definition UploadGetCdnFileHashes_wire :: "UploadGetCdnFileHashes \<Rightarrow> bytes" where
  "UploadGetCdnFileHashes_wire v = concat [le_put 4 (0x4e545469 :: uint32),
     tl_bytes (UploadGetCdnFileHashes_FileToken v),
     le_put 8 (UploadGetCdnFileHashes_Offset v)]"

definition UploadGetCdnFileHashes_ok :: "UploadGetCdnFileHashes \<Rightarrow> bool" where
  "UploadGetCdnFileHashes_ok v \<longleftrightarrow> length (UploadGetCdnFileHashes_FileToken v) < 2 ^ 24"

section \<open>Sum types\<close>

subsection \<open>\<^verbatim>\<open>InputFileClass\<close>\<close>

datatype InputFileClass =
    InputFileClass_InputFile InputFile
  | InputFileClass_InputFileBig InputFileBig

primrec InputFileClass_Encode :: "InputFileClass \<Rightarrow> encoder \<Rightarrow> encoder" where
  "InputFileClass_Encode (InputFileClass_InputFile v) e = InputFile_Encode v e"
| "InputFileClass_Encode (InputFileClass_InputFileBig v) e = InputFileBig_Encode v e"

definition DecodeInputFileClass :: "InputFileClass dec" where
  "DecodeInputFileClass = dec_switch ''InputFileClass''
     [(0xf52ff27f, dec_map InputFileClass_InputFile InputFile_Decode),
      (0xfa4f0bb5, dec_map InputFileClass_InputFileBig InputFileBig_Decode)]"

primrec InputFileClass_wire :: "InputFileClass \<Rightarrow> bytes" where
  "InputFileClass_wire (InputFileClass_InputFile v) = InputFile_wire v"
| "InputFileClass_wire (InputFileClass_InputFileBig v) = InputFileBig_wire v"

primrec InputFileClass_ok :: "InputFileClass \<Rightarrow> bool" where
  "InputFileClass_ok (InputFileClass_InputFile v) \<longleftrightarrow> InputFile_ok v"
| "InputFileClass_ok (InputFileClass_InputFileBig v) \<longleftrightarrow> InputFileBig_ok v"

subsection \<open>\<^verbatim>\<open>InputFileLocationClass\<close>\<close>

datatype InputFileLocationClass =
    InputFileLocationClass_InputFileLocation InputFileLocation
  | InputFileLocationClass_InputDocumentFileLocation InputDocumentFileLocation

primrec InputFileLocationClass_Encode :: "InputFileLocationClass \<Rightarrow> encoder \<Rightarrow> encoder" where
  "InputFileLocationClass_Encode (InputFileLocationClass_InputFileLocation v) e = InputFileLocation_Encode v e"
| "InputFileLocationClass_Encode (InputFileLocationClass_InputDocumentFileLocation v) e = InputDocumentFileLocation_Encode v e"

definition DecodeInputFileLocationClass :: "InputFileLocationClass dec" where
  "DecodeInputFileLocationClass = dec_switch ''InputFileLocationClass''
     [(0xdfdaabe1, dec_map InputFileLocationClass_InputFileLocation InputFileLocation_Decode),
      (0xbad07284, dec_map InputFileLocationClass_InputDocumentFileLocation InputDocumentFileLocation_Decode)]"

primrec InputFileLocationClass_wire :: "InputFileLocationClass \<Rightarrow> bytes" where
  "InputFileLocationClass_wire (InputFileLocationClass_InputFileLocation v) = InputFileLocation_wire v"
| "InputFileLocationClass_wire (InputFileLocationClass_InputDocumentFileLocation v) = InputDocumentFileLocation_wire v"

primrec InputFileLocationClass_ok :: "InputFileLocationClass \<Rightarrow> bool" where
  "InputFileLocationClass_ok (InputFileLocationClass_InputFileLocation v) \<longleftrightarrow> InputFileLocation_ok v"
| "InputFileLocationClass_ok (InputFileLocationClass_InputDocumentFileLocation v) \<longleftrightarrow> InputDocumentFileLocation_ok v"

subsection \<open>\<^verbatim>\<open>UploadFileClass\<close>\<close>

datatype UploadFileClass =
    UploadFileClass_UploadFile UploadFile
  | UploadFileClass_UploadFileCdnRedirect UploadFileCdnRedirect

primrec UploadFileClass_Encode :: "UploadFileClass \<Rightarrow> encoder \<Rightarrow> encoder" where
  "UploadFileClass_Encode (UploadFileClass_UploadFile v) e = UploadFile_Encode v e"
| "UploadFileClass_Encode (UploadFileClass_UploadFileCdnRedirect v) e = UploadFileCdnRedirect_Encode v e"

definition DecodeUploadFileClass :: "UploadFileClass dec" where
  "DecodeUploadFileClass = dec_switch ''UploadFileClass''
     [(0x096a18d3, dec_map UploadFileClass_UploadFile UploadFile_Decode),
      (0xf18cda44, dec_map UploadFileClass_UploadFileCdnRedirect UploadFileCdnRedirect_Decode)]"

primrec UploadFileClass_wire :: "UploadFileClass \<Rightarrow> bytes" where
  "UploadFileClass_wire (UploadFileClass_UploadFile v) = UploadFile_wire v"
| "UploadFileClass_wire (UploadFileClass_UploadFileCdnRedirect v) = UploadFileCdnRedirect_wire v"

primrec UploadFileClass_ok :: "UploadFileClass \<Rightarrow> bool" where
  "UploadFileClass_ok (UploadFileClass_UploadFile v) \<longleftrightarrow> UploadFile_ok v"
| "UploadFileClass_ok (UploadFileClass_UploadFileCdnRedirect v) \<longleftrightarrow> UploadFileCdnRedirect_ok v"

subsection \<open>\<^verbatim>\<open>UploadCdnFileClass\<close>\<close>

datatype UploadCdnFileClass =
    UploadCdnFileClass_UploadCdnFile UploadCdnFile
  | UploadCdnFileClass_UploadCdnFileReuploadNeeded UploadCdnFileReuploadNeeded

primrec UploadCdnFileClass_Encode :: "UploadCdnFileClass \<Rightarrow> encoder \<Rightarrow> encoder" where
  "UploadCdnFileClass_Encode (UploadCdnFileClass_UploadCdnFile v) e = UploadCdnFile_Encode v e"
| "UploadCdnFileClass_Encode (UploadCdnFileClass_UploadCdnFileReuploadNeeded v) e = UploadCdnFileReuploadNeeded_Encode v e"

definition DecodeUploadCdnFileClass :: "UploadCdnFileClass dec" where
  "DecodeUploadCdnFileClass = dec_switch ''UploadCdnFileClass''
     [(0xa99fca4f, dec_map UploadCdnFileClass_UploadCdnFile UploadCdnFile_Decode),
      (0xeea8e486, dec_map UploadCdnFileClass_UploadCdnFileReuploadNeeded UploadCdnFileReuploadNeeded_Decode)]"

primrec UploadCdnFileClass_wire :: "UploadCdnFileClass \<Rightarrow> bytes" where
  "UploadCdnFileClass_wire (UploadCdnFileClass_UploadCdnFile v) = UploadCdnFile_wire v"
| "UploadCdnFileClass_wire (UploadCdnFileClass_UploadCdnFileReuploadNeeded v) = UploadCdnFileReuploadNeeded_wire v"

primrec UploadCdnFileClass_ok :: "UploadCdnFileClass \<Rightarrow> bool" where
  "UploadCdnFileClass_ok (UploadCdnFileClass_UploadCdnFile v) \<longleftrightarrow> UploadCdnFile_ok v"
| "UploadCdnFileClass_ok (UploadCdnFileClass_UploadCdnFileReuploadNeeded v) \<longleftrightarrow> UploadCdnFileReuploadNeeded_ok v"

subsection \<open>\<^verbatim>\<open>UploadGetFile\<close>: \<^verbatim>\<open>upload_getFile#be250529\<close>\<close>

text \<open>
  The only generated type with a flags field.  \<^verbatim>\<open>Encode\<close> has a pointer receiver and
  writes the flag bits into \<^verbatim>\<open>v.Flags\<close> before it encodes them, so it returns the receiver
  as well.  A \<^verbatim>\<open>nil\<close> location, on which the Go method panics, is not a value of the type.
\<close>

record UploadGetFile =
  UploadGetFile_Flags :: uint32
  UploadGetFile_Precise :: bool
  UploadGetFile_CdnSupported :: bool
  UploadGetFile_Location :: InputFileLocationClass
  UploadGetFile_Offset :: int64
  UploadGetFile_Limit :: int32

definition UploadGetFile_TLID :: uint32 where
  "UploadGetFile_TLID = 0xbe250529"

definition UploadGetFile_Encode :: "UploadGetFile \<Rightarrow> encoder \<Rightarrow> UploadGetFile \<times> encoder" where
  "UploadGetFile_Encode v e =
     (let e = Encoder_PutUint 0xbe250529 e;
          v = (if UploadGetFile_Precise v
               then v\<lparr>UploadGetFile_Flags := UploadGetFile_Flags v OR push_bit 0 1\<rparr> else v);
          v = (if UploadGetFile_CdnSupported v
               then v\<lparr>UploadGetFile_Flags := UploadGetFile_Flags v OR push_bit 1 1\<rparr> else v);
          e = Encoder_PutUint (UploadGetFile_Flags v) e;
          e = InputFileLocationClass_Encode (UploadGetFile_Location v) e;
          e = Encoder_PutLong (UploadGetFile_Offset v) e;
          e = Encoder_PutInt (UploadGetFile_Limit v) e
      in (v, e))"

definition UploadGetFile_Decode :: "UploadGetFile dec" where
  "UploadGetFile_Decode = dec_bind (dec_crc 0xbe250529) (\<lambda>_.
     dec_bind Decoder_Uint (\<lambda>Flags.
     dec_bind DecodeInputFileLocationClass (\<lambda>item.
     dec_bind Decoder_Long (\<lambda>Offset.
     dec_bind Decoder_Int (\<lambda>Limit.
     dec_return \<lparr>UploadGetFile_Flags = Flags,
       UploadGetFile_Precise = (Flags AND push_bit 0 1 \<noteq> 0),
       UploadGetFile_CdnSupported = (Flags AND push_bit 1 1 \<noteq> 0),
       UploadGetFile_Location = item,
       UploadGetFile_Offset = Offset,
       UploadGetFile_Limit = Limit\<rparr>)))))"

definition UploadGetFile_flags :: "UploadGetFile \<Rightarrow> uint32" where
  "UploadGetFile_flags v = (UploadGetFile_Flags v
     OR (if UploadGetFile_Precise v then 1 else 0))
     OR (if UploadGetFile_CdnSupported v then 2 else 0)"

definition UploadGetFile_wire :: "UploadGetFile \<Rightarrow> bytes" where
  "UploadGetFile_wire v = concat [le_put 4 (0xbe250529 :: uint32),
     le_put 4 (UploadGetFile_flags v),
     InputFileLocationClass_wire (UploadGetFile_Location v),
     le_put 8 (UploadGetFile_Offset v),
     le_put 4 (UploadGetFile_Limit v)]"

text \<open>The booleans a request carries agree with its flag bits.\<close>

definition UploadGetFile_ok :: "UploadGetFile \<Rightarrow> bool" where
  "UploadGetFile_ok v \<longleftrightarrow>
     (UploadGetFile_Flags v AND 1 \<noteq> 0) = UploadGetFile_Precise v \<and>
     (UploadGetFile_Flags v AND 2 \<noteq> 0) = UploadGetFile_CdnSupported v \<and>
     InputFileLocationClass_ok (UploadGetFile_Location v)"

section \<open>Every type is a codec\<close>

lemmas InputFile_defs = InputFile_Encode_def InputFile_Decode_def InputFile_wire_def InputFile_ok_def

interpretation InputFile: tl_codec InputFile_Encode InputFile_Decode InputFile_wire InputFile_ok
  by (unfold_locales; unfold InputFile_defs concat.simps; (elim conjE)?;
      (rule codec_rules | simp add: codec_simps)+)

lemmas InputFileBig_defs = InputFileBig_Encode_def InputFileBig_Decode_def InputFileBig_wire_def InputFileBig_ok_def

interpretation InputFileBig: tl_codec InputFileBig_Encode InputFileBig_Decode InputFileBig_wire InputFileBig_ok
  by (unfold_locales; unfold InputFileBig_defs concat.simps; (elim conjE)?;
      (rule codec_rules | simp add: codec_simps)+)

lemmas InputFileLocation_defs = InputFileLocation_Encode_def InputFileLocation_Decode_def InputFileLocation_wire_def InputFileLocation_ok_def

interpretation InputFileLocation: tl_codec InputFileLocation_Encode InputFileLocation_Decode InputFileLocation_wire InputFileLocation_ok
  by (unfold_locales; unfold InputFileLocation_defs concat.simps; (elim conjE)?;
      (rule codec_rules | simp add: codec_simps)+)

lemmas InputDocumentFileLocation_defs = InputDocumentFileLocation_Encode_def InputDocumentFileLocation_Decode_def InputDocumentFileLocation_wire_def InputDocumentFileLocation_ok_def

interpretation InputDocumentFileLocation: tl_codec InputDocumentFileLocation_Encode InputDocumentFileLocation_Decode InputDocumentFileLocation_wire InputDocumentFileLocation_ok
  by (unfold_locales; unfold InputDocumentFileLocation_defs concat.simps; (elim conjE)?;
      (rule codec_rules | simp add: codec_simps)+)

lemmas FileHash_defs = FileHash_Encode_def FileHash_Decode_def FileHash_wire_def FileHash_ok_def

interpretation FileHash: tl_codec FileHash_Encode FileHash_Decode FileHash_wire FileHash_ok
  by (unfold_locales; unfold FileHash_defs concat.simps; (elim conjE)?;
      (rule codec_rules | simp add: codec_simps)+)

interpretation FileHash_vector: tl_codec "put_vector FileHash_Encode" "dec_vector FileHash_Decode"
    "tl_vector FileHash_wire" "\<lambda>vs. (\<forall>v \<in> set vs. FileHash_ok v) \<and> length vs < 2 ^ 31"
  by (rule FileHash.vector_codec)

lemmas UploadFile_defs = UploadFile_Encode_def UploadFile_Decode_def UploadFile_wire_def UploadFile_ok_def

interpretation UploadFile: tl_codec UploadFile_Encode UploadFile_Decode UploadFile_wire UploadFile_ok
  by (unfold_locales; unfold UploadFile_defs concat.simps; (elim conjE)?;
      (rule codec_rules | simp add: codec_simps)+)

lemmas UploadFileCdnRedirect_defs = UploadFileCdnRedirect_Encode_def UploadFileCdnRedirect_Decode_def UploadFileCdnRedirect_wire_def UploadFileCdnRedirect_ok_def

interpretation UploadFileCdnRedirect: tl_codec UploadFileCdnRedirect_Encode UploadFileCdnRedirect_Decode UploadFileCdnRedirect_wire UploadFileCdnRedirect_ok
  by (unfold_locales; unfold UploadFileCdnRedirect_defs concat.simps; (elim conjE)?;
      (rule codec_rules FileHash_vector.get_wire FileHash_vector.get_cuts
        FileHash_vector.wire_aligned FileHash_vector.get_safe | simp add: codec_simps FileHash.put_vector_wire)+)

lemmas UploadCdnFile_defs = UploadCdnFile_Encode_def UploadCdnFile_Decode_def UploadCdnFile_wire_def UploadCdnFile_ok_def

interpretation UploadCdnFile: tl_codec UploadCdnFile_Encode UploadCdnFile_Decode UploadCdnFile_wire UploadCdnFile_ok
  by (unfold_locales; unfold UploadCdnFile_defs concat.simps; (elim conjE)?;
      (rule codec_rules | simp add: codec_simps)+)

lemmas UploadCdnFileReuploadNeeded_defs = UploadCdnFileReuploadNeeded_Encode_def UploadCdnFileReuploadNeeded_Decode_def UploadCdnFileReuploadNeeded_wire_def UploadCdnFileReuploadNeeded_ok_def

interpretation UploadCdnFileReuploadNeeded: tl_codec UploadCdnFileReuploadNeeded_Encode UploadCdnFileReuploadNeeded_Decode UploadCdnFileReuploadNeeded_wire UploadCdnFileReuploadNeeded_ok
  by (unfold_locales; unfold UploadCdnFileReuploadNeeded_defs concat.simps; (elim conjE)?;
      (rule codec_rules | simp add: codec_simps)+)

lemmas UploadSaveFilePart_defs = UploadSaveFilePart_Encode_def UploadSaveFilePart_Decode_def UploadSaveFilePart_wire_def UploadSaveFilePart_ok_def

interpretation UploadSaveFilePart: tl_codec UploadSaveFilePart_Encode UploadSaveFilePart_Decode UploadSaveFilePart_wire UploadSaveFilePart_ok
  by (unfold_locales; unfold UploadSaveFilePart_defs concat.simps; (elim conjE)?;
      (rule codec_rules | simp add: codec_simps)+)

lemmas UploadSaveBigFilePart_defs = UploadSaveBigFilePart_Encode_def UploadSaveBigFilePart_Decode_def UploadSaveBigFilePart_wire_def UploadSaveBigFilePart_ok_def

interpretation UploadSaveBigFilePart: tl_codec UploadSaveBigFilePart_Encode UploadSaveBigFilePart_Decode UploadSaveBigFilePart_wire UploadSaveBigFilePart_ok
  by (unfold_locales; unfold UploadSaveBigFilePart_defs concat.simps; (elim conjE)?;
      (rule codec_rules | simp add: codec_simps)+)

lemmas UploadGetCdnFile_defs = UploadGetCdnFile_Encode_def UploadGetCdnFile_Decode_def UploadGetCdnFile_wire_def UploadGetCdnFile_ok_def

interpretation UploadGetCdnFile: tl_codec UploadGetCdnFile_Encode UploadGetCdnFile_Decode UploadGetCdnFile_wire UploadGetCdnFile_ok
  by (unfold_locales; unfold UploadGetCdnFile_defs concat.simps; (elim conjE)?;
      (rule codec_rules | simp add: codec_simps)+)

lemmas UploadReuploadCdnFile_defs = UploadReuploadCdnFile_Encode_def UploadReuploadCdnFile_Decode_def UploadReuploadCdnFile_wire_def UploadReuploadCdnFile_ok_def

interpretation UploadReuploadCdnFile: tl_codec UploadReuploadCdnFile_Encode UploadReuploadCdnFile_Decode UploadReuploadCdnFile_wire UploadReuploadCdnFile_ok
  by (unfold_locales; unfold UploadReuploadCdnFile_defs concat.simps; (elim conjE)?;
      (rule codec_rules | simp add: codec_simps)+)

lemmas UploadGetCdnFileHashes_defs = UploadGetCdnFileHashes_Encode_def UploadGetCdnFileHashes_Decode_def UploadGetCdnFileHashes_wire_def UploadGetCdnFileHashes_ok_def

interpretation UploadGetCdnFileHashes: tl_codec UploadGetCdnFileHashes_Encode UploadGetCdnFileHashes_Decode UploadGetCdnFileHashes_wire UploadGetCdnFileHashes_ok
  by (unfold_locales; unfold UploadGetCdnFileHashes_defs concat.simps; (elim conjE)?;
      (rule codec_rules | simp add: codec_simps)+)

lemma InputFile_wire_head: "InputFile_wire v = le_put 4 (0xf52ff27f :: uint32) @ drop 4 (InputFile_wire v)"
  by (simp add: InputFile_wire_def)

lemma InputFileBig_wire_head: "InputFileBig_wire v = le_put 4 (0xfa4f0bb5 :: uint32) @ drop 4 (InputFileBig_wire v)"
  by (simp add: InputFileBig_wire_def)

lemmas InputFileClass_alts =
  switch_altI [where C = InputFileClass_InputFile,
    OF InputFile.tl_codec_axioms InputFile_wire_head]
  switch_altI [where C = InputFileClass_InputFileBig,
    OF InputFileBig.tl_codec_axioms InputFileBig_wire_head]

interpretation InputFileClass: tl_codec InputFileClass_Encode DecodeInputFileClass InputFileClass_wire InputFileClass_ok
  unfolding DecodeInputFileClass_def
proof (rule switch_codecI)
  fix v
  show "switch_alt ''InputFileClass''
     [(0xf52ff27f, dec_map InputFileClass_InputFile InputFile_Decode),
      (0xfa4f0bb5, dec_map InputFileClass_InputFileBig InputFileBig_Decode)]
     InputFileClass_Encode InputFileClass_wire InputFileClass_ok v"
    by (cases v) (auto intro!: InputFileClass_alts)
qed (auto intro!: safe_map InputFile.get_safe InputFileBig.get_safe)

lemma InputFileLocation_wire_head: "InputFileLocation_wire v = le_put 4 (0xdfdaabe1 :: uint32) @ drop 4 (InputFileLocation_wire v)"
  by (simp add: InputFileLocation_wire_def)

lemma InputDocumentFileLocation_wire_head: "InputDocumentFileLocation_wire v = le_put 4 (0xbad07284 :: uint32) @ drop 4 (InputDocumentFileLocation_wire v)"
  by (simp add: InputDocumentFileLocation_wire_def)

lemmas InputFileLocationClass_alts =
  switch_altI [where C = InputFileLocationClass_InputFileLocation,
    OF InputFileLocation.tl_codec_axioms InputFileLocation_wire_head]
  switch_altI [where C = InputFileLocationClass_InputDocumentFileLocation,
    OF InputDocumentFileLocation.tl_codec_axioms InputDocumentFileLocation_wire_head]

interpretation InputFileLocationClass: tl_codec InputFileLocationClass_Encode DecodeInputFileLocationClass InputFileLocationClass_wire InputFileLocationClass_ok
  unfolding DecodeInputFileLocationClass_def
proof (rule switch_codecI)
  fix v
  show "switch_alt ''InputFileLocationClass''
     [(0xdfdaabe1, dec_map InputFileLocationClass_InputFileLocation InputFileLocation_Decode),
      (0xbad07284, dec_map InputFileLocationClass_InputDocumentFileLocation InputDocumentFileLocation_Decode)]
     InputFileLocationClass_Encode InputFileLocationClass_wire InputFileLocationClass_ok v"
    by (cases v) (auto intro!: InputFileLocationClass_alts)
qed (auto intro!: safe_map InputFileLocation.get_safe InputDocumentFileLocation.get_safe)

lemma UploadFile_wire_head: "UploadFile_wire v = le_put 4 (0x096a18d3 :: uint32) @ drop 4 (UploadFile_wire v)"
  by (simp add: UploadFile_wire_def)

lemma UploadFileCdnRedirect_wire_head: "UploadFileCdnRedirect_wire v = le_put 4 (0xf18cda44 :: uint32) @ drop 4 (UploadFileCdnRedirect_wire v)"
  by (simp add: UploadFileCdnRedirect_wire_def)

lemmas UploadFileClass_alts =
  switch_altI [where C = UploadFileClass_UploadFile,
    OF UploadFile.tl_codec_axioms UploadFile_wire_head]
  switch_altI [where C = UploadFileClass_UploadFileCdnRedirect,
    OF UploadFileCdnRedirect.tl_codec_axioms UploadFileCdnRedirect_wire_head]

interpretation UploadFileClass: tl_codec UploadFileClass_Encode DecodeUploadFileClass UploadFileClass_wire UploadFileClass_ok
  unfolding DecodeUploadFileClass_def
proof (rule switch_codecI)
  fix v
  show "switch_alt ''UploadFileClass''
     [(0x096a18d3, dec_map UploadFileClass_UploadFile UploadFile_Decode),
      (0xf18cda44, dec_map UploadFileClass_UploadFileCdnRedirect UploadFileCdnRedirect_Decode)]
     UploadFileClass_Encode UploadFileClass_wire UploadFileClass_ok v"
    by (cases v) (auto intro!: UploadFileClass_alts)
qed (auto intro!: safe_map UploadFile.get_safe UploadFileCdnRedirect.get_safe)

lemma UploadCdnFile_wire_head: "UploadCdnFile_wire v = le_put 4 (0xa99fca4f :: uint32) @ drop 4 (UploadCdnFile_wire v)"
  by (simp add: UploadCdnFile_wire_def)

lemma UploadCdnFileReuploadNeeded_wire_head: "UploadCdnFileReuploadNeeded_wire v = le_put 4 (0xeea8e486 :: uint32) @ drop 4 (UploadCdnFileReuploadNeeded_wire v)"
  by (simp add: UploadCdnFileReuploadNeeded_wire_def)

lemmas UploadCdnFileClass_alts =
  switch_altI [where C = UploadCdnFileClass_UploadCdnFile,
    OF UploadCdnFile.tl_codec_axioms UploadCdnFile_wire_head]
  switch_altI [where C = UploadCdnFileClass_UploadCdnFileReuploadNeeded,
    OF UploadCdnFileReuploadNeeded.tl_codec_axioms UploadCdnFileReuploadNeeded_wire_head]

interpretation UploadCdnFileClass: tl_codec UploadCdnFileClass_Encode DecodeUploadCdnFileClass UploadCdnFileClass_wire UploadCdnFileClass_ok
  unfolding DecodeUploadCdnFileClass_def
proof (rule switch_codecI)
  fix v
  show "switch_alt ''UploadCdnFileClass''
     [(0xa99fca4f, dec_map UploadCdnFileClass_UploadCdnFile UploadCdnFile_Decode),
      (0xeea8e486, dec_map UploadCdnFileClass_UploadCdnFileReuploadNeeded UploadCdnFileReuploadNeeded_Decode)]
     UploadCdnFileClass_Encode UploadCdnFileClass_wire UploadCdnFileClass_ok v"
    by (cases v) (auto intro!: UploadCdnFileClass_alts)
qed (auto intro!: safe_map UploadCdnFile.get_safe UploadCdnFileReuploadNeeded.get_safe)

section \<open>The flags of a file request\<close>

lemma and_1_bit: "(w :: uint32) AND 1 \<noteq> 0 \<longleftrightarrow> bit w 0"
  using and_exp_eq_0_iff_not_bit [of w 0] by simp

lemma and_2_bit: "(w :: uint32) AND 2 \<noteq> 0 \<longleftrightarrow> bit w 1"
  using and_exp_eq_0_iff_not_bit [of w 1] by simp

lemma bit_flags:
  "bit (UploadGetFile_flags v) 0 \<longleftrightarrow> bit (UploadGetFile_Flags v) 0 \<or> UploadGetFile_Precise v"
  "bit (UploadGetFile_flags v) 1 \<longleftrightarrow> bit (UploadGetFile_Flags v) 1 \<or> UploadGetFile_CdnSupported v"
  by (auto simp: UploadGetFile_flags_def bit_simps)

lemma UploadGetFile_Encode_eq:
  "UploadGetFile_Encode v e =
     (v\<lparr>UploadGetFile_Flags := UploadGetFile_flags v\<rparr>, app (UploadGetFile_wire v) e)"
  by (simp add: UploadGetFile_Encode_def UploadGetFile_flags_def UploadGetFile_wire_def Let_def
      codec_simps InputFileLocationClass.put_wire)

text \<open>
  What a peer reads from the bytes of a request: every flag bit that was ever set, and the booleans
  those bits stand for.
\<close>

definition UploadGetFile_seen :: "UploadGetFile \<Rightarrow> UploadGetFile" where
  "UploadGetFile_seen v = v\<lparr>UploadGetFile_Flags := UploadGetFile_flags v,
     UploadGetFile_Precise := bit (UploadGetFile_flags v) 0,
     UploadGetFile_CdnSupported := bit (UploadGetFile_flags v) 1\<rparr>"

lemmas location_rules = InputFileLocationClass.get_wire InputFileLocationClass.get_cuts
  InputFileLocationClass.get_safe InputFileLocationClass.wire_aligned

lemma decodes_UploadGetFile:
  assumes "InputFileLocationClass_ok (UploadGetFile_Location v)"
  shows "decodes UploadGetFile_Decode (UploadGetFile_seen v) (UploadGetFile_wire v)"
  unfolding UploadGetFile_Decode_def UploadGetFile_wire_def concat.simps
  by (rule codec_rules location_rules assms
      | simp add: UploadGetFile_seen_def and_1_bit and_2_bit)+

lemma flags_ok:
  assumes "UploadGetFile_ok v"
  shows "UploadGetFile_flags v = UploadGetFile_Flags v"
  using assms
  by (intro bit_word_eqI)
    (auto simp: UploadGetFile_flags_def UploadGetFile_ok_def and_1_bit and_2_bit bit_simps
      numeral_2_eq_2 bit_Suc split: if_splits)

lemma seen_ok:
  assumes "UploadGetFile_ok v"
  shows "UploadGetFile_seen v = v"
  using assms flags_ok [OF assms]
  by (simp add: UploadGetFile_seen_def UploadGetFile_ok_def and_1_bit and_2_bit)

interpretation UploadGetFile: tl_codec "\<lambda>v e. snd (UploadGetFile_Encode v e)"
    UploadGetFile_Decode UploadGetFile_wire UploadGetFile_ok
proof
  fix v e
  show "snd (UploadGetFile_Encode v e) = app (UploadGetFile_wire v) e"
    by (simp add: UploadGetFile_Encode_eq)
next
  fix v assume v: "UploadGetFile_ok v"
  then show "decodes UploadGetFile_Decode v (UploadGetFile_wire v)"
    using decodes_UploadGetFile [of v] by (simp add: seen_ok UploadGetFile_ok_def)
  from v have loc: "InputFileLocationClass_ok (UploadGetFile_Location v)"
    by (simp add: UploadGetFile_ok_def)
  show "cuts UploadGetFile_Decode (UploadGetFile_wire v)"
    unfolding UploadGetFile_Decode_def UploadGetFile_wire_def concat.simps
    by (rule codec_rules location_rules loc | simp)+
  show "length (UploadGetFile_wire v) mod 4 = 0" and "4 \<le> length (UploadGetFile_wire v)"
    unfolding UploadGetFile_wire_def concat.simps
    by (rule codec_rules location_rules loc | simp)+
next
  show "dec_safe UploadGetFile_Decode"
    unfolding UploadGetFile_Decode_def by (rule codec_rules location_rules | simp)+
qed

text \<open>
  \<^verbatim>\<open>Encode\<close> only ever sets bits of \<^verbatim>\<open>v.Flags\<close>: a request that was encoded once with
  \<^verbatim>\<open>CdnSupported\<close> still announces it when the field has been cleared.
\<close>

lemma cdn_flag_sticky:
  assumes "UploadGetFile_CdnSupported v"
  shows "UploadGetFile_CdnSupported (UploadGetFile_seen
    ((fst (UploadGetFile_Encode v e))\<lparr>UploadGetFile_CdnSupported := False\<rparr>))"
  using assms by (simp add: UploadGetFile_Encode_eq UploadGetFile_seen_def bit_flags [simplified])

end
