(* ===== verification/Go_Std.thy ===== *)
theory Go_Std
  imports Prelude
begin

text \<open>
  What the program uses of Go's standard library, as functions: \<^verbatim>\<open>io.Writer\<close> and
  \<^verbatim>\<open>io.ReadFull\<close> over a connection whose failures the environment decides,
  \<^verbatim>\<open>crypto/rand.Read\<close>, \<^verbatim>\<open>hash/crc32\<close>, the big-endian byte strings of \<^verbatim>\<open>math/big\<close>, and the decimal
  parser \<^verbatim>\<open>strconv.Atoi\<close>.
\<close>

section \<open>Writers and readers\<close>

text \<open>
  A writer collects the bytes written so far.  \<open>wplan\<close> is what the environment does to the
  coming \<^verbatim>\<open>Write\<close> calls: \<open>None\<close> lets the call succeed, \<open>Some (n, err)\<close> accepts the first \<open>n\<close>
  bytes and returns the error; calls past the end of the plan succeed.
\<close>

record writer =
  wbuf :: bytes
  wplan :: "(nat \<times> goerror) option list"

definition Write :: "bytes \<Rightarrow> writer \<Rightarrow> goerror option \<times> writer" where
  "Write bs w =
     (case wplan w of
        [] \<Rightarrow> (None, w\<lparr>wbuf := wbuf w @ bs\<rparr>)
      | None # p \<Rightarrow> (None, w\<lparr>wbuf := wbuf w @ bs, wplan := p\<rparr>)
      | Some (n, err) # p \<Rightarrow> (Some err, w\<lparr>wbuf := wbuf w @ take n bs, wplan := p\<rparr>))"

text \<open>A reader delivers the bytes \<open>rin\<close> and then fails with \<open>rerr\<close> (end of file, a deadline).\<close>

record reader =
  rin :: bytes
  rerr :: goerror

definition ReadFull :: "nat \<Rightarrow> reader \<Rightarrow> (goerror + bytes) \<times> reader" where
  "ReadFull n r =
     (if n \<le> length (rin r) then (Inr (take n (rin r)), r\<lparr>rin := drop n (rin r)\<rparr>)
      else (Inl (if rin r \<noteq> [] \<and> rerr r = IoEOF then IoUnexpectedEOF else rerr r), r\<lparr>rin := []\<rparr>))"

section \<open>Random bytes\<close>

text \<open>
  The answer of \<^verbatim>\<open>crypto/rand.Read\<close> to a request for \<open>n\<close> bytes is an argument of the operations
  that draw; \<open>rand_ok\<close> is its documented contract: no error means the buffer is filled.
\<close>

type_synonym entropy = "nat \<Rightarrow> goerror + bytes"

definition rand_ok :: "entropy \<Rightarrow> bool" where
  "rand_ok rnd \<longleftrightarrow> (\<forall>n bs. rnd n = Inr bs \<longrightarrow> length bs = n)"

section \<open>CRC-32 (IEEE)\<close>

definition crc32_bit :: "uint32 \<Rightarrow> uint32" where
  "crc32_bit c = (if bit c 0 then drop_bit 1 c XOR 0xEDB88320 else drop_bit 1 c)"

definition crc32_byte :: "byte \<Rightarrow> uint32 \<Rightarrow> uint32" where
  "crc32_byte b c = (crc32_bit ^^ 8) (c XOR ucast b)"

definition ChecksumIEEE :: "bytes \<Rightarrow> uint32" where
  "ChecksumIEEE bs = NOT (fold crc32_byte bs 0xFFFFFFFF)"

section \<open>Big integers as byte strings\<close>

text \<open>\<^verbatim>\<open>new(big.Int).SetBytes(bs)\<close>: the bytes as a big-endian unsigned integer.\<close>

definition SetBytes :: "bytes \<Rightarrow> nat" where
  "SetBytes bs = fold (\<lambda>b n. 256 * n + unat b) bs 0"

text \<open>\<^verbatim>\<open>x.Bytes()\<close>: the absolute value as big-endian bytes with no leading zero.\<close>

fun le_nat_bytes :: "nat \<Rightarrow> bytes" where
  "le_nat_bytes n = (if n = 0 then [] else of_nat (n mod 256) # le_nat_bytes (n div 256))"

declare le_nat_bytes.simps [simp del]

definition BigBytes :: "nat \<Rightarrow> bytes" where
  "BigBytes n = rev (le_nat_bytes n)"

section \<open>Decimal numbers\<close>

text \<open>
  \<^verbatim>\<open>strconv.Atoi\<close> on a 64-bit platform: an optional sign, at least one decimal digit and nothing
  else, and a value that fits an \<^verbatim>\<open>int\<close>.
\<close>

definition digit_value :: "char \<Rightarrow> nat option" where
  "digit_value c = (let n = of_char c in if 48 \<le> n \<and> n \<le> 57 then Some (n - 48) else None)"

fun atoi_digits :: "nat \<Rightarrow> string \<Rightarrow> nat option" where
  "atoi_digits acc [] = Some acc"
| "atoi_digits acc (c # cs) =
     (case digit_value c of None \<Rightarrow> None | Some v \<Rightarrow> atoi_digits (10 * acc + v) cs)"

definition Atoi :: "string \<Rightarrow> int option" where
  "Atoi s =
     (let neg = (s \<noteq> [] \<and> hd s = CHR ''-'');
          digits = (if s \<noteq> [] \<and> (hd s = CHR ''-'' \<or> hd s = CHR ''+'') then tl s else s)
      in if digits = [] then None
         else case atoi_digits 0 digits of
             None \<Rightarrow> None
           | Some n \<Rightarrow>
               (let v = (if neg then - int n else int n)
                in if - (2 ^ 63) \<le> v \<and> v < 2 ^ 63 then Some v else None))"

text \<open>\<^verbatim>\<open>strconv.Itoa\<close> and the \<^verbatim>\<open>%d\<close> verb on a number that is not negative.\<close>

definition digit_char :: "nat \<Rightarrow> char" where
  "digit_char d = char_of (48 + d mod 10)"

fun fmt_nat :: "nat \<Rightarrow> string" where
  "fmt_nat n = (if n < 10 then [digit_char n] else fmt_nat (n div 10) @ [digit_char n])"

declare fmt_nat.simps [simp del]

text \<open>The \<^verbatim>\<open>%d\<close> verb on an \<^verbatim>\<open>int\<close>.\<close>

definition fmt_int :: "int \<Rightarrow> string" where
  "fmt_int i = (if i < 0 then CHR ''-'' # fmt_nat (nat (- i)) else fmt_nat (nat i))"

text \<open>
  \<^verbatim>\<open>time.Duration.String\<close> on a count of nanoseconds.  \<open>fmt_frac\<close> is its \<^verbatim>\<open>fmtFrac\<close>: the fraction of \<open>v\<close> in units of
  \<open>10 ^ n\<close> without its trailing zeroes, in front of \<open>acc\<close>.
\<close>

fun fmt_frac :: "nat \<Rightarrow> nat \<Rightarrow> bool \<Rightarrow> string \<Rightarrow> string" where
  "fmt_frac 0 v pr acc = (if pr then CHR ''.'' # acc else acc)"
| "fmt_frac (Suc n) v pr acc =
     (let d = v mod 10; pr = (pr \<or> d \<noteq> 0) in fmt_frac n (v div 10) pr (if pr then digit_char d # acc else acc))"

definition Duration_String :: "int64 \<Rightarrow> string" where
  "Duration_String d =
     (let u = unat (if sint d < 0 then - d else d);
          text = (if u = 0 then ''0s''
            else if u < 1000 then fmt_nat u @ ''ns''
            else if u < 1000000 then fmt_nat (u div 1000) @ fmt_frac 3 u False [CHR 0xC2, CHR 0xB5, CHR ''s'']
            else if u < 1000000000 then fmt_nat (u div 1000000) @ fmt_frac 6 u False ''ms''
            else
              let s = u div 1000000000; m = s div 60; h = m div 60
              in (if m = 0 then [] else if h = 0 then fmt_nat (m mod 60) @ ''m''
                  else fmt_nat h @ ''h'' @ fmt_nat (m mod 60) @ ''m'') @
                 fmt_nat (s mod 60) @ fmt_frac 9 u False ''s'')
      in if sint d < 0 then CHR ''-'' # text else text)"

text \<open>The \<^verbatim>\<open>%0nx\<close> verb: the low \<open>n\<close> hexadecimal digits of a number that has no more than \<open>n\<close>.\<close>

definition hex_digit :: "nat \<Rightarrow> char" where
  "hex_digit d = (''0123456789abcdef'' ! (d mod 16))"

fun fmt_hex :: "nat \<Rightarrow> nat \<Rightarrow> string" where
  "fmt_hex 0 v = []"
| "fmt_hex (Suc n) v = fmt_hex n (v div 16) @ [hex_digit v]"

section \<open>Lemmas\<close>

lemma Write_ok [simp]: "wplan w = [] \<Longrightarrow> Write bs w = (None, w\<lparr>wbuf := wbuf w @ bs\<rparr>)"
  by (simp add: Write_def)

lemma ReadFull_append:
  "n = length xs \<Longrightarrow> rin r = xs @ rest \<Longrightarrow> ReadFull n r = (Inr xs, r\<lparr>rin := rest\<rparr>)"
  by (simp add: ReadFull_def)

lemma ReadFull_short: "length (rin r) < n \<Longrightarrow> \<exists>err. ReadFull n r = (Inl err, r\<lparr>rin := []\<rparr>)"
  by (simp add: ReadFull_def)

lemma ReadFull_take_short:
  "k < n \<Longrightarrow> \<exists>err r'. ReadFull n (r\<lparr>rin := take k xs\<rparr>) = (Inl err, r')"
  by (simp add: ReadFull_def)

text \<open>\<^verbatim>\<open>Bytes\<close> and \<^verbatim>\<open>SetBytes\<close> are inverse, up to leading zeroes.\<close>

lemma SetBytes_snoc: "SetBytes (bs @ [b]) = 256 * SetBytes bs + unat b"
  by (simp add: SetBytes_def)

lemma SetBytes_rev_le: "SetBytes (rev (le_nat_bytes n)) = n"
proof (induction n rule: le_nat_bytes.induct)
  case (1 n)
  show ?case
  proof (cases "n = 0")
    case True
    then show ?thesis by (subst le_nat_bytes.simps) (simp add: SetBytes_def)
  next
    case False
    have "unat (of_nat (n mod 256) :: byte) = n mod 256" by (simp add: unat_of_nat)
    with False 1 show ?thesis
      by (subst le_nat_bytes.simps) (simp add: SetBytes_snoc)
  qed
qed

lemma SetBytes_BigBytes [simp]: "SetBytes (BigBytes n) = n"
  by (simp add: BigBytes_def SetBytes_rev_le)

lemma length_le_nat_bytes: "n < 256 ^ k \<Longrightarrow> length (le_nat_bytes n) \<le> k"
proof (induction k arbitrary: n)
  case 0
  then show ?case by (simp add: le_nat_bytes.simps)
next
  case (Suc k)
  show ?case
  proof (cases "n = 0")
    case True
    then show ?thesis by (simp add: le_nat_bytes.simps)
  next
    case False
    have "n div 256 < 256 ^ k" using Suc.prems by (simp add: less_mult_imp_div_less mult.commute)
    with False Suc.IH show ?thesis by (subst le_nat_bytes.simps) simp
  qed
qed

lemma length_BigBytes: "n < 256 ^ k \<Longrightarrow> length (BigBytes n) \<le> k"
  by (simp add: BigBytes_def length_le_nat_bytes)

lemma SetBytes_replicate_zero: "SetBytes (replicate k 0 @ bs) = SetBytes bs"
  by (induction k) (simp_all add: SetBytes_def)

lemma SetBytes_less: "SetBytes bs < 256 ^ length bs"
proof (induction bs rule: rev_induct)
  case Nil
  then show ?case by (simp add: SetBytes_def)
next
  case (snoc b bs)
  have "unat b < 2 ^ LENGTH(8)" by (rule unsigned_less)
  then have "unat b < 256" by simp
  with snoc show ?case by (simp add: SetBytes_snoc)
qed

text \<open>The bit loop unrolled, for evaluation, and the check value of the CRC-32 catalogue.\<close>

lemma crc32_loop:
  "(crc32_bit ^^ 8) c = crc32_bit (crc32_bit (crc32_bit (crc32_bit
     (crc32_bit (crc32_bit (crc32_bit (crc32_bit c)))))))"
  by (simp add: eval_nat_numeral)

lemmas crc32_eval = ChecksumIEEE_def crc32_byte_def crc32_loop crc32_bit_def

lemma crc32_check: "ChecksumIEEE [49, 50, 51, 52, 53, 54, 55, 56, 57] = 0xCBF43926"
  by (simp add: crc32_eval)

lemma Atoi_examples:
  "Atoi ''300'' = Some 300" "Atoi ''-7'' = Some (-7)" "Atoi '''' = None" "Atoi ''3x'' = None"
  "Atoi ''9223372036854775808'' = None"
  by (simp_all add: Atoi_def digit_value_def)

text \<open>
  Each step of the checksum is injective, so two inputs that differ in exactly one byte have
  different checksums.
\<close>

lemma crc32_bit_top: "bit (crc32_bit c) 31 \<longleftrightarrow> bit c 0"
proof -
  have "\<not> bit (drop_bit 1 c) 31"
    using bit_imp_le_length [of c 32] by (auto simp: bit_simps)
  moreover have "bit (0xEDB88320 :: uint32) 31" by simp
  ultimately show ?thesis by (simp add: crc32_bit_def bit_xor_iff)
qed

lemma crc32_bit_inj: "inj crc32_bit"
proof (rule injI)
  fix c d assume eq: "crc32_bit c = crc32_bit d"
  then have low: "bit c 0 \<longleftrightarrow> bit d 0" using crc32_bit_top by metis
  have "drop_bit 1 c = drop_bit 1 d"
  proof (cases "bit c 0")
    case True
    with low eq have "drop_bit 1 c XOR 0xEDB88320 = drop_bit 1 d XOR 0xEDB88320"
      by (simp add: crc32_bit_def)
    then have "(drop_bit 1 c XOR 0xEDB88320) XOR 0xEDB88320 =
        (drop_bit 1 d XOR 0xEDB88320) XOR 0xEDB88320" by simp
    then show ?thesis by (simp only: xor.assoc xor_self_eq xor.right_neutral)
  next
    case False
    with low eq show ?thesis by (simp add: crc32_bit_def)
  qed
  then have "bit (drop_bit 1 c) n \<longleftrightarrow> bit (drop_bit 1 d) n" for n by simp
  then have high: "bit c (Suc n) \<longleftrightarrow> bit d (Suc n)" for n by (simp add: bit_drop_bit_eq)
  show "c = d"
  proof (rule bit_word_eqI)
    fix n show "bit c n \<longleftrightarrow> bit d n" using low high by (cases n) auto
  qed
qed

lemma crc32_byte_inj: "crc32_byte b c = crc32_byte b' c' \<longleftrightarrow> c XOR ucast b = c' XOR ucast b'"
  unfolding crc32_byte_def by (rule inj_eq) (rule inj_fn [OF crc32_bit_inj])

lemma fold_crc32_inj: "fold crc32_byte bs c = fold crc32_byte bs d \<Longrightarrow> c = d"
proof (induction bs arbitrary: c d)
  case (Cons b bs)
  then have "crc32_byte b c = crc32_byte b d" by simp
  then have "c XOR ucast b = d XOR ucast b" by (simp add: crc32_byte_inj)
  then have "(c XOR ucast b) XOR ucast b = (d XOR ucast b) XOR ucast b" by simp
  then show ?case by (simp only: xor.assoc xor_self_eq xor.right_neutral)
qed simp

lemma ucast_byte_inject: "(ucast (a :: byte) :: uint32) = ucast b \<Longrightarrow> a = b"
proof (rule bit_word_eqI)
  fix n assume eq: "(ucast a :: uint32) = ucast b" and n: "n < LENGTH(8)"
  from eq have "bit (ucast a :: uint32) n \<longleftrightarrow> bit (ucast b :: uint32) n" by simp
  then show "bit a n \<longleftrightarrow> bit b n" using n by (simp add: bit_ucast_iff)
qed

lemma ChecksumIEEE_one_byte:
  assumes "ChecksumIEEE (xs @ b # ys) = ChecksumIEEE (xs @ b' # ys)"
  shows "b = b'"
proof -
  let ?c = "fold crc32_byte xs 0xFFFFFFFF"
  from assms have "fold crc32_byte ys (crc32_byte b ?c) = fold crc32_byte ys (crc32_byte b' ?c)"
    by (simp add: ChecksumIEEE_def)
  then have "crc32_byte b ?c = crc32_byte b' ?c" by (rule fold_crc32_inj)
  then have "?c XOR ucast b = ?c XOR ucast b'" by (simp add: crc32_byte_inj)
  then have "?c XOR (?c XOR ucast b) = ?c XOR (?c XOR ucast b')" by simp
  then have "(ucast b :: uint32) = ucast b'"
    by (simp only: xor.assoc [symmetric] xor_self_eq xor.left_neutral)
  then show ?thesis by (rule ucast_byte_inject)
qed

section \<open>Printing and parsing decimals\<close>

lemma digit_value_char [simp]: "digit_value (digit_char d) = Some (d mod 10)"
proof -
  have "d mod 10 < 10" by simp
  then have "48 + d mod 10 < 256" by linarith
  then have "of_char (digit_char d) = 48 + d mod 10"
    by (simp add: digit_char_def of_char_of)
  then show ?thesis using \<open>d mod 10 < 10\<close> by (simp add: digit_value_def)
qed

lemma atoi_digits_append:
  "atoi_digits acc (xs @ ys) =
     (case atoi_digits acc xs of None \<Rightarrow> None | Some a \<Rightarrow> atoi_digits a ys)"
  by (induction acc xs rule: atoi_digits.induct) (auto split: option.splits)

lemma atoi_digits_fmt: "atoi_digits 0 (fmt_nat n) = Some n"
proof (induction n rule: fmt_nat.induct)
  case (1 n)
  then show ?case
    by (subst fmt_nat.simps) (auto simp: atoi_digits_append)
qed

lemma digit_char_ne [simp]:
  "digit_char d \<noteq> CHR ''-''" "digit_char d \<noteq> CHR ''+''" "digit_char d \<noteq> CHR ''_''"
proof -
  have "digit_value (digit_char d) \<noteq> None" by simp
  moreover have "digit_value (CHR ''-'') = None" "digit_value (CHR ''+'') = None" "digit_value (CHR ''_'') = None"
    by (simp_all add: digit_value_def)
  ultimately show "digit_char d \<noteq> CHR ''-''" "digit_char d \<noteq> CHR ''+''" "digit_char d \<noteq> CHR ''_''"
    by metis+
qed

lemma fmt_nat_digits: "c \<in> set (fmt_nat n) \<Longrightarrow> \<exists>d. c = digit_char d"
proof (induction n rule: fmt_nat.induct)
  case (1 n)
  then show ?case by (subst (asm) (2) fmt_nat.simps) (auto split: if_splits)
qed

lemma fmt_nat_ne [simp]: "fmt_nat n \<noteq> []"
  by (subst fmt_nat.simps) simp

lemma hd_fmt_nat: "hd (fmt_nat n) \<noteq> CHR ''-''" "hd (fmt_nat n) \<noteq> CHR ''+''"
  using fmt_nat_digits [of "hd (fmt_nat n)" n] digit_char_ne by (metis fmt_nat_ne list.set_sel(1))+

lemma Atoi_fmt_nat [simp]: "n < 2 ^ 63 \<Longrightarrow> Atoi (fmt_nat n) = Some (int n)"
  by (simp add: Atoi_def hd_fmt_nat atoi_digits_fmt)

lemma underscore_fmt_nat: "CHR ''_'' \<notin> set (fmt_nat n)"
  using fmt_nat_digits digit_char_ne(3) by metis

end
