(* ===== verification/Transport.thy ===== *)
theory Transport
  imports Go_Std
begin

text \<open>
  \<^verbatim>\<open>mtproto/transport\<close>: the four framing codecs behind the \<^verbatim>\<open>Transport\<close> interface
  (\<^verbatim>\<open>abridged.go\<close>, \<^verbatim>\<open>intermediate.go\<close>, \<^verbatim>\<open>padded.go\<close>, \<^verbatim>\<open>full.go\<close>).  A codec's \<^verbatim>\<open>WritePacket\<close> maps a
  payload and a writer to an optional error and the writer; \<^verbatim>\<open>ReadPacket\<close> maps a reader to an error or
  a payload and the reader.  The \<^verbatim>\<open>buf\<close> argument of \<^verbatim>\<open>ReadPacket\<close> only saves an allocation
  (every byte of the result is overwritten), so it is left out.  The locale \<open>framing\<close> is the
  contract of the interface: a reader of what was written sees the same packets in the
  same order.  The lengths are computed in the width of the code, so a frame over the limit of the full reader is written
  and then refused.
\<close>

section \<open>Abridged\<close>

definition Abridged_Handshake :: "writer \<Rightarrow> goerror option \<times> writer" where
  "Abridged_Handshake w = Write [0xef] w"

definition Abridged_WritePacket :: "bytes \<Rightarrow> writer \<Rightarrow> goerror option \<times> writer" where
  "Abridged_WritePacket payload w =
     (let n = length payload in
      if n mod 4 \<noteq> 0 then (Some ErrInvalidLength, w)
      else
        let len4 = n div 4;
            hdr = (if len4 < 127 then [of_nat len4]
                   else [0x7f, of_nat len4, of_nat (drop_bit 8 len4), of_nat (drop_bit 16 len4)])
        in case Write hdr w of
             (Some err, w) \<Rightarrow> (Some err, w)
           | (None, w) \<Rightarrow> Write payload w)"

definition read_body :: "nat \<Rightarrow> reader \<Rightarrow> (goerror + bytes) \<times> reader" where
  "read_body len r =
     (if len = 0 \<or> len > 16 * 1024 * 1024 then (Inl ErrInvalidLength, r)
      else ReadFull len r)"

definition Abridged_ReadPacket :: "reader \<Rightarrow> (goerror + bytes) \<times> reader" where
  "Abridged_ReadPacket r =
     (case ReadFull 1 r of
        (Inl err, r) \<Rightarrow> (Inl err, r)
      | (Inr first, r) \<Rightarrow>
          if first ! 0 < 0x7f then read_body (unat (first ! 0) * 4) r
          else (case ReadFull 3 r of
              (Inl err, r) \<Rightarrow> (Inl err, r)
            | (Inr lenBytes, r) \<Rightarrow>
                let len4 = unat (lenBytes ! 0) OR push_bit 8 (unat (lenBytes ! 1))
                             OR push_bit 16 (unat (lenBytes ! 2))
                in read_body (len4 * 4) r))"

section \<open>Intermediate\<close>

definition Intermediate_Handshake :: "writer \<Rightarrow> goerror option \<times> writer" where
  "Intermediate_Handshake w = Write [0xee, 0xee, 0xee, 0xee] w"

definition Intermediate_WritePacket :: "bytes \<Rightarrow> writer \<Rightarrow> goerror option \<times> writer" where
  "Intermediate_WritePacket payload w =
     (case Write (le_put 4 (of_nat (length payload) :: uint32)) w of
        (Some err, w) \<Rightarrow> (Some err, w)
      | (None, w) \<Rightarrow> Write payload w)"

definition Intermediate_ReadPacket :: "reader \<Rightarrow> (goerror + bytes) \<times> reader" where
  "Intermediate_ReadPacket r =
     (case ReadFull 4 r of
        (Inl err, r) \<Rightarrow> (Inl err, r)
      | (Inr lenBuf, r) \<Rightarrow> read_body (unat (le_get lenBuf :: uint32)) r)"

section \<open>Padded intermediate\<close>

definition Padded_Handshake :: "writer \<Rightarrow> goerror option \<times> writer" where
  "Padded_Handshake w = Write [0xdd, 0xdd, 0xdd, 0xdd] w"

text \<open>\<open>rnd1\<close> and \<open>rnd2\<close> answer the two \<^verbatim>\<open>rand.Read\<close> calls: the pad count and the pad bytes.\<close>

definition Padded_WritePacket :: "entropy \<times> entropy \<Rightarrow> bytes \<Rightarrow> writer \<Rightarrow> goerror option \<times> writer"
where
  "Padded_WritePacket rnd payload w =
     (case fst rnd 1 of
        Inl err \<Rightarrow> (Some err, w)
      | Inr padCountBuf \<Rightarrow>
          let padLen = unat (padCountBuf ! 0 AND 0x0f)
          in case (if padLen > 0 then snd rnd padLen else Inr []) of
               Inl err \<Rightarrow> (Some err, w)
             | Inr pad \<Rightarrow>
                 let totalLen = length payload + padLen
                 in case Write (le_put 4 (of_nat totalLen :: uint32)) w of
                      (Some err, w) \<Rightarrow> (Some err, w)
                    | (None, w) \<Rightarrow>
                        (case Write payload w of
                           (Some err, w) \<Rightarrow> (Some err, w)
                         | (None, w) \<Rightarrow> if padLen > 0 then Write pad w else (None, w)))"

definition Padded_ReadPacket :: "reader \<Rightarrow> (goerror + bytes) \<times> reader" where
  "Padded_ReadPacket r =
     (case ReadFull 4 r of
        (Inl err, r) \<Rightarrow> (Inl err, r)
      | (Inr lenBuf, r) \<Rightarrow> read_body (unat (le_get lenBuf :: uint32)) r)"

section \<open>Full\<close>

record full =
  sendSeq :: uint32
  recvSeq :: uint32

definition NewFull :: full where
  "NewFull = \<lparr>sendSeq = 0, recvSeq = 0\<rparr>"

definition Full_Handshake :: "writer \<Rightarrow> goerror option \<times> writer" where
  "Full_Handshake w = (None, w)"

definition Full_WritePacket :: "full \<Rightarrow> bytes \<Rightarrow> writer \<Rightarrow> full \<times> goerror option \<times> writer" where
  "Full_WritePacket f payload w =
     (let seq = sendSeq f;
          f = f\<lparr>sendSeq := sendSeq f + 1\<rparr>;
          totalLen = length payload + 12;
          buf = le_put 4 (of_nat totalLen :: uint32) @ le_put 4 seq @ payload;
          checksum = ChecksumIEEE buf
      in (f, Write (buf @ le_put 4 checksum) w))"

definition Full_ReadPacket :: "full \<Rightarrow> reader \<Rightarrow> full \<times> (goerror + bytes) \<times> reader" where
  "Full_ReadPacket f r =
     (case ReadFull 4 r of
        (Inl err, r) \<Rightarrow> (f, Inl err, r)
      | (Inr lenBuf, r) \<Rightarrow>
          let totalLen = unat (le_get lenBuf :: uint32) in
          if totalLen < 12 \<or> totalLen > 16 * 1024 * 1024 then (f, Inl ErrInvalidLength, r)
          else
            let payloadLen = totalLen - 12
            in case ReadFull (totalLen - 4) r of
                 (Inl err, r) \<Rightarrow> (f, Inl err, r)
               | (Inr rest, r) \<Rightarrow>
                   let raw = lenBuf @ rest;
                       expectedCRC = (le_get (drop (totalLen - 4) raw) :: uint32);
                       calculatedCRC = ChecksumIEEE (take (totalLen - 4) raw)
                   in if expectedCRC \<noteq> calculatedCRC then (f, Inl ErrCRCMismatch, r)
                      else (f\<lparr>recvSeq := recvSeq f + 1\<rparr>,
                            Inr (slice_of raw 8 (8 + payloadLen)), r))"

section \<open>The contract of a framing codec\<close>

text \<open>
  Sending a list of packets, each with the random draws \<open>rnd\<close> it needs, stops at the first error;
  receiving \<open>n\<close> packets does too.
\<close>

fun send_all :: "('s \<Rightarrow> 'r \<Rightarrow> bytes \<Rightarrow> writer \<Rightarrow> 's \<times> goerror option \<times> writer) \<Rightarrow>
    's \<Rightarrow> ('r \<times> bytes) list \<Rightarrow> writer \<Rightarrow> 's \<times> goerror option \<times> writer" where
  "send_all put s [] w = (s, None, w)"
| "send_all put s ((rnd, p) # ps) w =
     (case put s rnd p w of
        (s, Some err, w) \<Rightarrow> (s, Some err, w)
      | (s, None, w) \<Rightarrow> send_all put s ps w)"

fun recv_all :: "('s \<Rightarrow> reader \<Rightarrow> 's \<times> (goerror + bytes) \<times> reader) \<Rightarrow>
    's \<Rightarrow> nat \<Rightarrow> reader \<Rightarrow> 's \<times> (goerror + bytes list) \<times> reader" where
  "recv_all get s 0 r = (s, Inr [], r)"
| "recv_all get s (Suc n) r =
     (case get s r of
        (s, Inl err, r) \<Rightarrow> (s, Inl err, r)
      | (s, Inr p, r) \<Rightarrow>
          (case recv_all get s n r of
             (s, Inl err, r) \<Rightarrow> (s, Inl err, r)
           | (s, Inr ps, r) \<Rightarrow> (s, Inr (p # ps), r)))"

locale framing =
  fixes put :: "'s \<Rightarrow> 'r \<Rightarrow> bytes \<Rightarrow> writer \<Rightarrow> 's \<times> goerror option \<times> writer"
    and get :: "'s \<Rightarrow> reader \<Rightarrow> 's \<times> (goerror + bytes) \<times> reader"
    and frame :: "'s \<Rightarrow> 'r \<Rightarrow> bytes \<Rightarrow> bytes"
    and sent :: "'s \<Rightarrow> 's"
    and received :: "'s \<Rightarrow> 's"
    and sendable :: "'r \<Rightarrow> bytes \<Rightarrow> bool"
    and seen :: "'r \<Rightarrow> bytes \<Rightarrow> bytes"
  assumes put_frame: "sendable rnd p \<Longrightarrow> wplan w = [] \<Longrightarrow>
      put s rnd p w = (sent s, None, w\<lparr>wbuf := wbuf w @ frame s rnd p\<rparr>)"
    and get_frame: "sendable rnd p \<Longrightarrow> rin r = frame s rnd p @ rest \<Longrightarrow>
      get t r = (received t, Inr (seen rnd p), r\<lparr>rin := rest\<rparr>)"
    and get_cut: "sendable rnd p \<Longrightarrow> k < length (frame s rnd p) \<Longrightarrow>
      rin r = take k (frame s rnd p) \<Longrightarrow> \<exists>err r'. get t r = (t, Inl err, r')"
begin

fun frames :: "'s \<Rightarrow> ('r \<times> bytes) list \<Rightarrow> bytes" where
  "frames s [] = []"
| "frames s ((rnd, p) # ps) = frame s rnd p @ frames (sent s) ps"

lemma send_all_frames:
  assumes "\<And>rnd p. (rnd, p) \<in> set ps \<Longrightarrow> sendable rnd p" and "wplan w = []"
  shows "send_all put s ps w =
    ((sent ^^ length ps) s, None, w\<lparr>wbuf := wbuf w @ frames s ps\<rparr>)"
  using assms
proof (induction ps arbitrary: s w)
  case Nil
  then show ?case by simp
next
  case (Cons x ps)
  obtain rnd p where x: "x = (rnd, p)" by (cases x)
  have "put s rnd p w = (sent s, None, w\<lparr>wbuf := wbuf w @ frame s rnd p\<rparr>)"
    using Cons.prems x by (intro put_frame) auto
  moreover have "send_all put (sent s) ps (w\<lparr>wbuf := wbuf w @ frame s rnd p\<rparr>) =
      ((sent ^^ length ps) (sent s), None,
        w\<lparr>wbuf := wbuf w @ frame s rnd p @ frames (sent s) ps\<rparr>)"
    using Cons.prems by (subst Cons.IH) simp_all
  ultimately show ?case using x by (simp add: funpow_swap1)
qed

lemma recv_all_frames:
  assumes "\<And>rnd p. (rnd, p) \<in> set ps \<Longrightarrow> sendable rnd p" and "rin r = frames s ps @ rest"
  shows "recv_all get t (length ps) r =
    ((received ^^ length ps) t, Inr (map (\<lambda>(rnd, p). seen rnd p) ps), r\<lparr>rin := rest\<rparr>)"
  using assms
proof (induction ps arbitrary: s t r)
  case Nil
  then show ?case by simp
next
  case (Cons x ps)
  obtain rnd p where x: "x = (rnd, p)" by (cases x)
  have "get t r = (received t, Inr (seen rnd p), r\<lparr>rin := frames (sent s) ps @ rest\<rparr>)"
    using Cons.prems x by (intro get_frame) auto
  moreover have "recv_all get (received t) (length ps) (r\<lparr>rin := frames (sent s) ps @ rest\<rparr>) =
      ((received ^^ length ps) (received t), Inr (map (\<lambda>(rnd, p). seen rnd p) ps),
        r\<lparr>rin := rest\<rparr>)"
    using Cons.prems by (subst Cons.IH [where s = "sent s"]) simp_all
  ultimately show ?case using x by (simp add: funpow_swap1)
qed

lemma stream_roundtrip:
  assumes "\<And>rnd p. (rnd, p) \<in> set ps \<Longrightarrow> sendable rnd p"
    and "send_all put s ps \<lparr>wbuf = [], wplan = []\<rparr> = (s', err, w)"
  shows "err = None \<and>
    recv_all get t (length ps) \<lparr>rin = wbuf w @ rest, rerr = e\<rparr> =
      ((received ^^ length ps) t, Inr (map (\<lambda>(rnd, p). seen rnd p) ps), \<lparr>rin = rest, rerr = e\<rparr>)"
proof -
  have "send_all put s ps \<lparr>wbuf = [], wplan = []\<rparr> =
      ((sent ^^ length ps) s, None, \<lparr>wbuf = frames s ps, wplan = []\<rparr>)"
    using assms(1) by (subst send_all_frames) simp_all
  then have w: "err = None" "wbuf w = frames s ps" using assms(2) by auto
  show ?thesis
    using recv_all_frames [OF assms(1), of ps "\<lparr>rin = wbuf w @ rest, rerr = e\<rparr>" s rest t] w
    by simp
qed

end

section \<open>The codecs meet the contract\<close>

abbreviation max_packet :: nat where
  "max_packet \<equiv> 16 * 1024 * 1024"

lemma read_body_at:
  "0 < length p \<Longrightarrow> length p \<le> max_packet \<Longrightarrow> rin r = p @ rest \<Longrightarrow>
    read_body (length p) r = (Inr p, r\<lparr>rin := rest\<rparr>)"
  by (simp add: read_body_def ReadFull_append)

lemma read_body_short:
  "length (rin r) < len \<Longrightarrow> \<exists>err r'. read_body len r = (Inl err, r')"
  using ReadFull_short [of r len] by (auto simp: read_body_def)

subsection \<open>Intermediate\<close>

definition length_frame :: "bytes \<Rightarrow> bytes" where
  "length_frame p = le_put 4 (of_nat (length p) :: uint32) @ p"

lemma Intermediate_write:
  "wplan w = [] \<Longrightarrow> Intermediate_WritePacket p w = (None, w\<lparr>wbuf := wbuf w @ length_frame p\<rparr>)"
  by (simp add: Intermediate_WritePacket_def length_frame_def)

lemma Intermediate_read:
  assumes "0 < length p" and "length p \<le> max_packet" and "rin r = length_frame p @ rest"
  shows "Intermediate_ReadPacket r = (Inr p, r\<lparr>rin := rest\<rparr>)"
proof -
  have "ReadFull 4 r = (Inr (le_put 4 (of_nat (length p) :: uint32)), r\<lparr>rin := p @ rest\<rparr>)"
    by (rule ReadFull_append) (use assms in \<open>simp_all add: length_frame_def\<close>)
  then show ?thesis
    using assms by (simp add: Intermediate_ReadPacket_def unat_len32 read_body_at)
qed

lemma Intermediate_cut:
  assumes "length p \<le> max_packet" and "k < length (length_frame p)"
    and "rin r = take k (length_frame p)"
  shows "\<exists>err r'. Intermediate_ReadPacket r = (Inl err, r')"
proof (cases "k < 4")
  case True
  then have "length (rin r) < 4" using assms(3) by (simp add: length_frame_def)
  then obtain err where "ReadFull 4 r = (Inl err, r\<lparr>rin := []\<rparr>)" using ReadFull_short by blast
  then show ?thesis by (simp add: Intermediate_ReadPacket_def)
next
  case False
  have "ReadFull 4 r =
      (Inr (le_put 4 (of_nat (length p) :: uint32)), r\<lparr>rin := take (k - 4) p\<rparr>)"
    by (rule ReadFull_append) (use assms False in \<open>simp_all add: length_frame_def\<close>)
  moreover have "\<exists>err r'. read_body (length p) (r\<lparr>rin := take (k - 4) p\<rparr>) = (Inl err, r')"
    by (rule read_body_short) (use assms False in \<open>simp add: length_frame_def\<close>)
  ultimately show ?thesis
    using assms(1) by (simp add: Intermediate_ReadPacket_def unat_len32)
qed

interpretation intermediate: framing
    "\<lambda>_ _ p w. ((), Intermediate_WritePacket p w)" "\<lambda>_ r. ((), Intermediate_ReadPacket r)"
    "\<lambda>_ _ p. length_frame p" "\<lambda>_. ()" "\<lambda>_. ()" "\<lambda>_ p. 0 < length p \<and> length p \<le> max_packet"
    "\<lambda>_ p. p"
  by unfold_locales
    (use Intermediate_write Intermediate_read Intermediate_cut in \<open>(simp, blast?)+\<close>)

subsection \<open>Padded intermediate\<close>

definition padding_drawn :: "entropy \<times> entropy \<Rightarrow> bytes option" where
  "padding_drawn rnd =
     (case fst rnd 1 of
        Inl err \<Rightarrow> None
      | Inr bs \<Rightarrow>
          let padLen = unat (bs ! 0 AND 0x0f)
          in if padLen = 0 then Some []
             else case snd rnd padLen of Inl err \<Rightarrow> None | Inr pad \<Rightarrow> Some pad)"

definition padded_sendable :: "entropy \<times> entropy \<Rightarrow> bytes \<Rightarrow> bool" where
  "padded_sendable rnd p \<longleftrightarrow> rand_ok (snd rnd) \<and>
     (case padding_drawn rnd of
        None \<Rightarrow> False
      | Some pad \<Rightarrow> 0 < length p + length pad \<and> length p + length pad \<le> max_packet)"

definition padded_seen :: "entropy \<times> entropy \<Rightarrow> bytes \<Rightarrow> bytes" where
  "padded_seen rnd p = p @ (case padding_drawn rnd of None \<Rightarrow> [] | Some pad \<Rightarrow> pad)"

lemma Padded_read_Intermediate: "Padded_ReadPacket = Intermediate_ReadPacket"
  by (rule ext) (simp add: Padded_ReadPacket_def Intermediate_ReadPacket_def)

lemma Padded_write:
  assumes "padded_sendable rnd p" and "wplan w = []"
  shows "Padded_WritePacket rnd p w =
    (None, w\<lparr>wbuf := wbuf w @ length_frame (padded_seen rnd p)\<rparr>)"
proof -
  obtain bs where bs: "fst rnd 1 = Inr bs"
    using assms(1) by (auto simp: padded_sendable_def padding_drawn_def split: sum.splits)
  let ?n = "unat (bs ! 0 AND 0x0f)"
  show ?thesis
  proof (cases "?n = 0")
    case True
    with bs assms(2) show ?thesis
      by (simp add: Padded_WritePacket_def padded_seen_def padding_drawn_def length_frame_def)
  next
    case False
    then obtain pad where pad: "snd rnd ?n = Inr pad"
      using assms(1) bs
      by (auto simp: padded_sendable_def padding_drawn_def Let_def split: sum.splits if_splits)
    then have "length pad = ?n" using assms(1) by (simp add: padded_sendable_def rand_ok_def)
    with False bs pad assms(2) show ?thesis
      by (simp add: Padded_WritePacket_def padded_seen_def padding_drawn_def length_frame_def)
  qed
qed

lemma padded_seen_bounds:
  "padded_sendable rnd p \<Longrightarrow>
    0 < length (padded_seen rnd p) \<and> length (padded_seen rnd p) \<le> max_packet"
  by (auto simp: padded_sendable_def padded_seen_def split: option.splits)

interpretation padded: framing
    "\<lambda>_ rnd p w. ((), Padded_WritePacket rnd p w)" "\<lambda>_ r. ((), Padded_ReadPacket r)"
    "\<lambda>_ rnd p. length_frame (padded_seen rnd p)" "\<lambda>_. ()" "\<lambda>_. ()" padded_sendable padded_seen
proof (unfold_locales, goal_cases)
  case (1 rnd p w s)
  then show ?case by (simp add: Padded_write)
next
  case (2 rnd p r s rest t)
  then show ?case
    using Intermediate_read [of "padded_seen rnd p" r rest] padded_seen_bounds [of rnd p]
    by (simp add: Padded_read_Intermediate)
next
  case (3 rnd p k s r t)
  then show ?case
    using Intermediate_cut [of "padded_seen rnd p" k r] padded_seen_bounds [of rnd p]
    by (simp add: Padded_read_Intermediate)
qed

subsection \<open>Abridged\<close>

definition abridged_header :: "nat \<Rightarrow> bytes" where
  "abridged_header len4 =
     (if len4 < 127 then [of_nat len4]
      else [0x7f, of_nat len4, of_nat (drop_bit 8 len4), of_nat (drop_bit 16 len4)])"

definition abridged_frame :: "bytes \<Rightarrow> bytes" where
  "abridged_frame p = abridged_header (length p div 4) @ p"

definition abridged_sendable :: "bytes \<Rightarrow> bool" where
  "abridged_sendable p \<longleftrightarrow> length p mod 4 = 0 \<and> 0 < length p \<and> length p \<le> max_packet"

lemma Abridged_write:
  "length p mod 4 = 0 \<Longrightarrow> wplan w = [] \<Longrightarrow>
    Abridged_WritePacket p w = (None, w\<lparr>wbuf := wbuf w @ abridged_frame p\<rparr>)"
  by (simp add: Abridged_WritePacket_def abridged_frame_def abridged_header_def Let_def)

text \<open>Reading a header leads to the body, whatever follows the header.\<close>

lemma Abridged_read_header:
  assumes "4 * n \<le> max_packet" and "rin r = abridged_header n @ rest"
  shows "Abridged_ReadPacket r = read_body (4 * n) (r\<lparr>rin := rest\<rparr>)"
proof (cases "n < 127")
  case True
  have "ReadFull 1 r = (Inr [of_nat n], r\<lparr>rin := rest\<rparr>)"
    by (rule ReadFull_append) (use assms True in \<open>simp_all add: abridged_header_def\<close>)
  moreover have "unat (of_nat n :: byte) = n" using True by (simp add: unat_of_nat)
  moreover have "(of_nat n :: byte) < 0x7f"
    using True by (simp add: word_less_nat_alt unat_of_nat)
  ultimately show ?thesis by (simp add: Abridged_ReadPacket_def mult.commute)
next
  case False
  let ?ls = "[of_nat n, of_nat (drop_bit 8 n), of_nat (drop_bit 16 n)] :: bytes"
  have "ReadFull 1 r = (Inr [0x7f], r\<lparr>rin := ?ls @ rest\<rparr>)"
    by (rule ReadFull_append) (use assms False in \<open>simp_all add: abridged_header_def\<close>)
  moreover have "ReadFull 3 (r\<lparr>rin := ?ls @ rest\<rparr>) = (Inr ?ls, r\<lparr>rin := rest\<rparr>)"
    using ReadFull_append [of 3 ?ls "r\<lparr>rin := ?ls @ rest\<rparr>" rest] by simp
  ultimately show ?thesis
    using len24_bytes [of n] assms(1)
    by (simp add: Abridged_ReadPacket_def Let_def mult.commute)
qed

lemma Abridged_read:
  assumes "abridged_sendable p" and "rin r = abridged_frame p @ rest"
  shows "Abridged_ReadPacket r = (Inr p, r\<lparr>rin := rest\<rparr>)"
proof -
  have len: "4 * (length p div 4) = length p" using assms(1) by (auto simp: abridged_sendable_def)
  have "Abridged_ReadPacket r = read_body (length p) (r\<lparr>rin := p @ rest\<rparr>)"
    using Abridged_read_header [of "length p div 4" r "p @ rest"] assms len
    by (simp add: abridged_sendable_def abridged_frame_def)
  then show ?thesis
    using assms(1) by (simp add: abridged_sendable_def read_body_at)
qed

lemma Abridged_cut:
  assumes "abridged_sendable p" and "k < length (abridged_frame p)"
    and "rin r = take k (abridged_frame p)"
  shows "\<exists>err r'. Abridged_ReadPacket r = (Inl err, r')"
proof -
  let ?n = "length p div 4" let ?h = "length (abridged_header ?n)"
  have len: "4 * ?n = length p" using assms(1) by (auto simp: abridged_sendable_def)
  consider "k = 0" | "0 < k" "k < ?h" | "?h \<le> k" by linarith
  then show ?thesis
  proof cases
    case 1
    then show ?thesis using assms(3) by (simp add: Abridged_ReadPacket_def ReadFull_def)
  next
    case 2
    then have n: "\<not> ?n < 127" by (auto simp: abridged_header_def split: if_splits)
    have k4: "k < 4" using 2 n by (simp add: abridged_header_def)
    obtain j where j: "k = Suc j" using 2 by (cases k) auto
    have "ReadFull 1 r = (Inr [0x7f], r\<lparr>rin := take j (tl (abridged_header ?n) @ p)\<rparr>)"
      by (rule ReadFull_append)
        (use assms(3) n j in \<open>simp_all add: abridged_frame_def abridged_header_def\<close>)
    moreover have "\<exists>err r'. ReadFull 3 (r\<lparr>rin := take j (tl (abridged_header ?n) @ p)\<rparr>) = (Inl err, r')"
      by (rule ReadFull_take_short) (use j k4 in simp)
    ultimately show ?thesis by (auto simp: Abridged_ReadPacket_def)
  next
    case 3
    have "Abridged_ReadPacket r = read_body (length p) (r\<lparr>rin := take (k - ?h) p\<rparr>)"
      using Abridged_read_header [of ?n r "take (k - ?h) p"] assms len 3
      by (simp add: abridged_sendable_def abridged_frame_def)
    moreover have "\<exists>err r'. read_body (length p) (r\<lparr>rin := take (k - ?h) p\<rparr>) = (Inl err, r')"
      by (rule read_body_short) (use assms(2) 3 in \<open>simp add: abridged_frame_def\<close>)
    ultimately show ?thesis by simp
  qed
qed

interpretation abridged: framing
    "\<lambda>_ _ p w. ((), Abridged_WritePacket p w)" "\<lambda>_ r. ((), Abridged_ReadPacket r)"
    "\<lambda>_ _ p. abridged_frame p" "\<lambda>_. ()" "\<lambda>_. ()" "\<lambda>_ p. abridged_sendable p" "\<lambda>_ p. p"
  by unfold_locales
    (use Abridged_read Abridged_cut in \<open>simp_all add: Abridged_write abridged_sendable_def\<close>)

subsection \<open>Full\<close>

definition full_frame :: "uint32 \<Rightarrow> bytes \<Rightarrow> bytes" where
  "full_frame seq p =
     (let buf = le_put 4 (of_nat (length p + 12) :: uint32) @ le_put 4 seq @ p
      in buf @ le_put 4 (ChecksumIEEE buf))"

definition full_sent :: "full \<Rightarrow> full" where
  "full_sent f = f\<lparr>sendSeq := sendSeq f + 1\<rparr>"

definition full_received :: "full \<Rightarrow> full" where
  "full_received f = f\<lparr>recvSeq := recvSeq f + 1\<rparr>"

lemma length_full_frame [simp]: "length (full_frame seq p) = length p + 12"
  by (simp add: full_frame_def Let_def)

lemma Full_write:
  "wplan w = [] \<Longrightarrow> Full_WritePacket f p w =
    (full_sent f, None, w\<lparr>wbuf := wbuf w @ full_frame (sendSeq f) p\<rparr>)"
  by (simp add: Full_WritePacket_def full_frame_def full_sent_def Let_def)

text \<open>
  The reader, on any bytes that start with the length \<open>n + 12\<close>: it checks the trailing four
  bytes against the checksum of all that precede them, and looks at nothing else.
\<close>

lemma Full_read_any:
  assumes "n + 12 \<le> max_packet" and "length seq = 4" and "length p = n" and "length crc = 4"
    and "rin r = le_put 4 (of_nat (n + 12) :: uint32) @ seq @ p @ crc @ rest"
  shows "Full_ReadPacket f r =
    (if le_get crc = ChecksumIEEE (le_put 4 (of_nat (n + 12) :: uint32) @ seq @ p)
     then (full_received f, Inr p, r\<lparr>rin := rest\<rparr>)
     else (f, Inl ErrCRCMismatch, r\<lparr>rin := rest\<rparr>))"
proof -
  let ?l = "le_put 4 (of_nat (n + 12) :: uint32)"
  have 1: "ReadFull 4 r = (Inr ?l, r\<lparr>rin := seq @ p @ crc @ rest\<rparr>)"
    by (rule ReadFull_append) (use assms in simp_all)
  have 2: "ReadFull (n + 12 - 4) (r\<lparr>rin := seq @ p @ crc @ rest\<rparr>) =
      (Inr (seq @ p @ crc), r\<lparr>rin := rest\<rparr>)"
    using ReadFull_append [of "n + 12 - 4" "seq @ p @ crc" "r\<lparr>rin := seq @ p @ crc @ rest\<rparr>" rest]
      assms by simp
  have u: "unat (of_nat (n + 12) :: uint32) = n + 12"
    using assms(1) by (intro unat_len32) simp
  have crc: "drop (n + 12 - 4) (?l @ seq @ p @ crc) = crc"
    and body: "take (n + 12 - 4) (?l @ seq @ p @ crc) = ?l @ seq @ p"
    and pay: "slice_of (?l @ seq @ p @ crc) 8 (8 + (n + 12 - 12)) = p"
    using assms slice_of_append_mid [of "?l @ seq" 8 "8 + n" p crc] by simp_all
  show ?thesis
    unfolding Full_ReadPacket_def
    using 1 2 u crc body pay assms(1) by (simp add: Let_def full_received_def)
qed

lemma Full_read:
  assumes "length p + 12 \<le> max_packet" and "rin r = full_frame seq p @ rest"
  shows "Full_ReadPacket f r = (full_received f, Inr p, r\<lparr>rin := rest\<rparr>)"
  using Full_read_any [OF assms(1), of "le_put 4 seq" p
      "le_put 4 (ChecksumIEEE (le_put 4 (of_nat (length p + 12) :: uint32) @ le_put 4 seq @ p))"
      r rest f] assms(2)
  by (simp add: full_frame_def Let_def)

lemma Full_cut:
  assumes "length p + 12 \<le> max_packet" and "k < length (full_frame seq p)"
    and "rin r = take k (full_frame seq p)"
  shows "\<exists>err r'. Full_ReadPacket f r = (f, Inl err, r')"
proof (cases "k < 4")
  case True
  then have "length (rin r) < 4" using assms(3) by simp
  then obtain err where "ReadFull 4 r = (Inl err, r\<lparr>rin := []\<rparr>)" using ReadFull_short by blast
  then show ?thesis by (simp add: Full_ReadPacket_def)
next
  case False
  let ?l = "le_put 4 (of_nat (length p + 12) :: uint32)"
  let ?r = "r\<lparr>rin := take (k - 4) (drop 4 (full_frame seq p))\<rparr>"
  have "take k (full_frame seq p) = ?l @ take (k - 4) (drop 4 (full_frame seq p))"
    using False by (simp add: full_frame_def Let_def)
  then have 1: "ReadFull 4 r = (Inr ?l, ?r)"
    by (intro ReadFull_append) (use assms(3) in simp_all)
  have "k - 4 < length p + 12 - 4" using assms(2) False by simp
  then obtain err r' where 2: "ReadFull (length p + 12 - 4) ?r = (Inl err, r')"
    using ReadFull_take_short by blast
  have "unat (of_nat (length p + 12) :: uint32) = length p + 12"
    using assms(1) by (intro unat_len32) simp
  then show ?thesis
    using 1 2 assms(1) by (simp add: Full_ReadPacket_def Let_def)
qed

interpretation full: framing
    "\<lambda>f _ p w. Full_WritePacket f p w" Full_ReadPacket "\<lambda>f _ p. full_frame (sendSeq f) p"
    full_sent full_received "\<lambda>_ p. length p + 12 \<le> max_packet" "\<lambda>_ p. p"
  by unfold_locales (use Full_write Full_read Full_cut in auto)

section \<open>What the checksum detects\<close>

lemma Full_read_raw:
  assumes "n + 12 \<le> max_packet" and "length fr = n + 12"
    and "take 4 fr = le_put 4 (of_nat (n + 12) :: uint32)" and "rin r = fr @ rest"
  shows "Full_ReadPacket f r =
    (if le_get (drop (8 + n) fr) = ChecksumIEEE (take (8 + n) fr)
     then (full_received f, Inr (slice_of fr 8 (8 + n)), r\<lparr>rin := rest\<rparr>)
     else (f, Inl ErrCRCMismatch, r\<lparr>rin := rest\<rparr>))"
proof -
  let ?seq = "slice_of fr 4 8" and ?p = "slice_of fr 8 (8 + n)" and ?crc = "drop (8 + n) fr"
  let ?l = "le_put 4 (of_nat (n + 12) :: uint32)"
  have "fr = take 4 fr @ drop 4 fr" by simp
  also have "drop 4 fr = ?seq @ drop 8 fr"
    by (rule drop_eq_slice) (use assms(2) in simp_all)
  also have "drop 8 fr = ?p @ ?crc"
    by (rule drop_eq_slice) (use assms(2) in simp_all)
  finally have fr: "fr = ?l @ ?seq @ ?p @ ?crc" by (simp only: assms(3))
  have len: "length ?seq = 4" "length ?p = n" "length ?crc = 4" using assms(2) by simp_all
  have body: "take (8 + n) fr = ?l @ ?seq @ ?p"
    using len by (subst fr) simp
  have "rin r = ?l @ ?seq @ ?p @ ?crc @ rest"
    using assms(4) by (subst (asm) fr) simp
  from Full_read_any [OF assms(1) len(1,2,3) this] show ?thesis by (simp only: body)
qed

lemma Full_detects_change:
  assumes "length p + 12 \<le> max_packet" and "4 \<le> i" and "i < length p + 12"
    and "b \<noteq> full_frame seq p ! i" and "rin r = (full_frame seq p)[i := b] @ rest"
  shows "Full_ReadPacket f r = (f, Inl ErrCRCMismatch, r\<lparr>rin := rest\<rparr>)"
proof -
  let ?n = "length p" and ?fr = "full_frame seq p"
  let ?body = "le_put 4 (of_nat (?n + 12) :: uint32) @ le_put 4 seq @ p"
  let ?crc = "le_put 4 (ChecksumIEEE ?body)"
  have fr: "?fr = ?body @ ?crc" by (simp add: full_frame_def Let_def)
  have head: "take 4 (?fr[i := b]) = le_put 4 (of_nat (?n + 12) :: uint32)"
    using assms(2) by (simp add: fr take_update_cancel)
  have "le_get (drop (8 + ?n) (?fr[i := b])) \<noteq> ChecksumIEEE (take (8 + ?n) (?fr[i := b]))"
  proof (cases "i < 8 + ?n")
    case True
    have crc: "drop (8 + ?n) (?fr[i := b]) = ?crc"
      using True by (simp add: drop_update_cancel) (simp add: fr)
    have i: "i < length ?body" using True by simp
    have "?fr[i := b] = ?body[i := b] @ ?crc"
      using i by (simp only: fr list_update_append1)
    then have "take (8 + ?n) (?fr[i := b]) = ?body[i := b]" by simp
    then have upd: "take (8 + ?n) (?fr[i := b]) = take i ?body @ b # drop (Suc i) ?body"
      by (simp only: upd_conv_take_nth_drop [OF i])
    have body: "?body = take i ?body @ ?body ! i # drop (Suc i) ?body"
      using i by (rule id_take_nth_drop)
    have nth: "?fr ! i = ?body ! i" using i by (simp only: fr nth_append_left)
    show ?thesis
    proof
      assume "le_get (drop (8 + ?n) (?fr[i := b])) = ChecksumIEEE (take (8 + ?n) (?fr[i := b]))"
      then have "ChecksumIEEE ?body = ChecksumIEEE (take i ?body @ b # drop (Suc i) ?body)"
        unfolding crc upd by simp
      then have "ChecksumIEEE (take i ?body @ ?body ! i # drop (Suc i) ?body) =
          ChecksumIEEE (take i ?body @ b # drop (Suc i) ?body)"
        using body by metis
      then show False using ChecksumIEEE_one_byte assms(4) nth by metis
    qed
  next
    case False
    define j where "j = i - (8 + ?n)"
    have j: "i = length ?body + j" and j4: "j < length ?crc"
      using False assms(3) by (simp_all add: j_def)
    have nth: "?fr ! i = ?crc ! j" by (simp only: fr j nth_append_length_plus)
    have crc: "drop (8 + ?n) (?fr[i := b]) = ?crc[j := b]"
      using False by (simp add: drop_update_swap j_def) (simp add: fr)
    have "take (8 + ?n) (?fr[i := b]) = take (8 + ?n) ?fr"
      using False by (simp add: take_update_cancel)
    then have body: "take (8 + ?n) (?fr[i := b]) = ?body" by (simp add: fr)
    show ?thesis
    proof
      assume "le_get (drop (8 + ?n) (?fr[i := b])) = ChecksumIEEE (take (8 + ?n) (?fr[i := b]))"
      then have "le_get (?crc[j := b]) = ChecksumIEEE ?body" by (simp only: crc body)
      then have "le_put (length (?crc[j := b])) (le_get (?crc[j := b]) :: uint32) = ?crc" by simp
      then have "?crc[j := b] = ?crc" by (subst (asm) le_put_le_get) simp_all
      then have "?crc ! j = b" using j4 by (metis nth_list_update_eq)
      then show False using assms(4) nth by simp
    qed
  qed
  moreover have "length (?fr[i := b]) = ?n + 12" by simp
  ultimately show ?thesis
    using Full_read_raw [of ?n "?fr[i := b]" r rest f] head assms(1,5) by simp
qed

section \<open>Properties\<close>

text \<open>The packets of a list of sends, and the empty connection they are written to.\<close>

abbreviation fresh_writer :: writer where "fresh_writer \<equiv> \<lparr>wbuf = [], wplan = []\<rparr>"

text \<open>
  Abridged transport: any sequence of non-empty packets of whole words up to 16 MB that is written
  to a connection is read from it packet by packet, unchanged and in order.
\<close>
theorem abridged_stream:
  assumes "\<forall>p \<in> set ps. length p mod 4 = 0 \<and> 0 < length p \<and> length p \<le> max_packet"
    and "send_all (\<lambda>_ _ p w. ((), Abridged_WritePacket p w)) () (map (Pair ()) ps) fresh_writer = (s, err, w)"
  shows "err = None \<and>
    recv_all (\<lambda>_ r. ((), Abridged_ReadPacket r)) () (length ps) \<lparr>rin = wbuf w @ rest, rerr = e\<rparr> =
      ((), Inr ps, \<lparr>rin = rest, rerr = e\<rparr>)"
proof -
  have ok: "abridged_sendable p" if "(rnd, p) \<in> set (map (Pair ()) ps)" for rnd p
    using that assms(1) by (auto simp: abridged_sendable_def)
  from abridged.stream_roundtrip [OF ok assms(2), where rest = rest and e = e] show ?thesis
    by (simp add: comp_def)
qed

text \<open>A short packet and one whose length needs the four-byte header.\<close>

theorem abridged_stream_witness:
  "\<exists>w. send_all (\<lambda>_ _ p w. ((), Abridged_WritePacket p w)) ()
       (map (Pair ()) [[1, 2, 3, 4], replicate 600 5]) fresh_writer = ((), None, w) \<and>
     fst (snd (recv_all (\<lambda>_ r. ((), Abridged_ReadPacket r)) () 2 \<lparr>rin = wbuf w @ [], rerr = IoEOF\<rparr>)) =
       Inr [[1, 2, 3, 4], replicate 600 5]"
proof -
  let ?ps = "[[1, 2, 3, 4], replicate 600 5] :: bytes list"
  obtain s err w where w: "send_all (\<lambda>_ _ p w. ((), Abridged_WritePacket p w)) () (map (Pair ()) ?ps) fresh_writer = (s, err, w)"
    by (metis prod_cases3)
  have "\<forall>p \<in> set ?ps. length p mod 4 = 0 \<and> 0 < length p \<and> length p \<le> max_packet" by simp
  from abridged_stream [OF this w, of "[]" IoEOF] w show ?thesis
    by (auto simp: numeral_2_eq_2)
qed

text \<open>The frames of a sequence of packets, and what the reader makes of them and of one that is too long.\<close>

abbreviation full_fits :: "bytes \<Rightarrow> bool" where
  "full_fits p \<equiv> length p + 12 \<le> max_packet"

fun full_frames :: "uint32 \<Rightarrow> bytes list \<Rightarrow> bytes" where
  "full_frames seq [] = []"
| "full_frames seq (p # ps) = full_frame seq p @ full_frames (seq + 1) ps"

lemma full_send_all:
  "wplan w = [] \<Longrightarrow> send_all (\<lambda>f _ p w. Full_WritePacket f p w) f (map (Pair ()) ps) w =
    (f\<lparr>sendSeq := sendSeq f + of_nat (length ps)\<rparr>, None, w\<lparr>wbuf := wbuf w @ full_frames (sendSeq f) ps\<rparr>)"
  by (induction ps arbitrary: f w) (simp_all add: Full_write full_sent_def add.assoc)

lemma Full_read_too_long:
  assumes "\<not> full_fits p" "length p + 12 < 2 ^ 32" "rin r = full_frame seq p @ rest"
  shows "\<exists>r'. Full_ReadPacket f r = (f, Inl ErrInvalidLength, r')"
proof -
  let ?l = "le_put 4 (of_nat (length p + 12) :: uint32)"
  obtain more where "rin r = ?l @ more" using assms(3) by (simp add: full_frame_def Let_def)
  then have "ReadFull 4 r = (Inr ?l, r\<lparr>rin := more\<rparr>)" by (intro ReadFull_append) simp_all
  moreover have "unat (of_nat (length p + 12) :: uint32) = length p + 12"
    using assms(2) by (simp only: unsigned_of_nat) (simp add: take_bit_nat_eq_self)
  ultimately show ?thesis using assms(1) by (simp add: Full_ReadPacket_def Let_def)
qed

lemma full_recv_all:
  assumes "\<forall>p \<in> set ps. length p + 12 < 2 ^ 32"
  shows "\<exists>r'. recv_all Full_ReadPacket g (length ps) \<lparr>rin = full_frames seq ps @ rest, rerr = e\<rparr> =
    (g\<lparr>recvSeq := recvSeq g + of_nat (length (takeWhile full_fits ps))\<rparr>,
     if \<forall>p \<in> set ps. full_fits p then Inr ps else Inl ErrInvalidLength, r') \<and>
    ((\<forall>p \<in> set ps. full_fits p) \<longrightarrow> r' = \<lparr>rin = rest, rerr = e\<rparr>)"
  using assms
proof (induction ps arbitrary: g seq)
  case (Cons p ps)
  let ?r = "\<lparr>rin = full_frames seq (p # ps) @ rest, rerr = e\<rparr>"
  show ?case
  proof (cases "full_fits p")
    case True
    have "Full_ReadPacket g ?r = (full_received g, Inr p, \<lparr>rin = full_frames (seq + 1) ps @ rest, rerr = e\<rparr>)"
      using Full_read [OF True, of ?r seq "full_frames (seq + 1) ps @ rest" g] by simp
    with Cons.IH [of "full_received g" "seq + 1"] Cons.prems True show ?thesis
      by (auto simp: full_received_def add.assoc)
  next
    case False
    obtain r' where "Full_ReadPacket g ?r = (g, Inl ErrInvalidLength, r')"
      using Full_read_too_long [OF False, of ?r seq "full_frames (seq + 1) ps @ rest" g] Cons.prems by auto
    with False show ?thesis by auto
  qed
qed simp

text \<open>
  C15. Full transport: any sequence of packets is written without an error and counted.  The reader
  reads the packets back unchanged and in order as long as their frames fit 16 MB; the first longer one
  (below 4 GB) is refused with \<^verbatim>\<open>ErrInvalidLength\<close>, a limit the writer does not check.
\<close>
theorem full_stream:
  assumes "\<forall>p \<in> set ps. length p + 12 < 2 ^ 32"
    and "send_all (\<lambda>f _ p w. Full_WritePacket f p w) f (map (Pair ()) ps) fresh_writer = (f', err, w)"
  shows "err = None \<and> sendSeq f' = sendSeq f + of_nat (length ps) \<and>
    (if \<forall>p \<in> set ps. length p + 12 \<le> max_packet then
       recv_all Full_ReadPacket g (length ps) \<lparr>rin = wbuf w @ rest, rerr = e\<rparr> =
         (g\<lparr>recvSeq := recvSeq g + of_nat (length ps)\<rparr>, Inr ps, \<lparr>rin = rest, rerr = e\<rparr>)
     else \<exists>r. recv_all Full_ReadPacket g (length ps) \<lparr>rin = wbuf w @ rest, rerr = e\<rparr> =
         (g\<lparr>recvSeq := recvSeq g + of_nat (length (takeWhile (\<lambda>p. length p + 12 \<le> max_packet) ps))\<rparr>,
          Inl ErrInvalidLength, r))"
proof -
  have sent: "err = None" "f' = f\<lparr>sendSeq := sendSeq f + of_nat (length ps)\<rparr>" "wbuf w = full_frames (sendSeq f) ps"
    using assms(2) full_send_all [of fresh_writer f ps] by auto
  note r = full_recv_all [OF assms(1), of g "sendSeq f" rest e]
  show ?thesis
  proof (cases "\<forall>p \<in> set ps. full_fits p")
    case True
    then have "takeWhile full_fits ps = ps" by (simp only: takeWhile_eq_all_conv)
    then have "length (takeWhile full_fits ps) = length ps" by (rule arg_cong)
    with r True sent show ?thesis by simp
  next
    case False
    with r sent show ?thesis by auto
  qed
qed

text \<open>Two packets that arrive, and one of 20 MB that is refused.\<close>

theorem full_stream_witness:
  "\<exists>f' w v. send_all (\<lambda>f _ p w. Full_WritePacket f p w) NewFull (map (Pair ()) [[1, 2], []]) fresh_writer
       = (f', None, w) \<and> sendSeq f' = 2 \<and>
     fst (snd (recv_all Full_ReadPacket NewFull 2 \<lparr>rin = wbuf w @ [], rerr = IoEOF\<rparr>)) = Inr [[1, 2], []] \<and>
     send_all (\<lambda>f _ p w. Full_WritePacket f p w) NewFull (map (Pair ()) [replicate 20000000 7]) fresh_writer
       = (NewFull\<lparr>sendSeq := 1\<rparr>, None, v) \<and>
     fst (snd (recv_all Full_ReadPacket NewFull 1 \<lparr>rin = wbuf v @ [], rerr = IoEOF\<rparr>)) = Inl ErrInvalidLength"
proof -
  let ?ps = "[[1, 2], []] :: bytes list" and ?big = "[replicate 20000000 7] :: bytes list"
  obtain f' err w where w: "send_all (\<lambda>f _ p w. Full_WritePacket f p w) NewFull (map (Pair ()) ?ps) fresh_writer = (f', err, w)"
    by (metis prod_cases3)
  obtain v where v: "send_all (\<lambda>f _ p w. Full_WritePacket f p w) NewFull (map (Pair ()) ?big) fresh_writer =
      (NewFull\<lparr>sendSeq := 1\<rparr>, None, v)"
    using full_send_all [of fresh_writer NewFull ?big] by (simp add: NewFull_def)
  have "\<forall>p \<in> set ?ps. length p + 12 < 2 ^ 32" "\<forall>p \<in> set ?big. length p + 12 < 2 ^ 32" by simp_all
  from full_stream [OF this(1) w, of NewFull "[]" IoEOF] full_stream [OF this(2) v, of NewFull "[]" IoEOF] w v
  show ?thesis by (auto simp: numeral_2_eq_2 NewFull_def)
qed

text \<open>
  C10. Full transport: the checksum catches any change of one byte after the length field (the
  sequence number, the payload or the checksum itself); the packet is consumed and the receive counter
  does not move.
\<close>
theorem full_detects_corruption:
  assumes "length payload + 12 \<le> max_packet"
    and "Full_WritePacket f payload fresh_writer = (f', None, w)"
    and "4 \<le> i" "i < length payload + 12" "b \<noteq> wbuf w ! i"
  shows "Full_ReadPacket g \<lparr>rin = (wbuf w)[i := b] @ rest, rerr = e\<rparr> =
    (g, Inl ErrCRCMismatch, \<lparr>rin = rest, rerr = e\<rparr>)"
  using Full_detects_change [OF assms(1,3,4), of b "sendSeq f" "\<lparr>rin = (wbuf w)[i := b] @ rest, rerr = e\<rparr>" rest g]
    Full_write [of fresh_writer f payload] assms(2,5)
  by simp

theorem full_detects_corruption_witness:
  "\<exists>f' w. Full_WritePacket NewFull [1, 2, 3, 4] fresh_writer = (f', None, w) \<and>
     (wbuf w ! 9 \<noteq> 77 \<longrightarrow> Full_ReadPacket NewFull \<lparr>rin = (wbuf w)[9 := 77] @ [], rerr = IoEOF\<rparr> =
       (NewFull, Inl ErrCRCMismatch, \<lparr>rin = [], rerr = IoEOF\<rparr>)) \<and> wbuf w ! 9 = 2"
proof -
  obtain f' w where w: "Full_WritePacket NewFull [1, 2, 3, 4] fresh_writer = (f', None, w)"
    using Full_write [of fresh_writer NewFull "[1, 2, 3, 4]"] by simp
  moreover have "wbuf w ! 9 = 2"
    using w by (auto simp: Full_WritePacket_def Let_def nth_append)
  ultimately show ?thesis
    using full_detects_corruption [OF _ w, of 9 77 NewFull "[]" IoEOF] by auto
qed

text \<open>
  Padded transport: a packet arrives with the random padding still attached; \<^verbatim>\<open>ReadPacket\<close> returns
  the payload followed by up to 15 bytes of padding.
\<close>
theorem padded_keeps_padding:
  assumes "rand_ok (snd rnd)" "fst rnd 1 = Inr [c]" "unat (c AND 0x0f) = n"
    "n = 0 \<and> pad = [] \<or> snd rnd n = Inr pad \<and> 0 < n"
    "0 < length payload" "length payload + n \<le> max_packet"
  shows "\<exists>w. Padded_WritePacket rnd payload fresh_writer = (None, w) \<and>
    Padded_ReadPacket \<lparr>rin = wbuf w @ rest, rerr = e\<rparr> =
      (Inr (payload @ pad), \<lparr>rin = rest, rerr = e\<rparr>) \<and> length pad = n \<and> n < 16"
proof -
  have d: "padding_drawn rnd = Some pad"
    using assms by (auto simp: padding_drawn_def)
  have l: "length pad = n" using assms(1,4) by (auto simp: rand_ok_def)
  have ok: "padded_sendable rnd payload"
    using d l assms by (simp add: padded_sendable_def)
  have seen: "padded_seen rnd payload = payload @ pad" using d by (simp add: padded_seen_def)
  have "c AND 0x0f \<le> 0x0f" by (rule word_and_le1)
  then have "n < 16" using assms(3) by (simp add: word_le_nat_alt)
  then show ?thesis
    using padded.get_frame [OF ok, of "\<lparr>rin = length_frame (payload @ pad) @ rest, rerr = e\<rparr>" rest]
      Padded_write [OF ok, of fresh_writer] l seen
    by simp
qed

theorem padded_keeps_padding_witness:
  "\<exists>w. Padded_WritePacket (\<lambda>n. Inr [2], \<lambda>n. Inr (replicate n 9)) [1, 1, 1, 1] fresh_writer = (None, w) \<and>
     fst (Padded_ReadPacket \<lparr>rin = wbuf w @ [], rerr = IoEOF\<rparr>) = Inr [1, 1, 1, 1, 9, 9]"
proof -
  have "replicate 2 9 = [9, 9 :: byte]" by (simp add: numeral_2_eq_2)
  then show ?thesis
    using padded_keeps_padding [of "(\<lambda>n. Inr [2], \<lambda>n. Inr (replicate n 9))" 2 2 "[9, 9]" "[1, 1, 1, 1]" "[]" IoEOF]
    by (auto simp: rand_ok_def)
qed

end
