(* ===== verification/Std_AES.thy ===== *)
theory Std_AES
  imports Prelude
begin

text \<open>
  The AES-256 block cipher of \<^verbatim>\<open>crypto/aes\<close> (FIPS 197) over blocks of 16 bytes in column
  order, and the proof that its two directions are inverse.  The state is a byte list; the
  key schedule is a list of fifteen round keys.
\<close>

section \<open>Byte substitution\<close>

definition aes_sbox :: "nat list" where
  "aes_sbox = [
     0x63, 0x7c, 0x77, 0x7b, 0xf2, 0x6b, 0x6f, 0xc5, 0x30, 0x01, 0x67, 0x2b, 0xfe, 0xd7, 0xab, 0x76,
     0xca, 0x82, 0xc9, 0x7d, 0xfa, 0x59, 0x47, 0xf0, 0xad, 0xd4, 0xa2, 0xaf, 0x9c, 0xa4, 0x72, 0xc0,
     0xb7, 0xfd, 0x93, 0x26, 0x36, 0x3f, 0xf7, 0xcc, 0x34, 0xa5, 0xe5, 0xf1, 0x71, 0xd8, 0x31, 0x15,
     0x04, 0xc7, 0x23, 0xc3, 0x18, 0x96, 0x05, 0x9a, 0x07, 0x12, 0x80, 0xe2, 0xeb, 0x27, 0xb2, 0x75,
     0x09, 0x83, 0x2c, 0x1a, 0x1b, 0x6e, 0x5a, 0xa0, 0x52, 0x3b, 0xd6, 0xb3, 0x29, 0xe3, 0x2f, 0x84,
     0x53, 0xd1, 0x00, 0xed, 0x20, 0xfc, 0xb1, 0x5b, 0x6a, 0xcb, 0xbe, 0x39, 0x4a, 0x4c, 0x58, 0xcf,
     0xd0, 0xef, 0xaa, 0xfb, 0x43, 0x4d, 0x33, 0x85, 0x45, 0xf9, 0x02, 0x7f, 0x50, 0x3c, 0x9f, 0xa8,
     0x51, 0xa3, 0x40, 0x8f, 0x92, 0x9d, 0x38, 0xf5, 0xbc, 0xb6, 0xda, 0x21, 0x10, 0xff, 0xf3, 0xd2,
     0xcd, 0x0c, 0x13, 0xec, 0x5f, 0x97, 0x44, 0x17, 0xc4, 0xa7, 0x7e, 0x3d, 0x64, 0x5d, 0x19, 0x73,
     0x60, 0x81, 0x4f, 0xdc, 0x22, 0x2a, 0x90, 0x88, 0x46, 0xee, 0xb8, 0x14, 0xde, 0x5e, 0x0b, 0xdb,
     0xe0, 0x32, 0x3a, 0x0a, 0x49, 0x06, 0x24, 0x5c, 0xc2, 0xd3, 0xac, 0x62, 0x91, 0x95, 0xe4, 0x79,
     0xe7, 0xc8, 0x37, 0x6d, 0x8d, 0xd5, 0x4e, 0xa9, 0x6c, 0x56, 0xf4, 0xea, 0x65, 0x7a, 0xae, 0x08,
     0xba, 0x78, 0x25, 0x2e, 0x1c, 0xa6, 0xb4, 0xc6, 0xe8, 0xdd, 0x74, 0x1f, 0x4b, 0xbd, 0x8b, 0x8a,
     0x70, 0x3e, 0xb5, 0x66, 0x48, 0x03, 0xf6, 0x0e, 0x61, 0x35, 0x57, 0xb9, 0x86, 0xc1, 0x1d, 0x9e,
     0xe1, 0xf8, 0x98, 0x11, 0x69, 0xd9, 0x8e, 0x94, 0x9b, 0x1e, 0x87, 0xe9, 0xce, 0x55, 0x28, 0xdf,
     0x8c, 0xa1, 0x89, 0x0d, 0xbf, 0xe6, 0x42, 0x68, 0x41, 0x99, 0x2d, 0x0f, 0xb0, 0x54, 0xbb, 0x16]"

definition sub_byte :: "byte \<Rightarrow> byte" where
  "sub_byte b = of_nat (aes_sbox ! unat b)"

text \<open>The inverse table holds, at a byte, the position of that byte in the table.\<close>

definition inv_sub_byte :: "byte \<Rightarrow> byte" where
  "inv_sub_byte b = of_nat (length (takeWhile (\<lambda>x. x \<noteq> unat b) aes_sbox))"

section \<open>Rows and columns\<close>

definition xtime :: "byte \<Rightarrow> byte" where
  "xtime b = push_bit 1 b XOR (if bit b 7 then 0x1b else 0)"

fun mix_columns :: "bytes \<Rightarrow> bytes" where
  "mix_columns (a # b # c # d # s) =
     (xtime a XOR (xtime b XOR b) XOR c XOR d)
   # (a XOR xtime b XOR (xtime c XOR c) XOR d)
   # (a XOR b XOR xtime c XOR (xtime d XOR d))
   # ((xtime a XOR a) XOR b XOR c XOR xtime d)
   # mix_columns s"
| "mix_columns s = s"

definition times9 :: "byte \<Rightarrow> byte" where
  "times9 b = xtime (xtime (xtime b)) XOR b"
definition times11 :: "byte \<Rightarrow> byte" where
  "times11 b = xtime (xtime (xtime b)) XOR xtime b XOR b"
definition times13 :: "byte \<Rightarrow> byte" where
  "times13 b = xtime (xtime (xtime b)) XOR xtime (xtime b) XOR b"
definition times14 :: "byte \<Rightarrow> byte" where
  "times14 b = xtime (xtime (xtime b)) XOR xtime (xtime b) XOR xtime b"

fun inv_mix_columns :: "bytes \<Rightarrow> bytes" where
  "inv_mix_columns (a # b # c # d # s) =
     (times14 a XOR times11 b XOR times13 c XOR times9 d)
   # (times9 a XOR times14 b XOR times11 c XOR times13 d)
   # (times13 a XOR times9 b XOR times14 c XOR times11 d)
   # (times11 a XOR times13 b XOR times9 c XOR times14 d)
   # inv_mix_columns s"
| "inv_mix_columns s = s"

definition shift_rows :: "bytes \<Rightarrow> bytes" where
  "shift_rows s = map (\<lambda>i. s ! i) [0, 5, 10, 15, 4, 9, 14, 3, 8, 13, 2, 7, 12, 1, 6, 11]"

definition inv_shift_rows :: "bytes \<Rightarrow> bytes" where
  "inv_shift_rows s = map (\<lambda>i. s ! i) [0, 13, 10, 7, 4, 1, 14, 11, 8, 5, 2, 15, 12, 9, 6, 3]"

definition xor_bytes :: "bytes \<Rightarrow> bytes \<Rightarrow> bytes" where
  "xor_bytes xs ys = map2 (XOR) xs ys"

section \<open>The key schedule of a 32-byte key\<close>

text \<open>
  Key words are lists of four bytes, newest first; \<open>i\<close> is the number of words so far.
\<close>

definition sub_word :: "bytes \<Rightarrow> bytes" where
  "sub_word w = map sub_byte w"

definition expand_word :: "nat \<Rightarrow> byte \<Rightarrow> bytes list \<Rightarrow> bytes" where
  "expand_word i rcon ws =
     (let temp = ws ! 0;
          temp = (if i mod 8 = 0 then xor_bytes (sub_word (rotate1 temp)) [rcon, 0, 0, 0]
                  else if i mod 8 = 4 then sub_word temp else temp)
      in xor_bytes (ws ! 7) temp)"

fun expand_key :: "nat \<Rightarrow> nat \<Rightarrow> byte \<Rightarrow> bytes list \<Rightarrow> bytes list" where
  "expand_key 0 i rcon ws = ws"
| "expand_key (Suc n) i rcon ws =
     expand_key n (Suc i) (if i mod 8 = 0 then xtime rcon else rcon) (expand_word i rcon ws # ws)"

definition key_words :: "bytes \<Rightarrow> bytes list" where
  "key_words key = rev (expand_key 52 8 1 (rev (map (\<lambda>i. take 4 (drop (4 * i) key)) [0..<8])))"

definition round_keys :: "bytes \<Rightarrow> bytes list" where
  "round_keys key = map (\<lambda>r. concat (take 4 (drop (4 * r) (key_words key)))) [0..<15]"

section \<open>The cipher\<close>

definition aes_round :: "bytes \<Rightarrow> bytes \<Rightarrow> bytes" where
  "aes_round rk s = xor_bytes (mix_columns (shift_rows (map sub_byte s))) rk"

definition aes_final :: "bytes \<Rightarrow> bytes \<Rightarrow> bytes" where
  "aes_final rk s = xor_bytes (shift_rows (map sub_byte s)) rk"

definition aes_encrypt :: "bytes \<Rightarrow> bytes \<Rightarrow> bytes" where
  "aes_encrypt key blk =
     (let rks = round_keys key
      in aes_final (rks ! 14) (fold aes_round (take 13 (tl rks)) (xor_bytes blk (rks ! 0))))"

definition aes_inv_round :: "bytes \<Rightarrow> bytes \<Rightarrow> bytes" where
  "aes_inv_round rk s = map inv_sub_byte (inv_shift_rows (inv_mix_columns (xor_bytes s rk)))"

definition aes_inv_final :: "bytes \<Rightarrow> bytes \<Rightarrow> bytes" where
  "aes_inv_final rk s = map inv_sub_byte (inv_shift_rows (xor_bytes s rk))"

definition aes_decrypt :: "bytes \<Rightarrow> bytes \<Rightarrow> bytes" where
  "aes_decrypt key blk =
     (let rks = round_keys key
      in xor_bytes (fold aes_inv_round (rev (take 13 (tl rks))) (aes_inv_final (rks ! 14) blk))
           (rks ! 0))"

section \<open>The two directions are inverse\<close>

lemma length_aes_sbox: "length aes_sbox = 256"
  by (simp add: aes_sbox_def)

lemma distinct_aes_sbox: "distinct aes_sbox"
  by (simp add: aes_sbox_def)

lemma aes_sbox_bytes: "x \<in> set aes_sbox \<Longrightarrow> x < 256"
  by (auto simp: aes_sbox_def)

lemma length_xor_bytes [simp]: "length (xor_bytes xs ys) = min (length xs) (length ys)"
  by (simp add: xor_bytes_def)

lemma xor_bytes_nth [simp]:
  "i < length xs \<Longrightarrow> i < length ys \<Longrightarrow> xor_bytes xs ys ! i = xs ! i XOR ys ! i"
  by (simp add: xor_bytes_def)

lemma xor_bytes_cancel [simp]: "length xs = length ys \<Longrightarrow> xor_bytes (xor_bytes xs ys) ys = xs"
  by (rule nth_equalityI) (simp_all add: xor.assoc)

lemma xor_bytes_left_inject:
  assumes "length xs = length e" "length ys = length e"
  shows "xor_bytes e xs = xor_bytes e ys \<longleftrightarrow> xs = ys"
proof
  assume eq: "xor_bytes e xs = xor_bytes e ys"
  show "xs = ys"
  proof (rule nth_equalityI)
    fix i assume i: "i < length xs"
    have "e ! i XOR xs ! i = e ! i XOR ys ! i"
      using arg_cong [OF eq, of "\<lambda>z. z ! i"] i assms by simp
    then show "xs ! i = ys ! i" by (metis xor.assoc xor_self_eq xor.left_neutral)
  qed (simp add: assms)
qed simp

lemma xor_cancel: "(a :: byte) XOR (a XOR b) = b"
  by (simp flip: xor.assoc)

lemma xtime_xor: "xtime (a XOR b) = xtime a XOR xtime b"
  by (auto simp: xtime_def bit_xor_iff push_bit_xor ac_simps xor_self_eq)

lemma takeWhile_position:
  "distinct xs \<Longrightarrow> i < length xs \<Longrightarrow> length (takeWhile (\<lambda>x. x \<noteq> xs ! i) xs) = i"
proof (induction xs arbitrary: i)
  case (Cons x xs)
  then show ?case by (cases i) (auto simp: in_set_conv_nth)
qed simp

lemma inv_sub_byte_sub_byte [simp]: "inv_sub_byte (sub_byte b) = b"
proof -
  have b: "unat b < length aes_sbox"
    using unsigned_less [of b] by (simp add: length_aes_sbox)
  have "aes_sbox ! unat b < 256"
    using b aes_sbox_bytes nth_mem by blast
  then have "unat (of_nat (aes_sbox ! unat b) :: byte) = aes_sbox ! unat b"
    by (simp add: unsigned_of_nat take_bit_nat_eq_self)
  then show ?thesis
    using takeWhile_position [OF distinct_aes_sbox b]
    by (simp add: inv_sub_byte_def sub_byte_def)
qed

lemma mix_columns_inverse [simp]: "inv_mix_columns (mix_columns s) = s"
  by (induction s rule: mix_columns.induct)
    (simp_all add: times9_def times11_def times13_def times14_def xtime_xor xor.assoc
      xor.left_commute xor.commute xor_cancel)

lemma list16E:
  assumes "length s = 16"
  obtains a b c d e f g h i j k l m n p q where "s = [a,b,c,d,e,f,g,h,i,j,k,l,m,n,p,q]"
  using assms by (auto simp: length_Suc_conv numeral_eq_Suc)

lemma shift_rows_inverse [simp]: "length s = 16 \<Longrightarrow> inv_shift_rows (shift_rows s) = s"
  by (erule list16E) (simp add: shift_rows_def inv_shift_rows_def)

lemma length_shift_rows [simp]: "length (shift_rows s) = 16" "length (inv_shift_rows s) = 16"
  by (simp_all add: shift_rows_def inv_shift_rows_def)

lemma length_mix_columns [simp]: "length (mix_columns s) = length s"
  by (induction s rule: mix_columns.induct) simp_all

lemma length_inv_mix_columns [simp]: "length (inv_mix_columns s) = length s"
  by (induction s rule: inv_mix_columns.induct) simp_all

text \<open>The key schedule yields fifteen round keys of sixteen bytes.\<close>

lemma length_expand_key [simp]: "length (expand_key n i rcon ws) = n + length ws"
  by (induction n i rcon ws rule: expand_key.induct) simp_all

lemma expand_key_words:
  "\<forall>w \<in> set ws. length w = 4 \<Longrightarrow> 8 \<le> length ws
     \<Longrightarrow> \<forall>w \<in> set (expand_key n i rcon ws). length w = 4"
proof (induction n i rcon ws rule: expand_key.induct)
  case (2 n i rcon ws)
  have "ws ! 0 \<in> set ws" "ws ! 7 \<in> set ws"
    using "2.prems"(2) by (auto intro!: nth_mem)
  then have "length (ws ! 0) = 4" "length (ws ! 7) = 4"
    using "2.prems"(1) by simp_all
  then have "length (expand_word i rcon ws) = 4"
    by (simp add: expand_word_def sub_word_def Let_def)
  with 2 show ?case by (simp del: expand_key.simps(1) add: expand_key.simps(2))
qed simp

lemma round_keys_length [simp]: "length (round_keys key) = 15"
  by (simp add: round_keys_def)

lemma concat_quarter:
  "\<forall>w \<in> set ws. length w = 4 \<Longrightarrow> length ws = n \<Longrightarrow> length (concat ws) = 4 * n"
  by (induction ws arbitrary: n) auto

lemma round_keys_16:
  assumes "length key = 32" "rk \<in> set (round_keys key)"
  shows "length rk = 16"
proof -
  have "\<forall>w \<in> set (key_words key). length w = 4"
    unfolding key_words_def set_rev using assms(1) by (intro expand_key_words) auto
  moreover have "length (key_words key) = 60" by (simp add: key_words_def)
  ultimately show ?thesis
    using assms(2)
    by (auto simp: round_keys_def dest: in_set_takeD in_set_dropD intro!: concat_quarter [where n = 4, simplified])
qed

lemma aes_round_inverse:
  "length s = 16 \<Longrightarrow> length rk = 16 \<Longrightarrow> aes_inv_round rk (aes_round rk s) = s"
  by (simp add: aes_inv_round_def aes_round_def comp_def)

lemma length_aes_round: "length rk = 16 \<Longrightarrow> length (aes_round rk s) = 16"
  by (simp add: aes_round_def)

lemma aes_final_inverse:
  "length s = 16 \<Longrightarrow> length rk = 16 \<Longrightarrow> aes_inv_final rk (aes_final rk s) = s"
  by (simp add: aes_inv_final_def aes_final_def comp_def)

lemma length_aes_rounds:
  "\<forall>rk \<in> set rks. length rk = 16 \<Longrightarrow> length s = 16 \<Longrightarrow> length (fold aes_round rks s) = 16"
  by (induction rks arbitrary: s) (simp_all add: length_aes_round)

lemma aes_rounds_inverse:
  "\<forall>rk \<in> set rks. length rk = 16 \<Longrightarrow> length s = 16
     \<Longrightarrow> fold aes_inv_round (rev rks) (fold aes_round rks s) = s"
  by (induction rks arbitrary: s) (simp_all add: length_aes_round aes_round_inverse)

lemma set_tl_subset: "x \<in> set (tl xs) \<Longrightarrow> x \<in> set xs"
  by (cases xs) auto

lemma aes_decrypt_encrypt:
  assumes "length key = 32" "length blk = 16"
  shows "aes_decrypt key (aes_encrypt key blk) = blk"
proof -
  have k: "\<forall>rk \<in> set (take 13 (tl (round_keys key))). length rk = 16"
    using round_keys_16 [OF assms(1)] by (auto dest!: in_set_takeD simp: set_tl_subset)
  have ends: "length (round_keys key ! 0) = 16" "length (round_keys key ! 14) = 16"
    using round_keys_16 [OF assms(1)] by simp_all
  show ?thesis
    using assms(2) ends k
    by (simp add: aes_decrypt_def aes_encrypt_def Let_def aes_final_inverse length_aes_rounds
        aes_rounds_inverse)
qed

lemma length_aes_encrypt: "length key = 32 \<Longrightarrow> length (aes_encrypt key blk) = 16"
  using round_keys_16 by (simp add: aes_encrypt_def aes_final_def Let_def)

text \<open>
  An injection of the finite set of 16-byte blocks into itself is onto, so decryption is a
  right inverse as well.
\<close>

lemma aes_encrypt_decrypt:
  assumes "length key = 32" "length blk = 16"
  shows "aes_encrypt key (aes_decrypt key blk) = blk" "length (aes_decrypt key blk) = 16"
proof -
  let ?S = "{b :: bytes. length b = 16}"
  have "finite ?S"
    using finite_lists_length_eq [of "UNIV :: byte set" 16] by simp
  moreover have "inj_on (aes_encrypt key) ?S"
    by (rule inj_on_inverseI [of _ "aes_decrypt key"]) (simp add: aes_decrypt_encrypt assms(1))
  moreover have "aes_encrypt key ` ?S \<subseteq> ?S"
    using assms(1) by (auto simp: length_aes_encrypt)
  ultimately have "aes_encrypt key ` ?S = ?S"
    by (simp add: endo_inj_surj)
  then obtain b where "blk = aes_encrypt key b" "length b = 16"
    using assms(2) by (auto simp: set_eq_iff image_iff)
  then show "aes_encrypt key (aes_decrypt key blk) = blk" "length (aes_decrypt key blk) = 16"
    using assms(1) by (simp_all add: aes_decrypt_encrypt)
qed

end
