(* ===== verification/IGE.thy ===== *)
theory IGE
  imports Std_AES
begin

text \<open>
  \<^verbatim>\<open>mtproto/crypto/aes.go\<close>: AES-256 in the IGE mode.  \<^verbatim>\<open>Encrypt(dst, src)\<close> works on slices
  that may share memory, and its loop keeps \<^emph>\<open>slices\<close> of the previous blocks rather than
  copies; so the model has one memory, slices are ranges of it and the two previous blocks
  are windows that are read when they are used.

  The mathematical IGE chain is \<open>ige_chain False\<close>.  On disjoint slices the code computes it;
  on one slice used for both arguments (the in-place call that the comment of \<^verbatim>\<open>Encrypt\<close>
  allows and that \<^verbatim>\<open>PackEncrypted\<close> makes) it computes \<open>ige_chain True\<close>, in which the previous
  plaintext block has already been replaced by its ciphertext.
\<close>

section \<open>The code\<close>

text \<open>\<^verbatim>\<open>cipher.Block\<close>: an object with two methods on 16-byte blocks.\<close>

record cipher_block =
  block_Encrypt :: "bytes \<Rightarrow> bytes"
  block_Decrypt :: "bytes \<Rightarrow> bytes"

text \<open>
  \<^verbatim>\<open>aes.NewCipher\<close>, of whose three key sizes only AES-256 is modelled; \<^verbatim>\<open>NewIGE\<close> calls it with
  no other.
\<close>

definition aes_NewCipher :: "bytes \<Rightarrow> goerror + cipher_block" where
  "aes_NewCipher key =
     (if length key \<noteq> 32 then Inl (NewError ''crypto/aes: invalid key size'')
      else Inr \<lparr>block_Encrypt = aes_encrypt key, block_Decrypt = aes_decrypt key\<rparr>)"

record IGE =
  ige_block :: cipher_block
  ige_iv :: bytes

definition NewIGE :: "bytes \<Rightarrow> bytes \<Rightarrow> goerror + IGE" where
  "NewIGE key iv =
     (if length key \<noteq> 32 then Inl ErrInvalidKeyLength
      else if length iv \<noteq> 32 then Inl ErrInvalidIVLength
      else case aes_NewCipher key of
             Inl err \<Rightarrow> Inl err
           | Inr block \<Rightarrow> Inr \<lparr>ige_block = block, ige_iv = iv\<rparr>)"

text \<open>A slice is a range of the memory; a window is a 16-byte slice of the memory or of \<^verbatim>\<open>c.iv\<close>.\<close>

record slice =
  sptr :: nat
  slen :: nat

datatype window = IvAt nat | MemAt nat

fun byte_at :: "bytes \<Rightarrow> bytes \<Rightarrow> window \<Rightarrow> nat \<Rightarrow> byte" where
  "byte_at iv mem (IvAt p) j = iv ! (p + j)"
| "byte_at iv mem (MemAt p) j = mem ! (p + j)"

text \<open>The two inner loops: \<open>t[j] = a[j] ^ b[j]\<close>, and \<open>dst[i+j] = t[j] ^ prev[j]\<close> in memory.\<close>

definition xor_windows :: "bytes \<Rightarrow> bytes \<Rightarrow> window \<Rightarrow> window \<Rightarrow> bytes" where
  "xor_windows iv mem a b = map (\<lambda>j. byte_at iv mem a j XOR byte_at iv mem b j) [0..<16]"

definition store_xor :: "bytes \<Rightarrow> nat \<Rightarrow> bytes \<Rightarrow> window \<Rightarrow> bytes \<Rightarrow> bytes" where
  "store_xor iv p t prev mem =
     fold (\<lambda>j m. m[p + j := t ! j XOR byte_at iv m prev j]) [0..<16] mem"

function IGE_Encrypt_loop ::
  "IGE \<Rightarrow> nat \<Rightarrow> nat \<Rightarrow> nat \<Rightarrow> nat \<Rightarrow> window \<Rightarrow> window \<Rightarrow> bytes \<Rightarrow> bytes" where
  "IGE_Encrypt_loop c dst src n i cPrev mPrev mem =
     (if i < n then
        let mCurr = MemAt (src + i);
            t = xor_windows (ige_iv c) mem mCurr cPrev;
            t = block_Encrypt (ige_block c) t;
            mem = store_xor (ige_iv c) (dst + i) t mPrev mem
        in IGE_Encrypt_loop c dst src n (i + 16) (MemAt (dst + i)) mCurr mem
      else mem)"
  by auto
termination by (relation "measure (\<lambda>(c, dst, src, n, i, r). n - i)") auto

definition IGE_Encrypt :: "IGE \<Rightarrow> slice \<Rightarrow> slice \<Rightarrow> bytes \<Rightarrow> goerror option \<times> bytes" where
  "IGE_Encrypt c dst src mem =
     (let n = slen src in
      if n mod 16 \<noteq> 0 then (Some ErrInvalidBlockSize, mem)
      else if slen dst < n
      then (Some (NewError ''crypto: destination buffer is too small''), mem)
      else (None, IGE_Encrypt_loop c (sptr dst) (sptr src) n 0 (IvAt 0) (IvAt 16) mem))"

function IGE_Decrypt_loop ::
  "IGE \<Rightarrow> nat \<Rightarrow> nat \<Rightarrow> nat \<Rightarrow> nat \<Rightarrow> window \<Rightarrow> window \<Rightarrow> bytes \<Rightarrow> bytes" where
  "IGE_Decrypt_loop c dst src n i cPrev mPrev mem =
     (if i < n then
        let cCurr = MemAt (src + i);
            t = xor_windows (ige_iv c) mem cCurr mPrev;
            t = block_Decrypt (ige_block c) t;
            mem = store_xor (ige_iv c) (dst + i) t cPrev mem
        in IGE_Decrypt_loop c dst src n (i + 16) cCurr (MemAt (dst + i)) mem
      else mem)"
  by auto
termination by (relation "measure (\<lambda>(c, dst, src, n, i, r). n - i)") auto

definition IGE_Decrypt :: "IGE \<Rightarrow> slice \<Rightarrow> slice \<Rightarrow> bytes \<Rightarrow> goerror option \<times> bytes" where
  "IGE_Decrypt c dst src mem =
     (let n = slen src in
      if n mod 16 \<noteq> 0 then (Some ErrInvalidBlockSize, mem)
      else if slen dst < n
      then (Some (NewError ''crypto: destination buffer is too small''), mem)
      else (None, IGE_Decrypt_loop c (sptr dst) (sptr src) n 0 (IvAt 0) (IvAt 16) mem))"

declare IGE_Encrypt_loop.simps [simp del] IGE_Decrypt_loop.simps [simp del]

section \<open>The mode as an equation on blocks\<close>

fun ige_chain :: "bool \<Rightarrow> (bytes \<Rightarrow> bytes) \<Rightarrow> bytes \<Rightarrow> bytes \<Rightarrow> bytes list \<Rightarrow> bytes list" where
  "ige_chain al E c m [] = []"
| "ige_chain al E c m (b # bs) =
     (let x = xor_bytes (E (xor_bytes b c)) m
      in x # ige_chain al E x (if al then x else b) bs)"

fun ige_unchain :: "bool \<Rightarrow> (bytes \<Rightarrow> bytes) \<Rightarrow> bytes \<Rightarrow> bytes \<Rightarrow> bytes list \<Rightarrow> bytes list" where
  "ige_unchain al D c m [] = []"
| "ige_unchain al D c m (x # xs) =
     (let b = xor_bytes (D (xor_bytes x m)) c
      in b # ige_unchain al D (if al then b else x) b xs)"

definition put_at :: "bytes \<Rightarrow> nat \<Rightarrow> bytes \<Rightarrow> bytes" where
  "put_at mem p bs = take p mem @ bs @ drop (p + length bs) mem"

section \<open>Windows and stores\<close>

fun window_bytes :: "bytes \<Rightarrow> bytes \<Rightarrow> window \<Rightarrow> bytes" where
  "window_bytes iv mem (IvAt p) = slice_of iv p (p + 16)"
| "window_bytes iv mem (MemAt p) = slice_of mem p (p + 16)"

fun window_ok :: "bytes \<Rightarrow> bytes \<Rightarrow> window \<Rightarrow> bool" where
  "window_ok iv mem (IvAt p) = (p + 16 \<le> length iv)"
| "window_ok iv mem (MemAt p) = (p + 16 \<le> length mem)"

fun window_apart :: "nat \<Rightarrow> window \<Rightarrow> bool" where
  "window_apart p (IvAt q) = True"
| "window_apart p (MemAt q) = (q + 16 \<le> p \<or> p + 16 \<le> q)"

lemma length_window_bytes: "window_ok iv mem w \<Longrightarrow> length (window_bytes iv mem w) = 16"
  by (cases w) simp_all

lemma nth_window_bytes:
  "window_ok iv mem w \<Longrightarrow> j < 16 \<Longrightarrow> window_bytes iv mem w ! j = byte_at iv mem w j"
  by (cases w) (simp_all add: slice_of_def)

lemma xor_windows_eq:
  "window_ok iv mem a \<Longrightarrow> window_ok iv mem b
     \<Longrightarrow> xor_windows iv mem a b = xor_bytes (window_bytes iv mem a) (window_bytes iv mem b)"
  by (rule nth_equalityI)
    (simp_all add: xor_windows_def length_window_bytes nth_window_bytes)

lemma length_put_at [simp]: "p + length bs \<le> length mem \<Longrightarrow> length (put_at mem p bs) = length mem"
  by (simp add: put_at_def)

lemma nth_put_at:
  "p + length bs \<le> length mem \<Longrightarrow> q < length mem \<Longrightarrow>
     put_at mem p bs ! q = (if p \<le> q \<and> q < p + length bs then bs ! (q - p) else mem ! q)"
  by (auto simp: put_at_def nth_append)

lemma put_at_put_at:
  "p \<le> length mem \<Longrightarrow> q = p + length a \<Longrightarrow> put_at (put_at mem p a) q b = put_at mem p (a @ b)"
  by (simp add: put_at_def ac_simps)

lemma slice_put_at_same [simp]:
  "p + length bs \<le> length mem \<Longrightarrow> q = p + length bs \<Longrightarrow> slice_of (put_at mem p bs) p q = bs"
  by (simp add: put_at_def slice_of_append_mid)

lemma slice_put_at_apart:
  "p + length bs \<le> length mem \<Longrightarrow> r \<le> length mem \<Longrightarrow> r \<le> p \<or> p + length bs \<le> q
     \<Longrightarrow> slice_of (put_at mem p bs) q r = slice_of mem q r"
  by (rule nth_equalityI) (auto simp: slice_of_def nth_put_at)

lemma store_xor_steps:
  fixes t iv :: bytes
  assumes "p + 16 \<le> length mem" "window_apart p w" "k \<le> 16"
  defines "f \<equiv> \<lambda>j m. m[p + j := t ! j XOR byte_at iv m w j]"
  shows "length (fold f [0..<k] mem) = length mem \<and>
    (\<forall>q. fold f [0..<k] mem ! q =
       (if p \<le> q \<and> q < p + k then t ! (q - p) XOR byte_at iv mem w (q - p) else mem ! q))"
  using assms(3)
proof (induction k)
  case (Suc k)
  define m where "m = fold f [0..<k] mem"
  have m: "length m = length mem"
    "m ! q = (if p \<le> q \<and> q < p + k then t ! (q - p) XOR byte_at iv mem w (q - p) else mem ! q)" for q
    using Suc by (auto simp: m_def)
  have "byte_at iv m w k = byte_at iv mem w k"
    using assms(2) Suc.prems by (cases w) (auto simp: m(2))
  then have "fold f [0..<Suc k] mem = m[p + k := t ! k XOR byte_at iv mem w k]"
    by (simp add: m_def f_def)
  then show ?case
    using assms(1) Suc.prems m(1) by (auto simp: nth_list_update m(2) less_Suc_eq)
qed auto

lemma store_xor_eq:
  assumes "p + 16 \<le> length mem" "window_apart p w" "window_ok iv mem w" "length t = 16"
  shows "store_xor iv p t w mem = put_at mem p (xor_bytes t (window_bytes iv mem w))"
  using store_xor_steps [OF assms(1,2) order_refl, of t iv] assms
  by (intro nth_equalityI)
    (auto simp: store_xor_def nth_put_at length_window_bytes nth_window_bytes)

section \<open>The loops compute the chains\<close>

text \<open>
  What the two previous-block windows hold when a block is processed, and where they lie
  relative to the block that is about to be overwritten.
\<close>

definition windows_ok :: "bytes \<Rightarrow> bytes \<Rightarrow> nat \<Rightarrow> window \<Rightarrow> window \<Rightarrow> bytes \<Rightarrow> bytes \<Rightarrow> bool" where
  "windows_ok iv mem p cPrev mPrev c m \<longleftrightarrow>
     window_ok iv mem cPrev \<and> window_ok iv mem mPrev \<and> window_apart p cPrev \<and> window_apart p mPrev \<and>
     window_bytes iv mem cPrev = c \<and> window_bytes iv mem mPrev = m"

lemma concat_blocks_slice:
  "slice_of mem p q = b @ bs \<Longrightarrow> slice_of mem p (p + length b) = b \<and> slice_of mem (p + length b) q = bs"
proof -
  assume a: "slice_of mem p q = b @ bs"
  then have "length b \<le> q - p"
    by (metis append_take_drop_id length_append length_take le_add1 le_trans min.cobounded2 slice_of_def)
  moreover have "take (length b) (slice_of mem p q) = b" "drop (length b) (slice_of mem p q) = bs"
    using a by simp_all
  ultimately show ?thesis
    by (simp add: slice_of_def drop_take add.commute)
qed

lemma windows_ok_step:
  assumes "windows_ok iv mem p cPrev mPrev c m" "p + 16 \<le> length mem" "length t = 16"
  shows "store_xor iv p t mPrev mem = put_at mem p (xor_bytes t m)"
    "store_xor iv p t cPrev mem = put_at mem p (xor_bytes t c)"
    "length c = 16" "length m = 16"
  using assms by (auto simp: windows_ok_def store_xor_eq length_window_bytes)

text \<open>Source and destination do not overlap, or they start at the same address.\<close>

definition apart_or_same :: "nat \<Rightarrow> nat \<Rightarrow> nat \<Rightarrow> bool" where
  "apart_or_same dst src n \<longleftrightarrow> dst + n \<le> src \<or> src + n \<le> dst \<or> dst = src"

lemma slice_after_store:
  assumes "apart_or_same dst src n" "i + 16 \<le> n" "dst + n \<le> length mem" "src + n \<le> length mem"
    "length x = 16" "n > 0"
  shows "slice_of (put_at mem (dst + i) x) (src + i + 16) (src + n) = slice_of mem (src + i + 16) (src + n)"
    "slice_of (put_at mem (dst + i) x) (src + i) (src + i + 16) =
       (if dst = src then x else slice_of mem (src + i) (src + i + 16))"
  using assms by (auto simp: apart_or_same_def slice_put_at_apart)

lemma Encrypt_loop_chain:
  assumes "\<And>b. length b = 16 \<Longrightarrow> length (block_Encrypt (ige_block g) b) = 16"
    "apart_or_same dst src n" "dst + n \<le> length mem" "src + n \<le> length mem"
    "bs \<noteq> [] \<Longrightarrow> windows_ok (ige_iv g) mem (dst + i) cPrev mPrev c m"
    "slice_of mem (src + i) (src + n) = concat bs" "n = i + 16 * length bs"
    "\<forall>b \<in> set bs. length b = 16"
  shows "IGE_Encrypt_loop g dst src n i cPrev mPrev mem =
    put_at mem (dst + i) (concat (ige_chain (dst = src) (block_Encrypt (ige_block g)) c m bs))"
  using assms(2-)
proof (induction bs arbitrary: i cPrev mPrev c m mem)
  case Nil
  then show ?case by (subst IGE_Encrypt_loop.simps) (simp add: put_at_def)
next
  case (Cons b bs)
  note prev = Cons.prems(4) [OF list.distinct(2)]
  let ?E = "block_Encrypt (ige_block g)" and ?iv = "ige_iv g"
  have b: "length b = 16" and n: "i + 16 \<le> n" "n > 0" using Cons.prems by auto
  have curr: "slice_of mem (src + i) (src + i + 16) = b" "slice_of mem (src + i + 16) (src + n) = concat bs"
    using concat_blocks_slice [of mem "src + i" "src + n" b "concat bs"] Cons.prems(5) b by simp_all
  define x where "x = xor_bytes (?E (xor_bytes b c)) m"
  have w: "window_ok ?iv mem (MemAt (src + i))" using Cons.prems n by simp
  have t: "xor_windows ?iv mem (MemAt (src + i)) cPrev = xor_bytes b c"
    using prev w curr by (simp add: windows_ok_def xor_windows_eq add.assoc)
  have c: "length c = 16" "length m = 16"
    using prev by (auto simp: windows_ok_def length_window_bytes)
  have st: "store_xor ?iv (dst + i) (?E (xor_bytes b c)) mPrev mem = put_at mem (dst + i) x"
    using windows_ok_step(1) [OF prev] Cons.prems n b c assms(1) by (simp add: x_def)
  have x: "length x = 16" using assms(1) b c by (simp add: x_def)
  let ?mem = "put_at mem (dst + i) x"
  have after: "slice_of ?mem (src + i + 16) (src + n) = concat bs"
    "slice_of ?mem (src + i) (src + i + 16) = (if dst = src then x else b)"
    using slice_after_store [OF Cons.prems(1) n(1) Cons.prems(2,3) x n(2)] curr by simp_all
  have "16 \<le> n - (i + 16)" if "bs \<noteq> []"
    using that Cons.prems(6) by (cases bs) auto
  then have "windows_ok ?iv ?mem (dst + (i + 16)) (MemAt (dst + i)) (MemAt (src + i)) x
      (if dst = src then x else b)" if "bs \<noteq> []"
    using that Cons.prems(1-3) n x after by (auto simp: windows_ok_def apart_or_same_def add.assoc)
  then have "IGE_Encrypt_loop g dst src n (i + 16) (MemAt (dst + i)) (MemAt (src + i)) ?mem =
      put_at ?mem (dst + (i + 16)) (concat (ige_chain (dst = src) ?E x (if dst = src then x else b) bs))"
    using Cons.prems n x after by (intro Cons.IH) (auto simp: add.assoc)
  then show ?case
    using n x Cons.prems
    by (subst IGE_Encrypt_loop.simps) (simp add: Let_def t st x_def [symmetric] put_at_put_at)
qed

text \<open>The decryption loop is the encryption loop with the two previous blocks exchanged.\<close>

definition decrypting :: "IGE \<Rightarrow> IGE" where
  "decrypting g = g\<lparr>ige_block := (ige_block g)\<lparr>block_Encrypt := block_Decrypt (ige_block g)\<rparr>\<rparr>"

lemma Decrypt_loop_swap:
  "IGE_Decrypt_loop g dst src n i cPrev mPrev mem =
     IGE_Encrypt_loop (decrypting g) dst src n i mPrev cPrev mem"
proof (induction g dst src n i cPrev mPrev mem rule: IGE_Decrypt_loop.induct)
  case (1 g dst src n i cPrev mPrev mem)
  then show ?case
    unfolding IGE_Decrypt_loop.simps [of g dst src n i] IGE_Encrypt_loop.simps [of _ dst src n i]
    by (simp add: Let_def decrypting_def)
qed

lemma ige_unchain_swap: "ige_unchain al D c m xs = ige_chain al D m c xs"
  by (induction al D c m xs rule: ige_unchain.induct) (auto simp: Let_def)

lemma length_ige_chain [simp]: "length (ige_chain al E c m bs) = length bs"
  by (induction al E c m bs rule: ige_chain.induct) (simp_all add: Let_def)

lemma ige_chain_16:
  assumes E: "\<And>b. length b = 16 \<Longrightarrow> length (E b) = 16"
    and "length c = 16" "length m = 16" "\<forall>b \<in> set bs. length b = 16"
  shows "\<forall>x \<in> set (ige_chain al E c m bs). length x = 16"
  using assms(2-)
proof (induction bs arbitrary: c m)
  case (Cons b bs)
  let ?x = "xor_bytes (E (xor_bytes b c)) m"
  have "length ?x = 16" using Cons.prems E [of "xor_bytes b c"] by simp
  moreover have "length (if al then ?x else b) = 16" using Cons.prems calculation by (cases al) simp_all
  ultimately have "\<forall>x \<in> set (ige_chain al E ?x (if al then ?x else b) bs). length x = 16"
    using Cons.prems(3) by (intro Cons.IH) simp_all
  with \<open>length ?x = 16\<close> show ?case by (simp only: ige_chain.simps Let_def list.set ball_simps simp_thms)
qed simp

section \<open>The block cipher behind the mode\<close>

text \<open>
  What the mode needs of \<^verbatim>\<open>cipher.Block\<close>: two mutually inverse permutations of the 16-byte
  blocks for every key of the right size.
\<close>

locale keyed_cipher =
  fixes enc dec :: "bytes \<Rightarrow> bytes \<Rightarrow> bytes" and klen :: nat
  assumes enc_length: "length key = klen \<Longrightarrow> length b = 16 \<Longrightarrow> length (enc key b) = 16"
    and dec_length: "length key = klen \<Longrightarrow> length b = 16 \<Longrightarrow> length (dec key b) = 16"
    and dec_enc: "length key = klen \<Longrightarrow> length b = 16 \<Longrightarrow> dec key (enc key b) = b"
    and enc_dec: "length key = klen \<Longrightarrow> length b = 16 \<Longrightarrow> enc key (dec key b) = b"
begin

lemma unchain_chain:
  assumes "length key = klen" "length c = 16" "length m = 16" "\<forall>b \<in> set bs. length b = 16"
  shows "ige_unchain False (dec key) c m (ige_chain False (enc key) c m bs) = bs"
  using assms(2-)
  by (induction bs arbitrary: c m) (simp_all add: Let_def dec_enc enc_length assms(1))

lemma chain_unchain:
  assumes "length key = klen" "length c = 16" "length m = 16" "\<forall>x \<in> set xs. length x = 16"
  shows "ige_chain False (enc key) c m (ige_unchain False (dec key) c m xs) = xs"
  using assms(2-)
  by (induction xs arbitrary: c m) (simp_all add: Let_def enc_dec dec_length assms(1))

text \<open>The in-place chain agrees with the mode only when encryption changes no block but the last.\<close>

lemma chain_alias_iff:
  assumes "length key = klen" "length c = 16" "length m = 16" "\<forall>b \<in> set bs. length b = 16"
  shows "ige_chain True (enc key) c m bs = ige_chain False (enc key) c m bs
    \<longleftrightarrow> butlast (ige_chain False (enc key) c m bs) = butlast bs"
  using assms(2-)
proof (induction bs arbitrary: c m)
  case (Cons b bs)
  define x where "x = xor_bytes (enc key (xor_bytes b c)) m"
  have x: "length x = 16" using Cons.prems by (simp add: x_def enc_length assms(1))
  show ?case
  proof (cases bs)
    case Nil
    then show ?thesis by (simp add: Let_def)
  next
    case tail: (Cons b' bs')
    define e where "e = enc key (xor_bytes b' x)"
    have len: "length e = 16" "length b = 16"
      using Cons.prems x tail by (simp_all add: e_def enc_length assms(1))
    have same: "xor_bytes e x = xor_bytes e b \<longleftrightarrow> x = b"
      using xor_bytes_left_inject [of x e b] len x by simp
    have "ige_chain True (enc key) x x bs = ige_chain False (enc key) x b bs \<longleftrightarrow>
        x = b \<and> butlast (ige_chain False (enc key) x b bs) = butlast bs"
    proof (cases "x = b")
      case True
      then show ?thesis using Cons.IH [of x b] Cons.prems x by simp
    next
      case False
      then show ?thesis using same by (simp add: tail Let_def e_def)
    qed
    moreover have "ige_chain False (enc key) x b bs \<noteq> []" using tail by (simp add: Let_def)
    moreover have "ige_chain a (enc key) c m (b # bs) =
        x # ige_chain a (enc key) x (if a then x else b) bs" for a
      by (simp add: Let_def x_def)
    ultimately show ?thesis
      using tail by (simp only: butlast.simps list.inject if_True if_False simp_thms list.distinct)
  qed
qed simp

end

interpretation aes: keyed_cipher aes_encrypt aes_decrypt 32
  by unfold_locales (simp_all add: length_aes_encrypt aes_decrypt_encrypt aes_encrypt_decrypt)

section \<open>Encrypt and Decrypt\<close>

text \<open>The bytes of a slice, and a slice cut into blocks of 16 bytes.\<close>

definition slice_bytes :: "bytes \<Rightarrow> slice \<Rightarrow> bytes" where
  "slice_bytes mem s = slice_of mem (sptr s) (sptr s + slen s)"

fun blocks16 :: "nat \<Rightarrow> bytes \<Rightarrow> bytes list" where
  "blocks16 0 bs = []"
| "blocks16 (Suc n) bs = take 16 bs # blocks16 n (drop 16 bs)"

definition ige_bytes :: "bool \<Rightarrow> (bytes \<Rightarrow> bytes) \<Rightarrow> bytes \<Rightarrow> bytes \<Rightarrow> bytes \<Rightarrow> bytes" where
  "ige_bytes al E c m bs = concat (ige_chain al E c m (blocks16 (length bs div 16) bs))"

lemma length_blocks16 [simp]: "length (blocks16 n bs) = n"
  by (induction n bs rule: blocks16.induct) simp_all

lemma blocks16_16: "length bs = 16 * n \<Longrightarrow> \<forall>b \<in> set (blocks16 n bs). length b = 16"
  by (induction n bs rule: blocks16.induct) auto

lemma concat_blocks16 [simp]: "length bs = 16 * n \<Longrightarrow> concat (blocks16 n bs) = bs"
  by (induction n bs rule: blocks16.induct) auto

lemma blocks16_concat:
  "\<forall>b \<in> set bs. length b = 16 \<Longrightarrow> blocks16 (length bs) (concat bs) = bs"
  by (induction bs) auto

lemma length_concat_16: "\<forall>b \<in> set bs. length b = 16 \<Longrightarrow> length (concat bs) = 16 * length bs"
  by (induction bs) auto

text \<open>The slices of a call lie in memory, and do not overlap unless they are the same.\<close>

definition slices_ok :: "bytes \<Rightarrow> slice \<Rightarrow> slice \<Rightarrow> bool" where
  "slices_ok mem dst src \<longleftrightarrow>
     sptr dst + slen dst \<le> length mem \<and> sptr src + slen src \<le> length mem \<and>
     apart_or_same (sptr dst) (sptr src) (slen src)"

definition ige_ok :: "bytes \<Rightarrow> IGE \<Rightarrow> bool" where
  "ige_ok key g \<longleftrightarrow> length key = 32 \<and> length (ige_iv g) = 32 \<and>
     ige_block g = \<lparr>block_Encrypt = aes_encrypt key, block_Decrypt = aes_decrypt key\<rparr>"

lemma NewIGE_ok:
  "length key = 32 \<Longrightarrow> length iv = 32 \<Longrightarrow> \<exists>g. NewIGE key iv = Inr g \<and> ige_ok key g \<and> ige_iv g = iv"
  by (simp add: NewIGE_def aes_NewCipher_def ige_ok_def)

definition ige_c0 :: "IGE \<Rightarrow> bytes" where "ige_c0 g = slice_of (ige_iv g) 0 16"
definition ige_m0 :: "IGE \<Rightarrow> bytes" where "ige_m0 g = slice_of (ige_iv g) 16 32"

lemma loop_start:
  assumes "length (ige_iv g) = 32" "\<And>b. length b = 16 \<Longrightarrow> length (block_Encrypt (ige_block g) b) = 16"
    "slices_ok mem dst src" "slen src mod 16 = 0" "slen src \<le> slen dst"
  shows "IGE_Encrypt_loop g (sptr dst) (sptr src) (slen src) 0 (IvAt 0) (IvAt 16) mem =
      put_at mem (sptr dst) (ige_bytes (sptr dst = sptr src) (block_Encrypt (ige_block g))
        (ige_c0 g) (ige_m0 g) (slice_bytes mem src))"
    "IGE_Encrypt_loop g (sptr dst) (sptr src) (slen src) 0 (IvAt 16) (IvAt 0) mem =
      put_at mem (sptr dst) (ige_bytes (sptr dst = sptr src) (block_Encrypt (ige_block g))
        (ige_m0 g) (ige_c0 g) (slice_bytes mem src))"
proof -
  let ?n = "slen src" and ?bs = "slice_bytes mem src"
  have len: "length ?bs = ?n" "?n = 16 * (?n div 16)"
    using assms by (auto simp: slice_bytes_def slices_ok_def)
  have win: "windows_ok (ige_iv g) mem (sptr dst) (IvAt 0) (IvAt 16) (ige_c0 g) (ige_m0 g)"
    "windows_ok (ige_iv g) mem (sptr dst) (IvAt 16) (IvAt 0) (ige_m0 g) (ige_c0 g)"
    using assms(1) by (simp_all add: windows_ok_def ige_c0_def ige_m0_def)
  note chain = Encrypt_loop_chain [OF assms(2), where i = 0 and n = ?n and dst = "sptr dst"
      and src = "sptr src" and bs = "blocks16 (?n div 16) ?bs", simplified]
  show "IGE_Encrypt_loop g (sptr dst) (sptr src) ?n 0 (IvAt 0) (IvAt 16) mem =
      put_at mem (sptr dst) (ige_bytes (sptr dst = sptr src) (block_Encrypt (ige_block g))
        (ige_c0 g) (ige_m0 g) ?bs)"
    using assms(3-) win len blocks16_16 [of ?bs "?n div 16"]
    by (subst chain) (auto simp: slices_ok_def slice_bytes_def [symmetric] ige_bytes_def)
  show "IGE_Encrypt_loop g (sptr dst) (sptr src) ?n 0 (IvAt 16) (IvAt 0) mem =
      put_at mem (sptr dst) (ige_bytes (sptr dst = sptr src) (block_Encrypt (ige_block g))
        (ige_m0 g) (ige_c0 g) ?bs)"
    using assms(3-) win len blocks16_16 [of ?bs "?n div 16"]
    by (subst chain) (auto simp: slices_ok_def slice_bytes_def [symmetric] ige_bytes_def)
qed

lemma IGE_Encrypt_eq:
  assumes "ige_ok key g" "slices_ok mem dst src" "slen src mod 16 = 0" "slen src \<le> slen dst"
  shows "IGE_Encrypt g dst src mem = (None, put_at mem (sptr dst)
    (ige_bytes (sptr dst = sptr src) (aes_encrypt key) (ige_c0 g) (ige_m0 g) (slice_bytes mem src)))"
  using assms loop_start(1) [of g mem dst src]
  by (simp add: IGE_Encrypt_def ige_ok_def aes.enc_length)

lemma IGE_Decrypt_eq:
  assumes "ige_ok key g" "slices_ok mem dst src" "slen src mod 16 = 0" "slen src \<le> slen dst"
  shows "IGE_Decrypt g dst src mem = (None, put_at mem (sptr dst)
    (ige_bytes (sptr dst = sptr src) (aes_decrypt key) (ige_m0 g) (ige_c0 g) (slice_bytes mem src)))"
  using assms loop_start(2) [of "decrypting g" mem dst src]
  by (simp add: IGE_Decrypt_def ige_ok_def aes.dec_length Decrypt_loop_swap decrypting_def
      ige_c0_def ige_m0_def)

text \<open>The mode on byte strings is inverted, in both orders, when its slices are disjoint.\<close>

lemma ige_bytes_roundtrip:
  assumes "length key = 32" "length c = 16" "length m = 16" "length bs mod 16 = 0"
  shows "ige_bytes False (aes_decrypt key) m c (ige_bytes False (aes_encrypt key) c m bs) = bs"
    "ige_bytes False (aes_encrypt key) c m (ige_bytes False (aes_decrypt key) m c bs) = bs"
    "length (ige_bytes al (aes_encrypt key) c m bs) = length bs"
    "length (ige_bytes al (aes_decrypt key) m c bs) = length bs"
proof -
  let ?B = "blocks16 (length bs div 16) bs"
  have len: "length bs = 16 * (length bs div 16)" using assms(4) by auto
  have B: "\<forall>b \<in> set ?B. length b = 16" by (rule blocks16_16 [OF len])
  note e16 = ige_chain_16 [OF aes.enc_length [OF assms(1)] assms(2,3) B]
  note d16 = ige_chain_16 [OF aes.dec_length [OF assms(1)] assms(3,2) B]
  show e: "length (ige_bytes al (aes_encrypt key) c m bs) = length bs" for al
    using length_concat_16 [OF e16] len by (simp add: ige_bytes_def)
  show d: "length (ige_bytes al (aes_decrypt key) m c bs) = length bs" for al
    using length_concat_16 [OF d16] len by (simp add: ige_bytes_def)
  show "ige_bytes False (aes_decrypt key) m c (ige_bytes False (aes_encrypt key) c m bs) = bs"
    using blocks16_concat [OF e16] aes.unchain_chain [OF assms(1-3) B] e len
    by (simp add: ige_bytes_def ige_unchain_swap)
  show "ige_bytes False (aes_encrypt key) c m (ige_bytes False (aes_decrypt key) m c bs) = bs"
    using blocks16_concat [OF d16] aes.chain_unchain [OF assms(1-3) B] d len
    by (simp add: ige_bytes_def ige_unchain_swap)
qed

section \<open>Properties\<close>

lemma put_at_self: "sptr s + slen s \<le> length mem \<Longrightarrow> put_at mem (sptr s) (slice_bytes mem s) = mem"
  using take_slice_drop [of "sptr s" "sptr s + slen s" mem] by (simp add: put_at_def slice_bytes_def)

lemma put_at_slice_apart:
  assumes "slices_ok mem dst src" "sptr dst \<noteq> sptr src" "slen src \<le> slen dst" "length bs = slen src"
  shows "slice_bytes (put_at mem (sptr dst) bs) src = slice_bytes mem src"
    "slen src = slen dst \<Longrightarrow> slice_bytes (put_at mem (sptr dst) bs) dst = bs"
  using assms by (auto simp: slice_bytes_def slices_ok_def apart_or_same_def slice_put_at_apart)

lemma NewIGE_InrD:
  assumes "NewIGE key iv = Inr g"
  shows "ige_ok key g" and "ige_c0 g = slice_of iv 0 16" and "ige_m0 g = slice_of iv 16 32"
  using assms
  by (auto simp: NewIGE_def aes_NewCipher_def ige_ok_def ige_c0_def ige_m0_def split: if_splits)

text \<open>Decrypting a slice that holds a ciphertext writes its plaintext to the destination.\<close>

lemma Decrypt_ciphertext:
  assumes "ige_ok key g" "slices_ok m out src" "sptr out \<noteq> sptr src" "slen out = slen src"
    "length bs = slen src" "slen src mod 16 = 0"
    "slice_bytes m src = ige_bytes False (aes_encrypt key) (ige_c0 g) (ige_m0 g) bs"
  shows "IGE_Decrypt g out src m = (None, put_at m (sptr out) bs)"
proof -
  have iv: "length key = 32" "length (ige_c0 g) = 16" "length (ige_m0 g) = 16"
    using assms(1) by (simp_all add: ige_ok_def ige_c0_def ige_m0_def)
  show ?thesis
    using IGE_Decrypt_eq [OF assms(1,2,6)] assms(3-7) ige_bytes_roundtrip(1) [OF iv, of bs] by simp
qed

text \<open>
  C9. AES-256-IGE round trip through memory.  Encrypting a buffer into a disjoint one succeeds, puts
  the IGE chain of its blocks into the destination and changes nothing else.  Decrypting a slice
  that holds this ciphertext, in any memory and whatever the destination held before, writes the
  plaintext to the destination and changes nothing else; so decrypting the result back into the
  first buffer restores the memory to what it was after the encryption.
\<close>
theorem IGE_roundtrip:
  assumes "NewIGE key iv = Inr g" "slices_ok mem dst src" "sptr dst \<noteq> sptr src"
    "slen src mod 16 = 0" "slen src = slen dst"
  shows "\<exists>mem'. IGE_Encrypt g dst src mem = (None, mem') \<and> IGE_Decrypt g src dst mem' = (None, mem') \<and>
    slice_bytes mem' src = slice_bytes mem src \<and>
    (\<forall>q < length mem. q < sptr dst \<or> sptr dst + slen dst \<le> q \<longrightarrow> mem' ! q = mem ! q) \<and>
    slice_bytes mem' dst = concat (ige_chain False (aes_encrypt key) (slice_of iv 0 16) (slice_of iv 16 32)
      (blocks16 (slen src div 16) (slice_bytes mem src))) \<and>
    (\<forall>m out. slice_bytes m dst = slice_bytes mem' dst \<and> slices_ok m out dst \<and> sptr out \<noteq> sptr dst \<and>
       slen out = slen dst \<longrightarrow>
       (\<exists>m'. IGE_Decrypt g out dst m = (None, m') \<and> length m' = length m \<and>
          slice_bytes m' out = slice_bytes mem src \<and>
          (\<forall>q < length m. q < sptr out \<or> sptr out + slen out \<le> q \<longrightarrow> m' ! q = m ! q)))"
proof -
  note g = NewIGE_InrD [OF assms(1)]
  let ?p = "slice_bytes mem src"
  let ?x = "ige_bytes False (aes_encrypt key) (ige_c0 g) (ige_m0 g) ?p"
  let ?mem = "put_at mem (sptr dst) ?x"
  have in_mem: "sptr dst + slen dst \<le> length mem" "sptr src + slen src \<le> length mem"
    using assms(2) by (simp_all add: slices_ok_def)
  have n: "length ?p = slen src" using in_mem by (simp add: slice_bytes_def)
  have iv: "length key = 32" "length (ige_c0 g) = 16" "length (ige_m0 g) = 16"
    using g(1) by (simp_all add: ige_ok_def ige_c0_def ige_m0_def)
  have x: "length ?x = slen src"
    using ige_bytes_roundtrip(3) [OF iv, of ?p, unfolded n, OF assms(4)] .
  note after = put_at_slice_apart [OF assms(2,3) _ x]
  have dec: "IGE_Decrypt g out dst m = (None, put_at m (sptr out) ?p)"
    if "slice_bytes m dst = ?x" "slices_ok m out dst" "sptr out \<noteq> sptr dst" "slen out = slen dst" for m out
    using Decrypt_ciphertext [OF g(1) that(2-4), of ?p] that(1) n assms(4,5) by simp
  have elsewhere: "\<exists>m'. IGE_Decrypt g out dst m = (None, m') \<and> length m' = length m \<and>
      slice_bytes m' out = ?p \<and>
      (\<forall>q < length m. q < sptr out \<or> sptr out + slen out \<le> q \<longrightarrow> m' ! q = m ! q)"
    if "slice_bytes m dst = ?x" "slices_ok m out dst" "sptr out \<noteq> sptr dst" "slen out = slen dst" for m out
    using dec [OF that] that(2,4) n assms(5) by (auto simp: slices_ok_def slice_bytes_def nth_put_at)
  have "put_at ?mem (sptr src) ?p = ?mem"
    using put_at_self [of src ?mem] after(1) assms(5) in_mem x by simp
  moreover have "slices_ok ?mem src dst"
    using assms(2,3,5) x in_mem by (auto simp: slices_ok_def apart_or_same_def)
  ultimately have "IGE_Decrypt g src dst ?mem = (None, ?mem)"
    using dec [of ?mem src] after(2) assms(3,5) by simp
  moreover have "?x = concat (ige_chain False (aes_encrypt key) (slice_of iv 0 16) (slice_of iv 16 32)
      (blocks16 (slen src div 16) ?p))"
    by (simp add: ige_bytes_def n g(2,3))
  ultimately show ?thesis
    using IGE_Encrypt_eq [OF g(1) assms(2)] assms(3-5) after x in_mem elsewhere
    by (intro exI [of _ ?mem]) (simp add: nth_put_at)
qed

theorem IGE_roundtrip_witness:
  "\<exists>g mem'. NewIGE (replicate 32 0) (replicate 32 1) = Inr g \<and>
     IGE_Encrypt g \<lparr>sptr = 32, slen = 32\<rparr> \<lparr>sptr = 0, slen = 32\<rparr> (replicate 64 7) = (None, mem') \<and>
     (\<exists>m'. IGE_Decrypt g \<lparr>sptr = 0, slen = 32\<rparr> \<lparr>sptr = 32, slen = 32\<rparr>
          (replicate 32 0 @ slice_of mem' 32 64) = (None, m') \<and>
        slice_bytes m' \<lparr>sptr = 0, slen = 32\<rparr> = replicate 32 7)"
proof -
  let ?src = "\<lparr>sptr = 0, slen = 32\<rparr>" and ?dst = "\<lparr>sptr = 32, slen = 32\<rparr>"
  obtain g where g: "NewIGE (replicate 32 0) (replicate 32 1) = Inr g"
    using NewIGE_ok [of "replicate 32 0" "replicate 32 1"] by auto
  have src: "slice_bytes (replicate 64 7) ?src = replicate 32 7"
    by (simp add: slice_bytes_def slice_of_def)
  have pre: "slices_ok (replicate 64 7) ?dst ?src" by (simp add: slices_ok_def apart_or_same_def)
  have sizes: "sptr ?dst \<noteq> sptr ?src" "slen ?src mod 16 = 0" "slen ?src = slen ?dst" by simp_all
  obtain mem' where enc: "IGE_Encrypt g ?dst ?src (replicate 64 7) = (None, mem')"
    and dec: "\<forall>m out. slice_bytes m ?dst = slice_bytes mem' ?dst \<and> slices_ok m out ?dst \<and>
      sptr out \<noteq> sptr ?dst \<and> slen out = slen ?dst \<longrightarrow>
      (\<exists>m'. IGE_Decrypt g out ?dst m = (None, m') \<and> length m' = length m \<and>
         slice_bytes m' out = slice_bytes (replicate 64 7) ?src \<and>
         (\<forall>q < length m. q < sptr out \<or> sptr out + slen out \<le> q \<longrightarrow> m' ! q = m ! q))"
    using IGE_roundtrip [OF g pre sizes] by blast
  have "length mem' = 64"
    using IGE_Encrypt_eq [OF NewIGE_InrD(1) [OF g], of "replicate 64 7" ?dst ?src] enc
      ige_bytes_roundtrip(3) [of "replicate 32 0" "ige_c0 g" "ige_m0 g" "slice_bytes (replicate 64 7) ?src"]
      NewIGE_InrD(1) [OF g]
    by (auto simp: slices_ok_def apart_or_same_def src ige_ok_def ige_c0_def ige_m0_def)
  then show ?thesis
    using g enc dec [rule_format, of "replicate 32 0 @ slice_of mem' 32 64" ?src] src
    by (auto simp: slices_ok_def apart_or_same_def slice_bytes_def slice_of_def)
qed

text \<open>
  The constructor and the two operations reject what they must: keys and vectors of the wrong
  size, data that is not a whole number of blocks, destinations that are too small; and they leave
  the memory untouched when they do.
\<close>
theorem IGE_errors:
  "(length key \<noteq> 32 \<longrightarrow> NewIGE key iv = Inl ErrInvalidKeyLength) \<and>
   (length key = 32 \<and> length iv \<noteq> 32 \<longrightarrow> NewIGE key iv = Inl ErrInvalidIVLength) \<and>
   (slen src mod 16 \<noteq> 0 \<longrightarrow> IGE_Encrypt g dst src mem = (Some ErrInvalidBlockSize, mem) \<and>
      IGE_Decrypt g dst src mem = (Some ErrInvalidBlockSize, mem)) \<and>
   (slen src mod 16 = 0 \<and> slen dst < slen src \<longrightarrow>
      (\<exists>msg. IGE_Encrypt g dst src mem = (Some (NewError msg), mem) \<and>
             IGE_Decrypt g dst src mem = (Some (NewError msg), mem)))"
  by (simp add: NewIGE_def IGE_Encrypt_def IGE_Decrypt_def Let_def)

theorem IGE_errors_witness:
  "NewIGE [1, 2] [] = Inl ErrInvalidKeyLength \<and>
   IGE_Decrypt \<lparr>ige_block = \<lparr>block_Encrypt = rev, block_Decrypt = rev\<rparr>, ige_iv = []\<rparr>
     \<lparr>sptr = 0, slen = 5\<rparr> \<lparr>sptr = 0, slen = 5\<rparr> (replicate 5 0) = (Some ErrInvalidBlockSize, replicate 5 0)"
  using IGE_errors [of "[1, 2]" "[]" "\<lparr>sptr = 0, slen = 5\<rparr>"
      "\<lparr>ige_block = \<lparr>block_Encrypt = rev, block_Decrypt = rev\<rparr>, ige_iv = []\<rparr>"
      "\<lparr>sptr = 0, slen = 5\<rparr>" "replicate 5 0"]
  by simp

end
