(* ===== verification/Std_Hash.thy ===== *)
theory Std_Hash
  imports Go_Std
begin

text \<open>
  The digests the program calls: \<^verbatim>\<open>crypto/sha1\<close> and \<^verbatim>\<open>crypto/sha256\<close>, as the functions FIPS 180-4
  defines, over byte lists.  What the other theories use of them
  is the digest length.
\<close>

section \<open>Shared parts\<close>

definition rotr32 :: "nat \<Rightarrow> uint32 \<Rightarrow> uint32" where
  "rotr32 n w = drop_bit n w OR push_bit (32 - n) w"

definition rotl32 :: "nat \<Rightarrow> uint32 \<Rightarrow> uint32" where
  "rotl32 n w = push_bit n w OR drop_bit (32 - n) w"

definition be_put32 :: "uint32 \<Rightarrow> bytes" where
  "be_put32 w = [ucast (drop_bit 24 w), ucast (drop_bit 16 w), ucast (drop_bit 8 w), ucast w]"

definition be_put64 :: "uint64 \<Rightarrow> bytes" where
  "be_put64 w = be_put32 (ucast (drop_bit 32 w)) @ be_put32 (ucast w)"

fun be_words :: "bytes \<Rightarrow> uint32 list" where
  "be_words (a # b # c # d # bs) =
     (push_bit 24 (ucast a) OR push_bit 16 (ucast b) OR push_bit 8 (ucast c) OR ucast d)
       # be_words bs"
| "be_words _ = []"

text \<open>One bit, zeroes, and the length in bits: a multiple of 64 bytes.\<close>

definition md_pad :: "(uint64 \<Rightarrow> bytes) \<Rightarrow> bytes \<Rightarrow> bytes" where
  "md_pad put bs = bs @ [0x80] @ replicate ((119 - length bs mod 64) mod 64) 0
     @ put (of_nat (8 * length bs))"

fun blocks64 :: "nat \<Rightarrow> bytes \<Rightarrow> bytes list" where
  "blocks64 0 bs = []"
| "blocks64 (Suc n) bs = take 64 bs # blocks64 n (drop 64 bs)"

definition md_blocks :: "(uint64 \<Rightarrow> bytes) \<Rightarrow> bytes \<Rightarrow> bytes list" where
  "md_blocks put bs = (let m = md_pad put bs in blocks64 (length m div 64) m)"

section \<open>SHA-256\<close>

type_synonym sha256_state =
  "uint32 \<times> uint32 \<times> uint32 \<times> uint32 \<times> uint32 \<times> uint32 \<times> uint32 \<times> uint32"

definition sha256_K :: "uint32 list" where
  "sha256_K = [
     1116352408, 1899447441, 3049323471, 3921009573, 961987163, 1508970993, 2453635748, 2870763221,
     3624381080, 310598401, 607225278, 1426881987, 1925078388, 2162078206, 2614888103, 3248222580,
     3835390401, 4022224774, 264347078, 604807628, 770255983, 1249150122, 1555081692, 1996064986,
     2554220882, 2821834349, 2952996808, 3210313671, 3336571891, 3584528711, 113926993, 338241895,
     666307205, 773529912, 1294757372, 1396182291, 1695183700, 1986661051, 2177026350, 2456956037,
     2730485921, 2820302411, 3259730800, 3345764771, 3516065817, 3600352804, 4094571909, 275423344,
     430227734, 506948616, 659060556, 883997877, 958139571, 1322822218, 1537002063, 1747873779,
     1955562222, 2024104815, 2227730452, 2361852424, 2428436474, 2756734187, 3204031479, 3329325298]"

definition sha256_ssig0 :: "uint32 \<Rightarrow> uint32" where
  "sha256_ssig0 x = rotr32 7 x XOR rotr32 18 x XOR drop_bit 3 x"

definition sha256_ssig1 :: "uint32 \<Rightarrow> uint32" where
  "sha256_ssig1 x = rotr32 17 x XOR rotr32 19 x XOR drop_bit 10 x"

text \<open>The message schedule, newest word first.\<close>

fun sha256_expand :: "nat \<Rightarrow> uint32 list \<Rightarrow> uint32 list" where
  "sha256_expand 0 ws = ws"
| "sha256_expand (Suc n) ws =
     sha256_expand n
       ((sha256_ssig1 (ws ! 1) + ws ! 6 + sha256_ssig0 (ws ! 14) + ws ! 15) # ws)"

fun sha256_round :: "uint32 \<times> uint32 \<Rightarrow> sha256_state \<Rightarrow> sha256_state" where
  "sha256_round (k, w) (a, b, c, d, e, f, g, h) =
     (let t1 = h + (rotr32 6 e XOR rotr32 11 e XOR rotr32 25 e)
                 + ((e AND f) XOR (NOT e AND g)) + k + w;
          t2 = (rotr32 2 a XOR rotr32 13 a XOR rotr32 22 a)
                 + ((a AND b) XOR (a AND c) XOR (b AND c))
      in (t1 + t2, a, b, c, d + t1, e, f, g))"

fun sha256_add :: "sha256_state \<Rightarrow> sha256_state \<Rightarrow> sha256_state" where
  "sha256_add (a, b, c, d, e, f, g, h) (a', b', c', d', e', f', g', h') =
     (a + a', b + b', c + c', d + d', e + e', f + f', g + g', h + h')"

definition sha256_block :: "bytes \<Rightarrow> sha256_state \<Rightarrow> sha256_state" where
  "sha256_block blk s =
     sha256_add s (fold sha256_round (zip sha256_K (rev (sha256_expand 48 (rev (be_words blk))))) s)"

fun sha256_out :: "sha256_state \<Rightarrow> bytes" where
  "sha256_out (a, b, c, d, e, f, g, h) = concat (map be_put32 [a, b, c, d, e, f, g, h])"

definition sha256 :: "bytes \<Rightarrow> bytes" where
  "sha256 bs = sha256_out (fold sha256_block (md_blocks be_put64 bs)
     (0x6a09e667, 0xbb67ae85, 0x3c6ef372, 0xa54ff53a, 0x510e527f, 0x9b05688c, 0x1f83d9ab, 0x5be0cd19))"

section \<open>SHA-1\<close>

type_synonym sha1_state = "uint32 \<times> uint32 \<times> uint32 \<times> uint32 \<times> uint32"

fun sha1_expand :: "nat \<Rightarrow> uint32 list \<Rightarrow> uint32 list" where
  "sha1_expand 0 ws = ws"
| "sha1_expand (Suc n) ws =
     sha1_expand n (rotl32 1 (ws ! 2 XOR ws ! 7 XOR ws ! 13 XOR ws ! 15) # ws)"

definition sha1_step :: "uint32 \<Rightarrow> uint32 \<Rightarrow> uint32 \<Rightarrow> sha1_state \<Rightarrow> sha1_state" where
  "sha1_step f k w s =
     (case s of (a, b, c, d, e) \<Rightarrow> (rotl32 5 a + f + e + k + w, a, rotl32 30 b, c, d))"

fun sha1_ch :: "uint32 \<Rightarrow> sha1_state \<Rightarrow> sha1_state" where
  "sha1_ch w (a, b, c, d, e) =
     sha1_step ((b AND c) OR (NOT b AND d)) 0x5a827999 w (a, b, c, d, e)"

fun sha1_par :: "uint32 \<Rightarrow> uint32 \<Rightarrow> sha1_state \<Rightarrow> sha1_state" where
  "sha1_par k w (a, b, c, d, e) = sha1_step (b XOR c XOR d) k w (a, b, c, d, e)"

fun sha1_maj :: "uint32 \<Rightarrow> sha1_state \<Rightarrow> sha1_state" where
  "sha1_maj w (a, b, c, d, e) =
     sha1_step ((b AND c) OR (b AND d) OR (c AND d)) 0x8f1bbcdc w (a, b, c, d, e)"

fun sha1_add :: "sha1_state \<Rightarrow> sha1_state \<Rightarrow> sha1_state" where
  "sha1_add (a, b, c, d, e) (a', b', c', d', e') = (a + a', b + b', c + c', d + d', e + e')"

definition sha1_block :: "bytes \<Rightarrow> sha1_state \<Rightarrow> sha1_state" where
  "sha1_block blk s =
     (let ws = rev (sha1_expand 64 (rev (be_words blk)));
          t = fold sha1_ch (take 20 ws) s;
          t = fold (sha1_par 0x6ed9eba1) (take 20 (drop 20 ws)) t;
          t = fold sha1_maj (take 20 (drop 40 ws)) t;
          t = fold (sha1_par 0xca62c1d6) (drop 60 ws) t
      in sha1_add s t)"

fun sha1_out :: "sha1_state \<Rightarrow> bytes" where
  "sha1_out (a, b, c, d, e) = concat (map be_put32 [a, b, c, d, e])"

definition sha1 :: "bytes \<Rightarrow> bytes" where
  "sha1 bs = sha1_out (fold sha1_block (md_blocks be_put64 bs)
     (0x67452301, 0xefcdab89, 0x98badcfe, 0x10325476, 0xc3d2e1f0))"

section \<open>Digest lengths\<close>

lemma length_sha256 [simp]: "length (sha256 bs) = 32"
proof -
  have "length (sha256_out s) = 32" for s
    by (cases s rule: sha256_out.cases) (simp add: be_put32_def)
  then show ?thesis by (simp add: sha256_def)
qed

lemma length_sha1 [simp]: "length (sha1 bs) = 20"
proof -
  have "length (sha1_out s) = 20" for s
    by (cases s rule: sha1_out.cases) (simp add: be_put32_def)
  then show ?thesis by (simp add: sha1_def)
qed

end
