(* ===== verification/Crypto.thy ===== *)
theory Crypto
  imports IGE Std_Hash Go_Std Encoder
begin

text \<open>
  The rest of \<^verbatim>\<open>mtproto/crypto\<close>: the key derivation of MTProto 2.0 (\<^verbatim>\<open>kdf.go\<close>), the authorization
  key and its identifier (\<^verbatim>\<open>authkey.go\<close>) and the raw RSA step of the key exchange (\<^verbatim>\<open>rsa.go\<close>).
  Random bytes are an argument; a \<^verbatim>\<open>*big.Int\<close> that the code only builds from unsigned bytes is a
  natural number.
\<close>

section \<open>kdf.go\<close>

datatype Role = ClientRole | ServerRole

definition role_int :: "Role \<Rightarrow> nat" where
  "role_int role = (case role of ClientRole \<Rightarrow> 0 | ServerRole \<Rightarrow> 8)"

text \<open>
  Every caller passes \<^verbatim>\<open>authKey.Value[:]\<close>, an array of 256 bytes; the ranges below end at 84 and
  at 128, so no slice expression panics.
\<close>

definition KDF :: "bytes \<Rightarrow> bytes \<Rightarrow> Role \<Rightarrow> bytes \<times> bytes" where
  "KDF authKey msgKey role =
     (let x = role_int role;
          bufA = msgKey @ slice_of authKey x (x + 36);
          shaA = sha256 bufA;
          bufB = slice_of authKey (40 + x) (40 + x + 36) @ msgKey;
          shaB = sha256 bufB;
          key = slice_of shaA 0 8 @ slice_of shaB 8 24 @ slice_of shaA 24 32;
          iv = slice_of shaB 0 8 @ slice_of shaA 8 24 @ slice_of shaB 24 32
      in (key, iv))"

definition ComputeMsgKey :: "bytes \<Rightarrow> bytes \<Rightarrow> Role \<Rightarrow> bytes" where
  "ComputeMsgKey authKey plaintext role =
     (let x = role_int role;
          sum = sha256 (slice_of authKey (88 + x) (88 + x + 32) @ plaintext)
      in slice_of sum 8 24)"

section \<open>authkey.go\<close>

record AuthKey =
  ak_Value :: bytes
  ak_ID :: uint64

definition NewAuthKey :: "bytes \<Rightarrow> goerror + AuthKey" where
  "NewAuthKey data =
     (if length data \<noteq> 256 then Inl (NewError ''crypto: auth_key must be exactly 256 bytes'')
      else Inr \<lparr>ak_Value = data, ak_ID = le_get (slice_of (sha1 data) 12 20)\<rparr>)"

definition authkey_ok :: "AuthKey \<Rightarrow> bool" where
  "authkey_ok k \<longleftrightarrow> length (ak_Value k) = 256 \<and> ak_ID k = le_get (slice_of (sha1 (ak_Value k)) 12 20)"

section \<open>rsa.go\<close>

record RSAPublicKey =
  rsa_N :: nat
  rsa_E :: nat
  rsa_Fingerprint :: int64

definition encodeTLBytes :: "bytes \<Rightarrow> bytes" where
  "encodeTLBytes b =
     (let n = length b in
      if n \<le> 253 then
        let out = [of_nat n] @ b; pad = (4 - ((1 + n) mod 4)) mod 4
        in out @ replicate pad 0
      else
        let out = [0xfe, of_nat n, of_nat (drop_bit 8 n), of_nat (drop_bit 16 n)] @ b;
            pad = (4 - (n mod 4)) mod 4
        in out @ replicate pad 0)"

definition ComputeFingerprint :: "nat \<Rightarrow> nat \<Rightarrow> int64" where
  "ComputeFingerprint n e =
     (let buf = encodeTLBytes (BigBytes n) @ encodeTLBytes (BigBytes e);
          h = sha1 buf
      in le_get (slice_of h 12 20))"

text \<open>
  \<^verbatim>\<open>big.Int.Exp(x, y, m)\<close> is \<open>x ^ y\<close> modulo \<open>m\<close>, and \<open>x ^ y\<close> itself for \<open>m = 0\<close>, as \<open>mod\<close> is in HOL.
\<close>

definition BigExp :: "nat \<Rightarrow> nat \<Rightarrow> nat \<Rightarrow> nat" where
  "BigExp x y m = x ^ y mod m"

definition fixed256 :: "bytes \<Rightarrow> bytes" where
  "fixed256 out = (if length out < 256 then replicate (256 - length out) 0 @ out else out)"

definition RSA_Encrypt :: "RSAPublicKey \<Rightarrow> entropy \<Rightarrow> bytes \<Rightarrow> goerror + bytes" where
  "RSA_Encrypt k rnd data =
     (let h = sha1 data; contentLen = length h + length data in
      if contentLen > 255 then Inl (NewError ''crypto: data too large for 2048-bit RSA encryption'')
      else
        let finish = (\<lambda>padded. let m = SetBytes padded; c = BigExp m (rsa_E k) (rsa_N k)
                              in Inr (fixed256 (BigBytes c)))
        in if 255 - contentLen > 0 then
             (case rnd (255 - contentLen) of
                Inl err \<Rightarrow> Inl err
              | Inr tail \<Rightarrow> finish (h @ data @ tail))
           else finish (h @ data))"

section \<open>Lemmas\<close>

lemma length_ComputeMsgKey [simp]: "length (ComputeMsgKey ak p role) = 16"
  by (simp add: ComputeMsgKey_def Let_def)

lemma KDF_lengths:
  "KDF ak mk role = (key, iv) \<Longrightarrow> length key = 32 \<and> length iv = 32"
  by (auto simp: KDF_def Let_def)

lemma KDF_slices_in_bounds:
  "role_int role + 36 \<le> 256 \<and> 40 + role_int role + 36 \<le> 256 \<and> 88 + role_int role + 32 \<le> 256"
  by (cases role) (simp_all add: role_int_def)

text \<open>The two roles read the authorization key at ranges eight bytes apart.\<close>

lemma NewAuthKey_ok: "NewAuthKey data = Inr k \<Longrightarrow> authkey_ok k \<and> ak_Value k = data"
  by (auto simp: NewAuthKey_def authkey_ok_def split: if_splits)

lemma encodeTLBytes_tl_bytes: "encodeTLBytes b = tl_bytes b"
  by (auto simp: encodeTLBytes_def Let_def tl_bytes_def tl_header_def tl_padding_def)

lemma length_fixed256: "length bs \<le> 256 \<Longrightarrow> length (fixed256 bs) = 256"
  by (simp add: fixed256_def)

lemma SetBytes_fixed256 [simp]: "SetBytes (fixed256 bs) = SetBytes bs"
  by (simp add: fixed256_def SetBytes_replicate_zero)

lemma RSA_Encrypt_cases:
  assumes "RSA_Encrypt k rnd data = Inr out" "rand_ok rnd"
  shows "\<exists>tail. length (sha1 data @ data @ tail) = 255 \<and>
    out = fixed256 (BigBytes (SetBytes (sha1 data @ data @ tail) ^ rsa_E k mod rsa_N k))"
proof (cases "length data = 235")
  case True
  then show ?thesis
    using assms(1) by (intro exI [of _ "[]"]) (simp add: RSA_Encrypt_def BigExp_def Let_def)
next
  case False
  then obtain tail where "rnd (255 - (20 + length data)) = Inr tail" "length data < 235"
      "out = fixed256 (BigBytes (SetBytes (sha1 data @ data @ tail) ^ rsa_E k mod rsa_N k))"
    using assms(1) by (auto simp: RSA_Encrypt_def BigExp_def Let_def split: if_splits sum.splits)
  then show ?thesis
    using assms(2) by (intro exI [of _ tail]) (auto simp: rand_ok_def)
qed

text \<open>
  RSA step: with a 2048-bit modulus the result always has 256 bytes, and whoever can take
  the \<open>e\<close>-th root modulo \<open>N\<close> recovers the padded block: the SHA1 hash of the data, the data, and
  random bytes up to 255.
\<close>
theorem RSA_Encrypt_block:
  assumes ok: "rand_ok rnd" and enc: "RSA_Encrypt k rnd data = Inr out"
    and modulus: "256 ^ 255 \<le> rsa_N k" "rsa_N k < 256 ^ 256"
    and key_pair: "\<And>m. m < rsa_N k \<Longrightarrow> (m ^ rsa_E k mod rsa_N k) ^ d mod rsa_N k = m"
  shows "length out = 256 \<and>
    (\<exists>tail. length (sha1 data @ data @ tail) = 255 \<and>
       BigExp (SetBytes out) d (rsa_N k) = SetBytes (sha1 data @ data @ tail))"
proof -
  obtain tail where t: "length (sha1 data @ data @ tail) = 255"
      "out = fixed256 (BigBytes (SetBytes (sha1 data @ data @ tail) ^ rsa_E k mod rsa_N k))"
    using RSA_Encrypt_cases [OF enc ok] by blast
  have N: "0 < rsa_N k" using modulus(1) by (metis gr_zeroI le_zero_eq power_not_zero zero_neq_numeral)
  have "SetBytes (sha1 data @ data @ tail) < rsa_N k"
    using SetBytes_less [of "sha1 data @ data @ tail"] t(1) modulus(1) by simp
  moreover have "length (BigBytes (x mod rsa_N k)) \<le> 256" for x
    using N modulus(2) by (intro length_BigBytes) (meson less_trans mod_less_divisor)
  ultimately show ?thesis
    using t key_pair by (auto simp: length_fixed256 BigExp_def intro!: exI [of _ tail])
qed

theorem RSA_Encrypt_block_witness:
  "\<exists>out. RSA_Encrypt \<lparr>rsa_N = 256 ^ 255, rsa_E = 1, rsa_Fingerprint = 0\<rparr>
       (\<lambda>n. Inr (replicate n 0)) [] = Inr out \<and> length out = 256"
proof -
  let ?k = "\<lparr>rsa_N = 256 ^ 255, rsa_E = 1, rsa_Fingerprint = 0\<rparr> :: RSAPublicKey"
  let ?rnd = "\<lambda>n. Inr (replicate n 0) :: goerror + bytes"
  obtain out where "RSA_Encrypt ?k ?rnd [] = Inr out"
    by (simp add: RSA_Encrypt_def Let_def)
  moreover have "length out = 256"
    using RSA_Encrypt_block [of ?rnd ?k "[]" out 1] calculation by (simp add: rand_ok_def)
  ultimately show ?thesis by blast
qed

end
