(* ===== verification/Protocol.thy ===== *)
theory Protocol
  imports Crypto
begin

text \<open>
  \<^verbatim>\<open>mtproto/protocol/message.go\<close>: the unencrypted and the encrypted packet formats.
\<close>

section \<open>message.go\<close>

definition PackUnencrypted :: "int64 \<Rightarrow> bytes \<Rightarrow> bytes" where
  "PackUnencrypted msgID payload =
     replicate 8 0 @ le_put 8 msgID @ le_put 4 (of_nat (length payload) :: uint32) @ payload"

definition UnpackUnencrypted :: "bytes \<Rightarrow> goerror + int64 \<times> bytes" where
  "UnpackUnencrypted data =
     (if length data < 20 then Inl ErrPacketTooShort
      else
        let authKeyID = le_get (slice_of data 0 8) :: uint64 in
        if authKeyID \<noteq> 0 then
          Inl (NewError (''protocol: expected unencrypted auth_key_id 0, got 0x''
                          @ fmt_hex 16 (unat authKeyID)))
        else
          let msgID = le_get (slice_of data 8 16) :: int64;
              msgLen = unat (le_get (slice_of data 16 20) :: uint32)
          in if length data < 20 + msgLen then Inl ErrPacketTooShort
             else Inr (msgID, slice_of data 20 (20 + msgLen)))"

text \<open>The 32-byte header that both directions put in front of the payload.\<close>

definition inner_header :: "int64 \<Rightarrow> int64 \<Rightarrow> int64 \<Rightarrow> int32 \<Rightarrow> nat \<Rightarrow> bytes" where
  "inner_header salt session msgID seqNo n =
     le_put 8 salt @ le_put 8 session @ le_put 8 msgID @ le_put 4 seqNo @ le_put 4 (of_nat n :: uint32)"

definition PackEncrypted ::
  "AuthKey \<Rightarrow> int64 \<Rightarrow> int64 \<Rightarrow> int64 \<Rightarrow> int32 \<Rightarrow> bytes \<Rightarrow> entropy \<Rightarrow> goerror + bytes" where
  "PackEncrypted authKey serverSalt sessionID msgID seqNo payload rnd =
     (let headerLen = 8 + 8 + 8 + 4 + 4;
          contentLen = headerLen + length payload;
          padLen = 16 - (contentLen mod 16);
          padLen = (if padLen < 12 then padLen + 16 else padLen)
      in case rnd padLen of
           Inl err \<Rightarrow> Inl (Wrapped ''protocol: crypto/rand error: '' err)
         | Inr padding \<Rightarrow>
             let inner = inner_header serverSalt sessionID msgID seqNo (length payload)
                   @ payload @ padding;
                 msgKey = ComputeMsgKey (ak_Value authKey) inner ClientRole;
                 (aesKey, aesIV) = KDF (ak_Value authKey) msgKey ClientRole
             in case NewIGE aesKey aesIV of
                  Inl err \<Rightarrow> Inl err
                | Inr cipher \<Rightarrow>
                    let whole = \<lparr>sptr = 0, slen = length inner\<rparr> in
                    case IGE_Encrypt cipher whole whole inner of
                      (Some err, inner) \<Rightarrow> Inl err
                    | (None, inner) \<Rightarrow> Inr (le_put 8 (ak_ID authKey) @ msgKey @ inner))"

definition UnpackEncrypted ::
  "AuthKey \<Rightarrow> int64 \<Rightarrow> bytes \<Rightarrow> goerror + int64 \<times> int64 \<times> int32 \<times> bytes" where
  "UnpackEncrypted authKey expectedSessionID data =
     (if length data < 8 + 16 + 32 then Inl ErrPacketTooShort
      else if le_get (slice_of data 0 8) \<noteq> ak_ID authKey then Inl ErrAuthKeyMismatch
      else
        let msgKey = slice_of data 8 24;
            encrypted = drop 24 data
        in if length encrypted mod 16 \<noteq> 0 then Inl ErrPacketTooShort
        else
          let (aesKey, aesIV) = KDF (ak_Value authKey) msgKey ServerRole
          in case NewIGE aesKey aesIV of
               Inl err \<Rightarrow> Inl err
             | Inr cipher \<Rightarrow>
                 let n = length encrypted;
                     mem = encrypted @ replicate n 0
                 in case IGE_Decrypt cipher \<lparr>sptr = n, slen = n\<rparr> \<lparr>sptr = 0, slen = n\<rparr> mem of
                      (Some err, mem) \<Rightarrow> Inl err
                    | (None, mem) \<Rightarrow>
                        let inner = slice_of mem n (n + n);
                            expectedMsgKey = ComputeMsgKey (ak_Value authKey) inner ServerRole
                        in if msgKey \<noteq> expectedMsgKey then Inl ErrMsgKeyMismatch
                        else
                          let serverSalt = le_get (slice_of inner 0 8) :: int64;
                              sessionID = le_get (slice_of inner 8 16) :: int64
                          in if expectedSessionID \<noteq> 0 \<and> sessionID \<noteq> expectedSessionID
                             then Inl ErrSessionMismatch
                             else
                               let msgID = le_get (slice_of inner 16 24) :: int64;
                                   seqNo = le_get (slice_of inner 24 28) :: int32;
                                   msgLen = unat (le_get (slice_of inner 28 32) :: uint32)
                               in if 32 + msgLen > length inner then Inl ErrInvalidMsgLength
                                  else Inr (serverSalt, msgID, seqNo,
                                            slice_of inner 32 (32 + msgLen)))"

section \<open>The unencrypted format\<close>

lemma PackUnencrypted_slices:
  "slice_of (PackUnencrypted mid p @ rest) 0 8 = replicate 8 0"
  "slice_of (PackUnencrypted mid p @ rest) 8 16 = le_put 8 mid"
  "slice_of (PackUnencrypted mid p @ rest) 16 20 = le_put 4 (of_nat (length p) :: uint32)"
  "slice_of (PackUnencrypted mid p @ rest) 20 (20 + length p) = p"
  "length (PackUnencrypted mid p) = 20 + length p"
proof -
  let ?l = "le_put 4 (of_nat (length p) :: uint32)"
  show "slice_of (PackUnencrypted mid p @ rest) 0 8 = replicate 8 0"
    unfolding PackUnencrypted_def append.assoc by (rule slice_of_prefix) simp
  show "slice_of (PackUnencrypted mid p @ rest) 8 16 = le_put 8 mid"
    unfolding PackUnencrypted_def append.assoc by (rule slice_of_append_mid) simp_all
  show "slice_of (PackUnencrypted mid p @ rest) 16 20 = ?l"
    using slice_of_append_mid [of "replicate 8 0 @ le_put 8 mid" 16 20 ?l "p @ rest"]
    by (simp add: PackUnencrypted_def del: slice_of_append_mid)
  show "slice_of (PackUnencrypted mid p @ rest) 20 (20 + length p) = p"
    using slice_of_append_mid [of "replicate 8 0 @ le_put 8 mid @ ?l" 20 "20 + length p" p rest]
    by (simp add: PackUnencrypted_def del: slice_of_append_mid)
qed (simp add: PackUnencrypted_def)

lemma le_get_zeroes [simp]: "le_get (replicate n 0) = 0"
  by (induction n) simp_all

lemma Unpack_PackUnencrypted:
  "length p < 2 ^ 32 \<Longrightarrow> UnpackUnencrypted (PackUnencrypted mid p @ rest) = Inr (mid, p)"
  by (simp add: UnpackUnencrypted_def Let_def PackUnencrypted_slices unat_len32)

text \<open>Five slices that follow each other make up the whole.\<close>

lemma slices_join: "i \<le> j \<Longrightarrow> j \<le> k \<Longrightarrow> slice_of xs i j @ slice_of xs j k = slice_of xs i k"
  using take_add [of "j - i" "k - j" "drop i xs"] by (simp add: slice_of_def)

lemma slice_to_end: "slice_of xs i (length xs) = drop i xs"
  by (simp add: slice_of_def)

section \<open>The encrypted format as the protocol defines it\<close>

text \<open>
  \<open>seal\<close> is an encrypted message of the side \<open>role\<close> around the inner data \<open>inner\<close>: key identifier,
  message key, and \<open>inner\<close> under AES-256 in the IGE mode with the derived key.
\<close>

definition role_key :: "AuthKey \<Rightarrow> bytes \<Rightarrow> Role \<Rightarrow> bytes" where
  "role_key ak msgKey role = fst (KDF (ak_Value ak) msgKey role)"
definition role_c0 :: "AuthKey \<Rightarrow> bytes \<Rightarrow> Role \<Rightarrow> bytes" where
  "role_c0 ak msgKey role = slice_of (snd (KDF (ak_Value ak) msgKey role)) 0 16"
definition role_m0 :: "AuthKey \<Rightarrow> bytes \<Rightarrow> Role \<Rightarrow> bytes" where
  "role_m0 ak msgKey role = slice_of (snd (KDF (ak_Value ak) msgKey role)) 16 32"

definition ige_seal :: "bool \<Rightarrow> AuthKey \<Rightarrow> bytes \<Rightarrow> Role \<Rightarrow> bytes \<Rightarrow> bytes" where
  "ige_seal al ak msgKey role inner =
     ige_bytes al (aes_encrypt (role_key ak msgKey role)) (role_c0 ak msgKey role)
       (role_m0 ak msgKey role) inner"

definition ige_open :: "AuthKey \<Rightarrow> bytes \<Rightarrow> Role \<Rightarrow> bytes \<Rightarrow> bytes" where
  "ige_open ak msgKey role cipher =
     ige_bytes False (aes_decrypt (role_key ak msgKey role)) (role_m0 ak msgKey role)
       (role_c0 ak msgKey role) cipher"

definition seal :: "AuthKey \<Rightarrow> Role \<Rightarrow> bytes \<Rightarrow> bytes" where
  "seal ak role inner =
     (let msgKey = ComputeMsgKey (ak_Value ak) inner role
      in le_put 8 (ak_ID ak) @ msgKey @ ige_seal False ak msgKey role inner)"

definition inner_data :: "int64 \<Rightarrow> int64 \<Rightarrow> int64 \<Rightarrow> int32 \<Rightarrow> bytes \<Rightarrow> bytes \<Rightarrow> bytes" where
  "inner_data salt session msgID seqNo payload padding =
     inner_header salt session msgID seqNo (length payload) @ payload @ padding"

lemma role_lengths [simp]:
  "length (role_key ak mk role) = 32" "length (role_c0 ak mk role) = 16"
  "length (role_m0 ak mk role) = 16"
  using KDF_lengths [of "ak_Value ak" mk role "fst (KDF (ak_Value ak) mk role)"
      "snd (KDF (ak_Value ak) mk role)"]
  by (simp_all add: role_key_def role_c0_def role_m0_def)

lemma ige_open_seal:
  assumes "length bs mod 16 = 0"
  shows "ige_open ak mk role (ige_seal False ak mk role bs) = bs"
    "ige_seal False ak mk role (ige_open ak mk role bs) = bs"
    "length (ige_seal al ak mk role bs) = length bs" "length (ige_open ak mk role bs) = length bs"
  using ige_bytes_roundtrip [OF role_lengths assms]
  by (simp_all add: ige_open_def ige_seal_def)

lemma length_inner_header [simp]: "length (inner_header a b c d n) = 32"
  by (simp add: inner_header_def)

lemma length_inner_data [simp]: "length (inner_data a b c d p q) = 32 + length p + length q"
  by (simp add: inner_data_def)

lemma NewIGE_KDF:
  obtains g where "NewIGE (role_key ak mk role) (snd (KDF (ak_Value ak) mk role)) = Inr g"
    "ige_ok (role_key ak mk role) g" "ige_c0 g = role_c0 ak mk role" "ige_m0 g = role_m0 ak mk role"
proof -
  let ?kv = "KDF (ak_Value ak) mk role"
  have len: "length (fst ?kv) = 32" "length (snd ?kv) = 32"
    using KDF_lengths [of "ak_Value ak" mk role "fst ?kv" "snd ?kv"] by simp_all
  obtain g where g: "NewIGE (fst ?kv) (snd ?kv) = Inr g" "ige_ok (fst ?kv) g" "ige_iv g = snd ?kv"
    using NewIGE_ok [OF len] by blast
  show thesis
    by (rule that [of g]) (use g in \<open>simp_all only: role_key_def role_c0_def role_m0_def
        ige_c0_def ige_m0_def\<close>)
qed

section \<open>UnpackEncrypted\<close>

text \<open>What the function does with the decrypted bytes.\<close>

definition parse_inner :: "int64 \<Rightarrow> bytes \<Rightarrow> goerror + int64 \<times> int64 \<times> int32 \<times> bytes" where
  "parse_inner expected inner =
     (let msgLen = unat (le_get (slice_of inner 28 32) :: uint32) in
      if expected \<noteq> 0 \<and> le_get (slice_of inner 8 16) \<noteq> expected then Inl ErrSessionMismatch
      else if 32 + msgLen > length inner then Inl ErrInvalidMsgLength
      else Inr (le_get (slice_of inner 0 8), le_get (slice_of inner 16 24),
                le_get (slice_of inner 24 28), slice_of inner 32 (32 + msgLen)))"

lemma decrypt_fresh:
  assumes "ige_ok key g" "n = length enc" "n mod 16 = 0"
  shows "IGE_Decrypt g \<lparr>sptr = n, slen = n\<rparr> \<lparr>sptr = 0, slen = n\<rparr> (enc @ replicate n 0) =
    (None, enc @ ige_bytes (n = 0) (aes_decrypt key) (ige_m0 g) (ige_c0 g) enc)"
proof -
  let ?mem = "enc @ replicate n 0"
  have b: "slice_bytes ?mem \<lparr>sptr = 0, slen = n\<rparr> = enc"
    by (simp add: slice_bytes_def assms(2) slice_of_def)
  have l: "length (ige_bytes (n = 0) (aes_decrypt key) (ige_m0 g) (ige_c0 g) enc) = n"
    using ige_bytes_roundtrip(4) [of key "ige_c0 g" "ige_m0 g" enc] assms
    by (simp add: ige_ok_def ige_c0_def ige_m0_def)
  show ?thesis
    using IGE_Decrypt_eq [of key g ?mem "\<lparr>sptr = n, slen = n\<rparr>" "\<lparr>sptr = 0, slen = n\<rparr>"] assms b l
    by (simp add: slices_ok_def apart_or_same_def put_at_def)
qed

lemma UnpackEncrypted_eq:
  "UnpackEncrypted ak expected data =
     (let mk = slice_of data 8 24; inner = ige_open ak mk ServerRole (drop 24 data) in
      if length data < 56 then Inl ErrPacketTooShort
      else if le_get (slice_of data 0 8) \<noteq> ak_ID ak then Inl ErrAuthKeyMismatch
      else if (length data - 24) mod 16 \<noteq> 0 then Inl ErrPacketTooShort
      else if mk \<noteq> ComputeMsgKey (ak_Value ak) inner ServerRole then Inl ErrMsgKeyMismatch
      else parse_inner expected inner)"
proof -
  let ?mk = "slice_of data 8 24" and ?enc = "drop 24 data"
  let ?inner = "ige_open ak ?mk ServerRole ?enc"
  obtain g where g: "NewIGE (role_key ak ?mk ServerRole) (snd (KDF (ak_Value ak) ?mk ServerRole)) = Inr g"
      "ige_ok (role_key ak ?mk ServerRole) g" "ige_c0 g = role_c0 ak ?mk ServerRole"
      "ige_m0 g = role_m0 ak ?mk ServerRole"
    by (rule NewIGE_KDF)
  show ?thesis
  proof (cases "length data < 56 \<or> (length data - 24) mod 16 \<noteq> 0")
    case True
    then show ?thesis by (auto simp: UnpackEncrypted_def Let_def)
  next
    case False
    then have n: "length ?enc mod 16 = 0" "length ?enc > 0" by auto
    have l: "length ?inner = length ?enc" by (rule ige_open_seal(4) [OF n(1)])
    have s: "slice_of (?enc @ ?inner) (length ?enc) (length ?enc + length ?enc) = ?inner"
      using l by (simp add: slice_of_def)
    have d: "IGE_Decrypt g \<lparr>sptr = length ?enc, slen = length ?enc\<rparr> \<lparr>sptr = 0, slen = length ?enc\<rparr>
        (?enc @ replicate (length ?enc) 0) = (None, ?enc @ ?inner)"
      using decrypt_fresh [OF g(2) refl n(1)] n(2) g(3,4) by (simp add: ige_open_def)
    show ?thesis
      using False n d s g(1)
      by (simp add: UnpackEncrypted_def Let_def parse_inner_def role_key_def case_prod_beta)
  qed
qed

lemma le_put_le_get_slice:
  "j = i + 8 \<Longrightarrow> j \<le> length xs \<Longrightarrow> le_put 8 (le_get (slice_of xs i j) :: uint64) = slice_of xs i j"
  "j = i + 4 \<Longrightarrow> j \<le> length xs \<Longrightarrow> le_put 4 (le_get (slice_of xs i j) :: uint32) = slice_of xs i j"
  using le_put_le_get [of "slice_of xs i j", where 'a = 64]
    le_put_le_get [of "slice_of xs i j", where 'a = 32] by simp_all

lemma inner_data_slices:
  "slice_of (inner_data salt session mid sq p pad) 0 8 = le_put 8 salt"
  "slice_of (inner_data salt session mid sq p pad) 8 16 = le_put 8 session"
  "slice_of (inner_data salt session mid sq p pad) 16 24 = le_put 8 mid"
  "slice_of (inner_data salt session mid sq p pad) 24 28 = le_put 4 sq"
  "slice_of (inner_data salt session mid sq p pad) 28 32 = le_put 4 (of_nat (length p) :: uint32)"
  "slice_of (inner_data salt session mid sq p pad) 32 (32 + length p) = p"
  by (simp_all add: inner_data_def inner_header_def slice_of_def)

lemma parse_inner_data:
  assumes "length p < 2 ^ 32" "expected = 0 \<or> session = expected"
  shows "parse_inner expected (inner_data salt session mid sq p pad) = Inr (salt, mid, sq, p)"
  using assms by (auto simp: parse_inner_def inner_data_slices unat_len32)

lemma parse_inner_sound:
  assumes "parse_inner expected inner = Inr (salt, mid, sq, p)" "32 \<le> length inner"
  shows "\<exists>session pad. inner = inner_data salt session mid sq p pad \<and> length p < 2 ^ 32 \<and>
    (expected = 0 \<or> session = expected)"
proof (intro exI conjI)
  let ?session = "le_get (slice_of inner 8 16) :: int64"
  let ?len = "le_get (slice_of inner 28 32) :: uint32"
  let ?pad = "drop (32 + unat ?len) inner"
  have v: "salt = le_get (slice_of inner 0 8)" "mid = le_get (slice_of inner 16 24)"
      "sq = le_get (slice_of inner 24 28)" "p = slice_of inner 32 (32 + unat ?len)"
      "32 + unat ?len \<le> length inner" and s: "expected = 0 \<or> ?session = expected"
    using assms(1) by (auto simp: parse_inner_def Let_def split: if_splits)
  have p: "length p = unat ?len" using v by simp
  then show "length p < 2 ^ 32" using unsigned_less [of ?len] by simp
  show "expected = 0 \<or> ?session = expected" by (rule s)
  have "(of_nat (length p) :: uint32) = ?len" using p by simp
  then have "inner_data salt ?session mid sq p ?pad =
      slice_of inner 0 8 @ slice_of inner 8 16 @ slice_of inner 16 24 @ slice_of inner 24 28 @
      slice_of inner 28 32 @ slice_of inner 32 (32 + unat ?len) @ ?pad"
    using assms(2) v(4) by (simp add: inner_data_def inner_header_def v(1-3) le_put_le_get_slice)
  also have "\<dots> = slice_of inner 0 32 @ slice_of inner 32 (32 + unat ?len) @ ?pad"
    by (simp add: slices_join flip: append.assoc)
  also have "\<dots> = inner"
    using take_slice_drop [of 32 "32 + unat ?len" inner] by (simp add: slice_of_zero)
  finally show "inner = inner_data salt ?session mid sq p ?pad" by simp
qed

lemma seal_slices:
  assumes "length inner mod 16 = 0"
  shows "slice_of (seal ak role inner) 0 8 = le_put 8 (ak_ID ak)"
    "slice_of (seal ak role inner) 8 24 = ComputeMsgKey (ak_Value ak) inner role"
    "drop 24 (seal ak role inner) = ige_seal False ak (ComputeMsgKey (ak_Value ak) inner role) role inner"
    "length (seal ak role inner) = 24 + length inner"
  by (simp_all add: seal_def Let_def slice_of_def ige_open_seal [OF assms])

lemma data_split3:
  "24 \<le> length data \<Longrightarrow> data = slice_of data 0 8 @ slice_of data 8 24 @ drop 24 data"
  by (metis append.assoc append_take_drop_id le0 slice_of_zero slices_join numeral_le_iff
      semiring_norm(68) semiring_norm(71))

lemma Unpack_accepts_iff:
  "UnpackEncrypted ak expected data = Inr (salt, mid, sq, p) \<longleftrightarrow>
     (\<exists>session pad. let inner = inner_data salt session mid sq p pad in
        data = seal ak ServerRole inner \<and> length inner mod 16 = 0 \<and> length p < 2 ^ 32 \<and>
        (expected = 0 \<or> session = expected))" (is "?L \<longleftrightarrow> ?R")
proof
  assume L: ?L
  let ?mk = "slice_of data 8 24" and ?enc = "drop 24 data"
  let ?inner = "ige_open ak ?mk ServerRole ?enc"
  have c: "56 \<le> length data" "le_get (slice_of data 0 8) = ak_ID ak" "length ?enc mod 16 = 0"
      "?mk = ComputeMsgKey (ak_Value ak) ?inner ServerRole" "parse_inner expected ?inner = Inr (salt, mid, sq, p)"
    using L by (auto simp: UnpackEncrypted_eq Let_def split: if_splits)
  have len: "length ?inner = length ?enc" by (rule ige_open_seal(4) [OF c(3)])
  obtain session pad where sp: "?inner = inner_data salt session mid sq p pad" "length p < 2 ^ 32"
      "expected = 0 \<or> session = expected"
  proof -
    have "32 \<le> length ?inner" using len c(1) by simp
    from parse_inner_sound [OF c(5) this] that show thesis by blast
  qed
  have "le_put 8 (ak_ID ak) = slice_of data 0 8"
    using c(1) unfolding c(2) [symmetric] by (intro le_put_le_get_slice) auto
  then have "data = seal ak ServerRole ?inner"
    using c(1) data_split3 [of data] ige_open_seal(2) [OF c(3), of ak ?mk ServerRole]
    unfolding seal_def Let_def c(4) [symmetric] by simp
  then show ?R
    unfolding Let_def using sp c(3) len by metis
next
  assume ?R
  then obtain session pad where r: "data = seal ak ServerRole (inner_data salt session mid sq p pad)"
      "length (inner_data salt session mid sq p pad) mod 16 = 0" "length p < 2 ^ 32"
      "expected = 0 \<or> session = expected"
    by (auto simp: Let_def)
  then show ?L
    using seal_slices [OF r(2), of ak ServerRole] ige_open_seal(1) [OF r(2)]
    by (simp add: UnpackEncrypted_eq Let_def parse_inner_data add.assoc)
qed

section \<open>PackEncrypted\<close>

definition pad_len :: "nat \<Rightarrow> nat" where
  "pad_len n = (let p = 16 - (32 + n) mod 16 in if p < 12 then p + 16 else p)"

lemma pad_len_props: "12 \<le> pad_len n" "pad_len n \<le> 27" "(32 + n + pad_len n) mod 16 = 0"
proof -
  have "(32 + n) mod 16 < 16" by simp
  then show "12 \<le> pad_len n" "pad_len n \<le> 27"
    by (auto simp: pad_len_def Let_def simp del: mod_less_divisor)
  have "(32 + n + (16 - (32 + n) mod 16)) mod 16 = 0"
  proof -
    define r q where "r = (32 + n) mod 16" and "q = (32 + n) div 16"
    have "32 + n = q * 16 + r" "r < 16" by (simp_all add: r_def q_def del: mod_add_left_eq)
    then have "32 + n + (16 - (32 + n) mod 16) = 16 * (q + 1)"
      unfolding r_def [symmetric] by simp
    then show ?thesis by (simp only: mod_mult_self1_is_0)
  qed
  then show "(32 + n + pad_len n) mod 16 = 0"
    unfolding pad_len_def Let_def
    using mod_add_self2 [of "32 + n + (16 - (32 + n) mod 16)" 16]
    by (simp only: add.assoc split: if_split) simp
qed

lemma encrypt_in_place:
  assumes "ige_ok key g" "length inner mod 16 = 0"
  shows "IGE_Encrypt g \<lparr>sptr = 0, slen = length inner\<rparr> \<lparr>sptr = 0, slen = length inner\<rparr> inner =
    (None, ige_bytes True (aes_encrypt key) (ige_c0 g) (ige_m0 g) inner)"
proof -
  have "length (ige_bytes True (aes_encrypt key) (ige_c0 g) (ige_m0 g) inner) = length inner"
    using assms by (intro ige_bytes_roundtrip(3)) (simp_all add: ige_ok_def ige_c0_def ige_m0_def)
  then show ?thesis
    using IGE_Encrypt_eq [of key g inner "\<lparr>sptr = 0, slen = length inner\<rparr>"
        "\<lparr>sptr = 0, slen = length inner\<rparr>"] assms
    by (simp add: slices_ok_def apart_or_same_def put_at_def slice_bytes_def slice_of_zero)
qed

lemma PackEncrypted_eq:
  assumes "rand_ok rnd"
  shows "PackEncrypted ak salt session mid sq p rnd =
    (case rnd (pad_len (length p)) of
       Inl err \<Rightarrow> Inl (Wrapped ''protocol: crypto/rand error: '' err)
     | Inr pad \<Rightarrow>
         let inner = inner_data salt session mid sq p pad;
             mk = ComputeMsgKey (ak_Value ak) inner ClientRole
         in Inr (le_put 8 (ak_ID ak) @ mk @ ige_seal True ak mk ClientRole inner))"
proof (cases "rnd (pad_len (length p))")
  case (Inl err)
  then show ?thesis
    by (simp add: PackEncrypted_def pad_len_def Let_def)
next
  case (Inr pad)
  let ?inner = "inner_data salt session mid sq p pad"
  let ?mk = "ComputeMsgKey (ak_Value ak) ?inner ClientRole"
  have n: "length ?inner mod 16 = 0"
    using Inr assms pad_len_props(3) [of "length p"] by (simp add: rand_ok_def)
  obtain g where g: "NewIGE (role_key ak ?mk ClientRole) (snd (KDF (ak_Value ak) ?mk ClientRole)) = Inr g"
      "ige_ok (role_key ak ?mk ClientRole) g" "ige_c0 g = role_c0 ak ?mk ClientRole"
      "ige_m0 g = role_m0 ak ?mk ClientRole"
    by (rule NewIGE_KDF)
  have "rnd (let padLen = 16 - (32 + length p) mod 16 in if padLen < 12 then padLen + 16 else padLen) = Inr pad"
    using Inr by (simp only: pad_len_def)
  then show ?thesis
    using Inr g encrypt_in_place [OF g(2) n]
    by (simp add: PackEncrypted_def Let_def inner_data_def role_key_def case_prod_beta ige_seal_def)
qed

text \<open>
  When the peer's decryption of the in-place ciphertext gives the inner data back: only if every
  block but the last came out of the encryption unchanged.
\<close>

definition ige_blocks :: "AuthKey \<Rightarrow> bytes \<Rightarrow> Role \<Rightarrow> bytes \<Rightarrow> bytes list" where
  "ige_blocks ak mk role inner =
     ige_chain False (aes_encrypt (role_key ak mk role)) (role_c0 ak mk role) (role_m0 ak mk role)
       (blocks16 (length inner div 16) inner)"

lemma concat_16_inject:
  fixes xs ys :: "bytes list"
  assumes "\<forall>x \<in> set xs. length x = 16" "\<forall>y \<in> set ys. length y = 16"
    "length xs = length ys" "concat xs = concat ys"
  shows "xs = ys"
  using blocks16_concat [OF assms(1)] blocks16_concat [OF assms(2)] assms(3,4) by metis

lemma in_place_readable_iff:
  assumes n: "length inner mod 16 = 0"
  shows "ige_open ak mk role (ige_seal True ak mk role inner) = inner \<longleftrightarrow>
    butlast (ige_blocks ak mk role inner) = butlast (blocks16 (length inner div 16) inner)"
proof -
  let ?E = "aes_encrypt (role_key ak mk role)" and ?c = "role_c0 ak mk role"
    and ?m = "role_m0 ak mk role" and ?B = "blocks16 (length inner div 16) inner"
  have B: "\<forall>b \<in> set ?B. length b = 16" using n by (intro blocks16_16) auto
  note e16 = ige_chain_16 [OF aes.enc_length [OF role_lengths(1)] role_lengths(2,3) B]
  have "ige_open ak mk role (ige_seal True ak mk role inner) = inner \<longleftrightarrow>
      ige_seal True ak mk role inner = ige_seal False ak mk role inner"
    using ige_open_seal(2) [of "ige_seal True ak mk role inner" ak mk role]
      ige_open_seal(1,3) [OF n] n by metis
  also have "\<dots> \<longleftrightarrow> ige_chain True ?E ?c ?m ?B = ige_chain False ?E ?c ?m ?B"
    using concat_16_inject [OF e16 e16] by (auto simp: ige_seal_def ige_bytes_def)
  also have "\<dots> \<longleftrightarrow> butlast (ige_blocks ak mk role inner) = butlast ?B"
    using aes.chain_alias_iff [OF role_lengths(1,2,3) B] by (simp add: ige_blocks_def)
  finally show ?thesis .
qed

section \<open>Properties\<close>

text \<open>
  The unencrypted format is read back, whatever follows the packet in the buffer.
\<close>
theorem unencrypted_roundtrip:
  "length payload < 2 ^ 32 \<Longrightarrow>
     UnpackUnencrypted (PackUnencrypted msgID payload @ rest) = Inr (msgID, payload)"
  by (rule Unpack_PackUnencrypted)

theorem unencrypted_roundtrip_witness:
  "UnpackUnencrypted (PackUnencrypted 5 [1, 2, 3] @ [9]) = Inr (5, [1, 2, 3])"
  using unencrypted_roundtrip [of "[1, 2, 3]" 5 "[9]"] by simp


text \<open>
  Shape of a sent packet: key identifier, message key, and an encrypted part that is a multiple of
  16 bytes long and carries between 12 and 27 bytes of padding.
\<close>
theorem pack_encrypted_shape:
  assumes "rand_ok rnd" "PackEncrypted authKey salt session msgID seqNo payload rnd = Inr out"
  shows "\<exists>padding. let inner = inner_data salt session msgID seqNo payload padding;
                      msgKey = ComputeMsgKey (ak_Value authKey) inner ClientRole in
    12 \<le> length padding \<and> length padding \<le> 27 \<and> length inner mod 16 = 0 \<and>
    length out = 24 + length inner \<and> take 8 out = le_put 8 (ak_ID authKey) \<and>
    slice_of out 8 24 = msgKey"
proof -
  obtain pad where pad: "rnd (pad_len (length payload)) = Inr pad"
    using assms by (auto simp: PackEncrypted_eq split: sum.splits)
  let ?inner = "inner_data salt session msgID seqNo payload pad"
  have l: "length pad = pad_len (length payload)" using pad assms(1) by (simp add: rand_ok_def)
  then have n: "length ?inner mod 16 = 0" using pad_len_props(3) [of "length payload"] by simp
  show ?thesis
    unfolding Let_def
    using assms pad pad_len_props [of "length payload"] n l
    by (intro exI [of _ pad])
      (auto simp: PackEncrypted_eq Let_def slice_of_def ige_open_seal(3))
qed

text \<open>
  C28. The in-place call of \<^verbatim>\<open>Encrypt\<close> in \<^verbatim>\<open>PackEncrypted\<close> breaks the mode: the peer that decrypts the
  packet by MTProto gets the packed data back only if the cipher left every 16-byte block but the
  last unchanged, since the loop reads the previous plaintext block after overwriting it.
\<close>
theorem pack_encrypted_readable_iff:
  assumes "rand_ok rnd" "rnd (pad_len (length payload)) = Inr padding"
  shows "\<exists>out. PackEncrypted authKey salt session msgID seqNo payload rnd = Inr out \<and>
    (let inner = inner_data salt session msgID seqNo payload padding;
         msgKey = ComputeMsgKey (ak_Value authKey) inner ClientRole in
     ige_open authKey msgKey ClientRole (drop 24 out) = inner \<longleftrightarrow>
     butlast (ige_blocks authKey msgKey ClientRole inner) = butlast (blocks16 (length inner div 16) inner))"
proof -
  let ?inner = "inner_data salt session msgID seqNo payload padding"
  have "length padding = pad_len (length payload)" using assms by (simp add: rand_ok_def)
  then have "length ?inner mod 16 = 0"
    using pad_len_props(3) [of "length payload"] by simp
  from in_place_readable_iff [OF this] show ?thesis
    using assms(2) by (simp add: PackEncrypted_eq [OF assms(1)] Let_def del: length_inner_data)
qed

lemma zero_source: "rand_ok (\<lambda>n. Inr (replicate n 0))"
  by (simp add: rand_ok_def)

theorem pack_encrypted_shape_witness:
  "\<exists>out padding. PackEncrypted \<lparr>ak_Value = replicate 256 1, ak_ID = 7\<rparr> 1 2 4 1 [8, 9]
       (\<lambda>n. Inr (replicate n 0)) = Inr out \<and> length padding \<le> 27 \<and>
     length out = 24 + length (inner_data 1 2 4 1 [8, 9] padding)"
proof -
  let ?k = "\<lparr>ak_Value = replicate 256 1, ak_ID = 7\<rparr> :: AuthKey"
  obtain out where out: "PackEncrypted ?k 1 2 4 1 [8, 9] (\<lambda>n. Inr (replicate n 0)) = Inr out"
    by (simp add: PackEncrypted_eq [OF zero_source] Let_def)
  then show ?thesis
    using pack_encrypted_shape [OF zero_source out] by (auto simp: Let_def)
qed

theorem pack_encrypted_readable_iff_witness:
  "\<exists>out. PackEncrypted \<lparr>ak_Value = replicate 256 1, ak_ID = 7\<rparr> 1 2 4 1 [8, 9]
       (\<lambda>n. Inr (replicate n 0)) = Inr out"
  using pack_encrypted_readable_iff [OF zero_source, of "[8, 9]" "replicate (pad_len 2) 0"
      "\<lparr>ak_Value = replicate 256 1, ak_ID = 7\<rparr>" 1 2 4 1]
  by (auto simp: numeral_2_eq_2)

end
