(* ===== verification/Message_IDs.thy ===== *)
theory Message_IDs
  imports Prelude
begin

text \<open>
  Message identifiers and sequence numbers of \<^verbatim>\<open>mtproto/protocol\<close> (\<^verbatim>\<open>message_id.go\<close>,
  \<^verbatim>\<open>sequence.go\<close>).  The clock is an argument: the time \<^verbatim>\<open>time.Now()\<close> in nanoseconds since 1970;
  the mutex makes each call one step.
\<close>

section \<open>message_id.go\<close>

record MessageIDGenerator =
  lastID :: int64
  offset :: int

definition NewMessageIDGenerator :: MessageIDGenerator where
  "NewMessageIDGenerator = \<lparr>lastID = 0, offset = 0\<rparr>"

definition SetServerTimeOffset :: "int \<Rightarrow> MessageIDGenerator \<Rightarrow> MessageIDGenerator" where
  "SetServerTimeOffset ofs g = g\<lparr>offset := ofs\<rparr>"

definition MessageID_Next :: "int \<Rightarrow> MessageIDGenerator \<Rightarrow> int64 \<times> MessageIDGenerator" where
  "MessageID_Next clock g =
     (let now = clock + offset g;
          sec = now div 1000000000;
          nano = now mod 1000000000;
          id = push_bit 32 (of_int sec) OR push_bit 2 (of_int (nano div 4));
          id = (if sint id \<le> sint (lastID g) then lastID g + 4 else id)
      in (id, g\<lparr>lastID := id\<rparr>))"

section \<open>sequence.go\<close>

record SequenceGenerator =
  contentCount :: int32

definition NewSequenceGenerator :: SequenceGenerator where
  "NewSequenceGenerator = \<lparr>contentCount = 0\<rparr>"

definition Sequence_Next :: "bool \<Rightarrow> SequenceGenerator \<Rightarrow> int32 \<times> SequenceGenerator" where
  "Sequence_Next contentRelated s =
     (if contentRelated then
        (contentCount s * 2 + 1, s\<lparr>contentCount := contentCount s + 1\<rparr>)
      else (contentCount s * 2, s))"

definition Sequence_Reset :: "SequenceGenerator \<Rightarrow> SequenceGenerator" where
  "Sequence_Reset s = s\<lparr>contentCount := 0\<rparr>"

section \<open>Message identifiers\<close>

text \<open>The interval in which the arithmetic of \<^verbatim>\<open>Next\<close> does not overflow: up to January 2038.\<close>

definition clock_ok :: "int \<Rightarrow> bool" where
  "clock_ok now \<longleftrightarrow> 0 \<le> now \<and> now < (2 ^ 31 - 1) * 1000000000"

lemma id_value:
  assumes "0 \<le> sec" "sec < 2 ^ 31" "0 \<le> q" "q < 2 ^ 30"
  shows "sint (push_bit 32 (of_int sec) OR push_bit 2 (of_int q) :: int64) = sec * 2 ^ 32 + 4 * q"
proof -
  have q: "take_bit 30 q = q" using assms by (simp add: take_bit_int_eq_self)
  have "push_bit 32 sec + push_bit 2 q = push_bit 32 sec OR push_bit 2 q"
    by (rule disjunctive_add_eq_or, rule bit_eqI, subst q [symmetric]) (auto simp: bit_simps)
  then have "push_bit 32 sec OR push_bit 2 q = sec * 2 ^ 32 + 4 * q"
    by (simp add: push_bit_eq_mult)
  moreover have "(push_bit 32 (of_int sec) OR push_bit 2 (of_int q) :: int64) =
      of_int (push_bit 32 sec OR push_bit 2 q)"
    by (simp add: of_int_or_eq push_bit_of_int)
  ultimately show ?thesis
    using assms sint_of_int64 [of "sec * 2 ^ 32 + 4 * q"] by (simp only:) auto
qed

lemma sint_plus4:
  fixes w :: int64
  assumes "0 \<le> sint w" "sint w + 4 < 2 ^ 63"
  shows "sint (w + 4) = sint w + 4"
proof -
  have "w + 4 = of_int (sint w + 4)" by simp
  then show ?thesis using assms sint_of_int64 [of "sint w + 4"] by simp
qed

text \<open>The largest identifier that a clock in the interval can ask for.\<close>

abbreviation id_limit :: int where "id_limit \<equiv> (2 ^ 31 - 1) * 2 ^ 32"

lemma MessageID_Next_step:
  assumes "MessageID_Next clock g = (mid, g')" "clock_ok (clock + offset g)"
    "0 \<le> sint (lastID g)" "sint (lastID g) + 4 < 2 ^ 63" "sint (lastID g) mod 4 = 0"
  shows "sint (lastID g) < sint mid" "sint mid mod 4 = 0" "lastID g' = mid" "offset g' = offset g"
    "sint mid \<le> max (sint (lastID g) + 4) id_limit"
proof -
  let ?now = "clock + offset g"
  let ?sec = "?now div 1000000000" and ?q = "(?now mod 1000000000) div 4"
  define raw where "raw = (push_bit 32 (of_int ?sec) OR push_bit 2 (of_int ?q) :: int64)"
  have sec: "0 \<le> ?sec" "?sec < 2 ^ 31 - 1" using assms(2) by (auto simp: clock_ok_def)
  have "?now mod 1000000000 < 1000000000" by simp
  then have q: "0 \<le> ?q" "?q < 2 ^ 30" by simp_all
  have raw: "sint raw = ?sec * 2 ^ 32 + 4 * ?q"
    unfolding raw_def using sec q by (intro id_value) simp_all
  have mid: "mid = (if sint raw \<le> sint (lastID g) then lastID g + 4 else raw)" "g' = g\<lparr>lastID := mid\<rparr>"
    using assms(1) by (auto simp: MessageID_Next_def Let_def raw_def)
  have "sint raw = 4 * (?sec * 2 ^ 30 + ?q)" unfolding raw by simp
  then have "sint raw mod 4 = 0" by (simp only: mod_mult_self1_is_0)
  then show "sint (lastID g) < sint mid" "sint mid mod 4 = 0"
    using mid(1) sint_plus4 [OF assms(3,4)] assms(5) by auto
  show "lastID g' = mid" "offset g' = offset g" using mid(2) by simp_all
  have "sint raw \<le> id_limit" unfolding raw using sec q by simp
  then show "sint mid \<le> max (sint (lastID g) + 4) id_limit"
    using mid(1) sint_plus4 [OF assms(3,4)] by auto
qed

text \<open>A history of calls on one generator, with the clock reading of each \<^verbatim>\<open>Next\<close>.\<close>

datatype gen_op = CallNext int | CallSetOffset int

fun run_ids :: "gen_op list \<Rightarrow> MessageIDGenerator \<Rightarrow> int64 list" where
  "run_ids [] g = []"
| "run_ids (CallNext clock # ops) g = (case MessageID_Next clock g of (mid, g') \<Rightarrow> mid # run_ids ops g')"
| "run_ids (CallSetOffset ofs # ops) g = run_ids ops (SetServerTimeOffset ofs g)"

fun clocks_ok :: "gen_op list \<Rightarrow> int \<Rightarrow> bool" where
  "clocks_ok [] ofs = True"
| "clocks_ok (CallNext clock # ops) ofs = (clock_ok (clock + ofs) \<and> clocks_ok ops ofs)"
| "clocks_ok (CallSetOffset ofs' # ops) ofs = clocks_ok ops ofs'"

lemma run_ids_increasing:
  assumes "clocks_ok ops (offset g)" "0 \<le> sint (lastID g)" "sint (lastID g) mod 4 = 0"
    "sint (lastID g) \<le> id_limit + 4 * int k" "k + length ops \<le> 2 ^ 29"
  shows "sorted_wrt (\<lambda>a b. sint a < sint b) (lastID g # run_ids ops g) \<and>
    (\<forall>mid \<in> set (run_ids ops g). sint mid mod 4 = 0)"
  using assms
proof (induction ops g arbitrary: k rule: run_ids.induct)
  case (2 clock ops g)
  obtain mid g' where n: "MessageID_Next clock g = (mid, g')" by fastforce
  have ok: "clock_ok (clock + offset g)" "sint (lastID g) + 4 < 2 ^ 63"
    using "2.prems" by auto
  note st = MessageID_Next_step [OF n ok(1) "2.prems"(2) ok(2) "2.prems"(3)]
  have "sorted_wrt (\<lambda>a b. sint a < sint b) (lastID g' # run_ids ops g') \<and>
      (\<forall>mid \<in> set (run_ids ops g'). sint mid mod 4 = 0)"
    by (rule "2.IH" [OF n [symmetric], of "Suc k"]) (use "2.prems" st in auto)
  with st n show ?case by auto
qed (auto simp: SetServerTimeOffset_def)

text \<open>
  C6. Every identifier a generator hands out is a positive multiple of four (the mark of a client
  message) and greater than every earlier one, also when the clock stands still or runs backwards and
  when the server offset is changed.  The conditions: the clock plus the offset is never negative and
  stays before the year 2038, and there are at most \<open>2 ^ 29\<close> calls, so that no 64-bit sum wraps.
\<close>
theorem message_ids_increase:
  assumes "clocks_ok ops 0" "length ops \<le> 2 ^ 29"
  shows "sorted_wrt (\<lambda>a b. sint a < sint b) (run_ids ops NewMessageIDGenerator) \<and>
    (\<forall>mid \<in> set (run_ids ops NewMessageIDGenerator). 0 < sint mid \<and> sint mid mod 4 = 0)"
  using run_ids_increasing [of ops NewMessageIDGenerator 0] assms
  by (auto simp: NewMessageIDGenerator_def)

text \<open>A clock that stands still, then one that is set back by two seconds.\<close>

theorem message_ids_increase_witness:
  "sorted_wrt (\<lambda>a b. sint a < sint b) (run_ids [CallNext 5000000007, CallNext 5000000007,
     CallSetOffset (-2000000000), CallNext 5000000009] NewMessageIDGenerator)"
  using message_ids_increase [of "[CallNext 5000000007, CallNext 5000000007,
     CallSetOffset (-2000000000), CallNext 5000000009]"]
  by (simp add: clock_ok_def del: run_ids.simps)

section \<open>Sequence numbers\<close>

fun run_seq :: "bool list \<Rightarrow> SequenceGenerator \<Rightarrow> int32 list" where
  "run_seq [] s = []"
| "run_seq (cr # crs) s = (case Sequence_Next cr s of (n, s') \<Rightarrow> n # run_seq crs s')"

text \<open>The protocol's rule: twice the number of content-related messages before, plus one for such a message.\<close>

definition seq_no_spec :: "bool list \<Rightarrow> nat \<Rightarrow> int" where
  "seq_no_spec crs i = 2 * int (length (filter (\<lambda>cr. cr) (take i crs))) + (if crs ! i then 1 else 0)"

lemma run_seq_nth:
  "i < length crs \<Longrightarrow> run_seq crs s ! i = 2 * contentCount s + of_int (seq_no_spec crs i)"
proof (induction crs arbitrary: s i)
  case (Cons cr crs)
  then show ?case
    by (cases i) (auto simp: Sequence_Next_def seq_no_spec_def algebra_simps)
qed simp

lemma length_run_seq [simp]: "length (run_seq crs s) = length crs"
  by (induction crs s rule: run_seq.induct) (simp_all add: Sequence_Next_def split: prod.splits)

lemma sint_int32_small: "0 \<le> x \<Longrightarrow> x < 2 ^ 31 \<Longrightarrow> sint (of_int x :: int32) = x"
  by (simp add: signed_of_int signed_take_bit_int_eq_self)

text \<open>
  After construction or \<^verbatim>\<open>Reset\<close>, the \<open>i\<close>-th number is the one the protocol prescribes, as long as
  the session has fewer than \<open>2 ^ 30\<close> messages, where the \<^verbatim>\<open>int32\<close> arithmetic is exact.
\<close>
theorem sequence_numbers:
  assumes "length crs < 2 ^ 30" "i < length crs"
  shows "sint (run_seq crs (Sequence_Reset s) ! i) = seq_no_spec crs i"
proof -
  have "length (filter (\<lambda>cr. cr) (take i crs)) \<le> length (take i crs)" by (rule length_filter_le)
  then have "seq_no_spec crs i < 2 ^ 31" "0 \<le> seq_no_spec crs i"
    using assms by (auto simp: seq_no_spec_def)
  then show ?thesis
    using run_seq_nth [OF assms(2), of "Sequence_Reset s"]
    by (simp add: Sequence_Reset_def sint_int32_small)
qed

theorem sequence_numbers_witness:
  "sint (run_seq [True, False, True, True] (Sequence_Reset \<lparr>contentCount = 7\<rparr>) ! 3) = 5"
  using sequence_numbers [of "[True, False, True, True]" 3 "\<lparr>contentCount = 7\<rparr>"]
  by (simp add: seq_no_spec_def numeral_3_eq_3)

end
