(* ===== verification/Factor.thy ===== *)
theory Factor
  imports Main
begin

text \<open>
  \<^verbatim>\<open>mtproto/crypto/factor.go\<close>: Pollard's rho with Floyd's cycle search.  The \<^verbatim>\<open>uint64\<close> variables are
  natural numbers below \<open>2 ^ 64\<close>; products are computed on big integers in the code, and the
  increment of \<^verbatim>\<open>c\<close> wraps.  The loop may run for ever, so it is a partial function: \<open>None\<close> is not
  returning.
\<close>

section \<open>The code\<close>

definition rho_f :: "nat \<Rightarrow> nat \<Rightarrow> nat \<Rightarrow> nat" where
  "rho_f c val n = (val * val + c) mod n"

definition abs_diff :: "nat \<Rightarrow> nat \<Rightarrow> nat" where
  "abs_diff x y = (if x > y then x - y else y - x)"

partial_function (option) factor_loop :: "nat \<Rightarrow> nat \<Rightarrow> nat \<Rightarrow> nat \<Rightarrow> nat \<Rightarrow> nat option" where
  "factor_loop pq x y c d =
     (if d = 1 then
        let x = rho_f c x pq;
            y = rho_f c (rho_f c y pq) pq;
            diff = abs_diff x y;
            d = gcd diff pq
        in if d = pq then factor_loop pq 2 2 ((c + 1) mod 2 ^ 64) 1
           else factor_loop pq x y c d
      else Some d)"

definition FactorPQ :: "nat \<Rightarrow> (nat \<times> nat) option" where
  "FactorPQ pq =
     (if pq mod 2 = 0 then Some (2, pq div 2)
      else case factor_loop pq 2 2 1 1 of
             None \<Rightarrow> None
           | Some d \<Rightarrow>
               let p = d; q = pq div d in Some (if p > q then (q, p) else (p, q)))"

section \<open>What it returns is a factorisation\<close>

lemma factor_step_divisor:
  assumes ih: "\<And>pq x y c d r. loop pq x y c d = Some r \<Longrightarrow>
      d = 1 \<or> d dvd pq \<and> d \<noteq> pq \<longrightarrow> r dvd pq \<and> r \<noteq> 1 \<and> r \<noteq> pq"
    and step: "(if d = 1 then
        let x = rho_f c x pq; y = rho_f c (rho_f c y pq) pq; diff = abs_diff x y; d = gcd diff pq
        in if d = pq then loop pq 2 2 ((c + 1) mod 2 ^ 64) 1 else loop pq x y c d
      else Some d) = Some r"
    and d: "d = 1 \<or> d dvd pq \<and> d \<noteq> pq"
  shows "r dvd pq \<and> r \<noteq> 1 \<and> r \<noteq> pq"
proof (cases "d = 1")
  case True
  let ?x = "rho_f c x pq" and ?y = "rho_f c (rho_f c y pq) pq"
  let ?d = "gcd (abs_diff ?x ?y) pq"
  have "loop pq 2 2 ((c + 1) mod 2 ^ 64) 1 = Some r \<or> ?d \<noteq> pq \<and> loop pq ?x ?y c ?d = Some r"
    using step True by (simp add: Let_def split: if_splits)
  then show ?thesis using ih gcd_dvd2 by blast
qed (use step d in auto)

lemma factor_loop_divisor:
  assumes "factor_loop pq x y c d = Some r" "d = 1 \<or> d dvd pq \<and> d \<noteq> pq"
  shows "r dvd pq \<and> r \<noteq> 1 \<and> r \<noteq> pq"
proof -
  let ?P = "\<lambda>pq x y c d r. d = 1 \<or> d dvd pq \<and> d \<noteq> pq \<longrightarrow> r dvd pq \<and> r \<noteq> 1 \<and> r \<noteq> pq"
  have "?P pq x y c d r"
    by (rule factor_loop.raw_induct [where P = ?P and xa = "((((pq, x), y), c), d)" and ya = r,
          unfolded prod.case])
      (use factor_step_divisor assms(1) in blast)+
  with assms(2) show ?thesis by blast
qed

definition composite :: "nat \<Rightarrow> bool" where
  "composite n \<longleftrightarrow> (\<exists>a b. n = a * b \<and> 1 < a \<and> 1 < b)"

lemma FactorPQ_factors:
  assumes "FactorPQ pq = Some (p, q)" "odd pq"
  shows "p * q = pq \<and> 1 < p \<and> p \<le> q"
proof -
  obtain d where d: "factor_loop pq 2 2 1 1 = Some d"
      "(p, q) = (if d > pq div d then (pq div d, d) else (d, pq div d))"
    using assms by (auto simp: FactorPQ_def Let_def odd_iff_mod_2_eq_one split: option.splits)
  have r: "d dvd pq" "d \<noteq> 1" "d \<noteq> pq"
    using factor_loop_divisor [OF d(1)] by simp_all
  have "pq \<noteq> 0" using assms(2) by (metis even_zero)
  then obtain e where e: "pq = d * e" "0 < d" "0 < e" using r(1) by (auto elim!: dvdE)
  moreover have "e \<noteq> 1" using r(3) e by auto
  ultimately show ?thesis
    using d(2) r(2) by (auto simp: ac_simps split: if_splits)
qed

section \<open>It returns on every odd composite number\<close>

text \<open>The tortoise after \<open>i\<close> rounds of one choice of \<open>c\<close>; the hare is at \<open>2 * i\<close>.\<close>

definition walk :: "nat \<Rightarrow> nat \<Rightarrow> nat \<Rightarrow> nat" where
  "walk n c i = ((\<lambda>v. rho_f c v n) ^^ i) 2"

definition meet :: "nat \<Rightarrow> nat \<Rightarrow> nat \<Rightarrow> nat" where
  "meet n c i = gcd (abs_diff (walk n c i) (walk n c (2 * i))) n"

lemma walk_Suc: "walk n c (Suc i) = rho_f c (walk n c i) n"
  by (simp add: walk_def)

lemma walk_bound: "2 < n \<Longrightarrow> walk n c i < n"
  by (cases i) (simp_all add: walk_def rho_f_def)

lemma walk_shift: "walk n c a = walk n c b \<Longrightarrow> walk n c (a + k) = walk n c (b + k)"
  by (induction k) (simp_all add: walk_Suc)

lemma walk_period:
  assumes "walk n c a = walk n c (a + l)" "a \<le> i"
  shows "walk n c i = walk n c (i + l * k)"
proof (induction k)
  case (Suc k)
  have "walk n c (a + (i + l * k - a)) = walk n c (a + l + (i + l * k - a))"
    by (rule walk_shift [OF assms(1)])
  then show ?case using Suc assms(2) by (simp add: ac_simps)
qed simp

text \<open>Floyd: a walk in a finite set meets itself at some round.\<close>

lemma floyd:
  assumes "2 < n"
  shows "\<exists>i \<ge> 1. walk n c i = walk n c (2 * i)"
proof -
  have "range (walk n c) \<subseteq> {..<n}" using walk_bound [OF assms] by auto
  then have "finite (range (walk n c))" by (rule finite_subset) simp
  then have "\<not> inj (walk n c)" using finite_imageD infinite_UNIV_nat by blast
  then obtain a b where ab: "walk n c a = walk n c b" "a < b"
    by (metis injI linorder_neqE_nat)
  define l where "l = b - a"
  have l: "0 < l" "walk n c a = walk n c (a + l)" using ab by (simp_all add: l_def)
  let ?i = "l * Suc a"
  have "a \<le> ?i" using l(1) by (cases l) auto
  from walk_period [OF l(2) this, of "Suc a"] have "walk n c ?i = walk n c (2 * ?i)"
    by (simp only: mult_2)
  moreover have "1 \<le> ?i" using l(1) by simp
  ultimately show ?thesis by blast
qed

lemma meet_exists: "2 < n \<Longrightarrow> \<exists>i \<ge> 1. meet n c i \<noteq> 1"
  using floyd [of n c] by (force simp: meet_def abs_diff_def)

text \<open>One choice of \<open>c\<close> ends in a divisor or in the next choice.\<close>

lemma loop_round:
  "factor_loop n (walk n c i) (walk n c (2 * i)) c 1 =
     (if meet n c (Suc i) = n then factor_loop n 2 2 ((c + 1) mod 2 ^ 64) 1
      else factor_loop n (walk n c (Suc i)) (walk n c (2 * Suc i)) c (meet n c (Suc i)))"
  by (subst factor_loop.simps) (simp add: Let_def meet_def walk_Suc)

lemma loop_rounds:
  assumes "\<And>j. 1 \<le> j \<Longrightarrow> j \<le> i \<Longrightarrow> meet n c j = 1" "2 < n"
  shows "factor_loop n 2 2 c 1 = factor_loop n (walk n c i) (walk n c (2 * i)) c 1"
  using assms(1)
proof (induction i)
  case 0
  then show ?case by (simp add: walk_def)
next
  case (Suc i)
  have "meet n c (Suc i) = 1" by (rule Suc.prems) simp_all
  then show ?case using Suc loop_round [of n c i] assms(2) by simp
qed

lemma loop_phase:
  assumes "2 < n"
  shows "(\<exists>d. factor_loop n 2 2 c 1 = Some d) \<or>
    factor_loop n 2 2 c 1 = factor_loop n 2 2 ((c + 1) mod 2 ^ 64) 1"
proof -
  define i where "i = (LEAST i. 1 \<le> i \<and> meet n c i \<noteq> 1)"
  have i: "1 \<le> i" "meet n c i \<noteq> 1"
    using LeastI_ex [OF meet_exists [OF assms, of c, unfolded Bex_def]] by (simp_all add: i_def)
  have "meet n c j = 1" if "1 \<le> j" "j \<le> i - 1" for j
    using not_less_Least [of j "\<lambda>i. 1 \<le> i \<and> meet n c i \<noteq> 1"] that i(1) by (auto simp: i_def)
  from loop_rounds [OF this assms] loop_round [of n c "i - 1"] i
  show ?thesis
    by (cases "meet n c i = n") (simp_all add: factor_loop.simps [of _ _ _ _ "meet n c i"])
qed

text \<open>With \<open>c = a - 2\<close> for a divisor \<open>a\<close>, the tortoise stands still modulo \<open>a\<close>.\<close>

lemma gcd_divisor_proper:
  fixes n a b :: nat
  assumes "n = a * b" "1 < a" "1 < b" "\<not> b dvd a + 4"
  shows "gcd (a * (a + 4)) n \<noteq> 1" "gcd (a * (a + 4)) n \<noteq> n"
proof -
  have "a dvd gcd (a * (a + 4)) n" using assms(1) by simp
  then show "gcd (a * (a + 4)) n \<noteq> 1" using assms(2) by (metis less_irrefl nat_dvd_1_iff_1)
  show "gcd (a * (a + 4)) n \<noteq> n"
  proof
    assume "gcd (a * (a + 4)) n = n"
    then have "a * b dvd a * (a + 4)" using assms(1) by (metis gcd_dvd1)
    then show False using assms(2,4) by simp
  qed
qed

lemma gcd_abs_diff_mod: "gcd (abs_diff u ((k + u) mod n)) n = gcd k n"
proof -
  have "int (abs_diff u v) = \<bar>int u - int v\<bar>" for v by (simp add: abs_diff_def)
  then have "int (gcd (abs_diff u ((k + u) mod n)) n) = gcd (int u - int ((k + u) mod n)) (int n)"
    by (simp flip: gcd_int_int_eq)
  also have "\<dots> = gcd (int n) ((int u - int ((k + u) mod n)) mod int n)"
    by (rule gcd_red_int)
  also have "(int u - int ((k + u) mod n)) mod int n = (- int k) mod int n"
    by (simp add: zmod_int mod_diff_right_eq)
  also have "gcd (int n) \<dots> = gcd (- int k) (int n)" by (rule gcd_red_int [symmetric])
  also have "\<dots> = int (gcd k n)" by simp
  finally show ?thesis by simp
qed

lemma success_at:
  assumes n: "n = a * b" "3 \<le> a" "3 \<le> b" "\<not> b dvd a + 4"
  shows "\<exists>d. factor_loop n 2 2 (a - 2) 1 = Some d"
proof -
  let ?c = "a - 2"
  have big: "3 * a \<le> n" using n by simp
  have w1: "walk n ?c 1 = a + 2" using big n(2) by (simp add: walk_def rho_f_def)
  have w2: "walk n ?c 2 = ((a + 2) * (a + 2) + (a - 2)) mod n"
    using w1 walk_Suc [of n ?c 1] by (simp add: rho_f_def numeral_2_eq_2)
  have sq: "(a + 2) * (a + 2) + (a - 2) = a * (a + 4) + (a + 2)"
    using n(2) by (simp add: algebra_simps)
  have "gcd (abs_diff (walk n ?c 1) (walk n ?c 2)) n = gcd (a * (a + 4)) n"
    using gcd_abs_diff_mod [of "a + 2" "a * (a + 4)" n] by (simp only: w1 w2 sq)
  then have "meet n ?c (Suc 0) \<noteq> 1" "meet n ?c (Suc 0) \<noteq> n"
    using gcd_divisor_proper [of n a b] n by (simp_all add: meet_def numeral_2_eq_2)
  then show ?thesis
    using loop_round [of n ?c 0] by (simp add: walk_def factor_loop.simps [of _ _ _ _ "meet n _ _"])
qed

text \<open>Every odd composite number has a divisor for which that choice of \<open>c\<close> succeeds.\<close>

lemma good_divisor:
  assumes "composite n" "odd n"
  obtains a b where "n = a * b" "3 \<le> a" "3 \<le> b" "\<not> b dvd a + 4" "a < n"
proof -
  have odd3: "3 \<le> k" if "odd k" "1 < k" for k :: nat using that by (cases "k = 2") auto
  define p where "p = (LEAST d. 1 < d \<and> d dvd n)"
  obtain a b where ab: "n = a * b" "1 < a" "1 < b" using assms(1) by (auto simp: composite_def)
  have ex: "1 < a \<and> a dvd n" using ab by simp
  have p: "1 < p" "p dvd n" using LeastI [of "\<lambda>d. 1 < d \<and> d dvd n", OF ex] by (simp_all add: p_def)
  have least: "p \<le> d" if "1 < d" "d dvd n" for d using that Least_le [of _ d] by (simp add: p_def)
  obtain m where m: "n = p * m" using p(2) by (elim dvdE)
  have "p \<le> a" using least ab by simp
  then have "p < n" using ab by (simp add: le_less_trans)
  then have "1 < m" using m by (metis less_one linorder_neqE_nat mult_0_right nat_mult_1_right not_less_zero less_irrefl)
  then have pm: "p \<le> m" using least [of m] m by simp
  have odds: "odd p" "odd m" using assms(2) m by simp_all
  have three: "3 \<le> p" "3 \<le> m" using odd3 odds p(1) \<open>1 < m\<close> by auto
  have "m < n" using m p(1) \<open>1 < m\<close> by simp
  show thesis
  proof (cases "m dvd p + 4")
    case False
    then show thesis using that [of p m] m three \<open>p < n\<close> by blast
  next
    case True
    then obtain k where k: "p + 4 = m * k" by (elim dvdE)
    have "\<not> p dvd m + 4"
    proof
      assume "p dvd m + 4"
      have "k = 1"
      proof (rule ccontr)
        assume "k \<noteq> 1"
        moreover have "odd k" using k odds by (metis even_add even_mult_iff even_numeral)
        ultimately have "3 \<le> k" by (intro odd3) (cases k; auto)+
        then have "m * 3 \<le> p + 4" using k by (metis mult_le_mono2)
        then show False using pm three by simp
      qed
      then have "m + 4 = p + 8" using k by simp
      then have "p dvd 8" using \<open>p dvd m + 4\<close> by (metis dvd_add_right_iff dvd_refl)
      then have "p dvd 2 ^ 3" by simp
      then have "coprime p 2" "p dvd 2 ^ 3" using odds(1) by simp_all
      then show False using p(1) by (metis coprime_common_divisor_nat coprime_power_right_iff dvd_refl less_irrefl)
    qed
    then show thesis using that [of m p] m three \<open>m < n\<close> by (simp add: mult.commute)
  qed
qed

lemma loop_returns:
  assumes "2 < n" "c \<le> c'" "c' < 2 ^ 64" "\<exists>d. factor_loop n 2 2 c' 1 = Some d"
  shows "\<exists>d. factor_loop n 2 2 c 1 = Some d"
  using assms(2)
proof (induction "c' - c" arbitrary: c)
  case 0
  then show ?case using assms(4) by simp
next
  case (Suc k)
  then have "c < c'" by simp
  then have "(c + 1) mod 2 ^ 64 = c + 1" using assms(3) by simp
  moreover have "\<exists>d. factor_loop n 2 2 (c + 1) 1 = Some d"
    using Suc(2) \<open>c < c'\<close> by (intro Suc(1)) simp_all
  ultimately show ?case using loop_phase [OF assms(1), of c] by auto
qed

lemma FactorPQ_returns:
  assumes "composite pq" "odd pq" "pq < 2 ^ 64"
  shows "\<exists>p q. FactorPQ pq = Some (p, q)"
proof -
  obtain a b where ab: "pq = a * b" "3 \<le> a" "3 \<le> b" "\<not> b dvd a + 4" "a < pq"
    using good_divisor [OF assms(1,2)] .
  have "2 < pq" "a - 2 < 2 ^ 64" using ab(2,5) assms(3) by linarith+
  then have "\<exists>d. factor_loop pq 2 2 1 1 = Some d"
    using loop_returns [of pq 1 "a - 2"] success_at [OF ab(1-4)] ab(2) by simp
  then obtain d where "factor_loop pq 2 2 1 1 = Some d" ..
  then show ?thesis
    using assms(2) by (auto simp: FactorPQ_def Let_def odd_iff_mod_2_eq_one)
qed

section \<open>Properties\<close>

definition prime_nat :: "nat \<Rightarrow> bool" where
  "prime_nat p \<longleftrightarrow> 1 < p \<and> (\<forall>d. d dvd p \<longrightarrow> d = 1 \<or> d = p)"

lemma semiprime_factor:
  assumes "prime_nat p" "prime_nat q" "d * e = p * q" "1 < d" "1 < e"
  shows "d = p \<and> e = q \<or> d = q \<and> e = p"
proof -
  have pos: "0 < p" "0 < q" using assms(1,2) by (simp_all add: prime_nat_def)
  have "gcd d p dvd p" by simp
  then consider "coprime d p" | "p dvd d"
    using assms(1) by (metis coprime_iff_gcd_eq_1 gcd_dvd1 prime_nat_def)
  then show ?thesis
  proof cases
    case 1
    have "d dvd p * q" using assms(3) by (metis dvd_triv_left)
    with 1 have "d dvd q" by (simp add: coprime_dvd_mult_right_iff)
    then have "d = q" using assms(2,4) by (auto simp: prime_nat_def)
    then show ?thesis using assms(3) pos by (simp add: mult.commute)
  next
    case 2
    then obtain k where k: "d = p * k" by (elim dvdE)
    then have "k * e = q" using assms(3) pos by simp
    then have "e dvd q" by (metis dvd_triv_right)
    then have "e = q" using assms(2,5) by (auto simp: prime_nat_def)
    then show ?thesis using assms(3) pos by simp
  qed
qed

lemma FactorPQ_semiprime:
  assumes "prime_nat p" "prime_nat q" "p \<le> q" "p * q < 2 ^ 64"
  shows "FactorPQ (p * q) = Some (p, q)"
proof (cases "even (p * q)")
  case True
  then have "2 dvd p \<or> 2 dvd q" by simp
  then have "p = 2"
    using assms(1-3) by (auto simp: prime_nat_def)
  then show ?thesis by (simp add: FactorPQ_def)
next
  case False
  have "composite (p * q)" using assms(1,2) by (auto simp: composite_def prime_nat_def)
  then obtain a b where ab: "FactorPQ (p * q) = Some (a, b)"
    using FactorPQ_returns False assms(4) by blast
  then have "a * b = p * q" "1 < a" "a \<le> b" using FactorPQ_factors False by auto
  then show ?thesis
    using semiprime_factor [OF assms(1,2), of a b] assms(3) ab by auto
qed

text \<open>
  C22. \<^verbatim>\<open>FactorPQ\<close> factors every product of two primes below \<open>2 ^ 64\<close>, equal or different, even or odd: it
  terminates and returns them in order.
\<close>
theorem factor_pq_semiprime:
  assumes "prime_nat p" "prime_nat q" "p \<le> q" "p * q < 2 ^ 64"
  shows "FactorPQ (p * q) = Some (p, q)"
  by (rule FactorPQ_semiprime [OF assms])

lemma prime_nat_code:
  "1 < p \<Longrightarrow> \<forall>d \<in> {2..<p}. \<not> d dvd p \<Longrightarrow> prime_nat p"
  by (auto simp: prime_nat_def) (metis One_nat_def Suc_leI Suc_lessI atLeastLessThan_iff dvd_0_left_iff
      dvd_imp_le gr0I le_neq_implies_less less_imp_le_nat nat_neq_iff not_less_zero numeral_2_eq_2)

theorem factor_pq_semiprime_witness: "FactorPQ 77 = Some (7, 11)"
proof -
  have "prime_nat 7" "prime_nat 11"
    by (rule prime_nat_code; simp add: atLeastLessThan_upt upt_conv_Cons del: atLeastLessThan_iff)+
  then show ?thesis using factor_pq_semiprime [of 7 11] by simp
qed

text \<open>
  On one and on the odd primes it never returns: no choice of \<^verbatim>\<open>c\<close> can succeed and the loop goes on
  with the next one.
\<close>
theorem factor_pq_diverges:
  assumes "odd pq" "\<not> composite pq"
  shows "FactorPQ pq = None"
proof (rule ccontr)
  assume "FactorPQ pq \<noteq> None"
  then obtain p q where pq: "FactorPQ pq = Some (p, q)" by auto
  from FactorPQ_factors [OF this assms(1)] have "p * q = pq" "1 < p" "1 < q" by auto
  then show False using assms(2) by (auto simp: composite_def)
qed

theorem factor_pq_diverges_witness: "FactorPQ 1 = None"
  using factor_pq_diverges [of 1] by (auto simp: composite_def)

end
