(* ===== verification/RPC_Errors.thy ===== *)
theory RPC_Errors
  imports Go_Std "HOL-Library.Sublist"
begin

text \<open>
  \<^verbatim>\<open>mtproto/rpc/errors.go\<close>: the classification of the errors a Telegram server reports.  The error
  structs are constructors of \<open>goerror\<close>; a \<^verbatim>\<open>time.Duration\<close> is a 64-bit count of nanoseconds.
\<close>

section \<open>The code\<close>

text \<open>\<^verbatim>\<open>strings.Index\<close> and \<^verbatim>\<open>strings.LastIndexByte\<close>; \<open>None\<close> is the result \<open>-1\<close>.\<close>

fun str_Index :: "string \<Rightarrow> string \<Rightarrow> nat option" where
  "str_Index s sub =
     (if prefix sub s then Some 0
      else case s of [] \<Rightarrow> None | _ # t \<Rightarrow> map_option Suc (str_Index t sub))"

declare str_Index.simps [simp del]

fun str_LastIndexByte :: "string \<Rightarrow> char \<Rightarrow> nat option" where
  "str_LastIndexByte [] c = None"
| "str_LastIndexByte (x # s) c =
     (case str_LastIndexByte s c of
        Some i \<Rightarrow> Some (Suc i)
      | None \<Rightarrow> if x = c then Some 0 else None)"

definition parseMigrate :: "string \<Rightarrow> goerror" where
  "parseMigrate msg =
     (case str_Index msg ''_MIGRATE_'' of
        None \<Rightarrow> RPCError 303 msg ''''
      | Some idx \<Rightarrow>
          (case Atoi (drop (idx + length ''_MIGRATE_'') msg) of
             None \<Rightarrow> RPCError 303 msg ''''
           | Some dc \<Rightarrow> MigrateError dc (take idx msg)))"

definition parseFloodWait :: "string \<Rightarrow> goerror" where
  "parseFloodWait msg =
     (case str_LastIndexByte msg (CHR ''_'') of
        None \<Rightarrow> RPCError 420 msg ''''
      | Some idx \<Rightarrow>
          (case Atoi (drop (idx + 1) msg) of
             None \<Rightarrow> RPCError 420 msg ''''
           | Some secs \<Rightarrow> FloodWaitError (of_int secs * 1000000000)))"

definition ParseError :: "int \<Rightarrow> string \<Rightarrow> goerror" where
  "ParseError code msg =
     (if code = 303 then parseMigrate msg
      else if code = 420 then parseFloodWait msg
      else if msg = ''FILE_REFERENCE_EXPIRED'' then FileRefExpiredError
      else RPCError code msg '''')"

text \<open>\<^verbatim>\<open>errors.As\<close> follows the chain of wrapped errors to the first of the wanted type.\<close>

fun IsFloodWait :: "goerror \<Rightarrow> int64 \<times> bool" where
  "IsFloodWait (FloodWaitError w) = (w, True)"
| "IsFloodWait (Wrapped msg err) = IsFloodWait err"
| "IsFloodWait err = (0, False)"

fun IsMigrate :: "goerror \<Rightarrow> int \<times> bool" where
  "IsMigrate (MigrateError dc kind) = (dc, True)"
| "IsMigrate (Wrapped msg err) = IsMigrate err"
| "IsMigrate err = (0, False)"

fun AsRPCError :: "goerror \<Rightarrow> goerror option" where
  "AsRPCError (RPCError code typ msg) = Some (RPCError code typ msg)"
| "AsRPCError (Wrapped msg err) = AsRPCError err"
| "AsRPCError err = None"

text \<open>The \<^verbatim>\<open>Error\<close> methods of the four types.\<close>

definition RPCError_Error :: "int \<Rightarrow> string \<Rightarrow> string \<Rightarrow> string" where
  "RPCError_Error code typ msg =
     (if msg \<noteq> '''' then ''rpc error '' @ fmt_int code @ '': '' @ typ @ '' ('' @ msg @ '')''
      else ''rpc error '' @ fmt_int code @ '': '' @ typ)"

definition FloodWaitError_Error :: "int64 \<Rightarrow> string" where
  "FloodWaitError_Error wait = ''flood wait: retry after '' @ Duration_String wait"

definition MigrateError_Error :: "int \<Rightarrow> string \<Rightarrow> string" where
  "MigrateError_Error dc kind = kind @ ''_MIGRATE: switch to DC '' @ fmt_int dc"

definition FileRefExpiredError_Error :: string where
  "FileRefExpiredError_Error = ''file reference expired''"

section \<open>Searching\<close>

lemma str_Index_first:
  "str_Index (pre @ sub @ post) sub = Some (length pre)"
  if "\<And>k. k < length pre \<Longrightarrow> \<not> prefix sub (drop k (pre @ sub @ post))"
  using that
proof (induction pre)
  case Nil
  then show ?case by (subst str_Index.simps) simp
next
  case (Cons x pre)
  have "\<not> prefix sub (x # pre @ sub @ post)" using Cons.prems [of 0] by simp
  moreover have "str_Index (pre @ sub @ post) sub = Some (length pre)"
    by (rule Cons.IH) (use Cons.prems [of "Suc k" for k] in simp)
  ultimately show ?case by (subst str_Index.simps) simp
qed

lemma str_LastIndexByte_none: "c \<notin> set s \<Longrightarrow> str_LastIndexByte s c = None"
  by (induction s c rule: str_LastIndexByte.induct) auto

lemma str_LastIndexByte_last:
  "c \<notin> set post \<Longrightarrow> str_LastIndexByte (pre @ c # post) c = Some (length pre)"
  by (induction pre) (simp_all add: str_LastIndexByte_none)

lemma parse_migrate:
  assumes "CHR ''_'' \<notin> set kind" "n < 2 ^ 63"
  shows "ParseError 303 (kind @ ''_MIGRATE_'' @ fmt_nat n) = MigrateError (int n) kind"
proof -
  have "\<not> prefix ''_MIGRATE_'' (drop k (kind @ ''_MIGRATE_'' @ fmt_nat n))" if "k < length kind" for k
  proof -
    have "drop k kind = kind ! k # drop (Suc k) kind" using that by (simp add: Cons_nth_drop_Suc)
    moreover have "kind ! k \<noteq> CHR ''_''" using assms(1) that nth_mem by metis
    ultimately show ?thesis using that by simp
  qed
  from str_Index_first [OF this] have "str_Index (kind @ ''_MIGRATE_'' @ fmt_nat n) ''_MIGRATE_'' = Some (length kind)" .
  then show ?thesis using assms(2) by (simp add: ParseError_def parseMigrate_def)
qed

lemma parse_flood:
  assumes "n < 2 ^ 63"
  shows "ParseError 420 (pre @ ''_'' @ fmt_nat n) = FloodWaitError (of_nat n * 1000000000)"
proof -
  have "str_LastIndexByte (pre @ ''_'' @ fmt_nat n) (CHR ''_'') = Some (length pre)"
    using str_LastIndexByte_last [OF underscore_fmt_nat, of pre n] by simp
  then show ?thesis using assms by (simp add: ParseError_def parseFloodWait_def)
qed

section \<open>Durations\<close>

text \<open>The seconds of a wait, in hours, minutes and seconds.\<close>

definition hms :: "nat \<Rightarrow> string" where
  "hms n =
     (if n < 60 then fmt_nat n @ ''s''
      else if n < 3600 then fmt_nat (n div 60) @ ''m'' @ fmt_nat (n mod 60) @ ''s''
      else fmt_nat (n div 3600) @ ''h'' @ fmt_nat (n div 60 mod 60) @ ''m'' @ fmt_nat (n mod 60) @ ''s'')"

lemma fmt_frac_zero: "10 ^ k dvd v \<Longrightarrow> fmt_frac k v False acc = acc"
proof (induction k arbitrary: v)
  case (Suc k)
  then obtain q where v: "v = 10 * (10 ^ k * q)" by (auto simp: dvd_def mult.assoc)
  with Suc.IH [of "10 ^ k * q"] show ?case by simp
qed simp

lemma duration_seconds:
  assumes "n \<le> 9223372036"
  shows "Duration_String (of_nat n * 1000000000) = hms n"
proof -
  have w: "of_nat n * 1000000000 = (of_int (int n * 1000000000) :: int64)" by simp
  have s: "sint (of_nat n * 1000000000 :: int64) = int (n * 1000000000)"
    unfolding w using assms sint_of_int64 [of "int n * 1000000000"] by simp
  have u: "unat (of_nat n * 1000000000 :: int64) = n * 1000000000"
    using assms unat_of_nat [where 'a = 64, of "n * 1000000000"] by (simp add: unsigned_of_nat take_bit_nat_eq_self)
  have f: "fmt_frac 9 (n * 1000000000) False ''s'' = ''s''" by (rule fmt_frac_zero) simp
  have z: "fmt_nat 0 = ''0''" by code_simp
  have pos: "\<not> sint (of_nat n * 1000000000 :: int64) < 0" unfolding s by simp
  have m: "(n div 60 = 0) = (n < 60)" "(n div 60 div 60 = 0) = (n < 3600)" "n div 60 div 60 = n div 3600"
    "n < 3600 \<Longrightarrow> n div 60 mod 60 = n div 60" "n < 60 \<Longrightarrow> n mod 60 = n"
    by (simp_all add: div_eq_0_iff div_mult2_eq [symmetric])
  show ?thesis
  proof (cases "n = 0")
    case True
    then show ?thesis unfolding Duration_String_def Let_def if_not_P [OF pos] u hms_def by (simp add: z)
  next
    case False
    then have "\<not> n * 1000000000 = 0" "\<not> n * 1000000000 < 1000" "\<not> n * 1000000000 < 1000000"
      "\<not> n * 1000000000 < 1000000000" "n * 1000000000 div 1000000000 = n" by simp_all
    then show ?thesis
      unfolding Duration_String_def Let_def if_not_P [OF pos] u f hms_def by (simp only: m if_False f) (auto simp: m)
  qed
qed

text \<open>
  The errors a server sends are classified by what they say: a migration names the data centre and
  what is to migrate, a flood wait the time to wait in nanoseconds, for every data centre number and
  every wait that Go's integers can hold.
\<close>
theorem parse_error_typed:
  assumes "CHR ''_'' \<notin> set kind" "n < 2 ^ 63"
  shows "ParseError 303 (kind @ ''_MIGRATE_'' @ fmt_nat n) = MigrateError (int n) kind \<and>
    ParseError 420 (pre @ ''_'' @ fmt_nat n) = FloodWaitError (of_nat n * 1000000000) \<and>
    ParseError 400 ''FILE_REFERENCE_EXPIRED'' = FileRefExpiredError"
  using parse_migrate [OF assms] parse_flood [OF assms(2)] by (simp add: ParseError_def)

theorem parse_error_typed_witness:
  "ParseError 303 (''PHONE'' @ ''_MIGRATE_'' @ fmt_nat 2) = MigrateError 2 ''PHONE'' \<and>
   ParseError 420 (''FLOOD_WAIT'' @ ''_'' @ fmt_nat 300) = FloodWaitError 300000000000"
  using parse_error_typed [of "''PHONE''" 2 "''FLOOD_WAIT''"]
    parse_error_typed [of "''PHONE''" 300 "''FLOOD_WAIT''"] by simp

text \<open>
  The predicates look through any depth of wrapping (\<^verbatim>\<open>fmt.Errorf\<close> with \<^verbatim>\<open>%w\<close>), and an error is never
  classified in two ways.
\<close>
theorem classification_exclusive:
  "(snd (IsFloodWait err) \<longrightarrow> \<not> snd (IsMigrate err) \<and> AsRPCError err = None) \<and>
   (snd (IsMigrate err) \<longrightarrow> \<not> snd (IsFloodWait err) \<and> AsRPCError err = None) \<and>
   IsFloodWait (foldr Wrapped msgs err) = IsFloodWait err \<and>
   IsMigrate (foldr Wrapped msgs err) = IsMigrate err \<and>
   AsRPCError (foldr Wrapped msgs err) = AsRPCError err"
proof (intro conjI)
  show "snd (IsFloodWait err) \<longrightarrow> \<not> snd (IsMigrate err) \<and> AsRPCError err = None"
    by (induction err) simp_all
  show "snd (IsMigrate err) \<longrightarrow> \<not> snd (IsFloodWait err) \<and> AsRPCError err = None"
    by (induction err) simp_all
qed (induction msgs; simp)+

theorem classification_exclusive_witness:
  "IsFloodWait (foldr Wrapped [''a'', ''b''] (FloodWaitError 5)) = (5, True) \<and>
   AsRPCError (FloodWaitError 5) = None"
  using classification_exclusive [of "FloodWaitError 5" "[''a'', ''b'']"] by simp

text \<open>The duration of a wait of any number of seconds, after the wrap-around of the multiplication.\<close>

lemma sint_wait:
  "sint (of_nat m * 1000000000 :: int64) = (int m * 10 ^ 9 + 2 ^ 63) mod 2 ^ 64 - 2 ^ 63"
proof -
  have "of_nat m * 1000000000 = (of_int (int m * 10 ^ 9) :: int64)" by simp
  then have "sint (of_nat m * 1000000000 :: int64) = signed_take_bit 63 (int m * 10 ^ 9)"
    by (simp only: signed_of_int) simp
  then show ?thesis by (simp add: signed_take_bit_eq_take_bit_shift take_bit_eq_mod)
qed

lemma parse_flood_too_long:
  assumes "2 ^ 63 \<le> n"
  shows "ParseError 420 (pre @ ''_'' @ fmt_nat n) = RPCError 420 (pre @ ''_'' @ fmt_nat n) ''''"
proof -
  have "str_LastIndexByte (pre @ ''_'' @ fmt_nat n) (CHR ''_'') = Some (length pre)"
    using str_LastIndexByte_last [OF underscore_fmt_nat, of pre n] by simp
  moreover have "Atoi (fmt_nat n) = None"
    using assms by (simp add: Atoi_def hd_fmt_nat atoi_digits_fmt)
  ultimately show ?thesis by (simp add: ParseError_def parseFloodWait_def)
qed

text \<open>
  C34. A flood wait is reported as its hours, minutes and seconds for every number of seconds that a \<^verbatim>\<open>time.Duration\<close>
  can hold, a migration with the number of the data centre and what migrates.  Longer waits wrap around \<open>2 ^ 64\<close>
  nanoseconds: from 9223372037 to 18446744073 seconds the caller is told to wait a negative time; a number that is no
  64-bit integer makes no flood wait at all.
\<close>
theorem error_texts:
  assumes "CHR ''_'' \<notin> set kind" "dc < 2 ^ 63" "n \<le> 9223372036"
  shows "(\<exists>w. ParseError 420 (pre @ ''_'' @ fmt_nat n) = FloodWaitError w \<and> sint w = int n * 10 ^ 9 \<and>
      FloodWaitError_Error w = ''flood wait: retry after '' @ hms n) \<and>
    (\<exists>i. ParseError 303 (kind @ ''_MIGRATE_'' @ fmt_nat dc) = MigrateError i kind \<and>
      MigrateError_Error i kind = kind @ ''_MIGRATE: switch to DC '' @ fmt_nat dc) \<and>
    (\<forall>m < 2 ^ 63. \<exists>w. ParseError 420 (pre @ ''_'' @ fmt_nat m) = FloodWaitError w \<and>
      sint w = (int m * 10 ^ 9 + 2 ^ 63) mod 2 ^ 64 - 2 ^ 63 \<and>
      (9223372037 \<le> m \<and> m \<le> 18446744073 \<longrightarrow> sint w < 0)) \<and>
    (\<forall>m \<ge> 2 ^ 63. ParseError 420 (pre @ ''_'' @ fmt_nat m) = RPCError 420 (pre @ ''_'' @ fmt_nat m) '''')"
proof -
  have small: "(int n * 10 ^ 9 + 2 ^ 63) mod 2 ^ 64 - 2 ^ 63 = int n * 10 ^ 9"
    using assms(3) by (subst mod_pos_pos_trivial) simp_all
  have negative: "(int m * 10 ^ 9 + 2 ^ 63) mod 2 ^ 64 - 2 ^ 63 < 0"
    if "9223372037 \<le> m" "m \<le> 18446744073" for m
  proof -
    have "(int m * 10 ^ 9 + 2 ^ 63) mod 2 ^ 64 = (int m * 10 ^ 9 + 2 ^ 63 - 2 ^ 64) mod 2 ^ 64"
      by (rule minus_mod_self2 [symmetric])
    also have "\<dots> = int m * 10 ^ 9 + 2 ^ 63 - 2 ^ 64"
      using that by (intro mod_pos_pos_trivial) simp_all
    finally show ?thesis using that by simp
  qed
  show ?thesis
    using parse_migrate [OF assms(1,2)] parse_flood [of _ pre] parse_flood_too_long [of _ pre] assms(3) negative
    by (auto simp: FloodWaitError_Error_def MigrateError_Error_def fmt_int_def duration_seconds sint_wait small)
qed

theorem error_texts_witness:
  "FloodWaitError_Error 300000000000 = ''flood wait: retry after 5m0s'' \<and>
   MigrateError_Error 4 ''FILE'' = ''FILE_MIGRATE: switch to DC 4''"
proof -
  have d: "hms 300 = ''5m0s''" "fmt_nat 4 = ''4''" by code_simp+
  show ?thesis
    using error_texts [of "''FILE''" 4 300 "''FLOOD_WAIT''"] parse_flood [of 300 "''FLOOD_WAIT''"]
      parse_migrate [of "''FILE''" 4] by (simp add: d)
qed

end
