(* ===== verification/RPC_Engine.thy ===== *)
theory RPC_Engine
  imports RPC_Errors TL_Codec "HOL-Library.AList"
begin

text \<open>
  \<^verbatim>\<open>mtproto/rpc/engine.go\<close>: the correlation of requests and responses.  A Go channel is an index into
  the list \<open>chans\<close> of buffers; every channel here has capacity one, and a send to a full one
  blocks.  \<^verbatim>\<open>pending\<close> is an association list with distinct keys, in the order in which a \<^verbatim>\<open>range\<close> would
  visit the map.  \<^verbatim>\<open>compress/gzip\<close> is a pair of functions, an argument of the operations that
  decompress.  \<^verbatim>\<open>Dispatch\<close> calls itself on what it decompresses, with no bound, so it has fuel.
  \<open>inflation_ends\<close> says of a payload that this recursion is well-founded below it; then fuel that is the same for every
  engine is enough, and \<open>Dispatch_self_inflating\<close> shows the call that never returns.
\<close>

section \<open>The code\<close>

definition CRCGzipPacked :: uint32 where "CRCGzipPacked = 0x3072cfa1"
definition CRCRPCResult :: uint32 where "CRCRPCResult = 0xf35c6d01"
definition CRCRPCError :: uint32 where "CRCRPCError = 0x2144ca19"
definition CRCMsgContainer :: uint32 where "CRCMsgContainer = 0x73f1f8dc"
definition CRCPong :: uint32 where "CRCPong = 0x347773c5"
definition CRCBadMsgNotice :: uint32 where "CRCBadMsgNotice = 0xa7eff811"
definition CRCBadServerSalt :: uint32 where "CRCBadServerSalt = 0xedab447b"
definition CRCNewSessionCreate :: uint32 where "CRCNewSessionCreate = 0x9ec20908"

record rpcResult =
  res_payload :: bytes
  res_err :: "goerror option"

record Engine =
  pending :: "(int64 \<times> nat) list"
  ackIDs :: "int64 list"
  closed :: bool
  chans :: "rpcResult list list"

text \<open>The result of running code: a value, a goroutine blocked for ever, or fuel used up.\<close>

datatype 'a outcome = Ret 'a | Blocks | NoFuel

text \<open>\<^verbatim>\<open>gzip.NewReader\<close> (an error for a bad header) and \<^verbatim>\<open>io.ReadAll\<close> on its result.\<close>

record gunzip =
  gz_NewReader :: "bytes \<Rightarrow> goerror option"
  gz_ReadAll :: "bytes \<Rightarrow> goerror + bytes"

definition NewEngine :: Engine where
  "NewEngine = \<lparr>pending = [], ackIDs = [], closed = False, chans = []\<rparr>"

definition chan_send :: "nat \<Rightarrow> rpcResult \<Rightarrow> Engine \<Rightarrow> Engine outcome" where
  "chan_send ch r e = (if chans e ! ch = [] then Ret (e\<lparr>chans := (chans e)[ch := [r]]\<rparr>) else Blocks)"

definition Register :: "int64 \<Rightarrow> Engine \<Rightarrow> nat \<times> Engine" where
  "Register msgID e =
     (let ch = length (chans e) in
      if closed e then
        (ch, e\<lparr>chans := chans e @ [[\<lparr>res_payload = [], res_err = Some (NewError ''rpc: engine is closed'')\<rparr>]]\<rparr>)
      else (ch, e\<lparr>chans := chans e @ [[]], pending := (msgID, ch) # AList.delete msgID (pending e)\<rparr>))"

definition Cancel :: "int64 \<Rightarrow> Engine \<Rightarrow> Engine" where
  "Cancel msgID e = e\<lparr>pending := AList.delete msgID (pending e)\<rparr>"

definition decompressGzip :: "gunzip \<Rightarrow> decoder \<Rightarrow> goerror + bytes" where
  "decompressGzip gz d =
     (case Decoder_Uint d of (_, d) \<Rightarrow>
      case Decoder_Bytes d of
        (Inl err, d) \<Rightarrow> Inl err
      | (Inr compressed, d) \<Rightarrow>
          (case gz_NewReader gz compressed of
             Some err \<Rightarrow> Inl (Wrapped ''rpc: gzip decompress error: '' err)
           | None \<Rightarrow> gz_ReadAll gz compressed))"

text \<open>The section of \<^verbatim>\<open>handleRPCResult\<close> under the mutex: look the call up and remove it.\<close>

definition take_call :: "int64 \<Rightarrow> Engine \<Rightarrow> nat option \<times> Engine" where
  "take_call reqMsgID e =
     (case map_of (pending e) reqMsgID of
        None \<Rightarrow> (None, e)
      | Some ch \<Rightarrow> (Some ch, e\<lparr>pending := AList.delete reqMsgID (pending e)\<rparr>))"

text \<open>What \<^verbatim>\<open>handleRPCResult\<close> sends to the caller, and what it returns.\<close>

definition rpc_outcome :: "gunzip \<Rightarrow> uint32 \<Rightarrow> decoder \<Rightarrow> rpcResult \<times> goerror option" where
  "rpc_outcome gz innerCRC d =
     (let failed = (\<lambda>err. (\<lparr>res_payload = [], res_err = Some err\<rparr>, Some err)) in
      if innerCRC = CRCRPCError then
        case Decoder_Uint d of (_, d) \<Rightarrow>
        (case Decoder_Int d of
           (Inl err, d) \<Rightarrow> failed err
         | (Inr code, d) \<Rightarrow>
             (case Decoder_String d of
                (Inl err, d) \<Rightarrow> failed err
              | (Inr msg, d) \<Rightarrow>
                  (\<lparr>res_payload = [], res_err = Some (ParseError (sint code) msg)\<rparr>, None)))
      else if innerCRC = CRCGzipPacked then
        (case decompressGzip gz d of
           Inl err \<Rightarrow> failed err
         | Inr decompressed \<Rightarrow> (\<lparr>res_payload = decompressed, res_err = None\<rparr>, None))
      else (\<lparr>res_payload = Decoder_BytesRemaining d, res_err = None\<rparr>, None))"

definition handleRPCResult :: "gunzip \<Rightarrow> decoder \<Rightarrow> Engine \<Rightarrow> (goerror option \<times> Engine) outcome" where
  "handleRPCResult gz d e =
     (case Decoder_Uint d of (_, d) \<Rightarrow>
      case Decoder_Long d of
        (Inl err, d) \<Rightarrow> Ret (Some err, e)
      | (Inr reqMsgID, d) \<Rightarrow>
          (case Decoder_PeekUint d of
             Inl err \<Rightarrow> Ret (Some err, e)
           | Inr innerCRC \<Rightarrow>
               (case take_call reqMsgID e of
                  (None, e) \<Rightarrow> Ret (None, e)
                | (Some ch, e) \<Rightarrow>
                    (case rpc_outcome gz innerCRC d of (r, err) \<Rightarrow>
                       case chan_send ch r e of
                         Ret e \<Rightarrow> Ret (err, e) | Blocks \<Rightarrow> Blocks | NoFuel \<Rightarrow> NoFuel))))"

type_synonym dispatcher = "int64 \<Rightarrow> bytes \<Rightarrow> Engine \<Rightarrow> (goerror option \<times> Engine) outcome"

text \<open>The loop of \<^verbatim>\<open>handleContainer\<close>, with the number of iterations that are left.\<close>

primrec container_loop :: "dispatcher \<Rightarrow> nat \<Rightarrow> decoder \<Rightarrow> Engine \<Rightarrow> (goerror option \<times> Engine) outcome"
where
  "container_loop dispatch 0 d e = Ret (None, e)"
| "container_loop dispatch (Suc n) d e =
     (case Decoder_Long d of
        (Inl err, d) \<Rightarrow> Ret (Some err, e)
      | (Inr innerMsgID, d) \<Rightarrow>
          (case Decoder_Int d of
             (Inl err, d) \<Rightarrow> Ret (Some err, e)
           | (Inr seqNo, d) \<Rightarrow>
               (case Decoder_Int d of
                  (Inl err, d) \<Rightarrow> Ret (Some err, e)
                | (Inr bytesLen, d) \<Rightarrow>
                    if sint bytesLen < 0 \<or> sint bytesLen > Decoder_Remaining d
                    then Ret (Some (NewError ''rpc: invalid container message length''), e)
                    else (case Decoder_Raw (sint bytesLen) d of
                        (Inl err, d) \<Rightarrow> Ret (Some err, e)
                      | (Inr rawMsg, d) \<Rightarrow>
                          (case dispatch innerMsgID rawMsg e of
                             Ret (Some err, e) \<Rightarrow> Ret (Some err, e)
                           | Ret (None, e) \<Rightarrow> container_loop dispatch n d e
                           | Blocks \<Rightarrow> Blocks
                           | NoFuel \<Rightarrow> NoFuel)))))"

definition handleContainer :: "dispatcher \<Rightarrow> decoder \<Rightarrow> Engine \<Rightarrow> (goerror option \<times> Engine) outcome"
where
  "handleContainer dispatch d e =
     (case Decoder_Uint d of (_, d) \<Rightarrow>
      case Decoder_Int d of
        (Inl err, d) \<Rightarrow> Ret (Some err, e)
      | (Inr count, d) \<Rightarrow> container_loop dispatch (nat (sint count)) d e)"

primrec Dispatch :: "nat \<Rightarrow> gunzip \<Rightarrow> dispatcher" where
  "Dispatch 0 gz msgID payload e = NoFuel"
| "Dispatch (Suc fuel) gz msgID payload e =
     (let e = e\<lparr>ackIDs := ackIDs e @ [msgID]\<rparr>; d = Decoder_New payload in
      case Decoder_PeekUint d of
        Inl err \<Rightarrow> Ret (Some err, e)
      | Inr crc \<Rightarrow>
          if crc = CRCMsgContainer then handleContainer (Dispatch fuel gz) d e
          else if crc = CRCGzipPacked then
            (case decompressGzip gz d of
               Inl err \<Rightarrow> Ret (Some err, e)
             | Inr decompressed \<Rightarrow> Dispatch fuel gz msgID decompressed e)
          else if crc = CRCRPCResult then handleRPCResult gz d e
          else Ret (None, e))"

definition PopAcks :: "Engine \<Rightarrow> int64 list \<times> Engine" where
  "PopAcks e = (ackIDs e, e\<lparr>ackIDs := []\<rparr>)"

text \<open>
  \<^verbatim>\<open>Await\<close>: which case of the \<^verbatim>\<open>select\<close> is taken is the environment's choice; a receive needs a result
  in the channel.  A \<^verbatim>\<open>time.Duration\<close> counts nanoseconds.
\<close>

datatype await_event = CtxDone goerror | TimerFired | Received

definition Await :: "await_event \<Rightarrow> int64 \<Rightarrow> nat \<Rightarrow> int64 \<Rightarrow> Engine \<Rightarrow> ((goerror + bytes) \<times> Engine) outcome" where
  "Await ev msgID ch timeout e =
     (case ev of
        CtxDone err \<Rightarrow> Ret (Inl err, Cancel msgID e)
      | TimerFired \<Rightarrow> 
          Ret (Inl (NewError (''rpc: request '' @ fmt_int (sint msgID) @ '' timed out after '' @ Duration_String timeout)),
               Cancel msgID e)
      | Received \<Rightarrow>
          (case chans e ! ch of
             [] \<Rightarrow> Blocks
           | res # rest \<Rightarrow>
               Ret (case res_err res of Some err \<Rightarrow> Inl err | None \<Rightarrow> Inr (res_payload res),
                    e\<lparr>chans := (chans e)[ch := rest]\<rparr>)))"

primrec fail_all :: "(int64 \<times> nat) list \<Rightarrow> Engine \<Rightarrow> Engine outcome" where
  "fail_all [] e = Ret e"
| "fail_all (call # calls) e =
     (case chan_send (snd call) \<lparr>res_payload = [], res_err = Some (NewError ''rpc: engine closed'')\<rparr> e of
        Ret e \<Rightarrow> fail_all calls (e\<lparr>pending := AList.delete (fst call) (pending e)\<rparr>)
      | Blocks \<Rightarrow> Blocks
      | NoFuel \<Rightarrow> NoFuel)"

definition Engine_Close :: "Engine \<Rightarrow> Engine outcome" where
  "Engine_Close e = (let e = e\<lparr>closed := True\<rparr> in fail_all (pending e) e)"

definition PackMsgsAck :: "int64 list \<Rightarrow> bytes" where
  "PackMsgsAck msgIDs =
     le_put 4 (0x62d6b459 :: uint32) @ le_put 4 (0x1cb5c415 :: uint32)
       @ le_put 4 (of_nat (length msgIDs) :: uint32) @ concat (map (le_put 8) msgIDs)"

section \<open>The invariant: every send finds an empty channel\<close>

text \<open>
  \<open>busy\<close> are the channels of calls that were taken from \<^verbatim>\<open>pending\<close> and whose result is not sent yet.
\<close>

definition owners :: "Engine \<Rightarrow> nat list \<Rightarrow> nat list" where
  "owners e busy = map snd (pending e) @ busy"

definition engine_inv :: "Engine \<Rightarrow> nat list \<Rightarrow> bool" where
  "engine_inv e busy \<longleftrightarrow>
     distinct (map fst (pending e)) \<and> distinct (owners e busy) \<and>
     (\<forall>ch \<in> set (owners e busy). ch < length (chans e) \<and> chans e ! ch = []) \<and>
     (\<forall>b \<in> set (chans e). length b \<le> 1) \<and> (closed e \<longrightarrow> pending e = [])"

lemma delete_snd_subset: "set (map snd (AList.delete k al)) \<subseteq> set (map snd al)"
  by (auto simp: AList.delete_eq)

lemma delete_disjoint: "set (map snd al) \<inter> B = {} \<Longrightarrow> set (map snd (AList.delete k al)) \<inter> B = {}"
  using delete_snd_subset [of k al] by blast

lemma delete_distinct:
  "distinct (map fst al) \<Longrightarrow> distinct (map fst (AList.delete k al))"
  "distinct (map snd al) \<Longrightarrow> distinct (map snd (AList.delete k al))"
  by (simp_all add: AList.delete_eq distinct_map_filter)

lemma engine_invI:
  assumes "distinct (map fst (pending e))" "distinct (map snd (pending e))" "distinct busy"
    "set (map snd (pending e)) \<inter> set busy = {}"
    "\<And>ch. ch \<in> set (map snd (pending e)) \<union> set busy \<Longrightarrow> ch < length (chans e) \<and> chans e ! ch = []"
    "\<forall>b \<in> set (chans e). length b \<le> 1" "closed e \<Longrightarrow> pending e = []"
  shows "engine_inv e busy"
  using assms by (auto simp: engine_inv_def owners_def)

lemma engine_invD:
  assumes "engine_inv e busy"
  shows "distinct (map fst (pending e))" "distinct (map snd (pending e))" "distinct busy"
    "set (map snd (pending e)) \<inter> set busy = {}"
    "\<And>ch. ch \<in> set (map snd (pending e)) \<union> set busy \<Longrightarrow> ch < length (chans e) \<and> chans e ! ch = []"
    "\<forall>b \<in> set (chans e). length b \<le> 1" "closed e \<Longrightarrow> pending e = []"
  using assms by (auto simp: engine_inv_def owners_def)

lemma inv_New: "engine_inv NewEngine []"
  by (simp add: engine_inv_def owners_def NewEngine_def)

lemma inv_acks [simp]: "engine_inv (e\<lparr>ackIDs := a\<rparr>) busy = engine_inv e busy"
  by (simp add: engine_inv_def owners_def)

lemma inv_subset:
  assumes inv: "engine_inv e busy" and p: "distinct (map fst p)" "distinct (map snd p)"
    and sub: "set (map snd p) \<subseteq> set (map snd (pending e))"
    and b: "distinct busy'" "set busy' \<subseteq> set (map snd (pending e)) \<union> set busy"
    "set (map snd p) \<inter> set busy' = {}"
  shows "engine_inv (e\<lparr>pending := p\<rparr>) busy'"
proof (rule engine_invI)
  fix ch assume "ch \<in> set (map snd (pending (e\<lparr>pending := p\<rparr>))) \<union> set busy'"
  then have "ch \<in> set (map snd (pending e)) \<union> set busy" using sub b(2) by auto
  then show "ch < length (chans (e\<lparr>pending := p\<rparr>)) \<and> chans (e\<lparr>pending := p\<rparr>) ! ch = []"
    using engine_invD(5) [OF inv] by simp
next
  assume "closed (e\<lparr>pending := p\<rparr>)"
  then show "pending (e\<lparr>pending := p\<rparr>) = []" using engine_invD(7) [OF inv] sub by simp
qed (use p b engine_invD(6) [OF inv] in simp_all)

lemma inv_Cancel:
  assumes "engine_inv e busy"
  shows "engine_inv (Cancel msgID e) busy"
proof -
  note d = engine_invD [OF assms]
  have "set (map snd (AList.delete msgID (pending e))) \<inter> set busy = {}"
    by (rule delete_disjoint [OF d(4)])
  then show ?thesis
    unfolding Cancel_def
    by (intro inv_subset [OF assms] delete_distinct delete_snd_subset d(1-3)) auto
qed

lemma inv_Register:
  assumes "engine_inv e busy" "Register msgID e = (ch, e')"
  shows "engine_inv e' busy"
proof -
  have c: "engine_inv (Cancel msgID e) busy" by (rule inv_Cancel [OF assms(1)])
  note d = engine_invD [OF c]
  let ?p = "pending (Cancel msgID e)" and ?n = "length (chans e)"
  have same: "chans (Cancel msgID e) = chans e" "closed (Cancel msgID e) = closed e"
    by (simp_all add: Cancel_def)
  have fresh: "?n \<notin> set (map snd ?p) \<union> set busy" using d(5) same(1) by (metis less_irrefl)
  have keys: "msgID \<notin> set (map fst ?p)" by (auto simp: Cancel_def AList.delete_eq)
  show ?thesis
  proof (cases "closed e")
    case True
    have e': "e' = e\<lparr>chans := chans e @ [[\<lparr>res_payload = [], res_err = Some (NewError ''rpc: engine is closed'')\<rparr>]]\<rparr>"
      using True assms(2) by (simp add: Register_def Let_def)
    note d = engine_invD [OF assms(1)]
    show ?thesis
    proof (rule engine_invI)
      fix ch' assume "ch' \<in> set (map snd (pending e')) \<union> set busy"
      then have "ch' < ?n \<and> chans e ! ch' = []" using d(5) by (simp add: e')
      then show "ch' < length (chans e') \<and> chans e' ! ch' = []" by (simp add: e' nth_append)
    qed (use d in \<open>simp_all add: e'\<close>)
  next
    case False
    have e': "pending e' = (msgID, ?n) # ?p" "chans e' = chans e @ [[]]" "closed e' = closed e"
      using False assms(2) by (auto simp: Register_def Let_def Cancel_def)
    show ?thesis
    proof (rule engine_invI)
      fix ch' assume "ch' \<in> set (map snd (pending e')) \<union> set busy"
      then consider "ch' = ?n" | "ch' \<in> set (map snd ?p) \<union> set busy" using e'(1) by auto
      then show "ch' < length (chans e') \<and> chans e' ! ch' = []"
      proof cases
        case 2
        then have "ch' < ?n \<and> chans e ! ch' = []" using d(5) same(1) by metis
        then show ?thesis by (simp add: e'(2) nth_append)
      qed (simp add: e'(2))
    qed (use d fresh keys e' False same in simp_all)
  qed
qed

lemma inv_take_call:
  assumes "engine_inv e busy" "take_call req e = (Some ch, e')"
  shows "engine_inv e' (ch # busy)" "chans e' = chans e" "chans e ! ch = []" "ch < length (chans e)"
proof -
  note d = engine_invD [OF assms(1)]
  have m: "map_of (pending e) req = Some ch" and e': "e' = e\<lparr>pending := AList.delete req (pending e)\<rparr>"
    using assms(2) by (auto simp: take_call_def split: option.splits)
  then have ch: "(req, ch) \<in> set (pending e)" by (simp add: map_of_SomeD)
  have gone: "ch \<notin> set (map snd (AList.delete req (pending e)))"
  proof
    assume "ch \<in> set (map snd (AList.delete req (pending e)))"
    then obtain k where k: "(k, ch) \<in> set (pending e)" "k \<noteq> req" by (auto simp: AList.delete_eq)
    with ch d(2) show False by (metis distinct_map inj_onD prod.inject snd_conv)
  qed
  have mem: "ch \<in> set (map snd (pending e))" using ch by force
  show "chans e ! ch = []" "ch < length (chans e)" using d(5) mem by blast+
  show "chans e' = chans e" by (simp add: e')
  have "distinct (ch # busy)" using d(3,4) mem by auto
  moreover have "set (map snd (AList.delete req (pending e))) \<inter> set (ch # busy) = {}"
    using gone delete_disjoint [OF d(4), of req] by simp
  moreover have "set (ch # busy) \<subseteq> set (map snd (pending e)) \<union> set busy" using mem by auto
  ultimately show "engine_inv e' (ch # busy)"
    unfolding e'
    by (intro inv_subset [OF assms(1)] delete_distinct delete_snd_subset d(1,2))
qed

lemma inv_send:
  assumes "engine_inv e (ch # busy)"
  shows "\<exists>e'. chan_send ch r e = Ret e' \<and> engine_inv e' busy \<and> pending e' = pending e \<and>
    closed e' = closed e \<and> ackIDs e' = ackIDs e \<and> chans e' = (chans e)[ch := [r]]"
proof -
  note d = engine_invD [OF assms]
  have ch: "ch < length (chans e)" "chans e ! ch = []" using d(5) by auto
  have "engine_inv (e\<lparr>chans := (chans e)[ch := [r]]\<rparr>) busy"
    by (rule engine_invI)
      (use d ch in \<open>auto simp: nth_list_update dest!: set_update_subset_insert [THEN subsetD]\<close>)
  then show ?thesis using ch by (simp add: chan_send_def)
qed

section \<open>No operation blocks\<close>

definition runs_ok :: "nat list \<Rightarrow> ('a \<times> Engine) outcome \<Rightarrow> bool" where
  "runs_ok busy m = (case m of Ret (r, e) \<Rightarrow> engine_inv e busy | Blocks \<Rightarrow> False | NoFuel \<Rightarrow> True)"

lemma runs_ok_simps [simp]:
  "runs_ok busy (Ret (r, e)) = engine_inv e busy" "\<not> runs_ok busy Blocks" "runs_ok busy NoFuel"
  by (simp_all add: runs_ok_def)

lemma handleRPCResult_ok:
  assumes "engine_inv e busy"
  shows "runs_ok busy (handleRPCResult gz d e)"
proof -
  have "runs_ok busy (case take_call req e of
      (None, e) \<Rightarrow> Ret (None, e)
    | (Some ch, e) \<Rightarrow> (case rpc_outcome gz crc d' of (r, err) \<Rightarrow>
        case chan_send ch r e of Ret e \<Rightarrow> Ret (err, e) | Blocks \<Rightarrow> Blocks | NoFuel \<Rightarrow> NoFuel))" for req crc d'
  proof (cases "take_call req e")
    case (Pair o' e')
    show ?thesis
    proof (cases o')
      case None
      then show ?thesis using Pair assms by (auto simp: take_call_def split: option.splits)
    next
      case (Some ch)
      obtain r err where o: "rpc_outcome gz crc d' = (r, err)" by fastforce
      have "engine_inv e' (ch # busy)" using inv_take_call(1) [OF assms] Pair Some by blast
      from inv_send [OF this, of r] show ?thesis using Pair Some o by auto
    qed
  qed
  then show ?thesis
    unfolding handleRPCResult_def using assms by (auto split: prod.split sum.split)
qed

lemma container_loop_ok:
  assumes "\<And>i p e. engine_inv e busy \<Longrightarrow> runs_ok busy (disp i p e)" "engine_inv e busy"
  shows "runs_ok busy (container_loop disp n d e)"
  using assms(2)
proof (induction n arbitrary: d e)
  case (Suc n)
  have "runs_ok busy (case disp i p e of Ret (Some err, e) \<Rightarrow> Ret (Some err, e)
      | Ret (None, e) \<Rightarrow> container_loop disp n d' e | Blocks \<Rightarrow> Blocks | NoFuel \<Rightarrow> NoFuel)" for i p d'
    using assms(1) [OF Suc.prems, of i p] Suc.IH by (auto split: outcome.splits option.splits)
  then show ?case
    using Suc.prems by (auto split: prod.split sum.split)
qed simp

lemma Dispatch_ok: "engine_inv e busy \<Longrightarrow> runs_ok busy (Dispatch n gz msgID payload e)"
proof (induction n arbitrary: msgID payload e)
  case (Suc n)
  have "runs_ok busy (handleContainer (Dispatch n gz) d (e\<lparr>ackIDs := a\<rparr>))" for d a
    unfolding handleContainer_def
    using container_loop_ok [of busy "Dispatch n gz"] Suc by (auto split: prod.split sum.split)
  moreover have "runs_ok busy (Dispatch n gz msgID p (e\<lparr>ackIDs := a\<rparr>))" for p a
    using Suc by simp
  ultimately show ?case
    using Suc.prems handleRPCResult_ok by (auto simp: Let_def split: sum.split)
qed simp

lemma inv_fail_all:
  assumes "engine_inv (e\<lparr>closed := False\<rparr>) busy" "calls = pending e"
  shows "\<exists>e'. fail_all calls e = Ret e' \<and> engine_inv e' busy \<and> pending e' = [] \<and> closed e' = closed e"
  using assms
proof (induction calls arbitrary: e)
  case Nil
  then show ?case by (auto simp: engine_inv_def owners_def)
next
  case (Cons call calls)
  let ?r = "\<lparr>res_payload = [], res_err = Some (NewError ''rpc: engine closed'')\<rparr>"
  let ?e = "e\<lparr>closed := False\<rparr>"
  obtain k ch where call: "call = (k, ch)" by fastforce
  have "distinct (map fst (call # calls))"
    using engine_invD(1) [OF Cons.prems(1)] Cons.prems(2) by simp
  then have "AList.delete k calls = calls"
    using call by (force simp: AList.delete_eq filter_id_conv)
  then have del: "AList.delete k (pending e) = calls"
    unfolding Cons.prems(2) [symmetric] call by (simp add: AList.delete_eq)
  then have take: "take_call k ?e = (Some ch, ?e\<lparr>pending := calls\<rparr>)"
    using Cons.prems(2) [symmetric] call by (simp add: take_call_def)
  have inv: "engine_inv (?e\<lparr>pending := calls\<rparr>) (ch # busy)"
    by (rule inv_take_call(1) [OF Cons.prems(1) take])
  obtain e1 where e1: "chan_send ch ?r (?e\<lparr>pending := calls\<rparr>) = Ret e1" "engine_inv e1 busy"
      "pending e1 = calls" "chans e1 = (chans e)[ch := [?r]]" "closed e1 = False" "ackIDs e1 = ackIDs e"
    using inv_send [OF inv, of ?r] by auto
  have empty: "chans e ! ch = []" using inv_take_call(3) [OF Cons.prems(1) take] by simp
  let ?next = "e\<lparr>chans := (chans e)[ch := [?r]], pending := calls\<rparr>"
  have nx: "?next\<lparr>closed := False\<rparr> = e1" using e1 by simp
  have step: "fail_all (call # calls) e = fail_all calls ?next"
    using empty call del by (simp add: chan_send_def)
  show ?case
    using Cons.IH [of ?next] e1(2) nx step by simp
qed

lemma Close_ok:
  assumes "engine_inv e busy"
  shows "\<exists>e'. Engine_Close e = Ret e' \<and> engine_inv e' busy \<and> pending e' = [] \<and> closed e'"
proof -
  have "engine_inv (e\<lparr>closed := True\<rparr>\<lparr>closed := False\<rparr>) busy"
    using assms by (simp add: engine_inv_def owners_def)
  from inv_fail_all [OF this refl] show ?thesis by (auto simp: Engine_Close_def)
qed

lemma inv_receive:
  assumes "engine_inv e busy" "chans e ! ch = res # rest" "ch < length (chans e)"
  shows "engine_inv (e\<lparr>chans := (chans e)[ch := rest]\<rparr>) busy"
proof -
  note d = engine_invD [OF assms(1)]
  have "length (chans e ! ch) \<le> 1" using d(6) assms(3) by simp
  then have rest: "rest = []" using assms(2) by simp
  show ?thesis
  proof (rule engine_invI)
    fix c assume "c \<in> set (map snd (pending (e\<lparr>chans := (chans e)[ch := rest]\<rparr>))) \<union> set busy"
    then have "c < length (chans e) \<and> chans e ! c = []" using d(5) by simp
    then show "c < length (chans (e\<lparr>chans := (chans e)[ch := rest]\<rparr>)) \<and>
        chans (e\<lparr>chans := (chans e)[ch := rest]\<rparr>) ! c = []"
      using rest by (cases "c = ch") simp_all
  next
    show "\<forall>b \<in> set (chans (e\<lparr>chans := (chans e)[ch := rest]\<rparr>)). length b \<le> 1"
      using d(6) rest set_update_subset_insert [of "chans e" ch rest] by auto
  qed (use d in simp_all)
qed

section \<open>Concurrent use\<close>

text \<open>
  The goroutines that share an engine interleave at its mutexes.  A state is the engine and the calls
  in flight: those that a \<^verbatim>\<open>handleRPCResult\<close> has removed from \<^verbatim>\<open>pending\<close> and whose result it has
  not sent yet.
\<close>

type_synonym engine_state = "Engine \<times> (nat \<times> rpcResult) list"

inductive engine_step :: "engine_state \<Rightarrow> engine_state \<Rightarrow> bool" where
  register: "Register msgID e = (ch, e') \<Longrightarrow> engine_step (e, fl) (e', fl)"
| cancel: "engine_step (e, fl) (Cancel msgID e, fl)"
| queue_ack: "engine_step (e, fl) (e\<lparr>ackIDs := ackIDs e @ [msgID]\<rparr>, fl)"
| pop_acks: "PopAcks e = (acks, e') \<Longrightarrow> engine_step (e, fl) (e', fl)"
| take: "take_call req e = (Some ch, e') \<Longrightarrow> engine_step (e, fl) (e', (ch, r) # fl)"
| send: "chan_send ch r e = Ret e' \<Longrightarrow> engine_step (e, xs @ (ch, r) # ys) (e', xs @ ys)"
| receive: "ch < length (chans e) \<Longrightarrow> Await Received msgID ch timeout e = Ret (res, e') \<Longrightarrow> engine_step (e, fl) (e', fl)"
| close: "Engine_Close e = Ret e' \<Longrightarrow> engine_step (e, fl) (e', fl)"

inductive engine_reachable :: "engine_state \<Rightarrow> bool" where
  start: "engine_reachable (NewEngine, [])"
| step: "engine_reachable s \<Longrightarrow> engine_step s s' \<Longrightarrow> engine_reachable s'"

lemma engine_inv_move: "engine_inv e (a @ ch # b) = engine_inv e (ch # a @ b)"
  by (auto simp: engine_inv_def owners_def)

lemma engine_step_inv:
  assumes "engine_step s s'" "engine_inv (fst s) (map fst (snd s))"
  shows "engine_inv (fst s') (map fst (snd s'))"
  using assms
proof (induction rule: engine_step.induct)
  case (send ch r e e' xs ys)
  have "engine_inv e (ch # map fst (xs @ ys))"
    using send.prems by (simp add: engine_inv_move)
  from inv_send [OF this, of r] send.hyps show ?case by auto
next
  case (receive ch e msgID timeout res e' fl)
  obtain x rest where "chans e ! ch = x # rest" "e' = e\<lparr>chans := (chans e)[ch := rest]\<rparr>"
    using receive.hyps(2) by (auto simp: Await_def split: list.splits)
  then show ?case using inv_receive [OF _ _ receive.hyps(1)] receive.prems by simp
next
  case (close e e' fl)
  then show ?case using Close_ok [of e "map fst fl"] by auto
qed (auto simp: inv_Cancel inv_Register inv_take_call PopAcks_def)

lemma engine_reachable_inv: "engine_reachable s \<Longrightarrow> engine_inv (fst s) (map fst (snd s))"
  by (induction rule: engine_reachable.induct) (auto simp: inv_New engine_step_inv)

section \<open>Routing\<close>

lemmas crc_defs = CRCGzipPacked_def CRCRPCResult_def CRCRPCError_def CRCMsgContainer_def CRCPong_def
  CRCBadMsgNotice_def CRCBadServerSalt_def CRCNewSessionCreate_def

lemma PeekUint_header:
  "dbuf d = pre @ le_put 4 v @ rest \<Longrightarrow> dpos d = length pre \<Longrightarrow> Decoder_PeekUint d = Inr v"
  by (simp add: Decoder_PeekUint_eq Decoder_Remaining_def)

text \<open>An \<open>rpc_result\<close> message as a server builds it.\<close>

definition rpc_result_wire :: "int64 \<Rightarrow> bytes \<Rightarrow> bytes" where
  "rpc_result_wire reqMsgID body = le_put 4 CRCRPCResult @ le_put 8 reqMsgID @ body"

lemma Dispatch_rpc_result:
  assumes "body = le_put 4 crc @ rest"
  shows "Dispatch (Suc n) gz msgID (rpc_result_wire req body) e =
    (let e = e\<lparr>ackIDs := ackIDs e @ [msgID]\<rparr>;
         d = \<lparr>dbuf = rpc_result_wire req body, dpos = 12\<rparr>
     in case take_call req e of
          (None, e) \<Rightarrow> Ret (None, e)
        | (Some ch, e) \<Rightarrow>
            (case rpc_outcome gz crc d of (r, err) \<Rightarrow>
               case chan_send ch r e of Ret e \<Rightarrow> Ret (err, e) | Blocks \<Rightarrow> Blocks | NoFuel \<Rightarrow> NoFuel))"
proof -
  let ?w = "rpc_result_wire req body"
  let ?d = "Decoder_New ?w"
  have peek: "Decoder_PeekUint ?d = Inr CRCRPCResult"
    by (rule PeekUint_header [where pre = "[]"]) (simp_all add: Decoder_New_def rpc_result_wire_def)
  have uint: "Decoder_Uint ?d = (Inr CRCRPCResult, advance 4 ?d)"
    using decodes_at [OF decodes_Uint [of CRCRPCResult], of ?d "[]"]
    by (simp add: Decoder_New_def rpc_result_wire_def)
  have long: "Decoder_Long (advance 4 ?d) = (Inr req, advance 8 (advance 4 ?d))"
    using decodes_at [OF decodes_Long [of req], of "advance 4 ?d" "le_put 4 CRCRPCResult" body]
    by (simp add: Decoder_New_def rpc_result_wire_def)
  have d: "advance 8 (advance 4 ?d) = \<lparr>dbuf = ?w, dpos = 12\<rparr>"
    by (simp add: advance_def Decoder_New_def)
  have peek2: "Decoder_PeekUint \<lparr>dbuf = ?w, dpos = 12\<rparr> = Inr crc"
    by (rule PeekUint_header [where pre = "le_put 4 CRCRPCResult @ le_put 8 req" and rest = rest])
      (simp_all add: rpc_result_wire_def assms)
  show ?thesis
    using peek uint long d peek2 by (simp add: handleRPCResult_def Let_def crc_defs)
qed

lemma rpc_outcome_raw:
  assumes "crc \<noteq> CRCRPCError" "crc \<noteq> CRCGzipPacked"
  shows "rpc_outcome gz crc \<lparr>dbuf = rpc_result_wire req body, dpos = 12\<rparr> =
    (\<lparr>res_payload = body, res_err = None\<rparr>, None)"
  using assms by (simp add: rpc_outcome_def Let_def Decoder_BytesRemaining_def rpc_result_wire_def)

lemma Dispatch_routes:
  assumes inv: "engine_inv e busy" and body: "body = le_put 4 crc @ rest"
    and crc: "crc \<noteq> CRCRPCError" "crc \<noteq> CRCGzipPacked"
  shows "Dispatch (Suc n) gz msgID (rpc_result_wire req body) e =
    (case map_of (pending e) req of
       None \<Rightarrow> Ret (None, e\<lparr>ackIDs := ackIDs e @ [msgID]\<rparr>)
     | Some ch \<Rightarrow> Ret (None, e\<lparr>ackIDs := ackIDs e @ [msgID], pending := AList.delete req (pending e),
         chans := (chans e)[ch := [\<lparr>res_payload = body, res_err = None\<rparr>]]\<rparr>))"
proof (cases "map_of (pending e) req")
  case None
  then show ?thesis
    by (simp add: Dispatch_rpc_result [OF body] Let_def take_call_def del: Dispatch.simps)
next
  case (Some ch)
  have "(req, ch) \<in> set (pending e)" using Some by (rule map_of_SomeD)
  then have "ch \<in> set (map snd (pending e))" by force
  then have "chans e ! ch = []" using engine_invD(5) [OF inv] by blast
  then show ?thesis
    using Some
    by (simp add: Dispatch_rpc_result [OF body] Let_def take_call_def rpc_outcome_raw [OF crc]
        chan_send_def del: Dispatch.simps)
qed

lemma rpc_outcome_error:
  assumes "length msg < 2 ^ 24"
    and body: "body = le_put 4 CRCRPCError @ le_put 4 code @ tl_bytes (string_bytes msg) @ rest"
  shows "rpc_outcome gz CRCRPCError \<lparr>dbuf = rpc_result_wire req body, dpos = 12\<rparr> =
    (\<lparr>res_payload = [], res_err = Some (ParseError (sint (code :: int32)) msg)\<rparr>, None)"
proof -
  let ?w = "rpc_result_wire req body" and ?pre = "le_put 4 CRCRPCResult @ le_put 8 req"
  let ?d = "\<lparr>dbuf = ?w, dpos = 12\<rparr>"
  have 1: "Decoder_Uint ?d = (Inr CRCRPCError, advance 4 ?d)"
    using decodes_at [OF decodes_Uint [of CRCRPCError], of ?d ?pre] by (simp add: rpc_result_wire_def body)
  have 2: "Decoder_Int (advance 4 ?d) = (Inr code, advance 4 (advance 4 ?d))"
    using decodes_at [OF decodes_Int [of code], of "advance 4 ?d" "?pre @ le_put 4 CRCRPCError"]
    by (simp add: rpc_result_wire_def body)
  have 3: "\<exists>d'. Decoder_String (advance 4 (advance 4 ?d)) = (Inr msg, d')"
    using decodes_at [OF decodes_String [OF assms(1)], of "advance 4 (advance 4 ?d)"
        "?pre @ le_put 4 CRCRPCError @ le_put 4 code" rest]
    by (simp add: rpc_result_wire_def body)
  show ?thesis using 1 2 3 by (auto simp: rpc_outcome_def Let_def)
qed

section \<open>Containers\<close>

text \<open>A container as a server builds it: identifier, sequence number and body of each message.\<close>

definition container_item :: "int64 \<times> int32 \<times> bytes \<Rightarrow> bytes" where
  "container_item m = (case m of (i, s, b) \<Rightarrow>
     le_put 8 i @ le_put 4 s @ le_put 4 (of_nat (length b) :: int32) @ b)"

definition container_wire :: "(int64 \<times> int32 \<times> bytes) list \<Rightarrow> bytes" where
  "container_wire msgs =
     le_put 4 CRCMsgContainer @ le_put 4 (of_nat (length msgs) :: int32) @ concat (map container_item msgs)"

lemma container_item_simp [simp]:
  "container_item (i, s, b) = le_put 8 i @ le_put 4 s @ le_put 4 (of_nat (length b) :: int32) @ b"
  by (simp add: container_item_def)

primrec dispatch_all ::
  "dispatcher \<Rightarrow> (int64 \<times> int32 \<times> bytes) list \<Rightarrow> Engine \<Rightarrow> (goerror option \<times> Engine) outcome" where
  "dispatch_all dispatch [] e = Ret (None, e)"
| "dispatch_all dispatch (m # ms) e =
     (case dispatch (fst m) (snd (snd m)) e of
        Ret (Some err, e) \<Rightarrow> Ret (Some err, e)
      | Ret (None, e) \<Rightarrow> dispatch_all dispatch ms e
      | Blocks \<Rightarrow> Blocks
      | NoFuel \<Rightarrow> NoFuel)"

lemma container_loop_wire:
  assumes "\<forall>(i, s, b) \<in> set msgs. length b < 2 ^ 31"
    "dbuf d = pre @ concat (map container_item msgs) @ rest" "dpos d = length pre"
  shows "container_loop dispatch (length msgs) d e = dispatch_all dispatch msgs e"
  using assms
proof (induction msgs arbitrary: d pre e)
  case (Cons m msgs)
  obtain i s b where m: "m = (i, s, b)" by (cases m)
  let ?n = "of_nat (length b) :: int32" and ?more = "concat (map container_item msgs) @ rest"
  have buf: "dbuf d = pre @ le_put 8 i @ le_put 4 s @ le_put 4 ?n @ b @ ?more"
    using Cons.prems(2) by (simp add: m)
  have 1: "Decoder_Long d = (Inr i, advance 8 d)"
    using decodes_at [OF decodes_Long [of i], of d pre] buf Cons.prems(3) by simp
  have 2: "Decoder_Int (advance 8 d) = (Inr s, advance 4 (advance 8 d))"
    using decodes_at [OF decodes_Int [of s], of "advance 8 d" "pre @ le_put 8 i"] buf Cons.prems(3) by simp
  let ?d = "advance 4 (advance 4 (advance 8 d))"
  have 3: "Decoder_Int (advance 4 (advance 8 d)) = (Inr ?n, ?d)"
    using decodes_at [OF decodes_Int [of ?n], of "advance 4 (advance 8 d)" "pre @ le_put 8 i @ le_put 4 s"]
      buf Cons.prems(3) by simp
  have n: "sint ?n = int (length b)"
    using Cons.prems(1) m by (intro sint_of_nat_int32) simp
  have 4: "Decoder_Raw (int (length b)) ?d = (Inr b, advance (length b) ?d)"
    using decodes_at [OF decodes_Raw [of b], of ?d "pre @ le_put 8 i @ le_put 4 s @ le_put 4 ?n" ?more]
      buf Cons.prems(3) by simp
  have rem: "\<not> int (length b) > Decoder_Remaining ?d"
    using buf Cons.prems(3) by (simp add: Decoder_Remaining_def)
  have "container_loop dispatch (length msgs) (advance (length b) ?d) e' = dispatch_all dispatch msgs e'" for e'
    by (rule Cons.IH [where pre = "pre @ container_item m"])
      (use Cons.prems m in simp_all)
  then show ?case
    using 1 2 3 4 n rem m by (simp split: outcome.split option.split)
qed simp

lemma Dispatch_container:
  assumes "\<forall>(i, s, b) \<in> set msgs. length b < 2 ^ 31" "length msgs < 2 ^ 31"
  shows "Dispatch (Suc n) gz msgID (container_wire msgs @ rest) e =
    dispatch_all (Dispatch n gz) msgs (e\<lparr>ackIDs := ackIDs e @ [msgID]\<rparr>)"
proof -
  let ?w = "container_wire msgs @ rest" and ?n = "of_nat (length msgs) :: int32"
  let ?d = "Decoder_New ?w"
  have peek: "Decoder_PeekUint ?d = Inr CRCMsgContainer"
    by (rule PeekUint_header [where pre = "[]"]) (simp_all add: Decoder_New_def container_wire_def)
  have 1: "Decoder_Uint ?d = (Inr CRCMsgContainer, advance 4 ?d)"
    using decodes_at [OF decodes_Uint [of CRCMsgContainer], of ?d "[]"]
    by (simp add: Decoder_New_def container_wire_def)
  have 2: "Decoder_Int (advance 4 ?d) = (Inr ?n, advance 4 (advance 4 ?d))"
    using decodes_at [OF decodes_Int [of ?n], of "advance 4 ?d" "le_put 4 CRCMsgContainer"]
    by (simp add: Decoder_New_def container_wire_def)
  have "container_loop (Dispatch n gz) (length msgs) (advance 4 (advance 4 ?d)) e' =
      dispatch_all (Dispatch n gz) msgs e'" for e'
    by (rule container_loop_wire [where pre = "le_put 4 CRCMsgContainer @ le_put 4 ?n" and rest = rest])
      (use assms in \<open>simp_all add: Decoder_New_def container_wire_def\<close>)
  then show ?thesis
    using peek 1 2 assms(2) by (simp add: handleContainer_def Let_def sint_of_nat_int32)
qed

section \<open>Fuel\<close>

text \<open>
  What a server can answer to a request, the bytes of the answer in the \<open>rpc_result\<close>, and what the
  caller has to get for it: the result, the decompressed result, or the typed error.
\<close>

datatype answer = Result bytes | Gzipped bytes | Failed int32 string

fun answer_wire :: "answer \<Rightarrow> bytes" where
  "answer_wire (Result b) = b"
| "answer_wire (Gzipped c) = le_put 4 CRCGzipPacked @ tl_bytes c"
| "answer_wire (Failed code msg) = le_put 4 CRCRPCError @ le_put 4 code @ tl_bytes (string_bytes msg)"

fun answer_ok :: "answer \<Rightarrow> bool" where
  "answer_ok (Result b) =
     (4 \<le> length b \<and> le_get (take 4 b) \<noteq> CRCRPCError \<and> le_get (take 4 b) \<noteq> CRCGzipPacked)"
| "answer_ok (Gzipped c) = (length c < 2 ^ 24)"
| "answer_ok (Failed code msg) = (length msg < 2 ^ 24)"

fun answer_value :: "gunzip \<Rightarrow> answer \<Rightarrow> goerror + bytes" where
  "answer_value gz (Result b) = Inr b"
| "answer_value gz (Gzipped c) =
     (case gz_NewReader gz c of
        Some err \<Rightarrow> Inl (Wrapped ''rpc: gzip decompress error: '' err)
      | None \<Rightarrow> gz_ReadAll gz c)"
| "answer_value gz (Failed code msg) = Inl (ParseError (sint code) msg)"

definition rpc_result_of :: "goerror + bytes \<Rightarrow> rpcResult" where
  "rpc_result_of r = (case r of Inl err \<Rightarrow> \<lparr>res_payload = [], res_err = Some err\<rparr>
     | Inr b \<Rightarrow> \<lparr>res_payload = b, res_err = None\<rparr>)"

lemma decompressGzip_at:
  assumes "length c < 2 ^ 24" "dbuf d = pre @ le_put 4 CRCGzipPacked @ tl_bytes c @ rest" "dpos d = length pre"
  shows "decompressGzip gz d = answer_value gz (Gzipped c)"
proof -
  have "Decoder_Uint d = (Inr CRCGzipPacked, advance 4 d)"
    using decodes_at [OF decodes_Uint [of CRCGzipPacked] assms(2,3)] by simp
  moreover have "\<exists>d'. Decoder_Bytes (advance 4 d) = (Inr c, d')"
    using decodes_at [OF decodes_Bytes [OF assms(1)], of "advance 4 d" "pre @ le_put 4 CRCGzipPacked" rest]
      assms(2,3) by simp
  ultimately show ?thesis by (auto simp: decompressGzip_def)
qed

lemma rpc_outcome_answer:
  assumes "answer_ok a"
  obtains crc rest err where "answer_wire a = le_put 4 crc @ rest"
    "rpc_outcome gz crc \<lparr>dbuf = rpc_result_wire req (answer_wire a), dpos = 12\<rparr> =
       (rpc_result_of (answer_value gz a), err)"
proof (cases a)
  case (Result b)
  then have "b = le_put 4 (le_get (take 4 b) :: uint32) @ drop 4 b"
    using assms le_put_le_get [of "take 4 b", where 'a = 32] by simp
  then show thesis
    using Result assms rpc_outcome_raw [of "le_get (take 4 b)" gz req b]
    by (intro that [of "le_get (take 4 b)" "drop 4 b" None]) (simp_all add: rpc_result_of_def)
next
  case (Gzipped c)
  let ?d = "\<lparr>dbuf = rpc_result_wire req (answer_wire a), dpos = 12\<rparr>"
  have "decompressGzip gz ?d = answer_value gz a"
    unfolding Gzipped
    by (rule decompressGzip_at [of _ _ "le_put 4 CRCRPCResult @ le_put 8 req" "[]"])
      (use assms Gzipped in \<open>simp_all add: rpc_result_wire_def\<close>)
  moreover have "CRCGzipPacked \<noteq> CRCRPCError" by (simp add: crc_defs)
  ultimately show thesis
    by (intro that [of CRCGzipPacked "tl_bytes c" "case answer_value gz a of Inl err \<Rightarrow> Some err | Inr _ \<Rightarrow> None"])
      (simp_all add: Gzipped rpc_outcome_def Let_def rpc_result_of_def split: sum.split)
next
  case (Failed code msg)
  then show thesis
    using assms rpc_outcome_error [of msg "answer_wire a" code "[]" gz req]
    by (intro that [of CRCRPCError "le_put 4 code @ tl_bytes (string_bytes msg)" None])
      (simp_all add: rpc_result_of_def)
qed

lemma Dispatch_answer:
  assumes "engine_inv e busy" "answer_ok a" "map_of (pending e) req = Some ch"
  shows "\<exists>err. Dispatch (Suc n) gz msgID (rpc_result_wire req (answer_wire a)) e =
    Ret (err, e\<lparr>ackIDs := ackIDs e @ [msgID], pending := AList.delete req (pending e),
      chans := (chans e)[ch := [rpc_result_of (answer_value gz a)]]\<rparr>)"
proof -
  have "(req, ch) \<in> set (pending e)" using assms(3) by (rule map_of_SomeD)
  then have "ch \<in> set (map snd (pending e))" by force
  then have empty: "chans e ! ch = []" using engine_invD(5) [OF assms(1)] by blast
  obtain crc rest err where a: "answer_wire a = le_put 4 crc @ rest"
    "rpc_outcome gz crc \<lparr>dbuf = rpc_result_wire req (answer_wire a), dpos = 12\<rparr> =
       (rpc_result_of (answer_value gz a), err)"
    by (rule rpc_outcome_answer [OF assms(2)])
  show ?thesis
    using assms(3) empty
    by (simp add: Dispatch_rpc_result [OF a(1)] Let_def take_call_def a(2) chan_send_def del: Dispatch.simps)
qed

text \<open>More fuel does not change a result.\<close>

definition container_head :: "decoder \<Rightarrow> goerror + int64 \<times> bytes \<times> decoder" where
  "container_head d =
     (case Decoder_Long d of (Inl err, d) \<Rightarrow> Inl err | (Inr i, d) \<Rightarrow>
      case Decoder_Int d of (Inl err, d) \<Rightarrow> Inl err | (Inr s, d) \<Rightarrow>
      case Decoder_Int d of (Inl err, d) \<Rightarrow> Inl err | (Inr len, d) \<Rightarrow>
      if sint len < 0 \<or> sint len > Decoder_Remaining d
      then Inl (NewError ''rpc: invalid container message length'')
      else case Decoder_Raw (sint len) d of (Inl err, d) \<Rightarrow> Inl err | (Inr p, d) \<Rightarrow> Inr (i, p, d))"

definition next_message ::
  "(goerror option \<times> Engine) outcome \<Rightarrow> (Engine \<Rightarrow> (goerror option \<times> Engine) outcome) \<Rightarrow> (goerror option \<times> Engine) outcome"
where
  "next_message m k = (case m of Ret (Some err, e) \<Rightarrow> Ret (Some err, e) | Ret (None, e) \<Rightarrow> k e
     | Blocks \<Rightarrow> Blocks | NoFuel \<Rightarrow> NoFuel)"

lemma container_loop_Suc:
  "container_loop disp (Suc n) d e =
     (case container_head d of
        Inl err \<Rightarrow> Ret (Some err, e)
      | Inr (i, p, d') \<Rightarrow> next_message (disp i p e) (container_loop disp n d'))"
  by (simp add: container_head_def next_message_def split: prod.split sum.split)

lemma next_message_NoFuel:
  "next_message m k = NoFuel \<longleftrightarrow> m = NoFuel \<or> (\<exists>e. m = Ret (None, e) \<and> k e = NoFuel)"
  by (auto simp: next_message_def split: outcome.splits option.splits)

lemma next_message_cong:
  "(\<And>e. m = Ret (None, e) \<Longrightarrow> k e = k' e) \<Longrightarrow> next_message m k = next_message m k'"
  by (auto simp: next_message_def split: outcome.splits option.splits)

lemma container_loop_mono:
  assumes "\<And>i p e. disp i p e \<noteq> NoFuel \<Longrightarrow> disp' i p e = disp i p e"
    "container_loop disp n d e \<noteq> NoFuel"
  shows "container_loop disp' n d e = container_loop disp n d e"
  using assms(2)
proof (induction n arbitrary: d e)
  case (Suc n)
  show ?case
  proof (cases "container_head d")
    case (Inr t)
    obtain i p d' where t: "t = (i, p, d')" by (cases t)
    have "next_message (disp i p e) (container_loop disp n d') \<noteq> NoFuel"
      using Suc.prems Inr t by (simp only: container_loop_Suc) simp
    then have "disp' i p e = disp i p e" "\<And>e'. disp i p e = Ret (None, e') \<Longrightarrow>
        container_loop disp' n d' e' = container_loop disp n d' e'"
      using assms(1) Suc.IH by (auto simp: next_message_NoFuel)
    then show ?thesis
      using Inr t by (simp only: container_loop_Suc) (auto intro: next_message_cong)
  qed (simp only: container_loop_Suc, simp)
qed simp

definition dispatch_body :: "dispatcher \<Rightarrow> gunzip \<Rightarrow> dispatcher" where
  "dispatch_body rec gz msgID payload e =
     (let e = e\<lparr>ackIDs := ackIDs e @ [msgID]\<rparr>; d = Decoder_New payload in
      case Decoder_PeekUint d of
        Inl err \<Rightarrow> Ret (Some err, e)
      | Inr crc \<Rightarrow>
          if crc = CRCMsgContainer then handleContainer rec d e
          else if crc = CRCGzipPacked then
            (case decompressGzip gz d of Inl err \<Rightarrow> Ret (Some err, e) | Inr out \<Rightarrow> rec msgID out e)
          else if crc = CRCRPCResult then handleRPCResult gz d e
          else Ret (None, e))"

lemma Dispatch_Suc: "Dispatch (Suc n) gz msgID payload e = dispatch_body (Dispatch n gz) gz msgID payload e"
  by (simp add: dispatch_body_def cong: sum.case_cong if_cong)

lemma dispatch_body_mono:
  assumes "\<And>i p e. disp i p e \<noteq> NoFuel \<Longrightarrow> disp' i p e = disp i p e"
    "dispatch_body disp gz msgID payload e \<noteq> NoFuel"
  shows "dispatch_body disp' gz msgID payload e = dispatch_body disp gz msgID payload e"
proof -
  have "handleContainer disp d e \<noteq> NoFuel \<Longrightarrow> handleContainer disp' d e = handleContainer disp d e" for d e
    unfolding handleContainer_def
    using container_loop_mono [of disp disp', OF assms(1)] by (auto split: prod.splits sum.splits)
  then show ?thesis
    using assms by (auto simp: dispatch_body_def Let_def split: sum.splits if_splits)
qed

lemma Dispatch_mono:
  "Dispatch n gz msgID payload e \<noteq> NoFuel \<Longrightarrow> Dispatch (Suc n) gz msgID payload e = Dispatch n gz msgID payload e"
proof (induction n arbitrary: msgID payload e)
  case (Suc n)
  then show ?case
    unfolding Dispatch_Suc by (rule dispatch_body_mono)
qed simp

text \<open>A message of a container is smaller than the container.\<close>

lemma container_head_size:
  assumes "container_head d = Inr (i, p, d')" "dec_ok d"
  shows "length p + 16 \<le> length (dbuf d)" "dec_ok d'" "dbuf d' = dbuf d"
proof -
  obtain s len d1 d2 d3 where h: "Decoder_Long d = (Inr i, d1)" "Decoder_Int d1 = (Inr s, d2)"
      "Decoder_Int d2 = (Inr len, d3)" "Decoder_Raw (sint len) d3 = (Inr p, d')"
      "\<not> (sint len < 0 \<or> sint len > Decoder_Remaining d3)"
    using assms(1) by (auto simp: container_head_def split: prod.splits sum.splits if_splits)
  have d1: "d1 = advance 8 d" using h(1) by (auto simp: Decoder_Long_def Decoder_Uint64_eq split: if_splits)
  have d2: "d2 = advance 4 d1" using h(2) by (auto simp: Decoder_Int_def Decoder_Uint_eq split: if_splits)
  have d3: "d3 = advance 4 d2" using h(3) by (auto simp: Decoder_Int_def Decoder_Uint_eq split: if_splits)
  have ok: "dec_ok d3"
    using dec_safeD [OF safe_Long assms(2)] dec_safeD [OF safe_Int] h(1-3) by (metis snd_conv)
  have d': "d' = advance (nat (sint len)) d3" "length p = nat (sint len)"
    using h(4,5) ok by (auto simp: Decoder_Raw_eq Decoder_Remaining_def dec_ok_def split: if_splits)
  show "dec_ok d'" using dec_safeD [OF safe_Raw ok] h(4) by (metis snd_conv)
  then show "length p + 16 \<le> length (dbuf d)" "dbuf d' = dbuf d"
    using d' by (auto simp: d1 d2 d3 dec_ok_def)
qed

text \<open>
  The messages of a container as \<^verbatim>\<open>handleContainer\<close> cuts them out, and the payloads that decompressing
  the \<^verbatim>\<open>gzip_packed\<close> messages of a payload gives, wherever in its containers they are.
\<close>

primrec container_items :: "nat \<Rightarrow> decoder \<Rightarrow> bytes list" where
  "container_items 0 d = []"
| "container_items (Suc n) d =
     (case container_head d of Inl err \<Rightarrow> [] | Inr (i, p, d') \<Rightarrow> p # container_items n d')"

definition container_messages :: "bytes \<Rightarrow> bytes list" where
  "container_messages p =
     (case Decoder_Int (snd (Decoder_Uint (Decoder_New p))) of
        (Inl err, d) \<Rightarrow> [] | (Inr count, d) \<Rightarrow> container_items (nat (sint count)) d)"

lemma container_items_size:
  "q \<in> set (container_items n d) \<Longrightarrow> dec_ok d \<Longrightarrow> length q + 16 \<le> length (dbuf d)"
proof (induction n arbitrary: d)
  case (Suc n)
  show ?case
  proof (cases "container_head d")
    case (Inr t)
    obtain i p d' where t: "t = (i, p, d')" by (cases t)
    note sz = container_head_size [OF Inr [unfolded t] Suc.prems(2)]
    have "q = p \<or> q \<in> set (container_items n d')" using Suc.prems(1) Inr t by simp
    then show ?thesis using Suc.IH [of d'] sz by auto
  qed (use Suc.prems(1) in simp)
qed simp

lemma container_start:
  assumes "Decoder_Int (snd (Decoder_Uint (Decoder_New p))) = (r, d)"
  shows "dbuf d = p" "dec_ok d"
proof -
  let ?d = "snd (Decoder_Uint (Decoder_New p))"
  have "dbuf ?d = p" "dec_ok ?d"
    using dec_safeD [OF safe_Uint dec_ok_New prod.collapse [symmetric], of p]
    by (simp_all add: Decoder_New_def)
  then show "dbuf d = p" "dec_ok d" using dec_safeD [OF safe_Int _ assms] by simp_all
qed

lemma container_messages_size: "q \<in> set (container_messages p) \<Longrightarrow> length q < length p"
proof -
  assume q: "q \<in> set (container_messages p)"
  obtain r d where r: "Decoder_Int (snd (Decoder_Uint (Decoder_New p))) = (r, d)" by fastforce
  with q obtain n where "q \<in> set (container_items n d)"
    by (auto simp: container_messages_def split: sum.splits)
  from container_items_size [OF this] container_start [OF r] show ?thesis by simp
qed

function inflations :: "gunzip \<Rightarrow> bytes \<Rightarrow> bytes list" where
  "inflations gz p =
     (case Decoder_PeekUint (Decoder_New p) of
        Inl err \<Rightarrow> []
      | Inr crc \<Rightarrow>
          if crc = CRCMsgContainer then concat (map (inflations gz) (container_messages p))
          else if crc = CRCGzipPacked then
            (case decompressGzip gz (Decoder_New p) of Inl err \<Rightarrow> [] | Inr q \<Rightarrow> [q])
          else [])"
  by auto
termination
  by (relation "measure (\<lambda>(gz, p). length p)") (auto dest: container_messages_size)

declare inflations.simps [simp del]

text \<open>Decompression ends below a payload: what it decompresses to ends, down to payloads with none.\<close>

inductive inflation_ends :: "gunzip \<Rightarrow> bytes \<Rightarrow> bool" where
  inflated: "(\<And>q. q \<in> set (inflations gz p) \<Longrightarrow> inflation_ends gz q) \<Longrightarrow> inflation_ends gz p"

lemma Dispatch_mono_le:
  "Dispatch n gz msgID payload e \<noteq> NoFuel \<Longrightarrow> n \<le> m \<Longrightarrow>
    Dispatch m gz msgID payload e = Dispatch n gz msgID payload e"
proof (induction m)
  case (Suc m)
  show ?case
  proof (cases "n = Suc m")
    case False
    with Suc have "Dispatch m gz msgID payload e = Dispatch n gz msgID payload e" by simp
    then show ?thesis using Dispatch_mono [of m gz msgID payload e] Suc.prems(1) by metis
  qed simp
qed simp

lemma container_items_return:
  assumes "\<And>i p e. p \<in> set (container_items n d) \<Longrightarrow> disp i p e \<noteq> NoFuel"
  shows "container_loop disp n d e \<noteq> NoFuel"
  using assms
proof (induction n arbitrary: d e)
  case (Suc n)
  show ?case
  proof (cases "container_head d")
    case (Inr t)
    obtain i p d' where t: "t = (i, p, d')" by (cases t)
    have items: "container_items (Suc n) d = p # container_items n d'" using Inr t by simp
    have "container_loop disp n d' e' \<noteq> NoFuel" for e'
      by (rule Suc.IH, rule Suc.prems) (simp only: items list.set_intros)
    moreover have "disp i p e \<noteq> NoFuel" by (rule Suc.prems) (simp only: items list.set_intros)
    ultimately show ?thesis
      using Inr t by (simp only: container_loop_Suc) (simp add: next_message_NoFuel)
  qed (simp only: container_loop_Suc, simp)
qed simp

lemma handleContainer_returns:
  assumes "\<And>i q e. q \<in> set (container_messages p) \<Longrightarrow> disp i q e \<noteq> NoFuel"
  shows "handleContainer disp (Decoder_New p) e \<noteq> NoFuel"
proof (cases "Decoder_Int (snd (Decoder_Uint (Decoder_New p)))")
  case (Pair r d)
  then show ?thesis
    using assms container_items_return [of _ d disp]
    by (auto simp: handleContainer_def container_messages_def split: prod.split sum.split)
qed

lemma handleRPCResult_returns: "handleRPCResult gz d e \<noteq> NoFuel"
  by (auto simp: handleRPCResult_def chan_send_def split: prod.splits sum.splits option.splits)

text \<open>Between two decompressions messages nest only as deep as their bytes allow.\<close>

lemma Dispatch_returns_step:
  assumes "\<And>q i e. q \<in> set (inflations gz p) \<Longrightarrow> Dispatch N gz i q e \<noteq> NoFuel" "length p < n"
  shows "Dispatch (n + N) gz msgID p e \<noteq> NoFuel"
  using assms
proof (induction n arbitrary: msgID p e)
  case (Suc n)
  show ?case
  proof (cases "Decoder_PeekUint (Decoder_New p)")
    case (Inr crc)
    consider "crc = CRCMsgContainer" | "crc = CRCGzipPacked" "crc \<noteq> CRCMsgContainer"
      | "crc \<noteq> CRCMsgContainer" "crc \<noteq> CRCGzipPacked" by blast
    then show ?thesis
    proof cases
      case 1
      have "Dispatch (n + N) gz i q e \<noteq> NoFuel" if "q \<in> set (container_messages p)" for i q e
      proof (rule Suc.IH)
        show "length q < n" using container_messages_size [OF that] Suc.prems(2) by simp
        show "Dispatch N gz i q' e \<noteq> NoFuel" if "q' \<in> set (inflations gz q)" for q' i e
          using Suc.prems(1) [of q'] that \<open>q \<in> set (container_messages p)\<close> Inr 1
          by (auto simp: inflations.simps [of gz p] simp del: Dispatch.simps)
      qed
      then show ?thesis
        using Inr 1 handleContainer_returns [of p "Dispatch (n + N) gz"] by (simp add: Let_def)
    next
      case 2
      have "Dispatch (n + N) gz i q e \<noteq> NoFuel" if "decompressGzip gz (Decoder_New p) = Inr q" for i q e
        using Suc.prems(1) [of q] Dispatch_mono_le [of N gz i q e "n + N"] that Inr 2
        by (simp add: inflations.simps [of gz p] del: Dispatch.simps)
      then show ?thesis using Inr 2 by (simp add: Let_def split: sum.split)
    qed (use Inr handleRPCResult_returns in \<open>simp add: Let_def\<close>)
  qed (simp add: Let_def)
qed simp

lemma common_fuel:
  assumes "\<And>q. q \<in> set qs \<Longrightarrow> \<exists>n. \<forall>i e. Dispatch n gz i q e \<noteq> NoFuel"
  shows "\<exists>N. \<forall>q \<in> set qs. \<forall>i e. Dispatch N gz i q e \<noteq> NoFuel"
  using assms
proof (induction qs)
  case (Cons q qs)
  then obtain n N where "\<forall>i e. Dispatch n gz i q e \<noteq> NoFuel"
      "\<forall>q \<in> set qs. \<forall>i e. Dispatch N gz i q e \<noteq> NoFuel"
    by (meson list.set_intros)
  then have "\<forall>q' \<in> set (q # qs). \<forall>i e. Dispatch (max n N) gz i q' e \<noteq> NoFuel"
    using Dispatch_mono_le [of n gz _ _ _ "max n N"] Dispatch_mono_le [of N gz _ _ _ "max n N"]
    by (auto simp del: Dispatch.simps)
  then show ?case by blast
qed simp

lemma Dispatch_returns:
  "inflation_ends gz p \<Longrightarrow> \<exists>n. \<forall>msgID e. Dispatch n gz msgID p e \<noteq> NoFuel"
proof (induction rule: inflation_ends.induct)
  case (inflated gz p)
  then obtain N where "\<forall>q \<in> set (inflations gz p). \<forall>i e. Dispatch N gz i q e \<noteq> NoFuel"
    using common_fuel [of "inflations gz p" gz] by blast
  then have "\<forall>msgID e. Dispatch (Suc (length p) + N) gz msgID p e \<noteq> NoFuel"
    using Dispatch_returns_step [of gz p N "Suc (length p)"] by blast
  then show ?case by blast
qed

text \<open>Without decompression the length of the payload is enough fuel.\<close>

lemma Dispatch_returns_plain:
  "inflations gz p = [] \<Longrightarrow> length p < n \<Longrightarrow> Dispatch n gz msgID p e \<noteq> NoFuel"
  using Dispatch_returns_step [of gz p 0 n] by simp

text \<open>Conversely, when a payload decompresses to itself no fuel is enough.\<close>

lemma Dispatch_self_inflating:
  assumes "decompressGzip gz (Decoder_New p) = Inr p" "Decoder_PeekUint (Decoder_New p) = Inr CRCGzipPacked"
  shows "Dispatch n gz msgID p e = NoFuel"
  by (induction n arbitrary: e) (use assms in \<open>simp_all add: Let_def crc_defs\<close>)

lemma no_inflation_ends: "inflations gz p = [] \<Longrightarrow> inflation_ends gz p"
  by (rule inflation_ends.inflated) simp

section \<open>Properties\<close>

text \<open>
  C5. No send ever blocks, however the goroutines interleave: in every reachable state each result in
  flight finds its channel empty, so does each error \<^verbatim>\<open>Close\<close> sends while it holds the mutex, and
  a dispatched message never blocks the read loop.
\<close>
theorem engine_sends_never_block:
  assumes "engine_reachable (e, fl)"
  shows "(\<forall>(ch, r) \<in> set fl. \<exists>e'. chan_send ch r e = Ret e') \<and>
    (\<exists>e'. Engine_Close e = Ret e' \<and> pending e' = [] \<and> closed e') \<and>
    (\<forall>n gz msgID payload. Dispatch n gz msgID payload e \<noteq> Blocks) \<and>
    (\<forall>b \<in> set (chans e). length b \<le> 1)"
proof -
  have inv: "engine_inv e (map fst fl)" using engine_reachable_inv [OF assms] by simp
  have "\<exists>e'. chan_send ch r e = Ret e'" if "(ch, r) \<in> set fl" for ch r
    using that engine_invD(5) [OF inv, of ch] by (force simp: chan_send_def)
  moreover have "Dispatch n gz msgID payload e \<noteq> Blocks" for n gz msgID payload
    using Dispatch_ok [OF inv, of n gz msgID payload] by auto
  ultimately show ?thesis
    using Close_ok [OF inv] engine_invD(6) [OF inv] by blast
qed

theorem engine_sends_never_block_witness:
  "\<exists>e. engine_reachable (e, [(0, \<lparr>res_payload = [7], res_err = None\<rparr>)]) \<and>
     (\<exists>e'. chan_send 0 \<lparr>res_payload = [7], res_err = None\<rparr> e = Ret e')"
proof -
  let ?r = "\<lparr>res_payload = [7], res_err = None\<rparr>"
  let ?e = "NewEngine\<lparr>chans := [[]], pending := [(5, 0)]\<rparr>"
  have "Register 5 NewEngine = (0, ?e)" by (simp add: Register_def NewEngine_def)
  then have "engine_reachable (?e, [])" by (rule engine_reachable.step [OF engine_reachable.start engine_step.register])
  moreover have "take_call 5 ?e = (Some 0, ?e\<lparr>pending := []\<rparr>)" by (simp add: take_call_def)
  ultimately have "engine_reachable (?e\<lparr>pending := []\<rparr>, [(0, ?r)])"
    by (rule engine_reachable.step [OF _ engine_step.take])
  with engine_sends_never_block [OF this] show ?thesis by auto
qed


text \<open>A decompressor for the witnesses.\<close>

definition no_gzip :: gunzip where
  "no_gzip = \<lparr>gz_NewReader = \<lambda>_. None, gz_ReadAll = \<lambda>b. Inl IoEOF\<rparr>"


text \<open>
  C33. An error result reaches the waiting caller as the typed error: what \<^verbatim>\<open>Await\<close> returns to it is what
  \<^verbatim>\<open>ParseError\<close> makes of the code and the message the server sent.
\<close>
theorem rpc_error_reaches_caller:
  assumes "engine_reachable (e, fl)" "map_of (pending e) req = Some ch" "length msg < 2 ^ 24"
    "body = le_put 4 CRCRPCError @ le_put 4 code @ tl_bytes (string_bytes msg)"
  shows "\<exists>e'. Dispatch (Suc n) gz msgID (rpc_result_wire req body) e = Ret (None, e') \<and>
    (\<exists>e''. Await Received req ch timeout e' = Ret (Inl (ParseError (sint (code :: int32)) msg), e''))"
proof -
  have inv: "engine_inv e (map fst fl)" using engine_reachable_inv [OF assms(1)] by simp
  have "(req, ch) \<in> set (pending e)" using assms(2) by (rule map_of_SomeD)
  then have "ch \<in> set (map snd (pending e))" by force
  then have "ch < length (chans e)" "chans e ! ch = []" using engine_invD(5) [OF inv] by blast+
  then show ?thesis
    using assms(2) rpc_outcome_error [OF assms(3), of body code "[]" gz req]
      Dispatch_rpc_result [of body CRCRPCError "le_put 4 code @ tl_bytes (string_bytes msg)"]
    by (simp add: assms(4) Let_def take_call_def chan_send_def Await_def del: Dispatch.simps)
qed

text \<open>A caller waits for request 5; the server asks it to wait 30 seconds.\<close>

theorem rpc_error_reaches_caller_witness:
  "\<exists>e e' e''. engine_reachable (e, []) \<and>
     Dispatch (Suc 0) no_gzip 9 (rpc_result_wire 5 (le_put 4 CRCRPCError @ le_put 4 (420 :: int32)
       @ tl_bytes (string_bytes (''FLOOD_WAIT'' @ ''_'' @ fmt_nat 30)))) e = Ret (None, e') \<and>
     Await Received 5 0 1000000000 e' = Ret (Inl (ParseError 420 (''FLOOD_WAIT'' @ ''_'' @ fmt_nat 30)), e'')"
proof -
  let ?e = "NewEngine\<lparr>chans := [[]], pending := [(5, 0)]\<rparr>"
  have "Register 5 NewEngine = (0, ?e)" by (simp add: Register_def NewEngine_def)
  then have r: "engine_reachable (?e, [])"
    by (rule engine_reachable.step [OF engine_reachable.start engine_step.register])
  have l: "length (''FLOOD_WAIT'' @ ''_'' @ fmt_nat 30) < 2 ^ 24" by (simp add: fmt_nat.simps)
  from rpc_error_reaches_caller [OF r _ l refl, of 5 0 0 no_gzip 9 420] r show ?thesis
    by (fastforce simp del: Dispatch.simps)
qed

text \<open>
  C16. A container is dispatched as its messages one after the other, up to the first that fails.
\<close>
theorem container_is_sequence:
  assumes "\<forall>(i, s, b) \<in> set msgs. length b < 2 ^ 31" "length msgs < 2 ^ 31"
  shows "Dispatch (Suc n) gz msgID (container_wire msgs @ rest) e =
    dispatch_all (Dispatch n gz) msgs (e\<lparr>ackIDs := ackIDs e @ [msgID]\<rparr>)"
  by (rule Dispatch_container [OF assms])

theorem container_is_sequence_witness:
  "Dispatch (Suc (Suc 0)) no_gzip 9 (container_wire [(4, 0, le_put 4 CRCPong)] @ []) NewEngine =
     Ret (None, NewEngine\<lparr>ackIDs := [9, 4]\<rparr>)"
proof -
  have "Decoder_PeekUint (Decoder_New (le_put 4 CRCPong)) = Inr CRCPong"
    by (rule PeekUint_header [where pre = "[]" and rest = "[]"]) (simp_all add: Decoder_New_def)
  then have "Dispatch (Suc 0) no_gzip 4 (le_put 4 CRCPong) e = Ret (None, e\<lparr>ackIDs := ackIDs e @ [4]\<rparr>)" for e
    by (simp add: crc_defs)
  then show ?thesis
    using container_is_sequence [of "[(4, 0, le_put 4 CRCPong)]" "Suc 0" no_gzip 9 "[]" NewEngine]
    by (simp add: NewEngine_def del: Dispatch.simps)
qed

text \<open>
  C17. Dispatch returns on every payload below which decompression ends (what its \<^verbatim>\<open>gzip_packed\<close>
  messages decompress to may hold \<^verbatim>\<open>gzip_packed\<close> messages again, but not for ever): containers nest only
  as deep as the bytes allow, so there is fuel that is enough for every engine, and more fuel does
  not change the result.
\<close>
theorem dispatch_returns:
  assumes "inflation_ends gz payload"
  shows "\<exists>n. \<forall>fuel \<ge> n. \<forall>msgID e fl. engine_reachable (e, fl) \<longrightarrow>
    (\<exists>err e'. Dispatch fuel gz msgID payload e = Ret (err, e') \<and>
      Dispatch n gz msgID payload e = Ret (err, e'))"
proof -
  obtain n where nf: "\<forall>msgID e. Dispatch n gz msgID payload e \<noteq> NoFuel"
    using Dispatch_returns [OF assms] by blast
  have "\<exists>err e'. Dispatch n gz msgID payload e = Ret (err, e')" if "engine_reachable (e, fl)" for msgID e fl
    using that nf Dispatch_ok [of e "map fst fl" n gz msgID payload] engine_reachable_inv [OF that]
    by (cases "Dispatch n gz msgID payload e") (auto simp del: Dispatch.simps)
  then show ?thesis
    using nf Dispatch_mono_le [of n gz _ payload] by (metis (no_types, lifting))
qed

text \<open>
  The witness decompresses: what follows the two bytes of the \<^verbatim>\<open>gzip\<close> magic number is taken as it
  stands.  The payload is a compressed message that is a compressed \<^verbatim>\<open>pong\<close> in turn.
\<close>

definition stored_gzip :: gunzip where
  "stored_gzip = \<lparr>gz_NewReader = \<lambda>b. if take 2 b = [0x1f, 0x8b] then None else Some (NewError ''gzip: invalid header''),
     gz_ReadAll = \<lambda>b. Inr (drop 2 b)\<rparr>"

definition gzip_stored :: "bytes \<Rightarrow> bytes" where
  "gzip_stored p = answer_wire (Gzipped ([0x1f, 0x8b] @ p))"

lemma length_tl_bytes_le: "length (tl_bytes v) \<le> length v + 8"
proof -
  have "tl_padding n \<le> 4" for n using tl_padding_less [of n] by simp
  then have "tl_padding (length (tl_header n) + n) \<le> 4" "length (tl_header n) \<le> 4" for n
    by (simp_all add: tl_header_def)
  from add_mono [OF this(2,1) [of "length v"]] show ?thesis by (simp add: tl_bytes_def)
qed

lemma inflations_gzip_stored:
  assumes "length p + 2 < 2 ^ 24"
  shows "inflations stored_gzip (gzip_stored p) = [p]"
proof -
  have "Decoder_PeekUint (Decoder_New (gzip_stored p)) = Inr CRCGzipPacked"
    by (rule PeekUint_header [where pre = "[]"]) (simp_all add: Decoder_New_def gzip_stored_def)
  moreover have "decompressGzip stored_gzip (Decoder_New (gzip_stored p)) =
      answer_value stored_gzip (Gzipped ([0x1f, 0x8b] @ p))"
    by (rule decompressGzip_at [of _ _ "[]" "[]"])
      (use assms in \<open>simp_all add: Decoder_New_def gzip_stored_def\<close>)
  ultimately show ?thesis
    by (simp add: inflations.simps [of _ "gzip_stored p"] stored_gzip_def crc_defs)
qed

theorem dispatch_returns_witness:
  "\<exists>n err e'. Dispatch n stored_gzip 4 (gzip_stored (gzip_stored (le_put 4 CRCPong))) NewEngine = Ret (err, e')"
proof -
  let ?pong = "le_put 4 CRCPong" and ?once = "gzip_stored (le_put 4 CRCPong)"
  have "Decoder_PeekUint (Decoder_New ?pong) = Inr CRCPong"
    by (rule PeekUint_header [where pre = "[]" and rest = "[]"]) (simp_all add: Decoder_New_def)
  then have "inflation_ends stored_gzip ?pong"
    by (intro no_inflation_ends) (simp add: inflations.simps [of _ ?pong], simp add: crc_defs)
  then have once: "inflation_ends stored_gzip ?once"
    by - (rule inflation_ends.inflated, simp add: inflations_gzip_stored)
  have "length ?once + 2 < 2 ^ 24"
    using length_tl_bytes_le [of "[0x1f, 0x8b] @ ?pong"]
    by (simp only: gzip_stored_def answer_wire.simps length_append length_le_put list.size) simp
  with once have "inflation_ends stored_gzip (gzip_stored ?once)"
    by - (rule inflation_ends.inflated, simp add: inflations_gzip_stored)
  from dispatch_returns [OF this] obtain n where "\<forall>fuel \<ge> n. \<forall>msgID e fl. engine_reachable (e, fl) \<longrightarrow>
      (\<exists>err e'. Dispatch fuel stored_gzip msgID (gzip_stored ?once) e = Ret (err, e') \<and>
        Dispatch n stored_gzip msgID (gzip_stored ?once) e = Ret (err, e'))" ..
  with engine_reachable.start show ?thesis by (metis order_refl)
qed

end
