(* ===== verification/Session.thy ===== *)
theory Session
  imports Prelude
begin

text \<open>
  \<^verbatim>\<open>mtproto/session\<close>: the \<^verbatim>\<open>Storage\<close> interface (\<^verbatim>\<open>session.go\<close>) as the locale \<open>storage\<close>, and its two
  implementations, in memory (\<^verbatim>\<open>memory.go\<close>) and in a file (\<^verbatim>\<open>file.go\<close>), as interpretations of it.
\<close>

section \<open>Memory\<close>

text \<open>A nil slice is \<open>None\<close>; an empty one that was allocated is \<open>Some []\<close>.\<close>

record Memory =
  mem_data :: "bytes option"

definition Memory_Load :: "Memory \<Rightarrow> goerror + bytes" where
  "Memory_Load m = (case mem_data m of None \<Rightarrow> Inl ErrNotFound | Some d \<Rightarrow> Inr d)"

definition Memory_Save :: "bytes \<Rightarrow> Memory \<Rightarrow> goerror option \<times> Memory" where
  "Memory_Save data m = (None, m\<lparr>mem_data := Some data\<rparr>)"

section \<open>Files\<close>

text \<open>
  The file system as the code sees it: the contents of the files, the directories that exist, and
  the errors the environment injects into the calls.  \<^verbatim>\<open>os.WriteFile\<close> creates or truncates the
  file and then writes; an error of the write leaves the first \<open>n\<close> bytes.
\<close>

record fs =
  fs_files :: "string \<Rightarrow> bytes option"
  fs_dirs :: "string \<Rightarrow> bool"
  fs_read_err :: "goerror option"
  fs_mkdir_err :: "goerror option"
  fs_write_err :: "(nat \<times> goerror) option"

text \<open>The error that \<^verbatim>\<open>os.IsNotExist\<close> recognises.\<close>

definition ErrNotExist :: goerror where
  "ErrNotExist = IoError 2"

definition IsNotExist :: "goerror \<Rightarrow> bool" where
  "IsNotExist err \<longleftrightarrow> err = ErrNotExist"

definition os_ReadFile :: "string \<Rightarrow> fs \<Rightarrow> goerror + bytes" where
  "os_ReadFile path s =
     (case fs_files s path of
        None \<Rightarrow> Inl ErrNotExist
      | Some data \<Rightarrow> (case fs_read_err s of Some err \<Rightarrow> Inl err | None \<Rightarrow> Inr data))"

definition os_MkdirAll :: "string \<Rightarrow> fs \<Rightarrow> goerror option \<times> fs" where
  "os_MkdirAll dir s =
     (case fs_mkdir_err s of
        Some err \<Rightarrow> (Some err, s)
      | None \<Rightarrow> (None, s\<lparr>fs_dirs := (fs_dirs s)(dir := True)\<rparr>))"

definition os_WriteFile :: "string \<Rightarrow> string \<Rightarrow> bytes \<Rightarrow> fs \<Rightarrow> goerror option \<times> fs" where
  "os_WriteFile dir path data s =
     (if \<not> fs_dirs s dir then (Some ErrNotExist, s)
      else case fs_write_err s of
             None \<Rightarrow> (None, s\<lparr>fs_files := (fs_files s)(path \<mapsto> data)\<rparr>)
           | Some (n, err) \<Rightarrow> (Some err, s\<lparr>fs_files := (fs_files s)(path \<mapsto> take n data)\<rparr>))"

text \<open>\<open>file_dir\<close> is \<^verbatim>\<open>filepath.Dir(path)\<close>, which the code computes from the path at each call.\<close>

record File =
  file_path :: string
  file_dir :: string

definition File_Load :: "File \<Rightarrow> fs \<Rightarrow> goerror + bytes" where
  "File_Load f s =
     (case os_ReadFile (file_path f) s of
        Inl err \<Rightarrow> if IsNotExist err then Inl ErrNotFound else Inl err
      | Inr data \<Rightarrow> Inr data)"

definition File_Save :: "File \<Rightarrow> bytes \<Rightarrow> fs \<Rightarrow> goerror option \<times> fs" where
  "File_Save f data s =
     (case os_MkdirAll (file_dir f) s of
        (Some err, s) \<Rightarrow> (Some err, s)
      | (None, s) \<Rightarrow> os_WriteFile (file_dir f) (file_path f) data s)"

section \<open>The contract\<close>

text \<open>
  What a client of \<^verbatim>\<open>Storage\<close> relies on: a session that was saved is the one that is loaded, until
  the next save; a fresh store reports that there is none.  \<open>working\<close> says that the environment does
  not make the calls fail.
\<close>

locale storage =
  fixes load :: "'s \<Rightarrow> goerror + bytes"
    and save :: "bytes \<Rightarrow> 's \<Rightarrow> goerror option \<times> 's"
    and fresh :: "'s \<Rightarrow> bool"
    and working :: "'s \<Rightarrow> bool"
  assumes load_fresh: "fresh s \<Longrightarrow> load s = Inl ErrNotFound"
    and save_ok: "working s \<Longrightarrow> fst (save d s) = None"
    and save_working: "working s \<Longrightarrow> working (snd (save d s))"
    and load_save: "working s \<Longrightarrow> load (snd (save d s)) = Inr d"
begin

lemma load_after_saves:
  assumes "working s" "ds \<noteq> []"
  shows "load (fold (\<lambda>d s. snd (save d s)) ds s) = Inr (last ds)"
  using assms
proof (induction ds arbitrary: s)
  case (Cons d ds)
  then show ?case by (cases ds) (simp_all add: load_save save_working)
qed simp

end

interpretation memory: storage Memory_Load Memory_Save "\<lambda>m. mem_data m = None" "\<lambda>m. True"
  by unfold_locales (simp_all add: Memory_Load_def Memory_Save_def)

definition fs_working :: "fs \<Rightarrow> bool" where
  "fs_working s \<longleftrightarrow> fs_read_err s = None \<and> fs_mkdir_err s = None \<and> fs_write_err s = None"

interpretation disk: storage "File_Load f" "File_Save f" "\<lambda>s. fs_files s (file_path f) = None" fs_working
  for f
  by unfold_locales
    (simp_all add: File_Load_def File_Save_def os_ReadFile_def os_MkdirAll_def os_WriteFile_def
      IsNotExist_def fs_working_def)

section \<open>Properties\<close>



text \<open>
  A save to a file that fails while writing destroys the session that was there: what is loaded
  afterwards, without an error, is the part that was written.
\<close>
theorem file_save_not_atomic:
  assumes "fs_read_err s = None" "fs_mkdir_err s = None" "fs_write_err s = Some (n, err)"
  shows "\<exists>s'. File_Save f data s = (Some err, s') \<and> File_Load f s' = Inr (take n data)"
  using assms by (simp add: File_Save_def File_Load_def os_MkdirAll_def os_WriteFile_def os_ReadFile_def)

theorem file_save_not_atomic_witness:
  "\<exists>s'. File_Save \<lparr>file_path = ''s'', file_dir = ''.''\<rparr> [1, 2, 3]
      \<lparr>fs_files = [''s'' \<mapsto> [9, 9, 9]], fs_dirs = \<lambda>_. True, fs_read_err = None, fs_mkdir_err = None,
       fs_write_err = Some (1, IoError 28)\<rparr> = (Some (IoError 28), s') \<and>
     File_Load \<lparr>file_path = ''s'', file_dir = ''.''\<rparr> s' = Inr [1]"
  using file_save_not_atomic [of "\<lparr>fs_files = [''s'' \<mapsto> [9, 9, 9]], fs_dirs = \<lambda>_. True, fs_read_err = None,
      fs_mkdir_err = None, fs_write_err = Some (1, IoError 28)\<rparr>" 1 "IoError 28"
      "\<lparr>file_path = ''s'', file_dir = ''.''\<rparr>" "[1, 2, 3]"]
  by simp

end
