(* ===== verification/Conn.thy ===== *)
theory Conn
  imports Transport
begin

text \<open>
  \<^verbatim>\<open>mtproto/transport/transport.go\<close>: a network connection wrapped with one of the codecs.  The
  \<^verbatim>\<open>Transport\<close> interface value is a datatype over the four implementations.  The network connection
  is what was written to it, what it still delivers, its deadlines and whether it is closed; after
  \<^verbatim>\<open>Close\<close> its calls fail.  The mutexes make every \<^verbatim>\<open>Send\<close> and every \<^verbatim>\<open>Recv\<close> one step.
\<close>

section \<open>The code\<close>

datatype codec = AbridgedCodec | IntermediateCodec | PaddedCodec | FullCodec full

definition codec_Handshake :: "codec \<Rightarrow> writer \<Rightarrow> goerror option \<times> writer" where
  "codec_Handshake c w =
     (case c of
        AbridgedCodec \<Rightarrow> Abridged_Handshake w
      | IntermediateCodec \<Rightarrow> Intermediate_Handshake w
      | PaddedCodec \<Rightarrow> Padded_Handshake w
      | FullCodec f \<Rightarrow> Full_Handshake w)"

definition codec_WritePacket ::
  "codec \<Rightarrow> entropy \<times> entropy \<Rightarrow> bytes \<Rightarrow> writer \<Rightarrow> codec \<times> goerror option \<times> writer" where
  "codec_WritePacket c rnd p w =
     (case c of
        AbridgedCodec \<Rightarrow> (c, Abridged_WritePacket p w)
      | IntermediateCodec \<Rightarrow> (c, Intermediate_WritePacket p w)
      | PaddedCodec \<Rightarrow> (c, Padded_WritePacket rnd p w)
      | FullCodec f \<Rightarrow> (case Full_WritePacket f p w of (f, r) \<Rightarrow> (FullCodec f, r)))"

definition codec_ReadPacket :: "codec \<Rightarrow> reader \<Rightarrow> codec \<times> (goerror + bytes) \<times> reader" where
  "codec_ReadPacket c r =
     (case c of
        AbridgedCodec \<Rightarrow> (c, Abridged_ReadPacket r)
      | IntermediateCodec \<Rightarrow> (c, Intermediate_ReadPacket r)
      | PaddedCodec \<Rightarrow> (c, Padded_ReadPacket r)
      | FullCodec f \<Rightarrow> (case Full_ReadPacket f r of (f, res) \<Rightarrow> (FullCodec f, res)))"

record net_conn =
  net_out :: writer
  net_in :: reader
  net_closed :: bool
  net_write_deadline :: "int option"
  net_read_deadline :: "int option"
  net_close_err :: "goerror option"

text \<open>The error of a call on a closed network connection.\<close>

definition ErrNetClosed :: goerror where
  "ErrNetClosed = IoError 9"

definition net_Close :: "net_conn \<Rightarrow> goerror option \<times> net_conn" where
  "net_Close n =
     (if net_closed n then (Some ErrNetClosed, n) else (net_close_err n, n\<lparr>net_closed := True\<rparr>))"

record Conn =
  conn_raw :: net_conn
  conn_codec :: codec
  conn_closed :: bool
  readTimeout :: int64
  writeTimeout :: int64

definition WrapConn :: "net_conn \<Rightarrow> codec \<Rightarrow> (goerror + Conn) \<times> net_conn" where
  "WrapConn raw c =
     (case codec_Handshake c (net_out raw) of
        (Some err, w) \<Rightarrow>
          (Inl (Wrapped ''transport handshake failed: '' err), snd (net_Close (raw\<lparr>net_out := w\<rparr>)))
      | (None, w) \<Rightarrow>
          let raw = raw\<lparr>net_out := w\<rparr> in
          (Inr \<lparr>conn_raw = raw, conn_codec = c, conn_closed = False,
                readTimeout = 60000000000, writeTimeout = 30000000000\<rparr>, raw))"

text \<open>
  \<open>dialed\<close> is the answer of \<^verbatim>\<open>net.Dialer.DialContext\<close>.  The second result is the network connection as
  \<^verbatim>\<open>Dial\<close> leaves it, when there is one.
\<close>

definition Dial :: "goerror + net_conn \<Rightarrow> codec \<Rightarrow> (goerror + Conn) \<times> net_conn option" where
  "Dial dialed c =
     (case dialed of
        Inl err \<Rightarrow> (Inl err, None)
      | Inr raw \<Rightarrow>
          (case WrapConn raw c of
             (Inl err, raw) \<Rightarrow> (Inl err, Some raw)
           | (Inr conn, raw) \<Rightarrow> (Inr conn, Some raw)))"

definition SetTimeouts :: "int64 \<Rightarrow> int64 \<Rightarrow> Conn \<Rightarrow> Conn" where
  "SetTimeouts r w c = c\<lparr>readTimeout := r, writeTimeout := w\<rparr>"

text \<open>
  The \<^verbatim>\<open>select\<close> at the start of \<^verbatim>\<open>Send\<close> and \<^verbatim>\<open>Recv\<close>.  \<open>ctx\<close> is the error of a context that is done; when
  the connection is closed as well, the runtime picks one of the two cases: \<open>pick\<close> is its choice.
\<close>

record env =
  env_ctx :: "goerror option"
  env_pick :: bool
  env_now :: int
  env_rnd :: "entropy \<times> entropy"

definition entry_check :: "env \<Rightarrow> bool \<Rightarrow> goerror option" where
  "entry_check v closed =
     (case env_ctx v of
        None \<Rightarrow> if closed then Some ErrClosed else None
      | Some err \<Rightarrow> if closed \<and> env_pick v then Some ErrClosed else Some err)"

definition deadline :: "int64 \<Rightarrow> int \<Rightarrow> int option" where
  "deadline timeout now = (if sint timeout > 0 then Some (now + sint timeout) else None)"

definition Conn_Send :: "env \<Rightarrow> bytes \<Rightarrow> Conn \<Rightarrow> goerror option \<times> Conn" where
  "Conn_Send v payload c =
     (case entry_check v (conn_closed c) of
        Some err \<Rightarrow> (Some err, c)
      | None \<Rightarrow>
          let raw = (conn_raw c)\<lparr>net_write_deadline := deadline (writeTimeout c) (env_now v)\<rparr> in
          if net_closed raw then (Some ErrNetClosed, c\<lparr>conn_raw := raw\<rparr>)
          else (case codec_WritePacket (conn_codec c) (env_rnd v) payload (net_out raw) of
              (k, err, w) \<Rightarrow> (err, c\<lparr>conn_codec := k, conn_raw := raw\<lparr>net_out := w\<rparr>\<rparr>)))"

definition Conn_Recv :: "env \<Rightarrow> Conn \<Rightarrow> (goerror + bytes) \<times> Conn" where
  "Conn_Recv v c =
     (case entry_check v (conn_closed c) of
        Some err \<Rightarrow> (Inl err, c)
      | None \<Rightarrow>
          let raw = (conn_raw c)\<lparr>net_read_deadline := deadline (readTimeout c) (env_now v)\<rparr> in
          if net_closed raw then (Inl ErrNetClosed, c\<lparr>conn_raw := raw\<rparr>)
          else (case codec_ReadPacket (conn_codec c) (net_in raw) of
              (k, res, r) \<Rightarrow> (res, c\<lparr>conn_codec := k, conn_raw := raw\<lparr>net_in := r\<rparr>\<rparr>)))"

text \<open>\<^verbatim>\<open>closeOnce\<close>: the body of the first call closes the channel and the network connection.\<close>

definition Conn_Close :: "Conn \<Rightarrow> goerror option \<times> Conn" where
  "Conn_Close c =
     (if conn_closed c then (None, c)
      else case net_Close (conn_raw c) of
             (err, raw) \<Rightarrow> (err, c\<lparr>conn_closed := True, conn_raw := raw\<rparr>))"

section \<open>Lemmas\<close>

text \<open>The calls of a connection, with the results the caller sees.\<close>

datatype conn_call = CallSend env bytes | CallRecv env | CallClose

definition conn_call :: "conn_call \<Rightarrow> Conn \<Rightarrow> Conn" where
  "conn_call call c =
     (case call of
        CallSend v p \<Rightarrow> snd (Conn_Send v p c)
      | CallRecv v \<Rightarrow> snd (Conn_Recv v c)
      | CallClose \<Rightarrow> snd (Conn_Close c))"

lemma entry_check_closed:
  "env_ctx v = None \<Longrightarrow> entry_check v True = Some ErrClosed"
  "entry_check v True \<noteq> None"
  by (simp_all add: entry_check_def split: option.split)

lemma closed_calls_inert:
  assumes "conn_closed c"
  shows "conn_call call c = c"
proof -
  have "\<exists>err. entry_check v True = Some err" for v using entry_check_closed(2) [of v] by auto
  then obtain err where "entry_check v True = Some (err v)" for v by metis
  with assms show ?thesis
    by (simp add: conn_call_def Conn_Send_def Conn_Recv_def Conn_Close_def split: conn_call.split)
qed

lemma fold_closed_inert: "conn_closed c \<Longrightarrow> fold conn_call calls c = c"
  by (induction calls) (simp_all add: closed_calls_inert)

lemma Close_closes: "conn_closed (snd (Conn_Close c))"
  by (simp add: Conn_Close_def split: prod.split)

text \<open>Two ends of one network connection: what one end wrote is what the other end reads.\<close>

definition open_conn :: "Conn \<Rightarrow> bool" where
  "open_conn c \<longleftrightarrow> \<not> conn_closed c \<and> \<not> net_closed (conn_raw c) \<and> wplan (net_out (conn_raw c)) = []"

definition quiet :: "env \<Rightarrow> bool" where
  "quiet v \<longleftrightarrow> env_ctx v = None"

definition sendable_on :: "codec \<Rightarrow> env \<Rightarrow> bytes \<Rightarrow> bool" where
  "sendable_on k v p =
     (case k of
        AbridgedCodec \<Rightarrow> abridged_sendable p
      | IntermediateCodec \<Rightarrow> 0 < length p \<and> length p \<le> max_packet
      | PaddedCodec \<Rightarrow> padded_sendable (env_rnd v) p
      | FullCodec f \<Rightarrow> length p + 12 \<le> max_packet)"

definition seen_on :: "codec \<Rightarrow> env \<Rightarrow> bytes \<Rightarrow> bytes" where
  "seen_on k v p = (if k = PaddedCodec then padded_seen (env_rnd v) p else p)"

definition same_codec :: "codec \<Rightarrow> codec \<Rightarrow> bool" where
  "same_codec k k' =
     (case k of FullCodec _ \<Rightarrow> (\<exists>f. k' = FullCodec f) | _ \<Rightarrow> k' = k)"

definition frame_on :: "codec \<Rightarrow> env \<Rightarrow> bytes \<Rightarrow> bytes" where
  "frame_on k v p =
     (case k of
        AbridgedCodec \<Rightarrow> abridged_frame p
      | IntermediateCodec \<Rightarrow> length_frame p
      | PaddedCodec \<Rightarrow> length_frame (padded_seen (env_rnd v) p)
      | FullCodec f \<Rightarrow> full_frame (sendSeq f) p)"

lemma codec_write_frame:
  assumes "sendable_on k v p" "wplan w = []"
  shows "\<exists>k'. codec_WritePacket k (env_rnd v) p w = (k', None, w\<lparr>wbuf := wbuf w @ frame_on k v p\<rparr>) \<and>
    same_codec k k'"
  using assms
  by (cases k)
    (simp_all add: codec_WritePacket_def sendable_on_def frame_on_def same_codec_def Abridged_write
      abridged_sendable_def Intermediate_write Padded_write Full_write)

lemma codec_read_frame:
  assumes "sendable_on k v p" "same_codec k k'" "rin r = frame_on k v p @ rest"
  shows "\<exists>k''. codec_ReadPacket k' r = (k'', Inr (seen_on k v p), r\<lparr>rin := rest\<rparr>) \<and> same_codec k k''"
proof (cases k)
  case AbridgedCodec
  then show ?thesis
    using assms Abridged_read [of p r rest]
    by (simp add: codec_ReadPacket_def sendable_on_def frame_on_def same_codec_def seen_on_def)
next
  case IntermediateCodec
  then show ?thesis
    using assms Intermediate_read [of p r rest]
    by (simp add: codec_ReadPacket_def sendable_on_def frame_on_def same_codec_def seen_on_def)
next
  case PaddedCodec
  then show ?thesis
    using assms Intermediate_read [of "padded_seen (env_rnd v) p" r rest] padded_seen_bounds [of "env_rnd v" p]
    by (simp add: codec_ReadPacket_def sendable_on_def frame_on_def same_codec_def seen_on_def
        Padded_read_Intermediate)
next
  case (FullCodec f)
  then obtain g where "k' = FullCodec g" using assms(2) by (auto simp: same_codec_def)
  then show ?thesis
    using assms FullCodec Full_read [of p r "sendSeq f" rest g]
    by (simp add: codec_ReadPacket_def sendable_on_def frame_on_def same_codec_def seen_on_def)
qed

lemma conn_delivers:
  assumes "open_conn a" "open_conn b" "same_codec (conn_codec a) (conn_codec b)" "quiet v" "quiet v'"
    "sendable_on (conn_codec a) v p" "wbuf (net_out (conn_raw a)) = []"
  shows "\<exists>a'. Conn_Send v p a = (None, a') \<and>
    (rin (net_in (conn_raw b)) = wbuf (net_out (conn_raw a')) @ rest \<longrightarrow>
       (\<exists>b'. Conn_Recv v' b = (Inr (seen_on (conn_codec a) v p), b') \<and> rin (net_in (conn_raw b')) = rest))"
proof -
  have entry: "entry_check v (conn_closed a) = None" "entry_check v' (conn_closed b) = None"
    using assms(1,2,4,5) by (simp_all add: entry_check_def quiet_def open_conn_def)
  obtain k where k: "codec_WritePacket (conn_codec a) (env_rnd v) p (net_out (conn_raw a)) =
      (k, None, (net_out (conn_raw a))\<lparr>wbuf := frame_on (conn_codec a) v p\<rparr>)"
    using codec_write_frame [OF assms(6), of "net_out (conn_raw a)"] assms(1,7) by (auto simp: open_conn_def)
  then obtain a' where a': "Conn_Send v p a = (None, a')"
      "wbuf (net_out (conn_raw a')) = frame_on (conn_codec a) v p"
    using entry(1) assms(1) by (auto simp: Conn_Send_def open_conn_def Let_def)
  have "\<exists>b'. Conn_Recv v' b = (Inr (seen_on (conn_codec a) v p), b') \<and> rin (net_in (conn_raw b')) = rest"
    if "rin (net_in (conn_raw b)) = wbuf (net_out (conn_raw a')) @ rest"
    using codec_read_frame [OF assms(6,3), of "net_in (conn_raw b)" rest] that a'(2) entry(2) assms(2)
    by (auto simp: Conn_Recv_def open_conn_def Let_def)
  with a' show ?thesis by blast
qed

section \<open>Properties\<close>

text \<open>
  Closing is final and happens once: after \<^verbatim>\<open>Close\<close> no call changes the connection or the network
  below it, a live context gets \<^verbatim>\<open>ErrClosed\<close>, and a second \<^verbatim>\<open>Close\<close> returns no error.
\<close>
theorem conn_close_final:
  assumes "Conn_Close c = (err, c')"
  shows "fold conn_call calls c' = c' \<and> Conn_Close c' = (None, c') \<and>
    (quiet v \<longrightarrow> Conn_Send v p c' = (Some ErrClosed, c') \<and> Conn_Recv v c' = (Inl ErrClosed, c'))"
proof -
  have c: "conn_closed c'" using Close_closes [of c] assms by simp
  then show ?thesis
    by (simp add: fold_closed_inert Conn_Close_def Conn_Send_def Conn_Recv_def entry_check_closed quiet_def)
qed

definition idle_net :: net_conn where
  "idle_net = \<lparr>net_out = fresh_writer, net_in = \<lparr>rin = [], rerr = IoEOF\<rparr>, net_closed = False,
     net_write_deadline = None, net_read_deadline = None, net_close_err = None\<rparr>"

definition idle_conn :: Conn where
  "idle_conn = \<lparr>conn_raw = idle_net, conn_codec = IntermediateCodec, conn_closed = False,
     readTimeout = 1, writeTimeout = 1\<rparr>"

definition live_env :: env where
  "live_env = \<lparr>env_ctx = None, env_pick = False, env_now = 0, env_rnd = (\<lambda>n. Inr [], \<lambda>n. Inr [])\<rparr>"

theorem conn_close_final_witness:
  "\<exists>c'. Conn_Close idle_conn = (None, c') \<and> fold conn_call [CallSend live_env [1], CallClose] c' = c' \<and>
     Conn_Send live_env [1] c' = (Some ErrClosed, c')"
proof -
  obtain c' where c': "Conn_Close idle_conn = (None, c')"
    by (simp add: Conn_Close_def idle_conn_def idle_net_def net_Close_def)
  have "quiet live_env" by (simp add: quiet_def live_env_def)
  then show ?thesis
    using c' conn_close_final [OF c', of "[CallSend live_env [1], CallClose]" live_env "[1]"] by blast
qed

text \<open>
  Over every codec, a packet that one end sends is the packet the other end receives next
  (with the padding still attached on the padded transport).
\<close>
theorem conn_send_recv:
  assumes "open_conn a" "open_conn b" "same_codec (conn_codec a) (conn_codec b)" "quiet v" "quiet v'"
    "sendable_on (conn_codec a) v p" "wbuf (net_out (conn_raw a)) = []"
  shows "\<exists>a'. Conn_Send v p a = (None, a') \<and>
    (rin (net_in (conn_raw b)) = wbuf (net_out (conn_raw a')) @ rest \<longrightarrow>
       (\<exists>b'. Conn_Recv v' b = (Inr (seen_on (conn_codec a) v p), b') \<and> rin (net_in (conn_raw b')) = rest))"
  by (rule conn_delivers [OF assms])

theorem conn_send_recv_witness:
  "\<exists>a' b'. Conn_Send live_env [5, 6] idle_conn = (None, a') \<and>
     Conn_Recv live_env
       (idle_conn\<lparr>conn_raw := idle_net\<lparr>net_in := \<lparr>rin = [2, 0, 0, 0, 5, 6, 9], rerr = IoEOF\<rparr>\<rparr>\<rparr>) =
         (Inr [5, 6], b') \<and> rin (net_in (conn_raw b')) = [9]"
proof -
  let ?b = "idle_conn\<lparr>conn_raw := idle_net\<lparr>net_in := \<lparr>rin = [2, 0, 0, 0, 5, 6, 9], rerr = IoEOF\<rparr>\<rparr>\<rparr>"
  note defs = open_conn_def idle_conn_def idle_net_def quiet_def live_env_def same_codec_def sendable_on_def
  have ok: "open_conn idle_conn" "open_conn ?b" "same_codec (conn_codec idle_conn) (conn_codec ?b)"
    "quiet live_env" "sendable_on (conn_codec idle_conn) live_env [5, 6]"
    "wbuf (net_out (conn_raw idle_conn)) = []"
    by (simp_all add: defs)
  obtain a' where a': "Conn_Send live_env [5, 6] idle_conn = (None, a')"
    and rd: "rin (net_in (conn_raw ?b)) = wbuf (net_out (conn_raw a')) @ [9] \<longrightarrow>
      (\<exists>b'. Conn_Recv live_env ?b = (Inr (seen_on (conn_codec idle_conn) live_env [5, 6]), b') \<and>
        rin (net_in (conn_raw b')) = [9])"
    using conn_send_recv [OF ok(1,2,3,4,4,5,6), of "[9]"] by blast
  have "wbuf (net_out (conn_raw a')) = [2, 0, 0, 0, 5, 6]"
    using a' by (auto simp: Conn_Send_def entry_check_def defs codec_WritePacket_def
        Intermediate_WritePacket_def Let_def le_put_numeral)
  then show ?thesis using a' rd by (simp add: seen_on_def idle_conn_def)
qed

end
