(* ===== verification/Connection.thy ===== *)
theory Connection
  imports Conn Protocol Message_IDs RPC_Engine
begin

text \<open>
  \<^verbatim>\<open>mtproto/connection/connection.go\<close>: the encrypted connection.  Its state is the transport, the key,
  the session, the generators and the RPC engine.  The goroutines (the read loop, the keepalive loop,
  callers of \<^verbatim>\<open>Invoke\<close> and of \<^verbatim>\<open>Close\<close>) are program counters with one function each that runs the
  goroutine to its next point of interaction; \<open>sys_step\<close> interleaves them.  A goroutine that
  cannot go on has the outcome \<open>Blocks\<close>.
\<close>

section \<open>The code\<close>

text \<open>\<^verbatim>\<open>sync.Once\<close>: not called yet, the first call is running, the first call has returned.\<close>

datatype once = Fresh | Running | Finished

record Connection =
  cn_transport :: Conn
  cn_authKey :: AuthKey
  sessionID :: int64
  serverSalt :: int64
  msgIDs :: MessageIDGenerator
  seqNos :: SequenceGenerator
  rpc :: Engine
  cn_closed :: bool
  closeOnce :: once

definition NewConnection :: "entropy \<Rightarrow> Conn \<Rightarrow> AuthKey option \<Rightarrow> int64 \<Rightarrow> goerror + Connection" where
  "NewConnection rnd tr authKey initialSalt =
     (case authKey of
        None \<Rightarrow> Inl (NewError ''connection: authKey must not be nil'')
      | Some key \<Rightarrow>
          (case rnd 8 of
             Inl err \<Rightarrow> Inl (Wrapped ''connection: failed to generate session ID: '' err)
           | Inr sessBytes \<Rightarrow>
               Inr \<lparr>cn_transport = tr, cn_authKey = key, sessionID = le_get sessBytes,
                    serverSalt = initialSalt, msgIDs = NewMessageIDGenerator,
                    seqNos = NewSequenceGenerator, rpc = NewEngine, cn_closed = False,
                    closeOnce = Fresh\<rparr>))"

text \<open>
  What a call meets in its environment: the contexts and times of its two checks (its own and that of
  \<^verbatim>\<open>Send\<close>), the clock of the message identifier and the random padding.
\<close>

record call_env =
  at_entry :: env
  at_clock :: int
  at_pad :: entropy
  at_send :: env

text \<open>A request is its \<^verbatim>\<open>Encode\<close> method.\<close>

type_synonym request = "encoder \<Rightarrow> goerror + encoder"

text \<open>\<^verbatim>\<open>Invoke\<close> after its first check and before \<^verbatim>\<open>Await\<close>.\<close>

definition Invoke_send :: "call_env \<Rightarrow> request \<Rightarrow> Connection \<Rightarrow> (goerror + int64 \<times> nat) \<times> Connection" where
  "Invoke_send v req c =
     (case req Encoder_New of
        Inl err \<Rightarrow> (Inl (Wrapped ''connection: failed to encode request: '' err), c)
      | Inr enc \<Rightarrow>
          (case MessageID_Next (at_clock v) (msgIDs c) of (msgID, ids) \<Rightarrow>
           case Sequence_Next True (seqNos c) of (seqNo, seqs) \<Rightarrow>
           case Register msgID (rpc c) of (ch, e) \<Rightarrow>
             let c = c\<lparr>msgIDs := ids, seqNos := seqs, rpc := e\<rparr> in
             case PackEncrypted (cn_authKey c) (serverSalt c) (sessionID c) msgID seqNo
                    (Encoder_Bytes enc) (at_pad v) of
               Inl err \<Rightarrow>
                 (Inl (Wrapped ''connection: packet encryption failed: '' err),
                  c\<lparr>rpc := Cancel msgID (rpc c)\<rparr>)
             | Inr encrypted \<Rightarrow>
                 (case Conn_Send (at_send v) encrypted (cn_transport c) of
                    (Some err, tr) \<Rightarrow>
                      (Inl (Wrapped ''connection: send failed: '' err),
                       c\<lparr>cn_transport := tr, rpc := Cancel msgID (rpc c)\<rparr>)
                  | (None, tr) \<Rightarrow> (Inr (msgID, ch), c\<lparr>cn_transport := tr\<rparr>))))"

text \<open>
  The whole of \<^verbatim>\<open>Invoke\<close>; \<open>others\<close> is what the other goroutines do to the connection while the call
  waits, and \<open>ev\<close> is the case of the \<^verbatim>\<open>select\<close> in \<^verbatim>\<open>Await\<close>.
\<close>

definition Invoke ::
  "call_env \<Rightarrow> request \<Rightarrow> (Connection \<Rightarrow> Connection) \<Rightarrow> await_event \<Rightarrow> int64 \<Rightarrow> Connection \<Rightarrow>
     ((goerror + bytes) \<times> Connection) outcome" where
  "Invoke v req others ev timeout c =
     (case entry_check (at_entry v) (cn_closed c) of
        Some err \<Rightarrow> Ret (Inl err, c)
      | None \<Rightarrow>
          (case Invoke_send v req c of
             (Inl err, c) \<Rightarrow> Ret (Inl err, c)
           | (Inr (msgID, ch), c) \<Rightarrow>
               let c = others c in
               case Await ev msgID ch timeout (rpc c) of
                 Ret (res, e) \<Rightarrow> Ret (res, c\<lparr>rpc := e\<rparr>)
               | Blocks \<Rightarrow> Blocks
               | NoFuel \<Rightarrow> NoFuel))"

text \<open>The read loop on a packet it received.\<close>

definition handle_packet :: "nat \<Rightarrow> gunzip \<Rightarrow> bytes \<Rightarrow> Connection \<Rightarrow> Connection outcome" where
  "handle_packet fuel gz rawPacket c =
     (case UnpackEncrypted (cn_authKey c) (sessionID c) rawPacket of
        Inl err \<Rightarrow> Ret c
      | Inr (salt, msgID, _, payload) \<Rightarrow>
          let c = (if salt \<noteq> 0 then c\<lparr>serverSalt := salt\<rparr> else c) in
          case Dispatch fuel gz msgID payload (rpc c) of
            Ret (_, e) \<Rightarrow> Ret (c\<lparr>rpc := e\<rparr>)
          | Blocks \<Rightarrow> Blocks
          | NoFuel \<Rightarrow> NoFuel)"

text \<open>
  \<^verbatim>\<open>Close\<close>: \<^verbatim>\<open>CEnter\<close> is at \<^verbatim>\<open>closeOnce.Do\<close>, \<^verbatim>\<open>CEngine\<close> and \<^verbatim>\<open>CTransport\<close> are inside the function that runs
  once, \<^verbatim>\<open>CWait\<close> is at \<^verbatim>\<open>wg.Wait\<close> with the error that \<^verbatim>\<open>Close\<close> will return, \<open>wg\<close> is the counter.
\<close>

datatype close_pc = CEnter | CEngine | CTransport | CWait "goerror option" | CDone "goerror option"

definition Close_step :: "nat \<Rightarrow> close_pc \<Rightarrow> Connection \<Rightarrow> (close_pc \<times> Connection) outcome" where
  "Close_step wg pc c =
     (case pc of
        CEnter \<Rightarrow>
          (case closeOnce c of
             Fresh \<Rightarrow> Ret (CEngine, c\<lparr>closeOnce := Running, cn_closed := True\<rparr>)
           | Running \<Rightarrow> Blocks
           | Finished \<Rightarrow> Ret (CWait None, c))
      | CEngine \<Rightarrow>
          (case Engine_Close (rpc c) of
             Ret e \<Rightarrow> Ret (CTransport, c\<lparr>rpc := e\<rparr>) | Blocks \<Rightarrow> Blocks | NoFuel \<Rightarrow> NoFuel)
      | CTransport \<Rightarrow>
          (case Conn_Close (cn_transport c) of
             (err, tr) \<Rightarrow> Ret (CWait err, c\<lparr>cn_transport := tr, closeOnce := Finished\<rparr>))
      | CWait err \<Rightarrow> if wg = 0 then Ret (CDone err, c) else Blocks
      | CDone err \<Rightarrow> Blocks)"

text \<open>
  \<^verbatim>\<open>readLoop\<close>: at the first \<^verbatim>\<open>select\<close>, in \<^verbatim>\<open>Recv\<close>, at the \<^verbatim>\<open>select\<close> after an error, inside its own call
  of \<^verbatim>\<open>Close\<close>, and returned (after \<^verbatim>\<open>wg.Done\<close>).
\<close>

datatype reader_pc = RTop | RRecv | RFailed | RClosing close_pc | RDone

definition readLoop_step ::
  "nat \<Rightarrow> env \<Rightarrow> nat \<Rightarrow> gunzip \<Rightarrow> reader_pc \<Rightarrow> Connection \<Rightarrow> (reader_pc \<times> Connection) outcome" where
  "readLoop_step wg v fuel gz pc c =
     (case pc of
        RTop \<Rightarrow> Ret (if cn_closed c then RDone else RRecv, c)
      | RRecv \<Rightarrow>
          (case Conn_Recv v (cn_transport c) of
             (Inl err, tr) \<Rightarrow> Ret (RFailed, c\<lparr>cn_transport := tr\<rparr>)
           | (Inr rawPacket, tr) \<Rightarrow>
               (case handle_packet fuel gz rawPacket (c\<lparr>cn_transport := tr\<rparr>) of
                  Ret c \<Rightarrow> Ret (RTop, c) | Blocks \<Rightarrow> Blocks | NoFuel \<Rightarrow> NoFuel))
      | RFailed \<Rightarrow> Ret (if cn_closed c then RDone else RClosing CEnter, c)
      | RClosing (CDone err) \<Rightarrow> Ret (RDone, c)
      | RClosing p \<Rightarrow>
          (case Close_step wg p c of
             Ret (p, c) \<Rightarrow> Ret (RClosing p, c) | Blocks \<Rightarrow> Blocks | NoFuel \<Rightarrow> NoFuel)
      | RDone \<Rightarrow> Blocks)"

text \<open>The two messages of \<^verbatim>\<open>flushAcksAndPing\<close> are sent the same way; errors are ignored.\<close>

definition send_service :: "call_env \<Rightarrow> bytes \<Rightarrow> Connection \<Rightarrow> Connection" where
  "send_service v payload c =
     (case MessageID_Next (at_clock v) (msgIDs c) of (msgID, ids) \<Rightarrow>
      case Sequence_Next False (seqNos c) of (seqNo, seqs) \<Rightarrow>
        let c = c\<lparr>msgIDs := ids, seqNos := seqs\<rparr> in
        case PackEncrypted (cn_authKey c) (serverSalt c) (sessionID c) msgID seqNo payload (at_pad v) of
          Inl err \<Rightarrow> c
        | Inr packet \<Rightarrow> c\<lparr>cn_transport := snd (Conn_Send (at_send v) packet (cn_transport c))\<rparr>)"

definition flush_acks :: "call_env \<Rightarrow> Connection \<Rightarrow> Connection" where
  "flush_acks v c =
     (case PopAcks (rpc c) of (acks, e) \<Rightarrow>
        let c = c\<lparr>rpc := e\<rparr> in
        if length acks > 0 then send_service v (PackMsgsAck acks) c else c)"

definition ping_payload :: "int \<Rightarrow> bytes" where
  "ping_payload now = le_put 4 (0x7abe77ec :: uint32) @ le_put 8 (of_int now :: uint64)"

definition flushAcksAndPing :: "call_env \<Rightarrow> call_env \<Rightarrow> int \<Rightarrow> Connection \<Rightarrow> Connection" where
  "flushAcksAndPing v v' now c = send_service v' (ping_payload now) (flush_acks v c)"

text \<open>\<^verbatim>\<open>keepaliveLoop\<close>: at its \<^verbatim>\<open>select\<close>, in \<^verbatim>\<open>flushAcksAndPing\<close>, and returned.  \<open>tick\<close>: the ticker fired.\<close>

datatype keeper_pc = KSelect | KFlush | KDone

definition keepaliveLoop_step ::
  "bool \<Rightarrow> call_env \<Rightarrow> call_env \<Rightarrow> int \<Rightarrow> keeper_pc \<Rightarrow> Connection \<Rightarrow> (keeper_pc \<times> Connection) outcome" where
  "keepaliveLoop_step tick v v' now pc c =
     (case pc of
        KSelect \<Rightarrow> if tick then Ret (KFlush, c) else if cn_closed c then Ret (KDone, c) else Blocks
      | KFlush \<Rightarrow> Ret (KSelect, flushAcksAndPing v v' now c)
      | KDone \<Rightarrow> Blocks)"

section \<open>The goroutines of a connection\<close>

text \<open>The calls \<^verbatim>\<open>sys_calls\<close> are the callers of \<^verbatim>\<open>Invoke\<close> that wait in \<^verbatim>\<open>Await\<close>.\<close>

record conn_sys =
  sys_conn :: Connection
  sys_reader :: reader_pc
  sys_keeper :: keeper_pc
  sys_closers :: "close_pc list"
  sys_calls :: "(int64 \<times> nat) list"

definition wg_count :: "conn_sys \<Rightarrow> nat" where
  "wg_count s = (if sys_reader s = RDone then 0 else 1) + (if sys_keeper s = KDone then 0 else 1)"

definition started :: "Connection \<Rightarrow> conn_sys" where
  "started c = \<lparr>sys_conn = c, sys_reader = RTop, sys_keeper = KSelect, sys_closers = [], sys_calls = []\<rparr>"

definition arrive :: "reader \<Rightarrow> Connection \<Rightarrow> Connection" where
  "arrive r c = c\<lparr>cn_transport := (cn_transport c)\<lparr>conn_raw := (conn_raw (cn_transport c))\<lparr>net_in := r\<rparr>\<rparr>\<rparr>"

inductive sys_step :: "conn_sys \<Rightarrow> conn_sys \<Rightarrow> bool" where
  reader: "readLoop_step (wg_count s) v fuel gz (sys_reader s) (sys_conn s) = Ret (pc, c) \<Longrightarrow>
    sys_step s (s\<lparr>sys_reader := pc, sys_conn := c\<rparr>)"
| keeper: "keepaliveLoop_step tick kv kv' now (sys_keeper s) (sys_conn s) = Ret (kpc, c) \<Longrightarrow>
    sys_step s (s\<lparr>sys_keeper := kpc, sys_conn := c\<rparr>)"
| call_close: "sys_step s (s\<lparr>sys_closers := sys_closers s @ [CEnter]\<rparr>)"
| close: "i < length (sys_closers s) \<Longrightarrow>
    Close_step (wg_count s) (sys_closers s ! i) (sys_conn s) = Ret (cpc, c) \<Longrightarrow>
    sys_step s (s\<lparr>sys_closers := (sys_closers s)[i := cpc], sys_conn := c\<rparr>)"
| invoke: "Invoke_send iv req (sys_conn s) = (res, c) \<Longrightarrow>
    sys_step s (s\<lparr>sys_conn := c,
      sys_calls := (case res of Inl _ \<Rightarrow> sys_calls s | Inr call \<Rightarrow> call # sys_calls s)\<rparr>)"
| await: "(msgID, ch) \<in> set (sys_calls s) \<Longrightarrow> Await ev msgID ch timeout (rpc (sys_conn s)) = Ret (r, e) \<Longrightarrow>
    sys_step s (s\<lparr>sys_conn := (sys_conn s)\<lparr>rpc := e\<rparr>, sys_calls := remove1 (msgID, ch) (sys_calls s)\<rparr>)"
| network: "sys_step s (s\<lparr>sys_conn := arrive inp (sys_conn s)\<rparr>)"

inductive sys_reachable :: "conn_sys \<Rightarrow> bool" where
  start: "NewConnection rnd tr key salt = Inr c \<Longrightarrow> \<not> conn_closed tr \<Longrightarrow> sys_reachable (started c)"
| step: "sys_reachable s \<Longrightarrow> sys_step s s' \<Longrightarrow> sys_reachable s'"

section \<open>Channels stay\<close>

definition keeps_chans :: "nat \<Rightarrow> ('a \<times> Engine) outcome \<Rightarrow> bool" where
  "keeps_chans k m = (case m of Ret (r, e) \<Rightarrow> length (chans e) = k | Blocks \<Rightarrow> True | NoFuel \<Rightarrow> True)"

lemma keeps_chans_simps [simp]:
  "keeps_chans k (Ret (r, e)) = (length (chans e) = k)" "keeps_chans k Blocks" "keeps_chans k NoFuel"
  by (simp_all add: keeps_chans_def)

lemma handleRPCResult_keeps: "keeps_chans (length (chans e)) (handleRPCResult gz d e)"
  by (auto simp: handleRPCResult_def take_call_def chan_send_def
      split: prod.split sum.split option.split)

lemma container_loop_keeps:
  assumes "\<And>i p e. keeps_chans (length (chans e)) (disp i p e)"
  shows "keeps_chans (length (chans e)) (container_loop disp n d e)"
proof (induction n arbitrary: d e)
  case (Suc n)
  have "keeps_chans (length (chans e)) (case disp i p e of Ret (Some err, e) \<Rightarrow> Ret (Some err, e)
      | Ret (None, e) \<Rightarrow> container_loop disp n d' e | Blocks \<Rightarrow> Blocks | NoFuel \<Rightarrow> NoFuel)" for i p d'
    using assms [of e i p] Suc.IH by (auto split: outcome.splits option.splits) (metis Suc.IH)
  then show ?case by (auto split: prod.split sum.split)
qed simp

lemma Dispatch_keeps: "keeps_chans (length (chans e)) (Dispatch n gz msgID payload e)"
proof (induction n arbitrary: msgID payload e)
  case (Suc n)
  have "keeps_chans (length (chans e)) (handleContainer (Dispatch n gz) d (e\<lparr>ackIDs := a\<rparr>))" for d a
    unfolding handleContainer_def
    using container_loop_keeps [of "Dispatch n gz" "e\<lparr>ackIDs := a\<rparr>"] Suc by (auto split: prod.split sum.split)
  moreover have "keeps_chans (length (chans e)) (Dispatch n gz msgID p (e\<lparr>ackIDs := a\<rparr>))" for p a
    using Suc [where e = "e\<lparr>ackIDs := a\<rparr>"] by simp
  moreover have "keeps_chans (length (chans e)) (handleRPCResult gz d (e\<lparr>ackIDs := a\<rparr>))" for d a
    using handleRPCResult_keeps [of "e\<lparr>ackIDs := a\<rparr>"] by simp
  ultimately show ?case by (auto simp: Let_def split: sum.split)
qed simp

lemma fail_all_keeps: "fail_all calls e = Ret e' \<Longrightarrow> length (chans e') = length (chans e)"
  by (induction calls arbitrary: e) (auto simp: chan_send_def split: outcome.splits if_splits)

lemma Engine_Close_keeps: "Engine_Close e = Ret e' \<Longrightarrow> length (chans e') = length (chans e)"
  by (auto simp: Engine_Close_def Let_def dest: fail_all_keeps)

lemma Await_keeps: "Await ev msgID ch timeout e = Ret (r, e') \<Longrightarrow> length (chans e') = length (chans e)"
  by (auto simp: Await_def Cancel_def split: await_event.splits list.splits)

lemma Register_chans: "Register msgID e = (ch, e') \<Longrightarrow> ch = length (chans e) \<and> length (chans e') = Suc ch"
  by (auto simp: Register_def Let_def split: if_splits)

section \<open>The invariant of the system\<close>

definition in_body :: "close_pc \<Rightarrow> bool" where
  "in_body p \<longleftrightarrow> p = CEngine \<or> p = CTransport"

definition all_closers :: "conn_sys \<Rightarrow> close_pc list" where
  "all_closers s = sys_closers s @ (case sys_reader s of RClosing p \<Rightarrow> [p] | _ \<Rightarrow> [])"

definition conn_inv :: "(int64 \<times> nat) list \<Rightarrow> Connection \<Rightarrow> bool" where
  "conn_inv calls c \<longleftrightarrow>
     engine_inv (rpc c) [] \<and> (\<forall>call \<in> set calls. snd call < length (chans (rpc c))) \<and>
     (cn_closed c \<longleftrightarrow> closeOnce c \<noteq> Fresh) \<and> (closeOnce c = Finished \<longrightarrow> conn_closed (cn_transport c))"

definition sys_inv :: "conn_sys \<Rightarrow> bool" where
  "sys_inv s \<longleftrightarrow>
     conn_inv (sys_calls s) (sys_conn s) \<and>
     (closeOnce (sys_conn s) = Running \<longrightarrow> (\<exists>p \<in> set (all_closers s). in_body p)) \<and>
     (\<forall>p \<in> set (all_closers s). in_body p \<longrightarrow> cn_closed (sys_conn s)) \<and>
     (\<forall>err. CDone err \<in> set (sys_closers s) \<longrightarrow> sys_reader s = RDone)"

text \<open>A goroutine other than a \<^verbatim>\<open>Close\<close> changes neither the flags nor the calls that wait.\<close>

definition calm :: "Connection \<Rightarrow> Connection \<Rightarrow> bool" where
  "calm c c' \<longleftrightarrow> cn_closed c' = cn_closed c \<and> closeOnce c' = closeOnce c \<and>
     conn_closed (cn_transport c') = conn_closed (cn_transport c)"

lemma calm_refl [simp]: "calm c c"
  by (simp add: calm_def)

lemma Send_closed [simp]: "conn_closed (snd (Conn_Send v p t)) = conn_closed t"
  by (auto simp: Conn_Send_def Let_def split: option.split prod.split)

lemma Recv_closed [simp]: "conn_closed (snd (Conn_Recv v t)) = conn_closed t"
  by (auto simp: Conn_Recv_def Let_def split: option.split prod.split)

lemma send_service_calm: "calm c (send_service v p c) \<and> rpc (send_service v p c) = rpc c"
  by (auto simp: send_service_def calm_def Let_def split: prod.split sum.split)

lemma flush_calm:
  "calm c (flushAcksAndPing v v' now c) \<and> rpc (flushAcksAndPing v v' now c) = (rpc c)\<lparr>ackIDs := []\<rparr>"
proof -
  let ?c = "c\<lparr>rpc := (rpc c)\<lparr>ackIDs := []\<rparr>\<rparr>"
  have "calm c (flush_acks v c) \<and> rpc (flush_acks v c) = (rpc c)\<lparr>ackIDs := []\<rparr>"
    using send_service_calm [of ?c v "PackMsgsAck (ackIDs (rpc c))"]
    by (auto simp: flush_acks_def PopAcks_def Let_def calm_def)
  then show ?thesis
    using send_service_calm [of "flush_acks v c" v' "ping_payload now"]
    by (simp add: flushAcksAndPing_def calm_def)
qed

lemma conn_inv_calm:
  assumes "conn_inv calls c" "calm c c'" "engine_inv (rpc c') []" "length (chans (rpc c)) \<le> length (chans (rpc c'))"
  shows "conn_inv calls c'"
  using assms by (fastforce simp: conn_inv_def calm_def)

lemma handle_packet_inv:
  assumes "conn_inv calls c" "handle_packet fuel gz raw c = Ret c'"
  shows "conn_inv calls c' \<and> calm c c'"
proof (cases "UnpackEncrypted (cn_authKey c) (sessionID c) raw")
  case (Inr t)
  obtain salt mid sq p where t: "t = (salt, mid, sq, p)" by (cases t)
  have inv: "engine_inv (rpc c) []" using assms(1) by (simp add: conn_inv_def)
  obtain r e where d: "Dispatch fuel gz mid p (rpc c) = Ret (r, e)" and
      c': "calm c c'" "rpc c' = e"
    using assms(2) Inr t by (auto simp: handle_packet_def Let_def calm_def split: outcome.splits if_splits)
  then have "engine_inv e []" "length (chans e) = length (chans (rpc c))"
    using Dispatch_ok [OF inv, of fuel gz mid p] Dispatch_keeps [of "rpc c" fuel gz mid p] by simp_all
  then show ?thesis using conn_inv_calm [OF assms(1) c'(1)] c' by simp
qed (use assms in \<open>auto simp: handle_packet_def\<close>)

lemma Invoke_send_inv:
  assumes "conn_inv calls c" "Invoke_send v req c = (res, c')"
  shows "conn_inv (case res of Inl _ \<Rightarrow> calls | Inr call \<Rightarrow> call # calls) c' \<and> calm c c'"
proof (cases "req Encoder_New")
  case (Inr enc)
  obtain mid ids where m: "MessageID_Next (at_clock v) (msgIDs c) = (mid, ids)" by fastforce
  obtain sq seqs where s: "Sequence_Next True (seqNos c) = (sq, seqs)" by fastforce
  obtain ch e where r: "Register mid (rpc c) = (ch, e)" by fastforce
  have e: "engine_inv e []" "engine_inv (Cancel mid e) []" "ch < length (chans e)"
      "length (chans (rpc c)) \<le> length (chans e)" "chans (Cancel mid e) = chans e"
    using assms(1) inv_Register [OF _ r, of "[]"] inv_Cancel Register_chans [OF r]
    by (auto simp: conn_inv_def Cancel_def)
  have c': "calm c c'" "rpc c' = (if isl res then Cancel mid e else e)" "\<forall>call. res = Inr call \<longrightarrow> snd call = ch"
    using assms(2) Inr m s r Send_closed
    by (auto simp: Invoke_send_def Let_def calm_def split: sum.splits prod.splits option.splits)
      (metis Send_closed snd_conv)+
  show ?thesis
  proof (cases res)
    case Inl
    with conn_inv_calm [OF assms(1) c'(1)] c' e show ?thesis by simp
  next
    case (Inr call)
    with conn_inv_calm [OF assms(1) c'(1)] c' e show ?thesis by (simp add: conn_inv_def)
  qed
qed (use assms in \<open>auto simp: Invoke_send_def\<close>)

lemma Close_step_inv:
  assumes "conn_inv calls c" "Close_step wg pc c = Ret (pc', c')" "in_body pc \<longrightarrow> cn_closed c"
  shows "conn_inv calls c' \<and> (cn_closed c \<longrightarrow> cn_closed c') \<and> (in_body pc' \<longrightarrow> cn_closed c') \<and>
    (closeOnce c' = Running \<longrightarrow> in_body pc' \<or> closeOnce c = Running \<and> \<not> in_body pc)"
proof (cases pc)
  case CEnter
  then show ?thesis using assms by (auto simp: Close_step_def conn_inv_def in_body_def split: once.splits)
next
  case CEngine
  obtain e where e: "Engine_Close (rpc c) = Ret e" "engine_inv e []"
    using assms(1) Close_ok [of "rpc c" "[]"] by (auto simp: conn_inv_def)
  then show ?thesis
    using assms CEngine Engine_Close_keeps [OF e(1)] by (auto simp: Close_step_def conn_inv_def in_body_def)
next
  case CTransport
  then show ?thesis
    using assms Close_closes [of "cn_transport c"]
    by (auto simp: Close_step_def conn_inv_def in_body_def split: prod.splits)
qed (use assms in \<open>auto simp: Close_step_def in_body_def split: if_splits\<close>)

lemma Close_step_done: "Close_step wg pc c = Ret (CDone err, c') \<Longrightarrow> wg = 0"
  by (auto simp: Close_step_def split: close_pc.splits once.splits outcome.splits prod.splits if_splits)

lemma set_update_other: "p \<in> set xs \<Longrightarrow> p \<noteq> xs ! i \<Longrightarrow> p \<in> set (xs[i := q])"
  by (metis in_set_conv_nth length_list_update nth_list_update_neq)

lemma body_updated:
  assumes "\<exists>p \<in> set xs. in_body p" "i < length xs" "\<not> in_body (xs ! i)"
  shows "\<exists>p \<in> set (xs[i := q]). in_body p"
  using assms set_update_other by metis

lemma body_here: "i < length xs \<Longrightarrow> in_body q \<Longrightarrow> \<exists>p \<in> set (xs[i := q]). in_body p"
  using set_update_memI by fastforce

lemma all_closers_update:
  "i < length (sys_closers s) \<Longrightarrow> all_closers (s\<lparr>sys_closers := (sys_closers s)[i := p], sys_conn := c\<rparr>) = (all_closers s)[i := p]"
  "i < length (sys_closers s) \<Longrightarrow> all_closers s ! i = sys_closers s ! i"
  by (simp_all add: all_closers_def list_update_append nth_append)

text \<open>The steps of the read loop and of \<^verbatim>\<open>Close\<close>.\<close>

lemma sys_inv_close:
  assumes "sys_inv s" "i < length (sys_closers s)"
    "Close_step (wg_count s) (sys_closers s ! i) (sys_conn s) = Ret (p, c)"
  shows "sys_inv (s\<lparr>sys_closers := (sys_closers s)[i := p], sys_conn := c\<rparr>)" (is "sys_inv ?s")
proof -
  have i: "i < length (all_closers s)" using assms(2) by (simp add: all_closers_def)
  have b: "in_body (sys_closers s ! i) \<longrightarrow> cn_closed (sys_conn s)"
    using assms(1,2) by (auto simp: sys_inv_def all_closers_def)
  have st: "conn_inv (sys_calls s) c" "closeOnce c = Running \<longrightarrow>
      in_body p \<or> closeOnce (sys_conn s) = Running \<and> \<not> in_body (all_closers s ! i)"
      "cn_closed (sys_conn s) \<longrightarrow> cn_closed c" "in_body p \<longrightarrow> cn_closed c"
    using Close_step_inv [OF _ assms(3) b] assms(1,2) by (auto simp: sys_inv_def all_closers_update)
  have "\<forall>q \<in> set ((all_closers s)[i := p]). in_body q \<longrightarrow> cn_closed c"
    using st(3,4) assms(1) set_update_subset_insert [of "all_closers s" i p] by (auto simp: sys_inv_def)
  moreover
  have "closeOnce c = Running \<longrightarrow> (\<exists>q \<in> set ((all_closers s)[i := p]). in_body q)"
    using st(2) body_here [OF i] body_updated [OF _ i] assms(1) by (auto simp: sys_inv_def)
  moreover have "sys_reader s = RDone" if "CDone err \<in> set ((sys_closers s)[i := p])" for err
  proof (cases "p = CDone err")
    case True
    then have "wg_count s = 0" using assms(3) Close_step_done by simp
    then show ?thesis by (simp add: wg_count_def split: if_splits)
  next
    case False
    then have "CDone err \<in> set (sys_closers s)" using that set_update_subset_insert by fastforce
    then show ?thesis using assms(1) unfolding sys_inv_def by blast
  qed
  ultimately show ?thesis using st(1) assms(2) by (simp add: sys_inv_def all_closers_update(1))
qed

text \<open>A step that is not a \<^verbatim>\<open>Close\<close> keeps the rest of the invariant.\<close>

lemma sys_inv_calm:
  assumes "sys_inv s" "calm (sys_conn s) c" "conn_inv calls c"
    "filter in_body (all_closers s') = filter in_body (all_closers s)" "sys_conn s' = c" "sys_calls s' = calls"
    "\<forall>err. CDone err \<in> set (sys_closers s') \<longrightarrow> sys_reader s' = RDone"
  shows "sys_inv s'"
proof -
  have "(\<exists>p \<in> set (all_closers s'). in_body p) = (\<exists>p \<in> set (all_closers s). in_body p)"
    using assms(4) by (metis (mono_tags, lifting) filter_empty_conv)
  then show ?thesis using assms by (auto simp: sys_inv_def calm_def)
qed

lemma sys_inv_reader_close:
  assumes "sys_inv s" "sys_reader s = RClosing p" "Close_step (wg_count s) p (sys_conn s) = Ret (p', c)"
  shows "sys_inv (s\<lparr>sys_reader := RClosing p', sys_conn := c\<rparr>)"
proof -
  let ?n = "length (sys_closers s)"
  have all: "all_closers s = sys_closers s @ [p]"
      "all_closers (s\<lparr>sys_reader := RClosing p', sys_conn := c\<rparr>) = sys_closers s @ [p']"
    using assms(2) by (simp_all add: all_closers_def)
  have b: "in_body p \<longrightarrow> cn_closed (sys_conn s)" using assms(1) all(1) by (auto simp: sys_inv_def)
  have st: "conn_inv (sys_calls s) c" "closeOnce c = Running \<longrightarrow>
      in_body p' \<or> closeOnce (sys_conn s) = Running \<and> \<not> in_body p"
      "cn_closed (sys_conn s) \<longrightarrow> cn_closed c" "in_body p' \<longrightarrow> cn_closed c"
    using Close_step_inv [OF _ assms(3) b] assms(1) by (auto simp: sys_inv_def)
  have "\<forall>err. CDone err \<notin> set (sys_closers s)" using assms(1,2) by (auto simp: sys_inv_def)
  then show ?thesis
    using st assms(1) all by (auto simp: sys_inv_def)
qed

lemma sys_inv_reader:
  assumes "sys_inv s" "readLoop_step (wg_count s) v fuel gz (sys_reader s) (sys_conn s) = Ret (pc, c)"
  shows "sys_inv (s\<lparr>sys_reader := pc, sys_conn := c\<rparr>)" (is "sys_inv ?s")
proof (cases "\<exists>p. sys_reader s = RClosing p \<and> (\<forall>err. p \<noteq> CDone err)")
  case True
  then obtain p where p: "sys_reader s = RClosing p" "\<forall>err. p \<noteq> CDone err" by blast
  then obtain p' where "Close_step (wg_count s) p (sys_conn s) = Ret (p', c)" "pc = RClosing p'"
    using assms(2) by (cases p) (auto simp: readLoop_step_def split: outcome.splits)
  then show ?thesis using sys_inv_reader_close [OF assms(1) p(1)] by simp
next
  case False
  have inv: "conn_inv (sys_calls s) (sys_conn s)" using assms(1) by (simp add: sys_inv_def)
  have recv: "conn_inv (sys_calls s) ((sys_conn s)\<lparr>cn_transport := tr\<rparr>) \<and>
      calm (sys_conn s) ((sys_conn s)\<lparr>cn_transport := tr\<rparr>)"
    if "Conn_Recv v (cn_transport (sys_conn s)) = (r, tr)" for r tr
    using inv that Recv_closed [of v "cn_transport (sys_conn s)"] by (simp add: conn_inv_def calm_def)
  have calm_trans: "calm a b \<Longrightarrow> calm b d \<Longrightarrow> calm a d" for a b d by (simp add: calm_def)
  have "conn_inv (sys_calls s) c \<and> calm (sys_conn s) c \<and>
      filter in_body (all_closers ?s) = filter in_body (all_closers s)"
  proof (cases "sys_reader s")
    case RRecv
    obtain r tr where r: "Conn_Recv v (cn_transport (sys_conn s)) = (r, tr)" by fastforce
    note rc = recv [OF this]
    show ?thesis
    proof (cases r)
      case Inl
      then show ?thesis using assms(2) RRecv r rc by (auto simp: readLoop_step_def all_closers_def)
    next
      case (Inr raw)
      then have "handle_packet fuel gz raw ((sys_conn s)\<lparr>cn_transport := tr\<rparr>) = Ret c" "pc = RTop"
        using assms(2) RRecv r by (auto simp: readLoop_step_def split: outcome.splits)
      then show ?thesis
        using handle_packet_inv [OF conjunct1 [OF rc]] rc calm_trans RRecv by (auto simp: all_closers_def)
    qed
  next
    case (RClosing p)
    then obtain err where "p = CDone err" using False by auto
    then show ?thesis using assms(2) RClosing inv by (auto simp: readLoop_step_def all_closers_def in_body_def)
  qed (use assms(2) inv in \<open>auto simp: readLoop_step_def all_closers_def in_body_def\<close>)
  moreover have "\<forall>err. CDone err \<in> set (sys_closers s) \<longrightarrow> pc = RDone"
    using assms by (auto simp: sys_inv_def readLoop_step_def)
  ultimately show ?thesis by (intro sys_inv_calm [OF assms(1), of c]) simp_all
qed

lemma sys_inv_keeper:
  assumes "sys_inv s" "keepaliveLoop_step tick v v' now (sys_keeper s) (sys_conn s) = Ret (pc, c)"
  shows "sys_inv (s\<lparr>sys_keeper := pc, sys_conn := c\<rparr>)"
proof -
  have c: "calm (sys_conn s) c" "rpc c = rpc (sys_conn s) \<or> rpc c = (rpc (sys_conn s))\<lparr>ackIDs := []\<rparr>"
    using assms(2) flush_calm [of "sys_conn s" v v' now]
    by (auto simp: keepaliveLoop_step_def split: keeper_pc.splits if_splits)
  have "conn_inv (sys_calls s) (sys_conn s)" using assms(1) by (simp add: sys_inv_def)
  then have "conn_inv (sys_calls s) c"
    by (rule conn_inv_calm [OF _ c(1)]) (use c(2) assms(1) in \<open>auto simp: sys_inv_def conn_inv_def\<close>)
  then show ?thesis
    by (intro sys_inv_calm [OF assms(1) c(1)]) (use assms(1) in \<open>auto simp: sys_inv_def all_closers_def\<close>)
qed

lemma sys_inv_invoke:
  assumes "sys_inv s" "Invoke_send v req (sys_conn s) = (res, c)"
  shows "sys_inv (s\<lparr>sys_conn := c,
      sys_calls := (case res of Inl _ \<Rightarrow> sys_calls s | Inr call \<Rightarrow> call # sys_calls s)\<rparr>)"
proof -
  have inv: "conn_inv (sys_calls s) (sys_conn s)" using assms(1) by (simp add: sys_inv_def)
  note i = Invoke_send_inv [OF inv assms(2)]
  then have c: "calm (sys_conn s) c"
    "conn_inv (case res of Inl _ \<Rightarrow> sys_calls s | Inr call \<Rightarrow> call # sys_calls s) c" by simp_all
  show ?thesis
    by (rule sys_inv_calm [OF assms(1) c]) (use assms(1) in \<open>auto simp: sys_inv_def all_closers_def\<close>)
qed

lemma sys_inv_await:
  assumes "sys_inv s" "(msgID, ch) \<in> set (sys_calls s)" "Await ev msgID ch timeout (rpc (sys_conn s)) = Ret (r, e)"
  shows "sys_inv (s\<lparr>sys_conn := (sys_conn s)\<lparr>rpc := e\<rparr>, sys_calls := remove1 (msgID, ch) (sys_calls s)\<rparr>)"
proof -
  let ?c = "sys_conn s" and ?calls = "remove1 (msgID, ch) (sys_calls s)"
  have inv: "conn_inv (sys_calls s) ?c" using assms(1) by (simp add: sys_inv_def)
  then have ch: "ch < length (chans (rpc ?c))" using assms(2) by (auto simp: conn_inv_def)
  have "engine_inv e []"
  proof (cases ev)
    case Received
    then obtain res rest where "chans (rpc ?c) ! ch = res # rest" "e = (rpc ?c)\<lparr>chans := (chans (rpc ?c))[ch := rest]\<rparr>"
      using assms(3) by (auto simp: Await_def split: list.splits)
    then show ?thesis using inv_receive [of "rpc ?c" "[]" ch] inv ch by (simp add: conn_inv_def)
  qed (use assms(3) inv in \<open>auto simp: Await_def conn_inv_def inv_Cancel\<close>)
  then have "conn_inv ?calls (?c\<lparr>rpc := e\<rparr>)"
    using inv Await_keeps [OF assms(3)] by (auto simp: conn_inv_def dest: notin_set_remove1)
  moreover have "calm ?c (?c\<lparr>rpc := e\<rparr>)" by (simp add: calm_def)
  ultimately show ?thesis
    by (intro sys_inv_calm [OF assms(1)]) (use assms(1) in \<open>auto simp: sys_inv_def all_closers_def\<close>)
qed

lemma sys_step_inv:
  assumes "sys_step s s'" "sys_inv s"
  shows "sys_inv s'"
  using assms
proof (induction rule: sys_step.induct)
  case (call_close s)
  then show ?case by (auto simp: sys_inv_def all_closers_def in_body_def)
next
  case (network s inp)
  then show ?case by (auto simp: sys_inv_def all_closers_def arrive_def conn_inv_def)
qed (auto intro: sys_inv_reader sys_inv_keeper sys_inv_close sys_inv_invoke sys_inv_await)

lemma sys_inv_start:
  "NewConnection rnd tr key salt = Inr c \<Longrightarrow> sys_inv (started c)"
  by (auto simp: NewConnection_def started_def sys_inv_def conn_inv_def inv_New all_closers_def
      split: option.splits sum.splits)

lemma sys_reachable_inv: "sys_reachable s \<Longrightarrow> sys_inv s"
  by (induction rule: sys_reachable.induct) (auto simp: sys_inv_start intro: sys_step_inv)

section \<open>A read loop that closes\<close>

definition self_closing :: "conn_sys \<Rightarrow> bool" where
  "self_closing s \<longleftrightarrow> (\<exists>p. sys_reader s = RClosing p \<and> (\<forall>err. p \<noteq> CDone err))"

lemma self_closing_wg: "self_closing s \<Longrightarrow> 0 < wg_count s"
  by (auto simp: self_closing_def wg_count_def)

lemma self_closing_step:
  assumes "sys_step s s'" "self_closing s"
  shows "self_closing s'"
  using assms
proof (induction rule: sys_step.induct)
  case (reader s v fuel gz pc c)
  then obtain p where p: "sys_reader s = RClosing p" "\<forall>err. p \<noteq> CDone err" by (auto simp: self_closing_def)
  then obtain p' where st: "Close_step (wg_count s) p (sys_conn s) = Ret (p', c)" and pc: "pc = RClosing p'"
    using reader.hyps by (cases p) (auto simp: readLoop_step_def split: outcome.splits)
  have "p' \<noteq> CDone err" for err
    using Close_step_done [of "wg_count s" p "sys_conn s" err c] st self_closing_wg [OF reader.prems] by auto
  then show ?case using pc by (simp add: self_closing_def)
qed (auto simp: self_closing_def)

section \<open>A close that the application asked for\<close>

text \<open>What the steps below keep: the closing is complete and the other goroutines stand where they were.\<close>

definition closed_sys :: "conn_sys \<Rightarrow> bool" where
  "closed_sys s \<longleftrightarrow> sys_inv s \<and> closeOnce (sys_conn s) = Finished"

lemma closed_sys_flags: "closed_sys s \<Longrightarrow> cn_closed (sys_conn s) \<and> conn_closed (cn_transport (sys_conn s))"
  by (simp add: closed_sys_def sys_inv_def conn_inv_def)

lemma step_then:
  "sys_step s t \<Longrightarrow> \<exists>u. sys_step\<^sup>*\<^sup>* t u \<and> P u \<Longrightarrow> \<exists>u. sys_step\<^sup>*\<^sup>* s u \<and> P u"
  by (meson converse_rtranclp_into_rtranclp)

lemma Recv_when_closed: "conn_closed t \<Longrightarrow> \<exists>err. Conn_Recv v t = (Inl err, t)"
  using entry_check_closed(2) [of v] by (auto simp: Conn_Recv_def)

lemma close_engine:
  assumes "sys_inv s" "i < length (sys_closers s)" "sys_closers s ! i = CEngine"
  shows "\<exists>c. sys_step s (s\<lparr>sys_closers := (sys_closers s)[i := CTransport], sys_conn := c\<rparr>) \<and>
    closeOnce c = closeOnce (sys_conn s)"
proof -
  obtain e where "Engine_Close (rpc (sys_conn s)) = Ret e"
    using assms(1) Close_ok [of "rpc (sys_conn s)" "[]"] by (auto simp: sys_inv_def conn_inv_def)
  then have "Close_step (wg_count s) (sys_closers s ! i) (sys_conn s) = Ret (CTransport, (sys_conn s)\<lparr>rpc := e\<rparr>)"
    using assms(3) by (simp add: Close_step_def)
  from sys_step.close [OF assms(2) this] show ?thesis by fastforce
qed

lemma close_transport:
  assumes "sys_inv s" "i < length (sys_closers s)" "sys_closers s ! i = CTransport"
  shows "\<exists>c err. sys_step s (s\<lparr>sys_closers := (sys_closers s)[i := CWait err], sys_conn := c\<rparr>) \<and>
    closeOnce c = Finished"
proof -
  obtain err tr where "Conn_Close (cn_transport (sys_conn s)) = (err, tr)" by fastforce
  then have "Close_step (wg_count s) (sys_closers s ! i) (sys_conn s) =
      Ret (CWait err, (sys_conn s)\<lparr>cn_transport := tr, closeOnce := Finished\<rparr>)"
    using assms(3) by (simp add: Close_step_def)
  from sys_step.close [OF assms(2) this] show ?thesis by fastforce
qed

text \<open>Closer \<open>i\<close> has run the function and waits; nothing else moved.\<close>

definition body_done :: "nat \<Rightarrow> conn_sys \<Rightarrow> conn_sys \<Rightarrow> bool" where
  "body_done i s s' \<longleftrightarrow> closed_sys s' \<and> sys_reader s' = sys_reader s \<and> sys_keeper s' = sys_keeper s \<and>
     (\<exists>err. sys_closers s' = (sys_closers s)[i := CWait err])"

lemma close_body:
  assumes "sys_inv s" "i < length (sys_closers s)" "in_body (sys_closers s ! i)"
  shows "\<exists>s'. sys_step\<^sup>*\<^sup>* s s' \<and> body_done i s s'"
proof -
  have last: "\<exists>s'. sys_step\<^sup>*\<^sup>* s s' \<and> body_done i s s'"
    if here: "sys_inv s" "i < length (sys_closers s)" "sys_closers s ! i = CTransport" for s
  proof -
    obtain c err where c: "sys_step s (s\<lparr>sys_closers := (sys_closers s)[i := CWait err], sys_conn := c\<rparr>)"
        "closeOnce c = Finished"
      using close_transport [OF here] by blast
    show ?thesis
      by (rule exI [of _ "s\<lparr>sys_closers := (sys_closers s)[i := CWait err], sys_conn := c\<rparr>"])
        (use c sys_step_inv [OF c(1) here(1)] in \<open>auto simp: body_done_def closed_sys_def\<close>)
  qed
  show ?thesis
  proof (cases "sys_closers s ! i = CEngine")
    case True
    then obtain c where c: "sys_step s (s\<lparr>sys_closers := (sys_closers s)[i := CTransport], sys_conn := c\<rparr>)"
      using close_engine [OF assms(1,2)] by blast
    show ?thesis
      by (rule step_then [OF c]) (use last [OF sys_step_inv [OF c assms(1)]] assms(2) in \<open>simp add: body_done_def\<close>)
  qed (use last [OF assms(1,2)] assms(3) in \<open>auto simp: in_body_def\<close>)
qed

definition in_reader_close :: "conn_sys \<Rightarrow> bool" where
  "in_reader_close s \<longleftrightarrow> (\<exists>p. sys_reader s = RClosing p)"

lemma finish_once:
  assumes "sys_inv s" "cn_closed (sys_conn s)" "\<not> in_reader_close s"
  shows "\<exists>s'. sys_step\<^sup>*\<^sup>* s s' \<and> closed_sys s' \<and> sys_reader s' = sys_reader s \<and>
    length (sys_closers s') = length (sys_closers s)"
proof (cases "closeOnce (sys_conn s) = Running")
  case True
  then obtain p where p: "p \<in> set (all_closers s)" "in_body p" using assms(1) by (auto simp: sys_inv_def)
  have "all_closers s = sys_closers s"
    using assms(3) by (auto simp: all_closers_def in_reader_close_def split: reader_pc.split)
  then obtain i where "i < length (sys_closers s)" "in_body (sys_closers s ! i)"
    using p by (metis in_set_conv_nth)
  from close_body [OF assms(1) this] show ?thesis by (auto simp: body_done_def)
next
  case False
  then have "closeOnce (sys_conn s) = Finished"
    using assms(1,2) by (cases "closeOnce (sys_conn s)") (auto simp: sys_inv_def conn_inv_def)
  then show ?thesis using assms(1) by (auto simp: closed_sys_def)
qed

lemma reader_move:
  assumes "closed_sys s" "readLoop_step (wg_count s) v n gz (sys_reader s) (sys_conn s) = Ret (pc, sys_conn s)"
  shows "sys_step s (s\<lparr>sys_reader := pc\<rparr>)" "closed_sys (s\<lparr>sys_reader := pc\<rparr>)"
proof -
  show st: "sys_step s (s\<lparr>sys_reader := pc\<rparr>)" using sys_step.reader [OF assms(2)] by simp
  show "closed_sys (s\<lparr>sys_reader := pc\<rparr>)"
    using sys_step_inv [OF st] assms(1) by (simp add: closed_sys_def)
qed

lemma drain_reader:
  assumes "closed_sys s" "\<not> in_reader_close s"
  shows "\<exists>s'. sys_step\<^sup>*\<^sup>* s s' \<and> closed_sys s' \<and> sys_reader s' = RDone \<and>
    sys_keeper s' = sys_keeper s \<and> sys_closers s' = sys_closers s"
proof -
  have ends: "\<exists>s'. sys_step\<^sup>*\<^sup>* s s' \<and> closed_sys s' \<and> sys_reader s' = RDone \<and>
      sys_keeper s' = sys_keeper s \<and> sys_closers s' = sys_closers s"
    if "closed_sys s" "sys_reader s = RTop \<or> sys_reader s = RFailed" for s
  proof -
    have "readLoop_step (wg_count s) live_env 0 no_gzip (sys_reader s) (sys_conn s) = Ret (RDone, sys_conn s)"
      using that closed_sys_flags [OF that(1)] by (auto simp: readLoop_step_def)
    note m = reader_move [OF that(1) this]
    show ?thesis by (rule exI [of _ "s\<lparr>sys_reader := RDone\<rparr>"]) (use m in auto)
  qed
  show ?thesis
  proof (cases "sys_reader s")
    case RRecv
    have "readLoop_step (wg_count s) live_env 0 no_gzip (sys_reader s) (sys_conn s) = Ret (RFailed, sys_conn s)"
      using RRecv closed_sys_flags [OF assms(1)]
        Recv_when_closed [of "cn_transport (sys_conn s)" live_env] by (auto simp: readLoop_step_def)
    note m = reader_move [OF assms(1) this]
    show ?thesis by (rule step_then [OF m(1)]) (use ends [OF m(2)] in simp)
  qed (use ends [OF assms(1)] assms in \<open>auto simp: in_reader_close_def\<close>)
qed

lemma keeper_move:
  assumes "closed_sys s" "keepaliveLoop_step tick v v' now (sys_keeper s) (sys_conn s) = Ret (pc, c)"
    "closeOnce c = Finished"
  shows "sys_step s (s\<lparr>sys_keeper := pc, sys_conn := c\<rparr>)" "closed_sys (s\<lparr>sys_keeper := pc, sys_conn := c\<rparr>)"
proof -
  show st: "sys_step s (s\<lparr>sys_keeper := pc, sys_conn := c\<rparr>)" by (rule sys_step.keeper [OF assms(2)])
  show "closed_sys (s\<lparr>sys_keeper := pc, sys_conn := c\<rparr>)"
    using sys_step_inv [OF st] assms(1,3) by (simp add: closed_sys_def)
qed

definition live_call :: call_env where
  "live_call = \<lparr>at_entry = live_env, at_clock = 0, at_pad = (\<lambda>n. Inr (replicate n 0)), at_send = live_env\<rparr>"

lemma drain_keeper:
  assumes "closed_sys s"
  shows "\<exists>s'. sys_step\<^sup>*\<^sup>* s s' \<and> closed_sys s' \<and> sys_keeper s' = KDone \<and>
    sys_reader s' = sys_reader s \<and> sys_closers s' = sys_closers s"
proof -
  have ends: "\<exists>s'. sys_step\<^sup>*\<^sup>* s s' \<and> closed_sys s' \<and> sys_keeper s' = KDone \<and>
      sys_reader s' = sys_reader s \<and> sys_closers s' = sys_closers s"
    if "closed_sys s" "sys_keeper s = KSelect" for s
  proof -
    have "keepaliveLoop_step False live_call live_call 0 (sys_keeper s) (sys_conn s) = Ret (KDone, sys_conn s)"
      using that closed_sys_flags [OF that(1)] by (simp add: keepaliveLoop_step_def)
    note m = keeper_move [OF that(1) this]
    show ?thesis
      by (rule exI [of _ "s\<lparr>sys_keeper := KDone\<rparr>"]) (use m that(1) in \<open>auto simp: closed_sys_def\<close>)
  qed
  show ?thesis
  proof (cases "sys_keeper s")
    case KFlush
    let ?c = "flushAcksAndPing live_call live_call 0 (sys_conn s)"
    have f: "closeOnce ?c = Finished"
      using flush_calm [of "sys_conn s"] assms by (simp add: calm_def closed_sys_def)
    have "keepaliveLoop_step False live_call live_call 0 (sys_keeper s) (sys_conn s) = Ret (KSelect, ?c)"
      using KFlush by (simp add: keepaliveLoop_step_def)
    note m = keeper_move [OF assms this f]
    show ?thesis by (rule step_then [OF m(1)]) (use ends [OF m(2)] in simp)
  qed (use ends [OF assms] assms in auto)
qed

definition returned :: "nat \<Rightarrow> conn_sys \<Rightarrow> bool" where
  "returned i s \<longleftrightarrow> (\<exists>err. sys_closers s ! i = CDone err)"

lemma finish_wait:
  assumes "wg_count s = 0" "i < length (sys_closers s)" "sys_closers s ! i = CWait err"
  shows "\<exists>s'. sys_step\<^sup>*\<^sup>* s s' \<and> returned i s'"
proof -
  have "Close_step (wg_count s) (sys_closers s ! i) (sys_conn s) = Ret (CDone err, sys_conn s)"
    using assms by (simp add: Close_step_def)
  from sys_step.close [OF assms(2) this] show ?thesis
    by (rule step_then) (rule exI, rule conjI [OF rtranclp.rtrancl_refl], simp add: returned_def assms(2))
qed

lemma finish_closer:
  assumes "closed_sys s" "wg_count s = 0" "i < length (sys_closers s)"
  shows "\<exists>s'. sys_step\<^sup>*\<^sup>* s s' \<and> returned i s'"
proof (cases "in_body (sys_closers s ! i)")
  case True
  then obtain s1 err where s1: "sys_step\<^sup>*\<^sup>* s s1" "body_done i s s1" "sys_closers s1 = (sys_closers s)[i := CWait err]"
    using close_body [of s i] assms(1,3) by (auto simp: closed_sys_def body_done_def)
  then obtain s2 where "sys_step\<^sup>*\<^sup>* s1 s2" "returned i s2"
    using finish_wait [of s1 i err] assms(2,3) by (auto simp: body_done_def wg_count_def)
  then show ?thesis using s1(1) by (meson rtranclp_trans)
next
  case False
  show ?thesis
  proof (cases "sys_closers s ! i")
    case CEnter
    let ?s = "s\<lparr>sys_closers := (sys_closers s)[i := CWait None]\<rparr>"
    have "Close_step (wg_count s) (sys_closers s ! i) (sys_conn s) = Ret (CWait None, sys_conn s)"
      using assms(1) CEnter by (simp add: Close_step_def closed_sys_def)
    from sys_step.close [OF assms(3) this] have "sys_step s ?s" by simp
    then show ?thesis
      by (rule step_then) (use finish_wait [of ?s i None] assms(2,3) in \<open>simp add: wg_count_def\<close>)
  qed (use finish_wait [OF assms(2,3)] False in \<open>auto simp: in_body_def returned_def\<close>)
qed

lemma closers_finish:
  assumes "sys_inv s" "cn_closed (sys_conn s)" "\<not> in_reader_close s" "i < length (sys_closers s)"
  shows "\<exists>s'. sys_step\<^sup>*\<^sup>* s s' \<and> returned i s'"
proof -
  obtain s1 where s1: "sys_step\<^sup>*\<^sup>* s s1" "closed_sys s1" "sys_reader s1 = sys_reader s"
      "length (sys_closers s1) = length (sys_closers s)"
    using finish_once [OF assms(1-3)] by blast
  obtain s2 where s2: "sys_step\<^sup>*\<^sup>* s1 s2" "closed_sys s2" "sys_reader s2 = RDone" "sys_closers s2 = sys_closers s1"
    using drain_reader [OF s1(2)] s1(3) assms(3) by (auto simp: in_reader_close_def)
  obtain s3 where s3: "sys_step\<^sup>*\<^sup>* s2 s3" "closed_sys s3" "sys_keeper s3 = KDone" "sys_reader s3 = RDone"
      "sys_closers s3 = sys_closers s2"
    using drain_keeper [OF s2(2)] s2(3) by auto
  have "wg_count s3 = 0" using s3(3,4) by (simp add: wg_count_def)
  then obtain s4 where "sys_step\<^sup>*\<^sup>* s3 s4" "returned i s4"
    using finish_closer [OF s3(2), of i] assms(4) s1(4) s2(4) s3(5) by auto
  then show ?thesis using s1(1) s2(1) s3(1) by (meson rtranclp_trans)
qed

lemma closed_stays:
  assumes "sys_step s s'" "sys_inv s" "cn_closed (sys_conn s)" "\<not> in_reader_close s"
  shows "cn_closed (sys_conn s') \<and> \<not> in_reader_close s'"
  using assms
proof (induction rule: sys_step.induct)
  case (reader s v fuel gz pc c)
  have "calm (sys_conn s) c \<and> (\<forall>p. pc \<noteq> RClosing p)"
  proof (cases "sys_reader s")
    case RRecv
    obtain r tr where r: "Conn_Recv v (cn_transport (sys_conn s)) = (r, tr)" by fastforce
    let ?c = "(sys_conn s)\<lparr>cn_transport := tr\<rparr>"
    have c: "conn_inv (sys_calls s) ?c" "calm (sys_conn s) ?c"
      using r Recv_closed [of v "cn_transport (sys_conn s)"] reader.prems(1)
      by (simp_all add: sys_inv_def conn_inv_def calm_def)
    then show ?thesis
      using reader.hyps RRecv r handle_packet_inv [OF c(1)]
      by (auto simp: readLoop_step_def calm_def split: sum.splits outcome.splits)
  qed (use reader in \<open>auto simp: readLoop_step_def in_reader_close_def\<close>)
  then show ?case using reader.prems by (simp add: calm_def in_reader_close_def)
next
  case (keeper tick kv kv' now s kpc c)
  then show ?case
    using flush_calm [of "sys_conn s" kv kv' now]
    by (auto simp: keepaliveLoop_step_def calm_def in_reader_close_def split: keeper_pc.splits if_splits)
next
  case (close i s cpc c)
  have "in_body (sys_closers s ! i) \<longrightarrow> cn_closed (sys_conn s)" using close.prems by simp
  with Close_step_inv [OF _ close.hyps(2)] close.prems show ?case
    by (auto simp: sys_inv_def in_reader_close_def)
next
  case (invoke iv req s res c)
  then show ?case
    using Invoke_send_inv [OF _ invoke.hyps] by (auto simp: sys_inv_def calm_def in_reader_close_def)
qed (auto simp: in_reader_close_def arrive_def)

lemma closed_stays_run:
  assumes "sys_step\<^sup>*\<^sup>* s s'" "sys_inv s" "cn_closed (sys_conn s)" "\<not> in_reader_close s"
  shows "sys_inv s' \<and> cn_closed (sys_conn s') \<and> \<not> in_reader_close s' \<and>
    length (sys_closers s) \<le> length (sys_closers s')"
  using assms
proof (induction rule: rtranclp_induct)
  case (step t u)
  have "length (sys_closers t) \<le> length (sys_closers u)"
    using step.hyps(2) by (induction rule: sys_step.induct) simp_all
  with step show ?case using closed_stays [OF step.hyps(2)] sys_step_inv [OF step.hyps(2)] by fastforce
qed simp

section \<open>Properties\<close>

text \<open>
  C19. Once the application closes a connection whose read loop has not failed, every \<^verbatim>\<open>Close\<close>
  call can return whatever happens meanwhile: from each state the goroutines can get to there is a
  way on to its return.
\<close>
theorem application_close_returns:
  assumes "sys_reachable s" "cn_closed (sys_conn s)" "\<not> in_reader_close s" "i < length (sys_closers s)"
    "sys_step\<^sup>*\<^sup>* s s'"
  shows "\<exists>s''. sys_step\<^sup>*\<^sup>* s' s'' \<and> returned i s''"
proof -
  have inv: "sys_inv s" by (rule sys_reachable_inv [OF assms(1)])
  note r = closed_stays_run [OF assms(5) inv assms(2,3)]
  show ?thesis by (rule closers_finish) (use r assms(4) in simp_all)
qed

text \<open>
  C20. When \<^verbatim>\<open>Recv\<close> fails on a connection that is open, the read loop calls \<^verbatim>\<open>Close\<close>, which waits for the
  read loop: from then on the goroutine never ends and no call of \<^verbatim>\<open>Close\<close>, its own or the application's,
  ever returns.
\<close>
theorem read_error_deadlock:
  assumes "sys_reachable s" "sys_reader s = RFailed" "\<not> cn_closed (sys_conn s)"
    "sys_step s t" "sys_reader t \<noteq> RFailed" "sys_step\<^sup>*\<^sup>* t u"
  shows "sys_reader u \<noteq> RDone \<and> (\<forall>i < length (sys_closers u). \<not> returned i u)"
proof -
  have t: "self_closing t"
    using assms(4,2,3,5)
  proof (induction rule: sys_step.induct)
    case (reader s v fuel gz pc c)
    then show ?case by (auto simp: readLoop_step_def self_closing_def)
  qed simp_all
  have "sys_reachable t" by (rule sys_reachable.step [OF assms(1,4)])
  with assms(6) t have "self_closing u \<and> sys_reachable u"
    by (induction rule: rtranclp_induct) (auto intro: self_closing_step sys_reachable.step)
  moreover from this have "sys_inv u" using sys_reachable_inv by simp
  then have "CDone err \<notin> set (sys_closers u)" if "sys_reader u \<noteq> RDone" for err
    using that by (auto simp: sys_inv_def)
  ultimately show ?thesis by (auto simp: self_closing_def returned_def) (metis nth_mem reader_pc.distinct(19))
qed

text \<open>The states of the witnesses: a connection whose peer hangs up at once.\<close>

definition idle_key :: AuthKey where
  "idle_key = \<lparr>ak_Value = replicate 256 1, ak_ID = 7\<rparr>"

definition idle_connection :: Connection where
  "idle_connection = \<lparr>cn_transport = idle_conn, cn_authKey = idle_key, sessionID = 0, serverSalt = 0,
     msgIDs = NewMessageIDGenerator, seqNos = NewSequenceGenerator, rpc = NewEngine, cn_closed = False,
     closeOnce = Fresh\<rparr>"

lemma idle_reachable: "sys_reachable (started idle_connection)"
proof -
  have "(le_get (replicate 8 0) :: int64) = 0" by simp
  then have "NewConnection (\<lambda>n. Inr (replicate n 0)) idle_conn (Some idle_key) 0 = Inr idle_connection"
    by (simp add: NewConnection_def idle_connection_def)
  then show ?thesis by (rule sys_reachable.start) (simp add: idle_conn_def)
qed

theorem application_close_returns_witness:
  "\<exists>s s''. sys_reachable s \<and> sys_closers s = [CEngine] \<and> sys_step\<^sup>*\<^sup>* s s'' \<and> returned 0 s''"
proof -
  let ?s = "(started idle_connection)\<lparr>sys_closers := [CEnter]\<rparr>"
  let ?t = "(started (idle_connection\<lparr>closeOnce := Running, cn_closed := True\<rparr>))\<lparr>sys_closers := [CEngine]\<rparr>"
  have "sys_step (started idle_connection) ?s"
    using sys_step.call_close [of "started idle_connection"] by (simp add: started_def)
  with idle_reachable have s: "sys_reachable ?s" by (rule sys_reachable.step)
  have "sys_step ?s ?t"
    using sys_step.close [of 0 ?s CEngine "idle_connection\<lparr>closeOnce := Running, cn_closed := True\<rparr>"]
    by (simp add: started_def Close_step_def idle_connection_def)
  with s have t: "sys_reachable ?t" by (rule sys_reachable.step)
  then show ?thesis
    using application_close_returns [OF t, of 0 ?t] by (fastforce simp: started_def in_reader_close_def)
qed

theorem read_error_deadlock_witness:
  "\<exists>s t. sys_reachable s \<and> sys_reader s = RFailed \<and> \<not> cn_closed (sys_conn s) \<and> sys_step s t \<and>
     sys_reader t \<noteq> RDone"
proof -
  let ?r = "\<lambda>pc c. (started c)\<lparr>sys_reader := pc\<rparr>"
  obtain err tr where recv: "Conn_Recv live_env idle_conn = (Inl err, tr)"
    by (simp add: Conn_Recv_def entry_check_def idle_conn_def idle_net_def live_env_def Let_def
        codec_ReadPacket_def Intermediate_ReadPacket_def ReadFull_def)
  let ?c = "idle_connection\<lparr>cn_transport := tr\<rparr>"
  have "sys_step (started idle_connection) (?r RRecv idle_connection)"
    using sys_step.reader [of "started idle_connection" live_env 0 no_gzip RRecv idle_connection]
    by (simp add: started_def readLoop_step_def idle_connection_def)
  with idle_reachable have 1: "sys_reachable (?r RRecv idle_connection)" by (rule sys_reachable.step)
  have "sys_step (?r RRecv idle_connection) (?r RFailed ?c)"
    using sys_step.reader [of "?r RRecv idle_connection" live_env 0 no_gzip RFailed ?c] recv
    by (simp add: started_def readLoop_step_def idle_connection_def)
  with 1 have 2: "sys_reachable (?r RFailed ?c)" by (rule sys_reachable.step)
  have 3: "sys_step (?r RFailed ?c) (?r (RClosing CEnter) ?c)"
    using sys_step.reader [of "?r RFailed ?c" live_env 0 no_gzip "RClosing CEnter" ?c]
    by (simp add: started_def readLoop_step_def idle_connection_def)
  have "sys_reader (?r (RClosing CEnter) ?c) \<noteq> RDone"
    using read_error_deadlock [OF 2 _ _ 3, of "?r (RClosing CEnter) ?c"]
    by (simp add: started_def idle_connection_def)
  then show ?thesis using 2 3 by (fastforce simp: started_def idle_connection_def)
qed

lemma drawn_below_16:
  assumes "padded_sendable rnd p"
  obtains pad where "padded_seen rnd p = p @ pad" "length pad < 16"
proof -
  obtain bs pad where bs: "fst rnd 1 = Inr bs" "padding_drawn rnd = Some pad" "rand_ok (snd rnd)"
    using assms by (auto simp: padded_sendable_def padding_drawn_def split: option.splits sum.splits)
  then have "length pad = unat (bs ! 0 AND 0x0f)"
    by (auto simp: padding_drawn_def Let_def rand_ok_def split: if_splits sum.splits)
  moreover have "bs ! 0 AND 0x0f \<le> 0x0f" by (rule word_and_le1)
  then have "unat (bs ! 0 AND 0x0f) < 16" by (simp add: word_le_nat_alt)
  ultimately show thesis using bs(2) that by (simp add: padded_seen_def)
qed

text \<open>What the read loop unpacks of a packet that was sealed for it, with each codec.\<close>

lemma seal_received:
  assumes "sendable_on k v (seal ak ServerRole inner)" "length inner mod 16 = 0"
  shows "length inner < 2 ^ 32"
    "seen_on k v (seal ak ServerRole inner) \<noteq> seal ak ServerRole inner \<Longrightarrow>
      \<exists>err. UnpackEncrypted ak expected (seen_on k v (seal ak ServerRole inner)) = Inl err"
proof -
  let ?packet = "seal ak ServerRole inner"
  note len = seal_slices(4) [OF assms(2), of ak ServerRole]
  have "length ?packet \<le> max_packet"
    using assms(1) by (auto simp: sendable_on_def abridged_sendable_def padded_sendable_def
        split: codec.splits option.splits)
  then show "length inner < 2 ^ 32" by (simp add: len)
  assume other: "seen_on k v ?packet \<noteq> ?packet"
  then have k: "k = PaddedCodec" by (auto simp: seen_on_def split: if_splits)
  then obtain pad where pad: "seen_on k v ?packet = ?packet @ pad" "length pad < 16"
    using drawn_below_16 [of "env_rnd v" ?packet] assms(1) by (auto simp: seen_on_def sendable_on_def)
  with other have "(length inner + length pad) mod 16 \<noteq> 0"
    using assms(2) by (auto simp: mod_add_eq [symmetric])
  then show "\<exists>err. UnpackEncrypted ak expected (seen_on k v ?packet) = Inl err"
    by (simp add: UnpackEncrypted_eq Let_def pad(1) len)
qed

text \<open>The read loop takes the next frame off the wire and handles the packet.\<close>

lemma frame_received:
  fixes s :: conn_sys
  defines "c \<equiv> sys_conn s"
  assumes "sys_reader s = RTop" "\<not> cn_closed (sys_conn s)"
    and net: "\<not> conn_closed (cn_transport (sys_conn s))" "\<not> net_closed (conn_raw (cn_transport (sys_conn s)))"
    and wire: "same_codec k (conn_codec (cn_transport (sys_conn s)))" "sendable_on k v packet"
      "rin (net_in (conn_raw (cn_transport (sys_conn s)))) = frame_on k v packet @ later"
  obtains tr where "rin (net_in (conn_raw tr)) = later"
    "\<And>fuel gz c'. handle_packet fuel gz (seen_on k v packet) (sys_conn s\<lparr>cn_transport := tr\<rparr>) = Ret c' \<Longrightarrow>
      sys_step\<^sup>*\<^sup>* s (s\<lparr>sys_reader := RTop, sys_conn := c'\<rparr>)"
proof -
  obtain k'' where "codec_ReadPacket (conn_codec (cn_transport c)) (net_in (conn_raw (cn_transport c))) =
      (k'', Inr (seen_on k v packet), (net_in (conn_raw (cn_transport c)))\<lparr>rin := later\<rparr>)"
    using codec_read_frame [OF wire(2,1,3)] by (auto simp: c_def)
  then obtain tr where tr: "Conn_Recv live_env (cn_transport c) = (Inr (seen_on k v packet), tr)"
      "rin (net_in (conn_raw tr)) = later"
    using net by (intro that) (simp add: c_def Conn_Recv_def entry_check_def live_env_def Let_def, simp)
  have begins: "sys_step s (s\<lparr>sys_reader := RRecv\<rparr>)"
    using sys_step.reader [of s live_env 1 undefined RRecv c] assms(2,3) by (simp add: readLoop_step_def c_def)
  have "sys_step\<^sup>*\<^sup>* s (s\<lparr>sys_reader := RTop, sys_conn := c'\<rparr>)"
    if "handle_packet fuel gz (seen_on k v packet) (c\<lparr>cn_transport := tr\<rparr>) = Ret c'" for fuel gz c'
  proof -
    have "sys_step (s\<lparr>sys_reader := RRecv\<rparr>) (s\<lparr>sys_reader := RTop, sys_conn := c'\<rparr>)"
      using sys_step.reader [of "s\<lparr>sys_reader := RRecv\<rparr>" live_env fuel gz RTop c'] tr(1) that
      by (simp add: readLoop_step_def c_def)
    then show ?thesis by (blast intro: begins converse_rtranclp_into_rtranclp)
  qed
  with tr(2) that show thesis by (simp add: c_def)
qed

text \<open>
  C3. An answer finds its caller through all the layers: when the server's packet with an answer to
  request \<open>req\<close> (a result, a compressed result or an error), encrypted for this session, is next on
  the wire of any of the four transports, the read loop takes it off the wire.  When the transport
  hands the packet on as it was sent, the salt is adopted and the caller that waits for \<open>req\<close> gets
  what the answer stands for: the bytes, what they decompress to, or the typed error.  The padded
  transport hands on the padding it drew as well; unless it drew none, the packet is dropped, and
  the caller goes on waiting.
\<close>
theorem response_delivered:
  assumes "sys_reachable s" "sys_reader s = RTop" "\<not> cn_closed (sys_conn s)"
    and call: "map_of (pending (rpc (sys_conn s))) req = Some ch"
    and net: "\<not> conn_closed (cn_transport (sys_conn s))" "\<not> net_closed (conn_raw (cn_transport (sys_conn s)))"
    and packet: "inner = inner_data salt (sessionID (sys_conn s)) mid sq (rpc_result_wire req (answer_wire a)) pad"
      "length inner mod 16 = 0" "answer_ok a" "packet = seal (cn_authKey (sys_conn s)) ServerRole inner"
    and wire: "same_codec k (conn_codec (cn_transport (sys_conn s)))" "sendable_on k v packet"
      "rin (net_in (conn_raw (cn_transport (sys_conn s)))) = frame_on k v packet @ later"
  shows "\<exists>t e. sys_step\<^sup>*\<^sup>* s t \<and> sys_reader t = RTop \<and>
    rin (net_in (conn_raw (cn_transport (sys_conn t)))) = later \<and>
    (if seen_on k v packet = packet then
       serverSalt (sys_conn t) = (if salt = 0 then serverSalt (sys_conn s) else salt) \<and>
       Await Received req ch timeout (rpc (sys_conn t)) = Ret (answer_value gz a, e)
     else serverSalt (sys_conn t) = serverSalt (sys_conn s) \<and> rpc (sys_conn t) = rpc (sys_conn s) \<and>
       Await Received req ch timeout (rpc (sys_conn t)) = Blocks)"
proof -
  let ?c = "sys_conn s"
  have inv: "engine_inv (rpc ?c) []"
    using sys_reachable_inv [OF assms(1)] by (simp add: sys_inv_def conn_inv_def)
  have "(req, ch) \<in> set (pending (rpc ?c))" using call by (rule map_of_SomeD)
  then have "ch \<in> set (map snd (pending (rpc ?c)))" by force
  then have chan: "ch < length (chans (rpc ?c))" "chans (rpc ?c) ! ch = []"
    using engine_invD(5) [OF inv] by blast+
  obtain tr where tr: "rin (net_in (conn_raw tr)) = later"
    and received: "\<And>fuel c'. handle_packet fuel gz (seen_on k v packet) (?c\<lparr>cn_transport := tr\<rparr>) = Ret c' \<Longrightarrow>
      sys_step\<^sup>*\<^sup>* s (s\<lparr>sys_reader := RTop, sys_conn := c'\<rparr>)"
    using frame_received [OF assms(2,3) net wire] by metis
  note seal = seal_received [OF wire(2) [unfolded packet(4)] packet(2), folded packet(4)]
  show ?thesis
  proof (cases "seen_on k v packet = packet")
    case False
    then have "handle_packet (Suc 0) gz (seen_on k v packet) (?c\<lparr>cn_transport := tr\<rparr>) =
        Ret (?c\<lparr>cn_transport := tr\<rparr>)"
      using seal(2) [OF False, of "sessionID ?c"] by (auto simp: handle_packet_def)
    from received [OF this] False tr chan(2) show ?thesis
      by (intro exI [of _ "s\<lparr>sys_reader := RTop, sys_conn := ?c\<lparr>cn_transport := tr\<rparr>\<rparr>"])
        (auto simp: Await_def)
  next
    case True
    have "length (rpc_result_wire req (answer_wire a)) < 2 ^ 32"
      using seal(1) by (simp add: packet(1) inner_data_def)
    then have unpack: "UnpackEncrypted (cn_authKey ?c) (sessionID ?c) packet =
        Inr (salt, mid, sq, rpc_result_wire req (answer_wire a))"
      unfolding Unpack_accepts_iff Let_def
      by (intro exI [of _ "sessionID ?c"] exI [of _ pad]) (use packet(1,2,4) in auto)
    let ?e = "(rpc ?c)\<lparr>ackIDs := ackIDs (rpc ?c) @ [mid], pending := AList.delete req (pending (rpc ?c)),
        chans := (chans (rpc ?c))[ch := [rpc_result_of (answer_value gz a)]]\<rparr>"
    let ?c' = "?c\<lparr>cn_transport := tr, serverSalt := (if salt = 0 then serverSalt ?c else salt), rpc := ?e\<rparr>"
    have "handle_packet (Suc 0) gz (seen_on k v packet) (?c\<lparr>cn_transport := tr\<rparr>) = Ret ?c'"
      using unpack True Dispatch_answer [OF inv packet(3) call, of 0 gz mid]
      by (auto simp: handle_packet_def Let_def simp del: Dispatch.simps)
    from received [OF this] True tr chan(1) show ?thesis
      by (intro exI [of _ "s\<lparr>sys_reader := RTop, sys_conn := ?c'\<rparr>"])
        (auto simp: Await_def rpc_result_of_def split: sum.split)
  qed
qed

lemma idle_call:
  obtains c where "Invoke_send live_call Inr idle_connection = (Inr (4, 0), c)" "pending (rpc c) = [(4, 0)]"
    "\<not> cn_closed c" "sessionID c = 0" "cn_authKey c = idle_key" "conn_codec (cn_transport c) = IntermediateCodec"
    "\<not> conn_closed (cn_transport c)" "\<not> net_closed (conn_raw (cn_transport c))"
proof -
  have "rand_ok (at_pad live_call)" by (simp add: rand_ok_def live_call_def)
  then obtain packet where packet: "PackEncrypted idle_key 0 0 4 1 [] (at_pad live_call) = Inr packet"
    using PackEncrypted_eq [of "at_pad live_call" idle_key 0 0 4 1 "[]"] by (simp add: live_call_def Let_def)
  obtain w where w: "codec_WritePacket IntermediateCodec (env_rnd live_env) packet fresh_writer = (IntermediateCodec, None, w)"
    using Intermediate_write [of fresh_writer packet] by (simp add: codec_WritePacket_def)
  have "MessageID_Next 0 NewMessageIDGenerator = (4, \<lparr>lastID = 4, offset = 0\<rparr>)"
    by (simp add: MessageID_Next_def NewMessageIDGenerator_def Let_def)
  moreover have "Sequence_Next True NewSequenceGenerator = (1, \<lparr>contentCount = 1\<rparr>)"
    by (simp add: Sequence_Next_def NewSequenceGenerator_def)
  moreover have "Register 4 NewEngine = (0, NewEngine\<lparr>chans := [[]], pending := [(4, 0)]\<rparr>)"
    by (simp add: Register_def NewEngine_def)
  ultimately show thesis
    using packet w
    by (intro that) (simp add: Invoke_send_def idle_connection_def live_call_def Let_def Conn_Send_def
        entry_check_def live_env_def idle_conn_def idle_net_def, simp_all add: idle_net_def)
qed

theorem response_delivered_witness:
  "\<exists>s t e. sys_step\<^sup>*\<^sup>* s t \<and> pending (rpc (sys_conn s)) = [(4, 0)] \<and>
     Await Received 4 0 60000000000 (rpc (sys_conn t)) = Ret (Inl (ParseError 420 ''FLOOD_WAIT_30''), e)"
proof -
  obtain c where c: "Invoke_send live_call Inr idle_connection = (Inr (4, 0), c)" "pending (rpc c) = [(4, 0)]"
    "\<not> cn_closed c" "sessionID c = 0" "cn_authKey c = idle_key" "conn_codec (cn_transport c) = IntermediateCodec"
    "\<not> conn_closed (cn_transport c)" "\<not> net_closed (conn_raw (cn_transport c))"
    by (rule idle_call)
  let ?a = "Failed 420 ''FLOOD_WAIT_30''"
  let ?p = "rpc_result_wire 4 (answer_wire ?a)"
  let ?inner = "inner_data 0 0 1 1 ?p (replicate 12 0)"
  let ?wire = "frame_on IntermediateCodec live_env (seal idle_key ServerRole ?inner)"
  let ?s = "(started c)\<lparr>sys_calls := [(4, 0)]\<rparr>"
  let ?t = "?s\<lparr>sys_conn := arrive \<lparr>rin = ?wire @ [], rerr = IoEOF\<rparr> c\<rparr>"
  have "sys_step (started idle_connection) ?s"
    using sys_step.invoke [of live_call Inr "started idle_connection"] c(1) by (simp add: started_def)
  with idle_reachable have s: "sys_reachable ?s" by (rule sys_reachable.step)
  have "sys_step ?s ?t"
    using sys_step.network [of ?s "\<lparr>rin = ?wire @ [], rerr = IoEOF\<rparr>"] by (simp add: started_def)
  with s have t: "sys_reachable ?t" by (rule sys_reachable.step)
  have "length ?p = 36" by (simp add: rpc_result_wire_def tl_bytes_def tl_header_def tl_padding_def)
  then have len: "length ?inner = 80" by (simp add: inner_data_def)
  have ok: "sendable_on IntermediateCodec live_env (seal idle_key ServerRole ?inner)"
    using seal_slices(4) [of ?inner idle_key ServerRole] len by (simp add: sendable_on_def)
  from response_delivered [OF t, of 4 0 ?inner 0 1 1 ?a "replicate 12 0" _
      IntermediateCodec live_env "[]" 60000000000 no_gzip] c ok len
  show ?thesis by (fastforce simp: started_def arrive_def same_codec_def seen_on_def simp del: answer_wire.simps)
qed

text \<open>
  In every state the goroutines of a connection can reach, the read loop can hand on any packet without
  blocking on a caller, \<^verbatim>\<open>Close\<close> can fail all calls that are waiting, and no caller's channel
  holds more than one result.
\<close>
theorem delivery_never_blocks:
  assumes "sys_reachable s"
  shows "handle_packet fuel gz raw (sys_conn s) \<noteq> Blocks \<and>
    (\<exists>e. Engine_Close (rpc (sys_conn s)) = Ret e \<and> pending e = []) \<and>
    (\<forall>b \<in> set (chans (rpc (sys_conn s))). length b \<le> 1)"
proof -
  have inv: "engine_inv (rpc (sys_conn s)) []"
    using sys_reachable_inv [OF assms] by (simp add: sys_inv_def conn_inv_def)
  have "Dispatch fuel gz mid p (rpc (sys_conn s)) \<noteq> Blocks" for mid p
    using Dispatch_ok [OF inv, of fuel gz mid p] by auto
  then have "handle_packet fuel gz raw (sys_conn s) \<noteq> Blocks"
    by (auto simp: handle_packet_def Let_def split: sum.split outcome.split)
  then show ?thesis using Close_ok [OF inv] engine_invD(6) [OF inv] by blast
qed

theorem delivery_never_blocks_witness:
  "handle_packet 5 no_gzip [1, 2, 3] (sys_conn (started idle_connection)) \<noteq> Blocks"
  using delivery_never_blocks [OF idle_reachable, of 5 no_gzip "[1, 2, 3]"] by simp

end
