(* ===== verification/Download.thy ===== *)
theory Download
  imports Generated_Files Go_Std "HOL-Library.Signed_Division"
begin

text \<open>
  \<^verbatim>\<open>transfer/chunker.go\<close> and \<^verbatim>\<open>transfer/downloader.go\<close>: the size of the chunks and the download loop.  A
  call of \<^verbatim>\<open>conn.Invoke\<close> encodes the request, which may change it, and answers the bytes that were
  encoded; the answers come from the environment: a function of the bytes and of a state of the
  environment of any type.  Nothing bounds the number of rounds, so the loop is a partial function.
\<close>

section \<open>chunker.go\<close>

definition DefaultChunkSize :: int64 where
  "DefaultChunkSize = 512 * 1024"

definition BigFileThreshold :: int64 where
  "BigFileThreshold = 10 * 1024 * 1024"

text \<open>\<^verbatim>\<open>int\<close> has 64 bits; \<^verbatim>\<open>/\<close> truncates towards zero.\<close>

definition CalculateParts :: "int64 \<Rightarrow> int64 \<Rightarrow> int64 \<times> int64" where
  "CalculateParts totalSize customChunkSize =
     (let custom = sint customChunkSize;
          chunkSize = (if custom > 0 \<and> custom mod 1024 = 0 \<and> (512 * 1024) mod custom = 0
                       then customChunkSize else DefaultChunkSize)
      in if sint totalSize \<le> 0 then (chunkSize, 1)
         else (chunkSize, of_int (sint (totalSize + chunkSize - 1) sdiv sint chunkSize)))"

section \<open>downloader.go\<close>

record Downloader =
  dl_workers :: int64
  dl_chunkSize :: int64

definition NewDownloader :: "int64 \<Rightarrow> int64 \<Rightarrow> Downloader" where
  "NewDownloader workers chunkSize =
     (case CalculateParts 1 chunkSize of (cSize, _) \<Rightarrow>
        \<lparr>dl_workers = (if sint workers \<le> 0 then 4 else workers), dl_chunkSize = cSize\<rparr>)"

text \<open>The environment: is the context done, and what does a call return for the bytes of a request.\<close>

record 's service =
  sv_ctx :: "'s \<Rightarrow> goerror option"
  sv_call :: "bytes \<Rightarrow> 's \<Rightarrow> (goerror + bytes) \<times> 's"

text \<open>\<^verbatim>\<open>Invoke\<close> on a request object: it runs \<^verbatim>\<open>Encode\<close>, which changes the object.\<close>

definition invoke_get_file ::
  "'s service \<Rightarrow> UploadGetFile \<Rightarrow> 's \<Rightarrow> UploadGetFile \<times> (goerror + bytes) \<times> 's" where
  "invoke_get_file sv req s =
     (case UploadGetFile_Encode req Encoder_New of
        (req, enc) \<Rightarrow> (req, sv_call sv (Encoder_Bytes enc) s))"

record 's dl_state =
  dl_offset :: int64
  dl_downloaded :: int64
  dl_out :: writer
  dl_progress :: "(int64 \<times> int64) list"
  dl_env :: 's

datatype round = Return "goerror option" | Continue

text \<open>What both branches do with the bytes of a part; \<open>wrap\<close> is what becomes of an error of \<^verbatim>\<open>Write\<close>.\<close>

definition save_part ::
  "(goerror \<Rightarrow> goerror) \<Rightarrow> int64 \<Rightarrow> int32 \<Rightarrow> bytes \<Rightarrow> 's dl_state \<Rightarrow> round \<times> 's dl_state" where
  "save_part wrap totalSize limit bs st =
     (if length bs = 0 then (Return None, st)
      else case Write bs (dl_out st) of
          (Some err, w) \<Rightarrow> (Return (Some (wrap err)), st\<lparr>dl_out := w\<rparr>)
        | (None, w) \<Rightarrow>
            let n = of_nat (length bs);
                st = st\<lparr>dl_out := w, dl_offset := dl_offset st + n, dl_downloaded := dl_downloaded st + n\<rparr>;
                st = st\<lparr>dl_progress := dl_progress st @ [(dl_downloaded st, totalSize)]\<rparr>
            in if sint (of_nat (length bs) :: int32) < sint limit then (Return None, st) else (Continue, st))"

text \<open>One pass through the loop of \<^verbatim>\<open>Download\<close>.\<close>

definition Download_round ::
  "'s service \<Rightarrow> InputFileLocationClass \<Rightarrow> int64 \<Rightarrow> int32 \<Rightarrow> 's dl_state \<Rightarrow> round \<times> 's dl_state" where
  "Download_round sv location totalSize limit st =
     (case sv_ctx sv (dl_env st) of
        Some err \<Rightarrow> (Return (Some err), st)
      | None \<Rightarrow>
          let req = \<lparr>UploadGetFile_Flags = 0, UploadGetFile_Precise = True, UploadGetFile_CdnSupported = True,
                     UploadGetFile_Location = location, UploadGetFile_Offset = dl_offset st,
                     UploadGetFile_Limit = limit\<rparr>
          in case invoke_get_file sv req (dl_env st) of
               (req, Inl err, s) \<Rightarrow>
                 (Return (Some (Wrapped (''download: failed at offset '' @ fmt_int (sint (dl_offset st)) @ '': '') err)), st\<lparr>dl_env := s\<rparr>)
             | (req, Inr respRaw, s) \<Rightarrow>
                 let st = st\<lparr>dl_env := s\<rparr> in
                 (case fst (DecodeUploadFileClass (Decoder_New respRaw)) of
                    Inl err \<Rightarrow> (Return (Some (Wrapped ''download: failed to decode file response: '' err)), st)
                  | Inr (UploadFileClass_UploadFile f) \<Rightarrow>
                      save_part (Wrapped ''download: failed to write to destination: '') totalSize limit
                        (UploadFile_Bytes f) st
                  | Inr (UploadFileClass_UploadFileCdnRedirect _) \<Rightarrow>
                      (case invoke_get_file sv (req\<lparr>UploadGetFile_CdnSupported := False\<rparr>) (dl_env st) of
                         (_, Inl err, s) \<Rightarrow>
                           (Return (Some (Wrapped ''download: CDN fallback failed: '' err)), st\<lparr>dl_env := s\<rparr>)
                       | (_, Inr fallbackRaw, s) \<Rightarrow>
                           let st = st\<lparr>dl_env := s\<rparr> in
                           (case fst (DecodeUploadFileClass (Decoder_New fallbackRaw)) of
                              Inl err \<Rightarrow> (Return (Some err), st)
                            | Inr (UploadFileClass_UploadFile f) \<Rightarrow>
                                save_part (\<lambda>err. err) totalSize limit (UploadFile_Bytes f) st
                            | Inr (UploadFileClass_UploadFileCdnRedirect _) \<Rightarrow> (Return None, st)))))"

partial_function (option) Download_loop ::
  "'s service \<Rightarrow> InputFileLocationClass \<Rightarrow> int64 \<Rightarrow> int32 \<Rightarrow> 's dl_state \<Rightarrow>
     (goerror option \<times> 's dl_state) option" where
  "Download_loop sv location totalSize limit st =
     (case Download_round sv location totalSize limit st of
        (Return res, st) \<Rightarrow> Some (res, st)
      | (Continue, st) \<Rightarrow> Download_loop sv location totalSize limit st)"

definition Download ::
  "Downloader \<Rightarrow> 's service \<Rightarrow> InputFileLocationClass \<Rightarrow> int64 \<Rightarrow> writer \<Rightarrow> 's \<Rightarrow>
     (goerror option \<times> 's dl_state) option" where
  "Download d sv location totalSize w s =
     Download_loop sv location totalSize (ucast (dl_chunkSize d))
       \<lparr>dl_offset = 0, dl_downloaded = 0, dl_out = w, dl_progress = [], dl_env = s\<rparr>"

section \<open>Chunk sizes\<close>

definition good_chunk :: "int64 \<Rightarrow> bool" where
  "good_chunk c \<longleftrightarrow> 0 < sint c \<and> sint c mod 1024 = 0 \<and> (512 * 1024) mod sint c = 0"

lemma sint_default: "sint DefaultChunkSize = 524288"
  by (simp add: DefaultChunkSize_def)

lemma default_good: "good_chunk DefaultChunkSize"
  by (simp add: good_chunk_def sint_default)

lemma CalculateParts_chunk:
  "fst (CalculateParts tot custom) = (if good_chunk custom then custom else DefaultChunkSize)"
  by (auto simp: CalculateParts_def Let_def good_chunk_def)

lemma good_chunk_bounds:
  assumes "good_chunk c"
  shows "1024 \<le> sint c" "sint c \<le> 524288"
proof -
  have "1024 dvd sint c" "0 < sint c" using assms by (auto simp: good_chunk_def)
  then show "1024 \<le> sint c" by (simp add: zdvd_imp_le)
  have "sint c dvd 524288" using assms by (auto simp: good_chunk_def)
  then show "sint c \<le> 524288" by (simp add: zdvd_imp_le)
qed

lemma CalculateParts_good: "good_chunk (fst (CalculateParts tot custom))"
  by (simp add: CalculateParts_chunk default_good)

lemma CalculateParts_count:
  assumes "0 < sint tot" "sint tot + 524288 < 2 ^ 63" "CalculateParts tot custom = (c, n)"
  shows "sint n = (sint tot + sint c - 1) div sint c"
proof -
  have c: "c = fst (CalculateParts tot custom)" using assms(3) by simp
  note b = good_chunk_bounds [OF CalculateParts_good, of tot custom, folded c]
  have "sint (tot + c - 1) = sint tot + sint c - 1"
  proof -
    have m: "sint (c + (- 1)) = sint c - 1" using b by (subst sint_plus64) simp_all
    have "sint (tot + (c + (- 1))) = sint tot + sint (c + (- 1))"
      by (rule sint_plus64) (use assms(1,2) b m in linarith)+
    then show ?thesis using m by (simp add: algebra_simps)
  qed
  moreover have "0 \<le> (sint tot + sint c - 1) div sint c" "(sint tot + sint c - 1) div sint c < 2 ^ 63"
  proof -
    have "0 \<le> sint tot + sint c - 1" "sint tot + sint c - 1 < 2 ^ 63" using assms(1,2) b by simp_all
    then show "0 \<le> (sint tot + sint c - 1) div sint c" "(sint tot + sint c - 1) div sint c < 2 ^ 63"
      using b zdiv_mono2 [of "sint tot + sint c - 1" 1 "sint c"] by (simp_all add: pos_imp_zdiv_nonneg_iff)
  qed
  moreover have "n = of_int (sint (tot + c - 1) sdiv sint c)"
    using assms(1,3) unfolding CalculateParts_def Let_def by (simp split: if_splits) blast
  moreover have "x sdiv y = x div y" if "0 \<le> x" "0 < y" for x y :: int
    using that by (cases "x = 0") (simp_all add: signed_divide_int_def)
  ultimately show ?thesis
    using assms(1) b by (simp add: sint_of_int64)
qed

section \<open>One round against a server\<close>

definition get_request :: "InputFileLocationClass \<Rightarrow> int64 \<Rightarrow> int32 \<Rightarrow> UploadGetFile" where
  "get_request location ofs limit =
     \<lparr>UploadGetFile_Flags = 0, UploadGetFile_Precise = True, UploadGetFile_CdnSupported = True,
      UploadGetFile_Location = location, UploadGetFile_Offset = ofs, UploadGetFile_Limit = limit\<rparr>"

definition upload_file_wire :: "int32 \<Rightarrow> bytes \<Rightarrow> bytes" where
  "upload_file_wire mtime bs = UploadFileClass_wire (UploadFileClass_UploadFile \<lparr>UploadFile_Mtime = mtime, UploadFile_Bytes = bs\<rparr>)"

lemma Encode_wire: "Encoder_Bytes (snd (UploadGetFile_Encode v Encoder_New)) = UploadGetFile_wire v"
  by (simp only: UploadGetFile.put_wire) (simp add: app_def Encoder_New_def Encoder_Bytes_def)

lemma Decode_upload_file:
  assumes "length bs < 2 ^ 24"
  shows "fst (DecodeUploadFileClass (Decoder_New (upload_file_wire mtime bs))) =
    Inr (UploadFileClass_UploadFile \<lparr>UploadFile_Mtime = mtime, UploadFile_Bytes = bs\<rparr>)"
  using decodes_New [OF UploadFileClass.get_wire, of "UploadFileClass_UploadFile \<lparr>UploadFile_Mtime = mtime, UploadFile_Bytes = bs\<rparr>" "[]"]
    assms by (simp add: upload_file_wire_def UploadFile_ok_def)

lemma invoke_get_file_eq:
  "invoke_get_file sv v s = (fst (UploadGetFile_Encode v Encoder_New), sv_call sv (UploadGetFile_wire v) s)"
  by (simp add: invoke_get_file_def Encode_wire case_prod_beta)

lemma Decode_get_request:
  assumes "InputFileLocationClass_ok (UploadGetFile_Location v)"
  shows "fst (UploadGetFile_Decode (Decoder_New (UploadGetFile_wire v))) = Inr (UploadGetFile_seen v)"
  using decodes_New [OF decodes_UploadGetFile [OF assms], of "[]"] by simp

lemma get_request_seen:
  "UploadGetFile_Offset (UploadGetFile_seen (get_request l ofs lim)) = ofs"
  "UploadGetFile_Limit (UploadGetFile_seen (get_request l ofs lim)) = lim"
  by (simp_all add: UploadGetFile_seen_def get_request_def)

text \<open>A server that holds the file \<open>content\<close> and answers a request with the part it asks for.\<close>

definition file_part :: "bytes \<Rightarrow> int64 \<Rightarrow> int32 \<Rightarrow> bytes" where
  "file_part content ofs limit = take (nat (sint limit)) (drop (nat (sint ofs)) content)"

definition file_server :: "bytes \<Rightarrow> unit service" where
  "file_server content =
     \<lparr>sv_ctx = (\<lambda>s. None),
      sv_call = (\<lambda>bs s. (case fst (UploadGetFile_Decode (Decoder_New bs)) of
          Inl err \<Rightarrow> Inl err
        | Inr req \<Rightarrow> Inr (upload_file_wire 0
            (file_part content (UploadGetFile_Offset req) (UploadGetFile_Limit req))), s))\<rparr>"

lemma round_served:
  assumes "sv_ctx sv (dl_env st) = None"
    "sv_call sv (UploadGetFile_wire (get_request loc (dl_offset st) limit)) (dl_env st) = (Inr (upload_file_wire mtime bs), s)"
    "length bs < 2 ^ 24"
  shows "Download_round sv loc tot limit st =
    save_part (Wrapped ''download: failed to write to destination: '') tot limit bs (st\<lparr>dl_env := s\<rparr>)"
  using assms Decode_upload_file [OF assms(3), of mtime]
  by (simp add: Download_round_def Let_def invoke_get_file_eq flip: get_request_def)

lemma sint_of_nat32: "n < 2 ^ 31 \<Longrightarrow> sint (of_nat n :: int32) = int n"
  by (rule sint_of_nat_int32)

lemma sint_of_nat64: "n < 2 ^ 63 \<Longrightarrow> sint (of_nat n :: int64) = int n"
  using sint_of_int64 [of "int n"] by simp

text \<open>The invariant: the first \<open>k\<close> bytes are written and the next request starts there.\<close>

lemma Download_loop_served:
  assumes "InputFileLocationClass_ok loc" "length content < 2 ^ 62"
    and lim: "0 < sint limit" "sint limit \<le> 524288"
    and st: "dl_offset st = of_nat k" "dl_downloaded st = of_nat k" "k \<le> length content"
      "wplan (dl_out st) = []" "wbuf (dl_out st) = base @ take k content"
  shows "\<exists>st'. Download_loop (file_server content) loc tot limit st = Some (None, st') \<and>
    wbuf (dl_out st') = base @ content \<and> dl_downloaded st' = of_nat (length content)"
  using st
proof (induction "length content - k" arbitrary: k st rule: less_induct)
  case less
  let ?bs = "take (nat (sint limit)) (drop k content)"
  have k: "sint (dl_offset st) = int k" using less.prems(1,3) assms(2) by (simp add: sint_of_nat64)
  have len: "length ?bs < 2 ^ 24" "length ?bs < 2 ^ 31" using lim(2) by auto
  have rnd: "Download_round (file_server content) loc tot limit st =
      save_part (Wrapped ''download: failed to write to destination: '') tot limit ?bs st"
  proof -
    have "InputFileLocationClass_ok (UploadGetFile_Location (get_request loc (dl_offset st) limit))"
      using assms(1) by (simp add: get_request_def)
    from Decode_get_request [OF this]
    have call: "sv_call (file_server content) (UploadGetFile_wire (get_request loc (dl_offset st) limit)) (dl_env st) =
        (Inr (upload_file_wire 0 ?bs), dl_env st)"
      using k by (simp add: file_server_def get_request_seen file_part_def)
    moreover have "sv_ctx (file_server content) (dl_env st) = None" by (simp add: file_server_def)
    moreover have "st\<lparr>dl_env := dl_env st\<rparr> = st" by (cases st) simp
    ultimately show ?thesis using round_served [OF _ call len(1)] by metis
  qed
  let ?st = "st\<lparr>dl_out := (dl_out st)\<lparr>wbuf := wbuf (dl_out st) @ ?bs\<rparr>,
      dl_offset := dl_offset st + of_nat (length ?bs), dl_downloaded := dl_downloaded st + of_nat (length ?bs),
      dl_progress := dl_progress st @ [(dl_downloaded st + of_nat (length ?bs), tot)]\<rparr>"
  have short: "(sint (of_nat (length ?bs) :: int32) < sint limit) = (length content - k < nat (sint limit))"
    using len(2) lim(1) by (simp add: sint_of_nat32 del: length_take) auto
  show ?case
  proof (cases "length content - k < nat (sint limit)")
    case True
    have all: "?bs = drop k content" "take k content @ ?bs = content" using True by simp_all
    show ?thesis
    proof (cases "?bs = []")
      case True
      then show ?thesis
        using less.prems rnd all by (subst Download_loop.simps) (simp add: save_part_def)
    next
      case False
      then have "save_part (Wrapped ''download: failed to write to destination: '') tot limit ?bs st = (Return None, ?st)"
        using less.prems(4) short True by (simp add: save_part_def Let_def)
      then show ?thesis
        using less.prems rnd all
        by (subst Download_loop.simps) (simp flip: of_nat_add)
    qed
  next
    case False
    have ne: "?bs \<noteq> []" "length ?bs = nat (sint limit)" using False lim(1) by auto
    then have sp: "save_part (Wrapped ''download: failed to write to destination: '') tot limit ?bs st = (Continue, ?st)"
      using less.prems(4) short False by (simp add: save_part_def Let_def del: length_take)
    have "\<exists>st'. Download_loop (file_server content) loc tot limit ?st = Some (None, st') \<and>
        wbuf (dl_out st') = base @ content \<and> dl_downloaded st' = of_nat (length content)"
    proof (rule less.hyps [of "k + length ?bs"])
      show "length content - (k + length ?bs) < length content - k" "k + length ?bs \<le> length content"
        using ne False lim(1) by auto
      show "wbuf (dl_out ?st) = base @ take (k + length ?bs) content"
        using less.prems(5) ne(2) by (simp add: take_add)
    qed (use less.prems in \<open>simp_all del: length_take\<close>)
    then show ?thesis using rnd sp by (subst Download_loop.simps) simp
  qed
qed

section \<open>Servers that never finish, servers that redirect\<close>

lemma Download_loop_endless:
  assumes "Download_loop sv loc tot limit st = Some r"
    and inv: "\<And>st. P st \<Longrightarrow> \<exists>st'. Download_round sv loc tot limit st = (Continue, st') \<and> P st'"
    and "P st"
  shows False
proof -
  have "sv' = sv \<and> loc' = loc \<and> tot' = tot \<and> limit' = limit \<longrightarrow> \<not> P st'"
    if "Download_loop sv' loc' tot' limit' st' = Some r'" for sv' loc' tot' limit' st' r'
    using that
  proof (rule Download_loop.raw_induct [rotated])
    fix rec :: "'a service \<Rightarrow> InputFileLocationClass \<Rightarrow> int64 \<Rightarrow> int32 \<Rightarrow> 'a dl_state \<Rightarrow> (goerror option \<times> 'a dl_state) option"
      and a b c d t y
    assume IH: "\<And>a b c d t y. rec a b c d t = Some y \<Longrightarrow> a = sv \<and> b = loc \<and> c = tot \<and> d = limit \<longrightarrow> \<not> P t"
      and eq: "(case Download_round a b c d t of (Return res, st) \<Rightarrow> Some (res, st)
        | (Continue, st) \<Rightarrow> rec a b c d st) = Some y"
    show "a = sv \<and> b = loc \<and> c = tot \<and> d = limit \<longrightarrow> \<not> P t"
      using IH [of sv loc tot limit _ y] eq inv [of t] by (auto split: prod.splits round.splits)
  qed
  with assms show False by blast
qed

lemma limit_NewDownloader:
  assumes "d = NewDownloader workers chunk"
  shows "0 < sint (ucast (dl_chunkSize d) :: int32)" "sint (ucast (dl_chunkSize d) :: int32) \<le> 524288"
    "sint (ucast (dl_chunkSize d) :: int32) = sint (dl_chunkSize d)"
proof -
  let ?c = "fst (CalculateParts 1 chunk)"
  note b = good_chunk_bounds [OF CalculateParts_good, of 1 chunk]
  have c: "dl_chunkSize d = ?c" by (simp add: assms NewDownloader_def case_prod_beta)
  have "(ucast (of_int (sint ?c) :: int64) :: int32) = of_int (sint ?c)"
    using b by (simp add: unsigned_of_int take_bit_int_eq_self del: of_int_sint)
  then have "(ucast ?c :: int32) = of_int (sint ?c)" by simp
  moreover have "sint (of_int x :: int32) = x" if "0 \<le> x" "x \<le> 524288" for x :: int
    using that by (simp add: signed_of_int signed_take_bit_int_eq_self)
  ultimately have "sint (ucast ?c :: int32) = sint ?c" using b by (metis order.trans zero_le_numeral)
  then show "0 < sint (ucast (dl_chunkSize d) :: int32)" "sint (ucast (dl_chunkSize d) :: int32) \<le> 524288"
    "sint (ucast (dl_chunkSize d) :: int32) = sint (dl_chunkSize d)"
    using b c by simp_all
qed

section \<open>Properties\<close>

text \<open>
  C13. A file of a server that answers every request with the part it asks for is downloaded completely
  and in order, whatever chunk size was configured: the loop ends without an error, the destination
  holds exactly the file, and the progress that was reported last is its length.
\<close>
theorem download_complete:
  assumes "InputFileLocationClass_ok loc" "length content < 2 ^ 62" "wplan w = []"
  shows "\<exists>st. Download (NewDownloader workers chunk) (file_server content) loc tot w () = Some (None, st) \<and>
    wbuf (dl_out st) = wbuf w @ content \<and> dl_downloaded st = of_nat (length content)"
  unfolding Download_def
  using Download_loop_served [OF assms(1,2) limit_NewDownloader(1,2) [OF refl], where k = 0 and base = "wbuf w" and tot = tot]
    assms(3) by simp

definition some_location :: InputFileLocationClass where
  "some_location = InputFileLocationClass_InputDocumentFileLocation
     \<lparr>InputDocumentFileLocation_Id = 1, InputDocumentFileLocation_AccessHash = 2,
      InputDocumentFileLocation_FileReference = [3], InputDocumentFileLocation_ThumbSize = ''m''\<rparr>"

lemma some_location_ok: "InputFileLocationClass_ok some_location"
  by (simp add: some_location_def InputDocumentFileLocation_ok_def)

theorem download_complete_witness:
  "\<exists>st. Download (NewDownloader 0 1024) (file_server (replicate 3000 7)) some_location 3000 \<lparr>wbuf = [], wplan = []\<rparr> () =
     Some (None, st) \<and> wbuf (dl_out st) = replicate 3000 7"
  using download_complete [OF some_location_ok, of "replicate 3000 7" "\<lparr>wbuf = [], wplan = []\<rparr>" 0 1024 3000] by auto

text \<open>
  C38. A redirect to a CDN loses the file: when the server redirects every request that announces CDN
  support, the second request, whose \<^verbatim>\<open>CdnSupported\<close> is cleared, still announces it, is redirected
  again, and \<^verbatim>\<open>Download\<close> reports success with nothing written.
\<close>
theorem download_redirect_lost:
  assumes "InputFileLocationClass_ok loc" "UploadFileCdnRedirect_ok redirect" "\<And>s. sv_ctx sv s = None"
    and redirects: "\<And>bs req s. fst (UploadGetFile_Decode (Decoder_New bs)) = Inr req \<Longrightarrow>
      UploadGetFile_CdnSupported req \<Longrightarrow>
      \<exists>s'. sv_call sv bs s = (Inr (UploadFileClass_wire (UploadFileClass_UploadFileCdnRedirect redirect)), s')"
  shows "\<exists>st. Download d sv loc tot w s = Some (None, st) \<and> dl_out st = w"
proof -
  let ?limit = "ucast (dl_chunkSize d) :: int32"
  let ?r = "UploadFileClass_UploadFileCdnRedirect redirect"
  let ?v = "get_request loc 0 ?limit"
  let ?v' = "(fst (UploadGetFile_Encode ?v Encoder_New))\<lparr>UploadGetFile_CdnSupported := False\<rparr>"
  have loc: "InputFileLocationClass_ok (UploadGetFile_Location ?v)" "InputFileLocationClass_ok (UploadGetFile_Location ?v')"
    using assms(1) by (simp_all add: get_request_def UploadGetFile_Encode_eq)
  have cdn: "UploadGetFile_CdnSupported ?v" by (simp add: get_request_def)
  have "UploadGetFile_CdnSupported (UploadGetFile_seen ?v)"
    using cdn by (simp add: UploadGetFile_seen_def bit_flags [simplified])
  then obtain s1 where 1: "sv_call sv (UploadGetFile_wire ?v) s = (Inr (UploadFileClass_wire ?r), s1)"
    using redirects [OF Decode_get_request [OF loc(1)]] by blast
  obtain s2 where 2: "sv_call sv (UploadGetFile_wire ?v') s1 = (Inr (UploadFileClass_wire ?r), s2)"
    using redirects [OF Decode_get_request [OF loc(2)] cdn_flag_sticky [OF cdn]] by blast
  have dec: "fst (DecodeUploadFileClass (Decoder_New (UploadFileClass_wire ?r))) = Inr ?r"
    using decodes_New [OF UploadFileClass.get_wire, of ?r "[]"] assms(2) by simp
  let ?st = "\<lparr>dl_offset = 0, dl_downloaded = 0, dl_out = w, dl_progress = [], dl_env = s\<rparr>"
  have "Download_round sv loc tot ?limit ?st = (Return None, ?st\<lparr>dl_env := s2\<rparr>)"
    using 1 2 dec assms(3) by (simp add: Download_round_def Let_def invoke_get_file_eq flip: get_request_def)
  then show ?thesis unfolding Download_def by (subst Download_loop.simps) simp
qed

text \<open>A server for the witness: it redirects whatever announces CDN support.\<close>

definition some_redirect :: UploadFileCdnRedirect where
  "some_redirect = \<lparr>UploadFileCdnRedirect_DcId = 2, UploadFileCdnRedirect_FileToken = [1],
     UploadFileCdnRedirect_EncryptionKey = [2], UploadFileCdnRedirect_EncryptionIv = [3],
     UploadFileCdnRedirect_FileHashes = []\<rparr>"

definition redirect_server :: "unit service" where
  "redirect_server =
     \<lparr>sv_ctx = (\<lambda>s. None),
      sv_call = (\<lambda>bs s. (case fst (UploadGetFile_Decode (Decoder_New bs)) of
          Inl err \<Rightarrow> Inl err
        | Inr req \<Rightarrow> Inr (if UploadGetFile_CdnSupported req
            then UploadFileClass_wire (UploadFileClass_UploadFileCdnRedirect some_redirect)
            else upload_file_wire 0 [42]), s))\<rparr>"

theorem download_redirect_lost_witness:
  "\<exists>st. Download (NewDownloader 1 0) redirect_server some_location 1 \<lparr>wbuf = [], wplan = []\<rparr> () =
     Some (None, st) \<and> dl_out st = \<lparr>wbuf = [], wplan = []\<rparr>"
  by (rule download_redirect_lost [OF some_location_ok, of some_redirect])
    (simp_all add: redirect_server_def some_redirect_def UploadFileCdnRedirect_ok_def)

text \<open>
  The announced size does not bound a download: with a server that always answers a full part
  the loop never ends, whatever \<^verbatim>\<open>totalSize\<close> is.
\<close>
theorem download_endless:
  assumes "d = NewDownloader workers chunk" "wplan w = []" "\<And>s. sv_ctx sv s = None"
    and full: "\<And>bs s. \<exists>part s'. sv_call sv bs s = (Inr (upload_file_wire 0 part), s') \<and>
      length part = nat (sint (dl_chunkSize d))"
  shows "Download d sv loc tot w s = None"
proof (rule ccontr)
  let ?limit = "ucast (dl_chunkSize d) :: int32"
  let ?st = "\<lparr>dl_offset = 0, dl_downloaded = 0, dl_out = w, dl_progress = [], dl_env = s\<rparr>"
  note lim = limit_NewDownloader [OF assms(1)]
  assume "Download d sv loc tot w s \<noteq> None"
  then obtain r where r: "Download_loop sv loc tot ?limit ?st = Some r" by (auto simp: Download_def)
  have "\<exists>st'. Download_round sv loc tot ?limit st = (Continue, st') \<and> wplan (dl_out st') = []"
    if st: "wplan (dl_out st) = []" for st
  proof -
    obtain part s' where p: "sv_call sv (UploadGetFile_wire (get_request loc (dl_offset st) ?limit)) (dl_env st) =
        (Inr (upload_file_wire 0 part), s')" "length part = nat (sint ?limit)"
      using full lim(3) by metis
    have "0 < length part" "length part < 2 ^ 24" "length part < 2 ^ 31" using p(2) lim(1,2) by simp_all
    then show ?thesis
      using round_served [OF assms(3) p(1)] st p(2) lim(1) by (simp add: save_part_def Let_def sint_of_nat32)
  qed
  from Download_loop_endless [OF r, of "\<lambda>st. wplan (dl_out st) = []", OF this] assms(2) show False by simp
qed

theorem download_endless_witness:
  "Download (NewDownloader 1 1024) \<lparr>sv_ctx = \<lambda>s. None, sv_call = \<lambda>bs s. (Inr (upload_file_wire 0 (replicate 1024 0)), s)\<rparr>
     some_location 10 \<lparr>wbuf = [], wplan = []\<rparr> () = None"
proof (rule download_endless [OF refl])
  have "length (replicate 1024 (0 :: byte)) = nat (sint (dl_chunkSize (NewDownloader 1 1024)))"
    by (simp add: NewDownloader_def CalculateParts_def Let_def)
  then show "\<exists>part s'. sv_call \<lparr>sv_ctx = \<lambda>s. None, sv_call = \<lambda>bs s. (Inr (upload_file_wire 0 (replicate 1024 0)), s)\<rparr>
      bs s = (Inr (upload_file_wire 0 part), s') \<and> length part = nat (sint (dl_chunkSize (NewDownloader 1 1024)))" for bs s
    by (metis service.select_convs(2))
qed simp_all

text \<open>
  \<^verbatim>\<open>CalculateParts\<close>: the chunk size is one the server accepts (a multiple of 1 KB that divides 512 KB), and the
  parts cover the file with none to spare; only within 512 KB of \<open>2 ^ 63\<close> does the arithmetic wrap.
\<close>
theorem calculate_parts_cover:
  assumes "0 < sint tot" "sint tot + 524288 < 2 ^ 63" "CalculateParts tot custom = (c, n)"
  shows "good_chunk c \<and> (good_chunk custom \<longrightarrow> c = custom) \<and>
    (sint n - 1) * sint c < sint tot \<and> sint tot \<le> sint n * sint c"
proof -
  have c: "c = fst (CalculateParts tot custom)" using assms(3) by simp
  then have g: "good_chunk c" "good_chunk custom \<longrightarrow> c = custom"
    using CalculateParts_good [of tot custom] by (auto simp: CalculateParts_chunk)
  have pos: "0 < sint c" using good_chunk_bounds(1) [OF g(1)] by simp
  have n: "sint n = (sint tot + sint c - 1) div sint c" by (rule CalculateParts_count [OF assms])
  define q r where "q = (sint tot + sint c - 1) div sint c" and "r = (sint tot + sint c - 1) mod sint c"
  have "sint tot + sint c - 1 = q * sint c + r" "0 \<le> r" "r < sint c"
    using pos by (simp_all add: q_def r_def)
  then show ?thesis using g n by (auto simp: q_def [symmetric] algebra_simps)
qed

theorem calculate_parts_cover_witness: "CalculateParts 2500 1024 = (1024, 3) \<and> (3 - 1) * 1024 < (2500 :: int)"
proof -
  have "CalculateParts 2500 1024 = (1024, 3)"
    by (simp add: CalculateParts_def Let_def signed_divide_int_def)
  with calculate_parts_cover [of 2500 1024 1024 3] show ?thesis by simp
qed

end
