(* ===== verification/Std_MD5.thy ===== *)
theory Std_MD5
  imports Std_Hash
begin

text \<open>
  \<^verbatim>\<open>crypto/md5\<close> of the standard library, with the \<^verbatim>\<open>%x\<close> verb on its sum: what the uploader uses to
  describe a small file.
\<close>

definition md5_table :: "uint32 list" where
  "md5_table =
     [3614090360, 3905402710, 606105819, 3250441966, 4118548399, 1200080426, 2821735955, 4249261313,
      1770035416, 2336552879, 4294925233, 2304563134, 1804603682, 4254626195, 2792965006, 1236535329,
      4129170786, 3225465664, 643717713, 3921069994, 3593408605, 38016083, 3634488961, 3889429448,
      568446438, 3275163606, 4107603335, 1163531501, 2850285829, 4243563512, 1735328473, 2368359562,
      4294588738, 2272392833, 1839030562, 4259657740, 2763975236, 1272893353, 4139469664, 3200236656,
      681279174, 3936430074, 3572445317, 76029189, 3654602809, 3873151461, 530742520, 3299628645,
      4096336452, 1126891415, 2878612391, 4237533241, 1700485571, 2399980690, 4293915773, 2240044497,
      1873313359, 4264355552, 2734768916, 1309151649, 4149444226, 3174756917, 718787259, 3951481745]"

definition md5_shifts :: "nat list" where
  "md5_shifts = concat (map (\<lambda>row. concat (replicate 4 row))
     [[7, 12, 17, 22], [5, 9, 14, 20], [4, 11, 16, 23], [6, 10, 15, 21]])"

text \<open>The mixing function and the word of the block for each of the four passes.\<close>

definition md5_mix :: "nat \<Rightarrow> uint32 \<Rightarrow> uint32 \<Rightarrow> uint32 \<Rightarrow> uint32" where
  "md5_mix i x y z =
     (if i < 16 then (x AND y) OR (NOT x AND z)
      else if i < 32 then (x AND z) OR (y AND NOT z)
      else if i < 48 then x XOR y XOR z
      else y XOR (x OR NOT z))"

definition md5_word :: "nat \<Rightarrow> nat" where
  "md5_word i =
     (if i < 16 then i
      else if i < 32 then (5 * i + 1) mod 16
      else if i < 48 then (3 * i + 5) mod 16
      else 7 * i mod 16)"

type_synonym md5_state = "uint32 \<times> uint32 \<times> uint32 \<times> uint32"

definition md5_step :: "uint32 list \<Rightarrow> nat \<Rightarrow> md5_state \<Rightarrow> md5_state" where
  "md5_step ws i = (\<lambda>(a, b, c, d).
     (d, b + rotl32 (md5_shifts ! i) (a + md5_mix i b c d + md5_table ! i + ws ! md5_word i), b, c))"

definition md5_block :: "bytes \<Rightarrow> md5_state \<Rightarrow> md5_state" where
  "md5_block bs st =
     (let ws = map (\<lambda>i. le_get (slice_of bs (4 * i) (4 * i + 4))) [0..<16]
      in case (st, fold (md5_step ws) [0..<64] st) of
           ((a, b, c, d), (a', b', c', d')) \<Rightarrow> (a + a', b + b', c + c', d + d'))"

definition md5_Sum :: "bytes \<Rightarrow> bytes" where
  "md5_Sum bs =
     (case fold md5_block (md_blocks (le_put 8) bs) (1732584193, 4023233417, 2562383102, 271733878) of
        (a, b, c, d) \<Rightarrow> le_put 4 a @ le_put 4 b @ le_put 4 c @ le_put 4 d)"

definition fmt_hex_bytes :: "bytes \<Rightarrow> string" where
  "fmt_hex_bytes bs = concat (map (\<lambda>b. fmt_hex 2 (unat b)) bs)"

lemma length_md5_Sum [simp]: "length (md5_Sum bs) = 16"
  by (simp add: md5_Sum_def split: prod.split)

lemma length_fmt_hex [simp]: "length (fmt_hex n v) = n"
  by (induction n v rule: fmt_hex.induct) simp_all

lemma length_fmt_hex_bytes: "length (fmt_hex_bytes bs) = 2 * length bs"
  by (induction bs) (simp_all add: fmt_hex_bytes_def)

lemma md5_check: "fmt_hex_bytes (md5_Sum [97, 98, 99]) = ''900150983cd24fb0d6963f7d28e17f72''"
  by code_simp

end
