(* ===== verification/Upload.thy ===== *)
theory Upload
  imports Download Std_MD5 "HOL-Library.Multiset"
begin

text \<open>
  \<^verbatim>\<open>transfer/uploader.go\<close>: one producer that reads the file and \<^verbatim>\<open>workers\<close> goroutines that send its parts.  The
  state holds the shared variables and channels and a program counter for each goroutine;
  the functions \<open>main_step\<close> and \<open>worker_step\<close> run one goroutine to its next interaction and are \<open>None\<close>
  when it is blocked, and \<open>upload_step\<close> interleaves them.  The answers of \<^verbatim>\<open>conn.Invoke\<close> come from the
  environment.
\<close>

section \<open>The code\<close>

record Uploader =
  ul_workers :: int64
  ul_chunkSize :: int64

definition NewUploader :: "int64 \<Rightarrow> int64 \<Rightarrow> Uploader" where
  "NewUploader workers chunkSize =
     (case CalculateParts 1 chunkSize of (cSize, _) \<Rightarrow>
        \<lparr>ul_workers = (if sint workers \<le> 0 then 4 else workers), ul_chunkSize = cSize\<rparr>)"

text \<open>The job of a worker: the index of the part and its bytes.\<close>

type_synonym uploadPartJob = "nat \<times> bytes"

text \<open>What the goroutines of one call share and never change.\<close>

record up_call =
  up_workers :: nat
  up_fileID :: int64
  up_chunk :: nat
  up_totalParts :: int64
  up_isBig :: bool
  up_size :: int64
  up_name :: string

datatype part_request = BigPart UploadSaveBigFilePart | SmallPart UploadSaveFilePart

definition part_request :: "up_call \<Rightarrow> uploadPartJob \<Rightarrow> part_request" where
  "part_request p job =
     (if up_isBig p then
        BigPart \<lparr>UploadSaveBigFilePart_FileId = up_fileID p, UploadSaveBigFilePart_FilePart = of_nat (fst job),
                 UploadSaveBigFilePart_FileTotalParts = ucast (up_totalParts p),
                 UploadSaveBigFilePart_Bytes = snd job\<rparr>
      else
        SmallPart \<lparr>UploadSaveFilePart_FileId = up_fileID p, UploadSaveFilePart_FilePart = of_nat (fst job),
                   UploadSaveFilePart_Bytes = snd job\<rparr>)"

text \<open>
  A worker is at \<^verbatim>\<open>range jobs\<close>, has a job and is at the check of the context, is in \<^verbatim>\<open>Invoke\<close>, or has
  returned; the flag says whether it returned because the channel was closed and drained.
\<close>

datatype worker_pc = WNext | WHas uploadPartJob | WCall uploadPartJob | WDone bool

text \<open>
  The producer reads, is at the \<^verbatim>\<open>select\<close> with a chunk and the error of the read, is about to close the
  channel, waits for the workers, or has returned.
\<close>

datatype main_pc = MRead | MSelect bytes "goerror option" | MClose | MWait | MDone "goerror + InputFileClass"

record upload =
  u_reader :: reader
  u_main :: main_pc
  u_workers :: "worker_pc list"
  u_jobs :: "uploadPartJob list"
  u_closed :: bool
  u_errs :: "goerror list"
  u_partIdx :: nat
  u_readErr :: "goerror option"
  u_hashed :: bytes
  u_uploaded :: int64
  u_progress :: "(int64 \<times> int64) list"
  u_stored :: "part_request list"
  u_ctx :: "goerror option"

text \<open>\<^verbatim>\<open>io.ReadFull\<close> with the bytes it read before an error.\<close>

definition ReadFull_partial :: "nat \<Rightarrow> reader \<Rightarrow> bytes \<times> goerror option \<times> reader" where
  "ReadFull_partial n r =
     (take n (rin r),
      if n \<le> length (rin r) then None
      else if rin r \<noteq> [] \<and> rerr r = IoEOF then Some IoUnexpectedEOF else Some (rerr r),
      r\<lparr>rin := drop n (rin r)\<rparr>)"

text \<open>\<^verbatim>\<open>Upload\<close> up to the loops: the parameters and the first state.\<close>

definition Upload_start ::
  "Uploader \<Rightarrow> entropy \<Rightarrow> string \<Rightarrow> reader \<Rightarrow> int64 \<Rightarrow> goerror + up_call \<times> upload" where
  "Upload_start ul rnd name r sz =
     (case rnd 8 of
        Inl err \<Rightarrow> Inl err
      | Inr fileIDBytes \<Rightarrow>
          (case CalculateParts sz (ul_chunkSize ul) of (chunkSize, totalParts) \<Rightarrow>
             Inr (\<lparr>up_workers = nat (sint (ul_workers ul)), up_fileID = le_get fileIDBytes,
                   up_chunk = nat (sint chunkSize), up_totalParts = totalParts,
                   up_isBig = (sint sz > sint BigFileThreshold), up_size = sz, up_name = name\<rparr>,
                  \<lparr>u_reader = r, u_main = MRead, u_workers = replicate (nat (sint (ul_workers ul))) WNext,
                   u_jobs = [], u_closed = False, u_errs = [], u_partIdx = 0, u_readErr = None,
                   u_hashed = [], u_uploaded = 0, u_progress = [], u_stored = [], u_ctx = None\<rparr>)))"

definition worker_step ::
  "up_call \<Rightarrow> goerror + bytes \<Rightarrow> worker_pc \<Rightarrow> upload \<Rightarrow> (worker_pc \<times> upload) option" where
  "worker_step p answer pc u =
     (case pc of
        WNext \<Rightarrow>
          (case u_jobs u of
             job # rest \<Rightarrow> Some (WHas job, u\<lparr>u_jobs := rest\<rparr>)
           | [] \<Rightarrow> if u_closed u then Some (WDone True, u) else None)
      | WHas job \<Rightarrow>
          (case u_ctx u of Some err \<Rightarrow> Some (WDone False, u) | None \<Rightarrow> Some (WCall job, u))
      | WCall job \<Rightarrow>
          (case answer of
             Inl err \<Rightarrow> Some (WDone False, u\<lparr>u_errs := (if u_errs u = [] then [err] else u_errs u)\<rparr>)
           | Inr _ \<Rightarrow>
               let newTotal = u_uploaded u + of_nat (length (snd job)) in
               Some (WNext, u\<lparr>u_uploaded := newTotal, u_progress := u_progress u @ [(newTotal, up_size p)],
                              u_stored := part_request p job # u_stored u\<rparr>))
      | WDone _ \<Rightarrow> None)"

text \<open>The end of a pass through the loop of the producer, with the error of the read.\<close>

definition after_read :: "goerror option \<Rightarrow> upload \<Rightarrow> upload" where
  "after_read err u =
     (case err of
        None \<Rightarrow> u\<lparr>u_main := MRead\<rparr>
      | Some e \<Rightarrow>
          (if e \<noteq> IoEOF \<and> e \<noteq> IoUnexpectedEOF then u\<lparr>u_readErr := Some e, u_main := MClose\<rparr>
           else u\<lparr>u_main := MClose\<rparr>))"

definition upload_result :: "up_call \<Rightarrow> upload \<Rightarrow> goerror + InputFileClass" where
  "upload_result p u =
     (case u_readErr u of
        Some err \<Rightarrow> Inl err
      | None \<Rightarrow>
          (case u_errs u of
             err # _ \<Rightarrow> Inl err
           | [] \<Rightarrow>
               Inr (if up_isBig p then
                      InputFileClass_InputFileBig
                        \<lparr>InputFileBig_Id = up_fileID p, InputFileBig_Parts = of_nat (u_partIdx u),
                         InputFileBig_Name = up_name p\<rparr>
                    else
                      InputFileClass_InputFile
                        \<lparr>InputFile_Id = up_fileID p, InputFile_Parts = of_nat (u_partIdx u),
                         InputFile_Name = up_name p,
                         InputFile_Md5Checksum = fmt_hex_bytes (md5_Sum (u_hashed u))\<rparr>)))"

text \<open>The cases of the \<^verbatim>\<open>select\<close>: one that is not ready cannot be chosen.\<close>

datatype choice = ChooseCtx | ChooseErr | ChooseSend

definition worker_done :: "worker_pc \<Rightarrow> bool" where
  "worker_done w = (case w of WDone _ \<Rightarrow> True | _ \<Rightarrow> False)"

definition main_step :: "up_call \<Rightarrow> choice \<Rightarrow> upload \<Rightarrow> upload option" where
  "main_step p choice u =
     (case u_main u of
        MRead \<Rightarrow>
          (case ReadFull_partial (up_chunk p) (u_reader u) of (chunk, err, r) \<Rightarrow>
             let u = u\<lparr>u_reader := r\<rparr> in
             if chunk \<noteq> [] then
               Some (u\<lparr>u_main := MSelect chunk err,
                       u_hashed := (if up_isBig p then u_hashed u else u_hashed u @ chunk)\<rparr>)
             else Some (after_read err u))
      | MSelect chunk err \<Rightarrow>
          (case choice of
             ChooseCtx \<Rightarrow>
               (case u_ctx u of
                  None \<Rightarrow> None | Some e \<Rightarrow> Some (after_read err (u\<lparr>u_readErr := Some e\<rparr>)))
           | ChooseErr \<Rightarrow>
               (case u_errs u of
                  [] \<Rightarrow> None | e # rest \<Rightarrow> Some (after_read err (u\<lparr>u_readErr := Some e, u_errs := rest\<rparr>)))
           | ChooseSend \<Rightarrow>
               (if length (u_jobs u) < up_workers p then
                  Some (after_read err (u\<lparr>u_jobs := u_jobs u @ [(u_partIdx u, chunk)], u_partIdx := u_partIdx u + 1\<rparr>))
                else None))
      | MClose \<Rightarrow> Some (u\<lparr>u_closed := True, u_main := MWait\<rparr>)
      | MWait \<Rightarrow>
          if list_all worker_done (u_workers u) then Some (u\<lparr>u_main := MDone (upload_result p u)\<rparr>) else None
      | MDone _ \<Rightarrow> None)"

section \<open>Interleaving\<close>

inductive upload_step :: "up_call \<Rightarrow> upload \<Rightarrow> upload \<Rightarrow> bool" for p where
  main: "main_step p choice u = Some u' \<Longrightarrow> upload_step p u u'"
| worker: "i < length (u_workers u) \<Longrightarrow> worker_step p answer (u_workers u ! i) u = Some (pc, u') \<Longrightarrow>
    upload_step p u (u'\<lparr>u_workers := (u_workers u)[i := pc]\<rparr>)"
| cancel: "u_ctx u = None \<Longrightarrow> upload_step p u (u\<lparr>u_ctx := Some err\<rparr>)"

inductive upload_reachable :: "Uploader \<Rightarrow> string \<Rightarrow> reader \<Rightarrow> int64 \<Rightarrow> up_call \<Rightarrow> upload \<Rightarrow> bool"
  for ul name r sz where
  start: "Upload_start ul rnd name r sz = Inr (p, u) \<Longrightarrow> upload_reachable ul name r sz p u"
| step: "upload_reachable ul name r sz p u \<Longrightarrow> upload_step p u u' \<Longrightarrow> upload_reachable ul name r sz p u'"

section \<open>The invariant\<close>

text \<open>The parts of a file: full chunks and a last one that may be shorter.\<close>

function split_parts :: "nat \<Rightarrow> bytes \<Rightarrow> bytes list" where
  "split_parts c bs = (if bs = [] \<or> c = 0 then [] else take c bs # split_parts c (drop c bs))"
  by auto
termination by (relation "measure (\<lambda>(c, bs). length bs)") auto

declare split_parts.simps [simp del]

lemma split_parts_simps [simp]:
  "split_parts c [] = []"
  "0 < c \<Longrightarrow> bs \<noteq> [] \<Longrightarrow> split_parts c bs = take c bs # split_parts c (drop c bs)"
  by (simp_all add: split_parts.simps)

lemma concat_split_parts: "0 < c \<Longrightarrow> concat (split_parts c bs) = bs"
proof (induction c bs rule: split_parts.induct)
  case (1 c bs)
  then show ?case by (cases "bs = []") simp_all
qed

lemma split_parts_sizes:
  assumes "0 < c"
  shows "\<forall>i < length (split_parts c bs). length (split_parts c bs ! i) \<le> c \<and> split_parts c bs ! i \<noteq> [] \<and>
    (Suc i < length (split_parts c bs) \<longrightarrow> length (split_parts c bs ! i) = c)"
  using assms
proof (induction c bs rule: split_parts.induct)
  case (1 c bs)
  show ?case
  proof (cases "bs = []")
    case False
    have "length (take c bs) = c" if "split_parts c (drop c bs) \<noteq> []"
      using that by (cases "drop c bs = []") auto
    then show ?thesis using 1 False by (auto simp: nth_Cons less_Suc_eq_0_disj split: nat.split)
  qed simp
qed

definition worker_job :: "worker_pc \<Rightarrow> uploadPartJob list" where
  "worker_job w = (case w of WHas job \<Rightarrow> [job] | WCall job \<Rightarrow> [job] | _ \<Rightarrow> [])"

lemma worker_job_simps [simp]:
  "worker_job WNext = []" "worker_job (WHas j) = [j]" "worker_job (WCall j) = [j]" "worker_job (WDone b) = []"
  by (simp_all add: worker_job_def)

lemma worker_done_simps [simp]:
  "\<not> worker_done WNext" "\<not> worker_done (WHas j)" "\<not> worker_done (WCall j)" "worker_done (WDone b)"
  by (simp_all add: worker_done_def)

definition flagged :: "upload \<Rightarrow> bool" where
  "flagged u \<longleftrightarrow> u_readErr u \<noteq> None \<or> u_errs u \<noteq> [] \<or> u_ctx u \<noteq> None"

text \<open>Every part that was handed out is in the channel, with a worker, or stored.\<close>

definition in_hand :: "worker_pc list \<Rightarrow> uploadPartJob multiset" where
  "in_hand ws = \<Sum>\<^sub># (mset (map (mset \<circ> worker_job) ws))"

definition accounted :: "up_call \<Rightarrow> bytes list \<Rightarrow> upload \<Rightarrow> bool" where
  "accounted p ds u \<longleftrightarrow> u_partIdx u = length ds \<and>
     image_mset (part_request p) (mset (u_jobs u) + in_hand (u_workers u)) + mset (u_stored u) =
     mset (map (part_request p) (enumerate 0 ds))"

definition read_so_far :: "up_call \<Rightarrow> bytes \<Rightarrow> bytes list \<Rightarrow> upload \<Rightarrow> bool" where
  "read_so_far p content ds u \<longleftrightarrow>
     (case u_main u of
        MRead \<Rightarrow> ds @ split_parts (up_chunk p) (rin (u_reader u)) = split_parts (up_chunk p) content \<and>
          (\<not> up_isBig p \<longrightarrow> u_hashed u = concat ds)
      | MSelect chunk err \<Rightarrow>
          ds @ chunk # split_parts (up_chunk p) (rin (u_reader u)) = split_parts (up_chunk p) content \<and>
          (\<not> up_isBig p \<longrightarrow> u_hashed u = concat ds @ chunk) \<and> (err = None \<or> rin (u_reader u) = [])
      | _ \<Rightarrow> ds = split_parts (up_chunk p) content \<and> (\<not> up_isBig p \<longrightarrow> u_hashed u = concat ds))"

definition closing :: "main_pc \<Rightarrow> bool" where
  "closing m = (case m of MWait \<Rightarrow> True | MDone _ \<Rightarrow> True | _ \<Rightarrow> False)"

definition upload_inv :: "up_call \<Rightarrow> bytes \<Rightarrow> upload \<Rightarrow> bool" where
  "upload_inv p content u \<longleftrightarrow>
     0 < up_chunk p \<and> 0 < up_workers p \<and> length (u_workers u) = up_workers p \<and>
     (\<not> flagged u \<longrightarrow> (\<exists>ds. accounted p ds u \<and> read_so_far p content ds u)) \<and>
     (WDone True \<in> set (u_workers u) \<longrightarrow> u_closed u \<and> u_jobs u = []) \<and>
     (WDone False \<in> set (u_workers u) \<longrightarrow> flagged u) \<and>
     (u_closed u \<longleftrightarrow> closing (u_main u)) \<and>
     (\<forall>r. u_main u = MDone r \<longrightarrow> list_all worker_done (u_workers u) \<and> r = upload_result p u)"

lemma in_hand_simps [simp]:
  "in_hand [] = {#}" "in_hand (w # ws) = mset (worker_job w) + in_hand ws" "in_hand (xs @ ys) = in_hand xs + in_hand ys"
  by (simp_all add: in_hand_def)

lemma in_hand_update:
  assumes "i < length ws"
  shows "in_hand (ws[i := w]) + mset (worker_job (ws ! i)) = in_hand ws + mset (worker_job w)"
proof -
  have "in_hand ws = in_hand (take i ws @ ws ! i # drop (Suc i) ws)"
    using id_take_nth_drop [OF assms] by simp
  then show ?thesis using assms by (simp add: upd_conv_take_nth_drop)
qed

lemma in_hand_new [simp]: "in_hand (replicate n WNext) = {#}"
  by (induction n) simp_all

lemma in_hand_done: "list_all worker_done ws \<Longrightarrow> in_hand ws = {#}"
  by (induction ws) (auto simp: worker_done_def split: worker_pc.splits)

text \<open>A step of a worker that loses nothing keeps the account.\<close>

lemma accounted_worker:
  assumes "accounted p ds u" "i < length (u_workers u)" "u_partIdx u' = u_partIdx u"
    and eq: "image_mset (part_request p) (mset (u_jobs u') + mset (worker_job pc)) + mset (u_stored u') =
      image_mset (part_request p) (mset (u_jobs u) + mset (worker_job (u_workers u ! i))) + mset (u_stored u)"
  shows "accounted p ds (u'\<lparr>u_workers := (u_workers u)[i := pc]\<rparr>)"
proof -
  let ?f = "image_mset (part_request p)" and ?old = "mset (worker_job (u_workers u ! i))"
  have "?f (in_hand ((u_workers u)[i := pc])) + ?f ?old = ?f (in_hand (u_workers u)) + ?f (mset (worker_job pc))"
    unfolding image_mset_union [symmetric] by (simp only: in_hand_update [OF assms(2)])
  moreover have "?f (mset (u_jobs u')) + ?f (mset (worker_job pc)) + mset (u_stored u') =
      ?f (mset (u_jobs u)) + ?f ?old + mset (u_stored u)" using eq by simp
  ultimately have "?f (mset (u_jobs u')) + ?f (in_hand ((u_workers u)[i := pc])) + mset (u_stored u') + ?f ?old =
      ?f (mset (u_jobs u)) + ?f (in_hand (u_workers u)) + mset (u_stored u) + ?f ?old"
    by (smt (verit) union_assoc union_commute)
  then show ?thesis using assms(1,3) by (simp add: accounted_def)
qed

lemma done_set: "list_all worker_done ws \<Longrightarrow> w \<in> set ws \<Longrightarrow> \<exists>b. w = WDone b"
  by (induction ws) (auto simp: worker_done_def split: worker_pc.splits)

lemma worker_not_done:
  assumes "worker_step p answer (u_workers u ! i) u = Some r" "i < length (u_workers u)"
  shows "\<not> list_all worker_done (u_workers u)"
  using assms by (auto simp: list_all_length worker_step_def worker_done_def split: worker_pc.splits)

lemma upload_inv_worker:
  assumes inv: "upload_inv p content u" and i: "i < length (u_workers u)"
    and st: "worker_step p answer (u_workers u ! i) u = Some (pc, u')"
  shows "upload_inv p content (u'\<lparr>u_workers := (u_workers u)[i := pc]\<rparr>)" (is "upload_inv p content ?u")
proof -
  let ?w = "u_workers u ! i"
  have same: "u_main u' = u_main u" "u_closed u' = u_closed u" "u_partIdx u' = u_partIdx u" "u_readErr u' = u_readErr u"
      "u_hashed u' = u_hashed u" "u_reader u' = u_reader u" "u_ctx u' = u_ctx u"
      "u_errs u \<noteq> [] \<Longrightarrow> u_errs u' \<noteq> []"
    using st by (auto simp: worker_step_def Let_def split: worker_pc.splits list.splits option.splits sum.splits if_splits)
  have fl: "flagged u \<Longrightarrow> flagged ?u" using same by (auto simp: flagged_def)
  have w: "pc = WDone False \<Longrightarrow> flagged ?u" "pc = WDone True \<Longrightarrow> u_closed u \<and> u_jobs u = []" "u_jobs u = [] \<Longrightarrow> u_jobs u' = []"
    using st by (auto simp: worker_step_def flagged_def Let_def
        split: worker_pc.splits list.splits option.splits sum.splits if_splits)
  have nd: "\<not> list_all worker_done (u_workers u)" by (rule worker_not_done [OF st i])
  have account: "\<exists>ds. accounted p ds ?u \<and> read_so_far p content ds ?u" if nf: "\<not> flagged ?u"
  proof -
    obtain ds where ds: "accounted p ds u" "read_so_far p content ds u"
      using inv nf fl by (auto simp: upload_inv_def)
    have "pc \<noteq> WDone False" using w(1) nf by blast
    then have "image_mset (part_request p) (mset (u_jobs u') + mset (worker_job pc)) + mset (u_stored u') =
        image_mset (part_request p) (mset (u_jobs u) + mset (worker_job ?w)) + mset (u_stored u)"
      using st by (auto simp: worker_step_def Let_def split: worker_pc.splits list.splits option.splits sum.splits if_splits)
    from accounted_worker [OF ds(1) i same(3) this] have "accounted p ds ?u" .
    moreover have "read_so_far p content ds ?u" using ds(2) same by (auto simp: read_so_far_def split: main_pc.splits)
    ultimately show ?thesis by blast
  qed
  have "WDone True \<in> set ((u_workers u)[i := pc]) \<Longrightarrow> u_closed u' \<and> u_jobs u' = []"
    using set_update_subset_insert [of "u_workers u" i pc] inv w same(2) by (auto simp: upload_inv_def)
  moreover have "WDone False \<in> set ((u_workers u)[i := pc]) \<Longrightarrow> flagged ?u"
    using set_update_subset_insert [of "u_workers u" i pc] inv w(1) fl by (auto simp: upload_inv_def)
  ultimately show ?thesis
    using inv account nd same(1,2) by (auto simp: upload_inv_def)
qed

lemma flagged_after_read: "flagged u \<Longrightarrow> flagged (after_read err u)"
  by (auto simp: flagged_def after_read_def split: option.split)

lemma after_read_same:
  "u_workers (after_read err u) = u_workers u" "u_jobs (after_read err u) = u_jobs u"
  "u_closed (after_read err u) = u_closed u" "u_stored (after_read err u) = u_stored u"
  "u_partIdx (after_read err u) = u_partIdx u" "\<not> closing (u_main (after_read err u))"
  "u_errs (after_read err u) = u_errs u" "u_ctx (after_read err u) = u_ctx u"
  "u_main (after_read err u) \<noteq> MDone r"
  by (simp_all add: after_read_def closing_def split: option.split)

text \<open>What a pass of the producer has to keep.\<close>

lemma upload_inv_pass:
  assumes inv: "upload_inv p content u" and "u_main u = MRead \<or> (\<exists>chunk e. u_main u = MSelect chunk e)"
    and v: "u_workers v = u_workers u" "u_closed v = u_closed u" "flagged u \<Longrightarrow> flagged v"
      "\<not> flagged (after_read err v) \<Longrightarrow> \<exists>ds. accounted p ds v \<and> read_so_far p content ds (after_read err v)"
  shows "upload_inv p content (after_read err v)"
proof -
  have nc: "\<not> u_closed u" using inv assms(2) by (auto simp: upload_inv_def closing_def)
  then have "WDone True \<notin> set (u_workers u)" using inv by (auto simp: upload_inv_def)
  moreover have "accounted p ds (after_read err v) = accounted p ds v" for ds
    by (simp add: accounted_def after_read_same)
  ultimately show ?thesis
    using inv v nc flagged_after_read [of v err] by (auto simp: upload_inv_def after_read_same)
qed

lemma upload_inv_read:
  assumes inv: "upload_inv p content u" and m: "u_main u = MRead" and st: "main_step p choice u = Some u'"
  shows "upload_inv p content u'"
proof -
  let ?c = "up_chunk p" and ?in = "rin (u_reader u)"
  obtain chunk err r where rd: "ReadFull_partial ?c (u_reader u) = (chunk, err, r)" by (metis prod_cases3)
  have c: "0 < ?c" using inv by (simp add: upload_inv_def)
  have r: "chunk = take ?c ?in" "rin r = drop ?c ?in" "err = None \<or> drop ?c ?in = []"
    using rd by (auto simp: ReadFull_partial_def split: if_splits)
  have ds: "\<exists>ds. accounted p ds u \<and> ds @ split_parts ?c ?in = split_parts ?c content \<and>
      (\<not> up_isBig p \<longrightarrow> u_hashed u = concat ds)" if "\<not> flagged u"
    using inv that m by (auto simp: upload_inv_def read_so_far_def)
  show ?thesis
  proof (cases "chunk = []")
    case True
    then have e: "?in = []" "err = Some (rerr (u_reader u))"
      using r c rd by (auto simp: ReadFull_partial_def split: if_splits)
    have u': "u' = after_read err (u\<lparr>u_reader := r\<rparr>)" using st m rd True by (simp add: main_step_def Let_def)
    show ?thesis
      unfolding u'
      by (rule upload_inv_pass [OF inv])
        (use m ds e in \<open>auto simp: flagged_def after_read_def read_so_far_def accounted_def split: if_splits\<close>)
  next
    case False
    have u': "u' = u\<lparr>u_reader := r, u_main := MSelect chunk err,
        u_hashed := (if up_isBig p then u_hashed u else u_hashed u @ chunk)\<rparr>"
      using st m rd False by (auto simp: main_step_def Let_def)
    have "split_parts ?c ?in = chunk # split_parts ?c (rin r)" using r False c by auto
    then show ?thesis
      using inv ds r(2,3) m
      by (auto simp: u' upload_inv_def closing_def flagged_def accounted_def read_so_far_def)
  qed
qed

lemma upload_inv_select:
  assumes inv: "upload_inv p content u" and m: "u_main u = MSelect chunk err" and st: "main_step p choice u = Some u'"
  shows "upload_inv p content u'"
proof (cases "choice = ChooseSend")
  case True
  let ?v = "u\<lparr>u_jobs := u_jobs u @ [(u_partIdx u, chunk)], u_partIdx := u_partIdx u + 1\<rparr>"
  have u': "u' = after_read err ?v" using st m True by (auto simp: main_step_def split: if_splits)
  have "\<exists>ds. accounted p ds ?v \<and> read_so_far p content ds (after_read err ?v)" if "\<not> flagged (after_read err ?v)"
  proof -
    have "flagged ?v = flagged u" by (simp add: flagged_def)
    with that flagged_after_read [of ?v err] have "\<not> flagged u" by blast
    then obtain ds where ds: "accounted p ds u" "read_so_far p content ds u"
      using inv by (auto simp: upload_inv_def)
    have "accounted p (ds @ [chunk]) ?v"
      using ds(1) by (simp add: accounted_def enumerate_append_eq add.assoc)
    moreover have "read_so_far p content (ds @ [chunk]) (after_read err ?v)"
      using ds(2) m by (auto simp: read_so_far_def after_read_def split: option.split)
    ultimately show ?thesis by blast
  qed
  then show ?thesis
    unfolding u' by (intro upload_inv_pass [OF inv]) (use m in \<open>auto simp: flagged_def\<close>)
next
  case False
  obtain e rest where u': "u' = after_read err (u\<lparr>u_readErr := Some e, u_errs := rest\<rparr>)"
  proof (cases choice)
    case ChooseCtx
    then obtain e where "u' = after_read err (u\<lparr>u_readErr := Some e\<rparr>)"
      using st m by (auto simp: main_step_def split: option.splits)
    then show thesis using that [of "u_errs u" e] by simp
  next
    case ChooseErr
    then obtain e rest where "u' = after_read err (u\<lparr>u_readErr := Some e, u_errs := rest\<rparr>)"
      using st m by (auto simp: main_step_def split: list.splits)
    then show thesis by (rule that)
  qed (use False in simp)
  have "flagged (after_read err (u\<lparr>u_readErr := Some e, u_errs := rest\<rparr>))"
    by (rule flagged_after_read) (simp add: flagged_def)
  then show ?thesis
    unfolding u' by (intro upload_inv_pass [OF inv]) (use m in \<open>auto simp: flagged_def\<close>)
qed

lemma upload_result_main [simp]:
  "upload_result p (u\<lparr>u_main := m\<rparr>) = upload_result p u" "upload_result p (u\<lparr>u_ctx := c\<rparr>) = upload_result p u"
  by (simp_all add: upload_result_def split: option.split list.split)

lemma upload_inv_step:
  assumes "upload_step p u u'" "upload_inv p content u"
  shows "upload_inv p content u'"
  using assms
proof (induction rule: upload_step.induct)
  case (main choice u u')
  show ?case
  proof (cases "u_main u")
    case MClose
    then have u': "u' = u\<lparr>u_closed := True, u_main := MWait\<rparr>" using main.hyps by (simp add: main_step_def)
    have "flagged u' = flagged u" "accounted p ds u' = accounted p ds u" for ds
      by (simp_all add: u' flagged_def accounted_def)
    moreover have "read_so_far p content ds u' = read_so_far p content ds u" for ds
      by (simp add: u' MClose read_so_far_def)
    ultimately show ?thesis using main.prems MClose by (auto simp: upload_inv_def u' closing_def)
  next
    case MWait
    then have u': "u' = u\<lparr>u_main := MDone (upload_result p u)\<rparr>" "list_all worker_done (u_workers u)"
      using main.hyps by (simp_all add: main_step_def split: if_splits)
    have "flagged u' = flagged u" "accounted p ds u' = accounted p ds u" "upload_result p u' = upload_result p u" for ds
      by (simp_all add: u'(1) flagged_def accounted_def)
    moreover have "read_so_far p content ds u' = read_so_far p content ds u" for ds
      by (simp add: u'(1) MWait read_so_far_def)
    ultimately show ?thesis using main.prems MWait u'(2) by (auto simp: upload_inv_def u'(1) closing_def)
  next
    case MRead
    show ?thesis by (rule upload_inv_read [OF main.prems MRead main.hyps])
  next
    case (MSelect chunk err)
    show ?thesis by (rule upload_inv_select [OF main.prems MSelect main.hyps])
  qed (use main.hyps in \<open>simp add: main_step_def\<close>)
next
  case (cancel u err)
  then show ?case
    by (auto simp: upload_inv_def flagged_def)
qed (rule upload_inv_worker)

lemma upload_start_inv:
  assumes "Upload_start (NewUploader workers chunk) rnd name r sz = Inr (p, u)"
  shows "upload_inv p (rin r) u"
proof -
  obtain c n where c: "CalculateParts sz (ul_chunkSize (NewUploader workers chunk)) = (c, n)" by fastforce
  then have "0 < sint c"
    using good_chunk_bounds(1) [OF CalculateParts_good, of sz "ul_chunkSize (NewUploader workers chunk)"] by simp
  moreover have "0 < sint (ul_workers (NewUploader workers chunk))"
    by (simp add: NewUploader_def case_prod_beta)
  ultimately show ?thesis
    using assms c
    by (auto simp: Upload_start_def upload_inv_def flagged_def accounted_def read_so_far_def closing_def
        split: sum.splits)
qed

lemma upload_reachable_inv:
  "upload_reachable (NewUploader workers chunk) name r sz p u \<Longrightarrow> upload_inv p (rin r) u"
  by (induction rule: upload_reachable.induct) (auto intro: upload_start_inv upload_inv_step)

lemma main_step_read:
  assumes "u_main u = MRead"
  shows "\<exists>u'. main_step p choice u = Some u' \<and> u_ctx u' = u_ctx u"
proof -
  obtain chunk err r where "ReadFull_partial (up_chunk p) (u_reader u) = (chunk, err, r)" by (metis prod_cases3)
  then show ?thesis
    using assms by (cases "chunk = []") (simp_all add: main_step_def Let_def after_read_same)
qed

section \<open>Properties\<close>

text \<open>
  C11. An upload that reports success, and whose context was not cancelled, has stored the file: the
  requests that were answered are, in some order, exactly one for each part with its index, the
  parts in order are the content of the reader, and the description returned has their number and, for a
  small file, the MD5 sum of the content.
\<close>
theorem upload_success_complete:
  assumes "upload_reachable (NewUploader workers chunk) name r sz p u" "u_main u = MDone (Inr f)" "u_ctx u = None"
  shows "\<exists>parts. mset (u_stored u) = mset (map (part_request p) (enumerate 0 parts)) \<and> concat parts = rin r \<and>
    (\<forall>i < length parts. length (parts ! i) \<le> up_chunk p \<and> (Suc i < length parts \<longrightarrow> length (parts ! i) = up_chunk p)) \<and>
    f = (if up_isBig p then
           InputFileClass_InputFileBig \<lparr>InputFileBig_Id = up_fileID p, InputFileBig_Parts = of_nat (length parts),
             InputFileBig_Name = up_name p\<rparr>
         else
           InputFileClass_InputFile \<lparr>InputFile_Id = up_fileID p, InputFile_Parts = of_nat (length parts),
             InputFile_Name = up_name p, InputFile_Md5Checksum = fmt_hex_bytes (md5_Sum (rin r))\<rparr>)"
proof -
  have inv: "upload_inv p (rin r) u" by (rule upload_reachable_inv [OF assms(1)])
  have res: "upload_result p u = Inr f" and wd: "list_all worker_done (u_workers u)"
    using inv assms(2) by (auto simp: upload_inv_def)
  have nf: "\<not> flagged u"
    using res assms(3) by (auto simp: flagged_def upload_result_def split: option.splits list.splits)
  have c: "0 < up_chunk p" "u_workers u \<noteq> []" using inv by (auto simp: upload_inv_def)
  then obtain b where "WDone b \<in> set (u_workers u)"
    using done_set [OF wd hd_in_set] hd_in_set by metis
  then have jobs: "u_jobs u = []" using inv nf by (cases b) (auto simp: upload_inv_def)
  let ?parts = "split_parts (up_chunk p) (rin r)"
  have "accounted p ?parts u" and hash: "\<not> up_isBig p \<longrightarrow> u_hashed u = concat ?parts"
    using inv nf assms(2) by (auto simp: upload_inv_def read_so_far_def)
  then have "mset (u_stored u) = mset (map (part_request p) (enumerate 0 ?parts))" "u_partIdx u = length ?parts"
    using jobs in_hand_done [OF wd] by (simp_all add: accounted_def)
  moreover have "concat ?parts = rin r" by (rule concat_split_parts [OF c(1)])
  moreover from this have "f = (if up_isBig p then
           InputFileClass_InputFileBig \<lparr>InputFileBig_Id = up_fileID p, InputFileBig_Parts = of_nat (length ?parts),
             InputFileBig_Name = up_name p\<rparr>
         else
           InputFileClass_InputFile \<lparr>InputFile_Id = up_fileID p, InputFile_Parts = of_nat (length ?parts),
             InputFile_Name = up_name p, InputFile_Md5Checksum = fmt_hex_bytes (md5_Sum (rin r))\<rparr>)"
    using res hash calculation(2) by (auto simp: upload_result_def split: option.splits list.splits if_splits)
  ultimately show ?thesis using split_parts_sizes [OF c(1), of "rin r"] by blast
qed

text \<open>
  While a worker is running the upload never gets stuck: in every reachable state that is not
  the end some goroutine can take a step without a cancellation.
\<close>
theorem upload_progress:
  assumes "upload_reachable (NewUploader workers chunk) name r sz p u" "\<not> list_all worker_done (u_workers u)"
  shows "\<exists>u'. upload_step p u u' \<and> u_ctx u' = u_ctx u"
proof -
  have inv: "upload_inv p (rin r) u" by (rule upload_reachable_inv [OF assms(1)])
  obtain i where i: "i < length (u_workers u)" "\<not> worker_done (u_workers u ! i)"
    using assms(2) by (auto simp: list_all_length)
  have main: "\<exists>u'. upload_step p u u' \<and> u_ctx u' = u_ctx u"
    if "main_step p choice u = Some u'" "u_ctx u' = u_ctx u" for choice u'
    using upload_step.main [OF that(1)] that(2) by blast
  have worker: "\<exists>u'. upload_step p u u' \<and> u_ctx u' = u_ctx u"
    if "worker_step p answer (u_workers u ! i) u = Some (pc, u')" "u_ctx u' = u_ctx u" for answer pc u'
    using upload_step.worker [OF i(1) that(1)] that(2) by force
  show ?thesis
  proof (cases "u_workers u ! i = WNext \<and> u_jobs u = [] \<and> \<not> u_closed u")
    case False
    then show ?thesis
      using i(2) worker [of "Inr []"]
      by (cases "u_workers u ! i"; cases "u_jobs u"; cases "u_ctx u") (auto simp: worker_step_def Let_def)
  next
    case True
    then have "\<not> closing (u_main u)" "0 < up_workers p" using inv by (auto simp: upload_inv_def)
    then show ?thesis
      using True main [of ChooseSend] main_step_read [of u p ChooseSend]
      by (cases "u_main u") (auto simp: main_step_def closing_def after_read_same)
  qed
qed

text \<open>A schedule names the goroutine that runs next; running one is a way to reach a state.\<close>

datatype sched = Main choice | Worker nat "goerror + bytes" | Cancelled goerror

fun run_upload :: "up_call \<Rightarrow> sched list \<Rightarrow> upload \<Rightarrow> upload option" where
  "run_upload p [] u = Some u"
| "run_upload p (Main choice # evs) u =
     (case main_step p choice u of None \<Rightarrow> None | Some u \<Rightarrow> run_upload p evs u)"
| "run_upload p (Worker i answer # evs) u =
     (if i < length (u_workers u) then
        case worker_step p answer (u_workers u ! i) u of
          None \<Rightarrow> None | Some (pc, u') \<Rightarrow> run_upload p evs (u'\<lparr>u_workers := (u_workers u)[i := pc]\<rparr>)
      else None)"
| "run_upload p (Cancelled err # evs) u =
     (if u_ctx u = None then run_upload p evs (u\<lparr>u_ctx := Some err\<rparr>) else None)"

lemma run_upload_reachable:
  "run_upload p evs u = Some u' \<Longrightarrow> upload_reachable ul name r sz p u \<Longrightarrow> upload_reachable ul name r sz p u'"
proof (induction p evs u arbitrary: u' rule: run_upload.induct)
  case (2 p choice evs u)
  then obtain v where v: "main_step p choice u = Some v" "run_upload p evs v = Some u'"
    by (auto split: option.splits)
  then show ?case using 2 upload_reachable.step [OF 2(3) upload_step.main [OF v(1)]] by simp
next
  case (3 p i answer evs u)
  then obtain pc v where v: "i < length (u_workers u)" "worker_step p answer (u_workers u ! i) u = Some (pc, v)"
      "run_upload p evs (v\<lparr>u_workers := (u_workers u)[i := pc]\<rparr>) = Some u'"
    by (auto split: option.splits if_splits)
  then show ?case using 3 upload_reachable.step [OF 3(3) upload_step.worker [OF v(1,2)]] by simp
next
  case (4 p err evs u)
  then show ?case by (auto split: if_splits intro: upload_reachable.step upload_step.cancel)
qed simp

definition up_start :: "reader \<Rightarrow> upload" where
  "up_start r = \<lparr>u_reader = r, u_main = MRead, u_workers = [WNext],
     u_jobs = [], u_closed = False, u_errs = [], u_partIdx = 0, u_readErr = None,
     u_hashed = [], u_uploaded = 0, u_progress = [], u_stored = [], u_ctx = None\<rparr>"

definition up_one :: "int64 \<Rightarrow> int64 \<Rightarrow> up_call" where
  "up_one sz n = \<lparr>up_workers = 1, up_fileID = 0, up_chunk = 1024, up_totalParts = n, up_isBig = False,
     up_size = sz, up_name = ''f''\<rparr>"

lemma up_start_eq:
  assumes "CalculateParts sz 1024 = (1024, n)" "sint sz \<le> 10485760"
  shows "Upload_start (NewUploader 1 1024) (\<lambda>n. Inr (replicate n 0)) ''f'' r sz = Inr (up_one sz n, up_start r)"
proof -
  have "NewUploader 1 1024 = \<lparr>ul_workers = 1, ul_chunkSize = 1024\<rparr>"
    by (simp add: NewUploader_def CalculateParts_def Let_def)
  moreover have "sint BigFileThreshold = 10485760" by (simp add: BigFileThreshold_def)
  moreover have "(le_get (replicate 8 0) :: int64) = 0" by (induct "8 :: nat") (simp_all add: numeral_eq_Suc)
  ultimately show ?thesis using assms by (simp add: Upload_start_def up_one_def up_start_def)
qed

lemmas up_start_reachable = upload_reachable.start [OF up_start_eq]

lemmas run_defs = up_start_def up_one_def main_step_def worker_step_def ReadFull_partial_def after_read_def Let_def

definition small_reader :: reader where
  "small_reader = \<lparr>rin = [1, 2, 3], rerr = IoEOF\<rparr>"

lemma small_start: "upload_reachable (NewUploader 1 1024) ''f'' small_reader 3 (up_one 3 1) (up_start small_reader)"
  by (rule up_start_reachable) (simp_all add: CalculateParts_def Let_def signed_divide_int_def)

definition answered :: "sched list" where
  "answered = [Main ChooseSend, Main ChooseSend, Worker 0 (Inr []), Worker 0 (Inr []), Worker 0 (Inr []),
     Main ChooseSend, Worker 0 (Inr []), Main ChooseSend]"

lemma run_answered:
  "\<exists>u f. run_upload (up_one 3 1) answered (up_start small_reader) = Some u \<and> u_main u = MDone (Inr f) \<and> u_ctx u = None"
  by (simp add: answered_def run_defs small_reader_def upload_result_def)

theorem upload_success_complete_witness:
  "\<exists>u parts. run_upload (up_one 3 1) answered (up_start small_reader) = Some u \<and>
     mset (u_stored u) = mset (map (part_request (up_one 3 1)) (enumerate 0 parts)) \<and> concat parts = [1, 2, 3]"
proof -
  obtain u f where u: "run_upload (up_one 3 1) answered (up_start small_reader) = Some u"
      "u_main u = MDone (Inr f)" "u_ctx u = None"
    using run_answered by blast
  have "upload_reachable (NewUploader 1 1024) ''f'' small_reader 3 (up_one 3 1) u"
    by (rule run_upload_reachable [OF u(1) small_start])
  from upload_success_complete [OF this u(2,3)] u(1) show ?thesis by (auto simp: small_reader_def)
qed

theorem upload_progress_witness:
  "\<exists>u'. upload_step (up_one 3 1) (up_start small_reader) u' \<and> u_ctx u' = None"
  using upload_progress [OF small_start] by (simp add: up_start_def)

text \<open>
  The producer alone, up to the end of the file, when the channel has room for all parts; and the
  workers after a cancellation, each of which takes a job and drops it or finds the channel drained.
\<close>

lemma produce_all:
  assumes "0 < up_chunk p" "u_main u = MRead" "rerr (u_reader u) = IoEOF"
    "length (u_jobs u) + length (split_parts (up_chunk p) (rin (u_reader u))) \<le> up_workers p"
  shows "\<exists>r. (upload_step p)\<^sup>*\<^sup>* u (u\<lparr>u_main := MClose, u_reader := r,
    u_jobs := u_jobs u @ enumerate (u_partIdx u) (split_parts (up_chunk p) (rin (u_reader u))),
    u_partIdx := u_partIdx u + length (split_parts (up_chunk p) (rin (u_reader u))),
    u_hashed := (if up_isBig p then u_hashed u else u_hashed u @ rin (u_reader u))\<rparr>)"
  using assms(2-)
proof (induction "length (rin (u_reader u))" arbitrary: u rule: less_induct)
  case less
  let ?c = "up_chunk p" and ?bs = "rin (u_reader u)"
  let ?r = "(u_reader u)\<lparr>rin := drop ?c ?bs\<rparr>"
  show ?case
  proof (cases "?bs = []")
    case True
    then have "main_step p ChooseSend u = Some (u\<lparr>u_main := MClose, u_reader := ?r\<rparr>)"
      using less.prems assms(1) by (simp add: main_step_def ReadFull_partial_def after_read_def Let_def)
    from upload_step.main [OF this] True show ?thesis
      by (intro exI [of _ ?r]) (cases u; force intro: r_into_rtranclp)
  next
    case False
    let ?chunk = "take ?c ?bs" and ?err = "if ?c \<le> length ?bs then None else Some IoUnexpectedEOF"
    let ?h = "if up_isBig p then u_hashed u else u_hashed u @ ?chunk"
    let ?sel = "u\<lparr>u_reader := ?r, u_main := MSelect ?chunk ?err, u_hashed := ?h\<rparr>"
    let ?sent = "u\<lparr>u_reader := ?r, u_hashed := ?h, u_jobs := u_jobs u @ [(u_partIdx u, ?chunk)],
      u_partIdx := u_partIdx u + 1, u_main := (if ?c \<le> length ?bs then MRead else MClose)\<rparr>"
    have parts: "split_parts ?c ?bs = ?chunk # split_parts ?c (drop ?c ?bs)" using False assms(1) by simp
    have "main_step p ChooseSend u = Some ?sel"
      using less.prems False assms(1) by (simp add: main_step_def ReadFull_partial_def Let_def)
    then have 1: "upload_step p u ?sel" by (rule upload_step.main)
    have "main_step p ChooseSend ?sel = Some ?sent"
      using less.prems(3) parts by (simp add: main_step_def after_read_def)
    then have 2: "upload_step p ?sel ?sent" by (rule upload_step.main)
    let ?fin = "\<lambda>v r. v\<lparr>u_main := MClose, u_reader := r,
        u_jobs := u_jobs v @ enumerate (u_partIdx v) (split_parts ?c (rin (u_reader v))),
        u_partIdx := u_partIdx v + length (split_parts ?c (rin (u_reader v))),
        u_hashed := (if up_isBig p then u_hashed v else u_hashed v @ rin (u_reader v))\<rparr>"
    note sent = converse_rtranclp_into_rtranclp [where r = "upload_step p", OF 1 r_into_rtranclp
        [where r = "upload_step p", OF 2]]
    show ?thesis
    proof (cases "?c \<le> length ?bs")
      case True
      have "\<exists>r. (upload_step p)\<^sup>*\<^sup>* ?sent (?fin ?sent r)"
        by (rule less.hyps) (use True False assms(1) less.prems parts in simp_all)
      moreover have "?fin ?sent r = ?fin u r" for r
        by (cases u) (use parts in \<open>simp add: enumerate_simps\<close>)
      ultimately obtain r where "(upload_step p)\<^sup>*\<^sup>* ?sent (?fin u r)" by metis
      with sent show ?thesis by (blast intro: rtranclp_trans)
    next
      case False
      with parts have "?sent = ?fin u ?r" by (cases u) (simp add: enumerate_simps)
      with sent have "(upload_step p)\<^sup>*\<^sup>* u (?fin u ?r)" by (simp only:)
      then show ?thesis by blast
    qed
  qed
qed

lemma jobs_same [simp]: "u\<lparr>u_jobs := u_jobs u\<rparr> = u"
  by (cases u) simp

lemma workers_give_up:
  assumes "u_closed u" "u_ctx u = Some err" "u_workers u = ws @ replicate n WNext"
  shows "\<exists>ds js. (upload_step p)\<^sup>*\<^sup>* u (u\<lparr>u_jobs := js, u_workers := ws @ ds\<rparr>) \<and> list_all worker_done ds"
  using assms
proof (induction n arbitrary: u ws)
  case 0
  then show ?case by (intro exI [of _ "[] :: worker_pc list"] exI [of _ "u_jobs u"]) (cases u; simp)
next
  case (Suc n)
  have i: "length ws < length (u_workers u)" "u_workers u ! length ws = WNext" using Suc.prems(3) by simp_all
  have "\<exists>b js. (upload_step p)\<^sup>*\<^sup>* u (u\<lparr>u_jobs := js, u_workers := (ws @ [WDone b]) @ replicate n WNext\<rparr>)"
  proof (cases "u_jobs u")
    case Nil
    then have "worker_step p (Inr []) (u_workers u ! length ws) u = Some (WDone True, u)"
      using i Suc.prems(1) by (simp add: worker_step_def)
    from upload_step.worker [OF i(1) this] Suc.prems(3) show ?thesis
      by (intro exI [of _ True] exI [of _ "u_jobs u"]) (auto intro: r_into_rtranclp)
  next
    case (Cons job js)
    let ?v = "u\<lparr>u_jobs := js, u_workers := ws @ WHas job # replicate n WNext\<rparr>"
    have "worker_step p (Inr []) (u_workers u ! length ws) u = Some (WHas job, u\<lparr>u_jobs := js\<rparr>)"
      using i Cons by (simp add: worker_step_def)
    from upload_step.worker [OF i(1) this] Suc.prems(3) have 1: "upload_step p u ?v" by simp
    have "worker_step p (Inr []) (u_workers ?v ! length ws) ?v = Some (WDone False, ?v)"
      using Suc.prems(2) by (simp add: worker_step_def)
    from upload_step.worker [OF _ this] have
      2: "upload_step p ?v (?v\<lparr>u_workers := ws @ WDone False # replicate n WNext\<rparr>)" by simp
    from 1 2 show ?thesis
      by (intro exI [of _ False] exI [of _ js]) (auto intro: converse_rtranclp_into_rtranclp)
  qed
  then obtain b js where 1: "(upload_step p)\<^sup>*\<^sup>* u
      (u\<lparr>u_jobs := js, u_workers := (ws @ [WDone b]) @ replicate n WNext\<rparr>)" by blast
  obtain ds js' where "(upload_step p)\<^sup>*\<^sup>* (u\<lparr>u_jobs := js, u_workers := (ws @ [WDone b]) @ replicate n WNext\<rparr>)
      (u\<lparr>u_jobs := js', u_workers := (ws @ [WDone b]) @ ds\<rparr>)" "list_all worker_done ds"
    using Suc.IH [of "u\<lparr>u_jobs := js, u_workers := (ws @ [WDone b]) @ replicate n WNext\<rparr>" "ws @ [WDone b]"] Suc.prems
    by auto
  with 1 show ?case
    by (intro exI [of _ "WDone b # ds"] exI [of _ js']) (auto intro: rtranclp_trans)
qed

lemma upload_steps_reachable:
  assumes "(upload_step p)\<^sup>*\<^sup>* u u'" "upload_reachable ul name r sz p u"
  shows "upload_reachable ul name r sz p u'"
  using assms by (induction rule: rtranclp_induct) (auto intro: upload_reachable.step)

text \<open>
  C37. Cancelling the context can turn a lost file into a success: a worker that finds the context done
  drops its job without an error, and when the file is already read nothing else looks at the
  context.  For every uploader, every file that is not empty and has no more parts than there are
  workers, and every error of the context, there is a run in which the context is done, not one byte
  was sent, and \<^verbatim>\<open>Upload\<close> returns the file with all its parts and its checksum as stored.
\<close>
theorem upload_cancelled_reports_success:
  assumes "Upload_start (NewUploader workers chunk) rnd name r sz = Inr (p, u0)" "rerr r = IoEOF" "rin r \<noteq> []"
    "length (split_parts (up_chunk p) (rin r)) \<le> up_workers p"
  shows "\<exists>u. upload_reachable (NewUploader workers chunk) name r sz p u \<and> u_ctx u = Some err \<and> u_stored u = [] \<and>
    u_main u = MDone (Inr (if up_isBig p then
       InputFileClass_InputFileBig \<lparr>InputFileBig_Id = up_fileID p,
         InputFileBig_Parts = of_nat (length (split_parts (up_chunk p) (rin r))), InputFileBig_Name = name\<rparr>
     else
       InputFileClass_InputFile \<lparr>InputFile_Id = up_fileID p,
         InputFile_Parts = of_nat (length (split_parts (up_chunk p) (rin r))), InputFile_Name = name,
         InputFile_Md5Checksum = fmt_hex_bytes (md5_Sum (rin r))\<rparr>))"
proof -
  let ?n = "length (split_parts (up_chunk p) (rin r))"
  have start: "upload_reachable (NewUploader workers chunk) name r sz p u0" by (rule upload_reachable.start [OF assms(1)])
  have c: "0 < up_chunk p" using upload_reachable_inv [OF start] by (simp add: upload_inv_def)
  have u0: "u_reader u0 = r" "u_main u0 = MRead" "u_workers u0 = replicate (up_workers p) WNext" "u_jobs u0 = []"
      "u_partIdx u0 = 0" "u_readErr u0 = None" "u_errs u0 = []" "u_hashed u0 = []" "u_stored u0 = []" "u_ctx u0 = None"
      "up_name p = name"
    using assms(1) by (auto simp: Upload_start_def split: sum.splits prod.splits)
  let ?closing = "\<lambda>r'. u0\<lparr>u_main := MClose, u_reader := r', u_jobs := enumerate 0 (split_parts (up_chunk p) (rin r)),
      u_partIdx := ?n, u_hashed := (if up_isBig p then u_hashed u0 else u_hashed u0 @ rin r)\<rparr>"
  obtain r' where 1: "(upload_step p)\<^sup>*\<^sup>* u0 (?closing r')"
    using produce_all [OF c u0(2)] u0 assms(2,4) by auto
  let ?u1 = "?closing r'"
  let ?u2 = "?u1\<lparr>u_ctx := Some err\<rparr>" and ?u3 = "?u1\<lparr>u_ctx := Some err, u_closed := True, u_main := MWait\<rparr>"
  have 2: "upload_step p ?u1 ?u2" by (rule upload_step.cancel) (simp add: u0)
  have 3: "upload_step p ?u2 ?u3" by (rule upload_step.main [of _ ChooseSend]) (simp add: main_step_def)
  obtain ds js where 4: "(upload_step p)\<^sup>*\<^sup>* ?u3 (?u3\<lparr>u_jobs := js, u_workers := ds\<rparr>)" "list_all worker_done ds"
    using workers_give_up [of ?u3 err "[]" "up_workers p" p] u0 by auto
  let ?u4 = "?u3\<lparr>u_jobs := js, u_workers := ds\<rparr>"
  let ?u5 = "?u4\<lparr>u_main := MDone (upload_result p ?u4)\<rparr>"
  have 5: "upload_step p ?u4 ?u5" by (rule upload_step.main [of _ ChooseSend]) (simp add: main_step_def 4(2))
  have "(upload_step p)\<^sup>*\<^sup>* u0 ?u5"
    using 1 2 3 4(1) 5 by (meson rtranclp.rtrancl_into_rtrancl rtranclp_trans)
  from upload_steps_reachable [OF this start] show ?thesis
    by (intro exI [of _ ?u5]) (simp add: u0 upload_result_def)
qed

theorem upload_cancelled_reports_success_witness:
  "\<exists>u f. upload_reachable (NewUploader 1 1024) ''f'' small_reader 3 (up_one 3 1) u \<and> u_ctx u = Some (ContextError 0) \<and>
     u_stored u = [] \<and> u_main u = MDone (Inr f)"
proof -
  have "Upload_start (NewUploader 1 1024) (\<lambda>n. Inr (replicate n 0)) ''f'' small_reader 3 = Inr (up_one 3 1, up_start small_reader)"
    by (rule up_start_eq) (simp_all add: CalculateParts_def Let_def signed_divide_int_def)
  from upload_cancelled_reports_success [OF this, of "ContextError 0"] show ?thesis
    by (auto simp: small_reader_def up_one_def)
qed

definition big_reader :: reader where
  "big_reader = \<lparr>rin = replicate 4096 0, rerr = IoEOF\<rparr>"

definition failing :: "sched list" where
  "failing = [Main ChooseSend, Main ChooseSend, Worker 0 (Inr []), Worker 0 (Inr []), Worker 0 (Inl ErrClosed),
     Main ChooseSend, Main ChooseSend, Main ChooseSend, Main ChooseErr, Main ChooseSend]"

definition stuck :: "up_call \<Rightarrow> upload \<Rightarrow> bool" where
  "stuck p u \<longleftrightarrow> (\<exists>chunk err. u_main u = MSelect chunk err) \<and> u_readErr u \<noteq> None \<and>
     list_all worker_done (u_workers u) \<and> u_errs u = [] \<and> u_ctx u = None \<and> \<not> length (u_jobs u) < up_workers p"

lemma stuck_steps:
  assumes "stuck p u" "upload_step p u u'"
  shows "u_ctx u' \<noteq> None"
  using assms(2,1)
proof (induction rule: upload_step.induct)
  case (main choice u u')
  then show ?case by (cases choice) (auto simp: stuck_def main_step_def)
next
  case (worker i u answer pc u')
  then show ?case using worker_not_done [OF worker.hyps(2,1)] by (auto simp: stuck_def)
qed simp

lemma run_failing: "\<exists>u. run_upload (up_one 4096 4) failing (up_start big_reader) = Some u \<and> stuck (up_one 4096 4) u"
  by (simp add: failing_def run_defs big_reader_def stuck_def)

text \<open>
  C36. When all workers have returned because their calls failed, an upload hangs: the error is taken from
  its channel once, the \<^verbatim>\<open>break\<close> leaves only the \<^verbatim>\<open>select\<close>, the loop reads on, and with the channel of jobs
  full the next \<^verbatim>\<open>select\<close> waits for ever.  A run exists from which only a cancellation can move the
  upload, although it has seen the error.
\<close>
theorem upload_can_hang:
  "\<exists>u. upload_reachable (NewUploader 1 1024) ''f'' big_reader 4096 (up_one 4096 4) u \<and>
     u_readErr u = Some ErrClosed \<and> (\<forall>f. u_main u \<noteq> MDone f) \<and>
     (\<forall>u'. upload_step (up_one 4096 4) u u' \<longrightarrow> u_ctx u' \<noteq> None)"
proof -
  have start: "upload_reachable (NewUploader 1 1024) ''f'' big_reader 4096 (up_one 4096 4) (up_start big_reader)"
    by (rule up_start_reachable) (simp_all add: CalculateParts_def Let_def signed_divide_int_def)
  obtain u where u: "run_upload (up_one 4096 4) failing (up_start big_reader) = Some u" "stuck (up_one 4096 4) u"
    using run_failing by blast
  moreover have "u_readErr u = Some ErrClosed"
    using u(1) by (simp add: failing_def run_defs big_reader_def) auto
  ultimately show ?thesis
    using run_upload_reachable [OF u(1) start] stuck_steps [OF u(2)] by (auto simp: stuck_def)
qed

theorem upload_can_hang_witness:
  "\<exists>u. upload_reachable (NewUploader 1 1024) ''f'' big_reader 4096 (up_one 4096 4) u \<and> u_readErr u = Some ErrClosed"
  using upload_can_hang by blast

end
