(* ===== verification/Auth.thy ===== *)
theory Auth
  imports Conn Protocol Message_IDs Factor Generated_Auth
begin

text \<open>
  \<^verbatim>\<open>mtproto/auth\<close>: the creation of an authorization key (\<^verbatim>\<open>dh.go\<close>) and the server keys (\<^verbatim>\<open>keys.go\<close>).  A
  piece of \<^verbatim>\<open>CreateAuthKey\<close> maps the connection to a result or an error and the connection; \<open>None\<close> is a
  call that never returns, which the factorisation can be.  Random bytes, clock readings and the
  contexts of the network calls are indexed by the order in which the function asks for them.
  The server side of the last step, \<open>server_gB\<close>, decrypts the packet the client sent with the key and the vector that
  the two nonces give, compares nonces and hash, and reads the public value of the client.
\<close>

section \<open>keys.go\<close>

definition DefaultTelegramKeys :: "RSAPublicKey list" where
  "DefaultTelegramKeys =
     (let n1 = 0xc7176a703d4dd84fba3c0b760d10670f2a2053fa2c39ccc64ec7fd7792ac037aace9e81f3d00e42f39447e338f805c9088f81ea477b77729347981e4f433f51ac2a3f2e4be64712ac29ac4221576a335d5f12336ec8e0f52a982f1618e7d4235510b2ae46e4fb8c165215274f397241a025e3402cd956763806a75a520974b164ece246b04af2c42c9a149c603249d4580fb6c7425a814fe13af95847cb29568b096c8f2d93e117c3435d342ac7d5bbac4e6ff231491629f7169be161a96550babea4e344e9e500ff7f90963415a74366655d63c57d68b04576cd8934910066f9b37a666adac63ddcb2c6384f5529c362d345dd290149213;
          e1 = 65537
      in [\<lparr>rsa_N = n1, rsa_E = e1, rsa_Fingerprint = ComputeFingerprint n1 e1\<rparr>])"

text \<open>The loops of \<^verbatim>\<open>FindKey\<close>: for each fingerprint the first key that has it.\<close>

fun find_match :: "int64 list \<Rightarrow> RSAPublicKey list \<Rightarrow> RSAPublicKey option" where
  "find_match [] keys = None"
| "find_match (fp # fps) keys =
     (case find (\<lambda>key. rsa_Fingerprint key = fp) keys of
        Some key \<Rightarrow> Some key | None \<Rightarrow> find_match fps keys)"

definition FindKey :: "int64 list \<Rightarrow> RSAPublicKey option" where
  "FindKey fingerprints =
     (case find_match fingerprints DefaultTelegramKeys of
        Some key \<Rightarrow> Some key
      | None \<Rightarrow> (if length DefaultTelegramKeys > 0 then Some (DefaultTelegramKeys ! 0) else None))"

text \<open>\<^verbatim>\<open>hex.DecodeString\<close>: \<open>None\<close> is an error (a character that is no digit, or an odd length).\<close>

definition hex_value :: "char \<Rightarrow> nat option" where
  "hex_value c =
     (let n = of_char c in
      if 48 \<le> n \<and> n \<le> 57 then Some (n - 48)
      else if 97 \<le> n \<and> n \<le> 102 then Some (n - 87)
      else if 65 \<le> n \<and> n \<le> 70 then Some (n - 55)
      else None)"

fun hex_DecodeString :: "string \<Rightarrow> bytes option" where
  "hex_DecodeString [] = Some []"
| "hex_DecodeString [c] = None"
| "hex_DecodeString (c # d # cs) =
     (case (hex_value c, hex_value d, hex_DecodeString cs) of
        (Some h, Some l, Some bs) \<Rightarrow> Some (of_nat (16 * h + l) # bs)
      | _ \<Rightarrow> None)"

definition ParsePQ :: "string \<Rightarrow> uint64" where
  "ParsePQ pqStr =
     (let b = (case hex_DecodeString pqStr of
                 None \<Rightarrow> string_bytes pqStr
               | Some b \<Rightarrow> if length b = 0 then string_bytes pqStr else b)
      in fold (\<lambda>byteVal val. push_bit 8 val OR ucast byteVal) b 0)"

section \<open>dh.go\<close>

definition deriveTmpAESKeys :: "bytes \<Rightarrow> bytes \<Rightarrow> bytes \<times> bytes" where
  "deriveTmpAESKeys newNonce serverNonce =
     (let h1 = sha1 (newNonce @ serverNonce);
          h2 = sha1 (serverNonce @ newNonce);
          h3 = sha1 (newNonce @ newNonce)
      in (h1 @ slice_of h2 0 12, slice_of h2 12 20 @ h3 @ slice_of newNonce 0 4))"

record auth_env =
  ae_rand :: "nat \<Rightarrow> entropy"
  ae_clock :: "nat \<Rightarrow> int"
  ae_net :: "nat \<Rightarrow> env"

type_synonym 'a auth = "Conn \<Rightarrow> ((goerror + 'a) \<times> Conn) option"

definition auth_return :: "'a \<Rightarrow> 'a auth" where
  "auth_return x tr = Some (Inr x, tr)"

definition auth_lift :: "(goerror \<Rightarrow> goerror) \<Rightarrow> goerror + 'a \<Rightarrow> 'a auth" where
  "auth_lift wrap r tr = Some (case r of Inl err \<Rightarrow> Inl (wrap err) | Inr x \<Rightarrow> Inr x, tr)"

definition auth_bind :: "'a auth \<Rightarrow> ('a \<Rightarrow> 'b auth) \<Rightarrow> 'b auth" where
  "auth_bind m f tr =
     (case m tr of
        None \<Rightarrow> None
      | Some (Inl err, tr) \<Rightarrow> Some (Inl err, tr)
      | Some (Inr x, tr) \<Rightarrow> f x tr)"

definition auth_check :: "bool \<Rightarrow> string \<Rightarrow> unit auth" where
  "auth_check ok msg tr = Some (if ok then Inr () else Inl (NewError msg), tr)"

definition auth_Send :: "(goerror \<Rightarrow> goerror) \<Rightarrow> env \<Rightarrow> bytes \<Rightarrow> unit auth" where
  "auth_Send wrap v packet tr =
     (case Conn_Send v packet tr of
        (None, tr) \<Rightarrow> Some (Inr (), tr) | (Some err, tr) \<Rightarrow> Some (Inl (wrap err), tr))"

definition auth_Recv :: "(goerror \<Rightarrow> goerror) \<Rightarrow> env \<Rightarrow> bytes auth" where
  "auth_Recv wrap v tr =
     (case Conn_Recv v tr of
        (Inr raw, tr) \<Rightarrow> Some (Inr raw, tr) | (Inl err, tr) \<Rightarrow> Some (Inl (wrap err), tr))"

text \<open>The three requests go out, are answered and unpacked the same way.\<close>

definition auth_exchange ::
  "(goerror \<Rightarrow> goerror) \<Rightarrow> (goerror \<Rightarrow> goerror) \<Rightarrow> (goerror \<Rightarrow> goerror) \<Rightarrow> env \<Rightarrow> env \<Rightarrow> bytes \<Rightarrow> bytes auth" where
  "auth_exchange sendErr recvErr unpackErr v v' packet =
     auth_bind (auth_Send sendErr v packet) (\<lambda>_.
     auth_bind (auth_Recv recvErr v') (\<lambda>respRaw.
     auth_bind (auth_lift unpackErr (UnpackUnencrypted respRaw)) (\<lambda>(_, payload).
       auth_return payload)))"

text \<open>\<^verbatim>\<open>crypto.FactorPQ\<close> has no error result; it may not return.\<close>

definition auth_factor :: "nat \<Rightarrow> (nat \<times> nat) auth" where
  "auth_factor pq tr = (case FactorPQ pq of None \<Rightarrow> None | Some r \<Rightarrow> Some (Inr r, tr))"

text \<open>\<^verbatim>\<open>big.NewInt(int64(v)).Bytes()\<close>: the absolute value of the number read as signed.\<close>

definition int64_bytes :: "nat \<Rightarrow> bytes" where
  "int64_bytes v = BigBytes (nat \<bar>sint (of_nat v :: int64)\<bar>)"

definition same_err :: "goerror \<Rightarrow> goerror" where
  "same_err err = err"

text \<open>Step 1: the nonce and \<^verbatim>\<open>resPQ\<close>.\<close>

definition request_pq :: "auth_env \<Rightarrow> (bytes \<times> ResPQ \<times> MessageIDGenerator) auth" where
  "request_pq v =
     auth_bind (auth_lift same_err (ae_rand v 0 16)) (\<lambda>nonce.
       let enc = ReqPqMulti_Encode \<lparr>ReqPqMulti_Nonce = nonce\<rparr> Encoder_New;
           (msgID, gen) = MessageID_Next (ae_clock v 0) NewMessageIDGenerator
       in auth_bind (auth_exchange (Wrapped ''auth: send req_pq_multi failed: '') (Wrapped ''auth: recv resPQ failed: '')
                       (Wrapped ''auth: unpack resPQ failed: '') (ae_net v 0) (ae_net v 1)
                       (PackUnencrypted msgID (Encoder_Bytes enc))) (\<lambda>payload.
          auth_bind (auth_lift (Wrapped ''auth: decode resPQ failed: '') (fst (ResPQ_Decode (Decoder_New payload)))) (\<lambda>resPQ.
          auth_bind (auth_check (ResPQ_Nonce resPQ = nonce) ''auth: nonce mismatch in resPQ'') (\<lambda>_.
            auth_return (nonce, resPQ, gen)))))"

text \<open>Step 2: factor \<^verbatim>\<open>pq\<close>, encrypt the inner data for the server, and get its parameters.\<close>

definition request_dh ::
  "auth_env \<Rightarrow> int32 \<Rightarrow> bytes \<Rightarrow> ResPQ \<Rightarrow> MessageIDGenerator \<Rightarrow> (bytes \<times> ServerDHParamsOk \<times> MessageIDGenerator) auth" where
  "request_dh v dcID nonce resPQ gen =
     (let serverNonce = ResPQ_ServerNonce resPQ; pqVal = ParsePQ (ResPQ_Pq resPQ) in
      auth_bind (auth_factor (unat pqVal)) (\<lambda>(pVal, qVal).
      auth_bind (auth_lift same_err (ae_rand v 1 32)) (\<lambda>newNonce.
        let pBytes = int64_bytes pVal; qBytes = int64_bytes qVal; pqBytes = int64_bytes (unat pqVal);
            pqInner = \<lparr>PQInnerDataDc_Pq = bytes_string pqBytes, PQInnerDataDc_P = bytes_string pBytes,
              PQInnerDataDc_Q = bytes_string qBytes, PQInnerDataDc_Nonce = nonce,
              PQInnerDataDc_ServerNonce = serverNonce, PQInnerDataDc_NewNonce = newNonce, PQInnerDataDc_Dc = dcID\<rparr>;
            enc = PQInnerDataDc_Encode pqInner Encoder_New
        in case FindKey (ResPQ_ServerPublicKeyFingerprints resPQ) of
             None \<Rightarrow> auth_lift same_err (Inl (NewError ''auth: no matching Telegram RSA public key found''))
           | Some rsaKey \<Rightarrow>
               auth_bind (auth_lift (Wrapped ''auth: RSA encryption failed: '')
                            (RSA_Encrypt rsaKey (ae_rand v 2) (Encoder_Bytes enc))) (\<lambda>encryptedData.
                 let reqDH = \<lparr>ReqDHParams_Nonce = nonce, ReqDHParams_ServerNonce = serverNonce,
                       ReqDHParams_P = bytes_string pBytes, ReqDHParams_Q = bytes_string qBytes,
                       ReqDHParams_PublicKeyFingerprint = rsa_Fingerprint rsaKey,
                       ReqDHParams_EncryptedData = bytes_string encryptedData\<rparr>;
                     enc = ReqDHParams_Encode reqDH (Encoder_Reset enc);
                     (msgID, gen) = MessageID_Next (ae_clock v 1) gen
                 in auth_bind (auth_exchange (Wrapped ''auth: send req_DH_params failed: '')
                                 (Wrapped ''auth: recv ServerDHParams failed: '') same_err (ae_net v 2) (ae_net v 3)
                                 (PackUnencrypted msgID (Encoder_Bytes enc))) (\<lambda>payload.
                    auth_bind (auth_lift (Wrapped ''auth: decode ServerDHParams failed: '')
                                 (fst (DecodeServerDHParams (Decoder_New payload)))) (\<lambda>params.
                      case params of
                        ServerDHParams_ServerDHParamsOk dhOk \<Rightarrow> auth_return (newNonce, dhOk, gen)
                      | ServerDHParams_ServerDHParamsFail _ \<Rightarrow>
                          auth_lift same_err (Inl (NewError ''auth: server returned DH params failure''))))))))"

text \<open>
  Step 3: the answer is decrypted; its first 20 bytes are a hash that is not compared.  \<^verbatim>\<open>big.NewInt(g)\<close>
  may be negative; \<^verbatim>\<open>Exp\<close> takes the residue that is not negative, and with the modulus zero the power
  itself.
\<close>

definition decrypt_answer :: "IGE \<Rightarrow> bytes \<Rightarrow> goerror + bytes" where
  "decrypt_answer cipher encAnswer =
     (let n = length encAnswer in
      case IGE_Decrypt cipher \<lparr>sptr = n, slen = n\<rparr> \<lparr>sptr = 0, slen = n\<rparr> (encAnswer @ replicate n 0) of
        (Some err, mem) \<Rightarrow> Inl (Wrapped ''auth: decrypt server_DH_inner_data failed: '' err)
      | (None, mem) \<Rightarrow>
          let decrypted = slice_of mem n (n + n) in
          if length decrypted < 20 then Inl (NewError ''auth: decrypted inner data too short'')
          else Inr (drop 20 decrypted))"

definition client_inner_block :: "bytes \<Rightarrow> bytes" where
  "client_inner_block clientInnerBytes =
     (let totalLen = 20 + length clientInnerBytes;
          padLen = (16 - (totalLen mod 16)) mod 16
      in sha1 clientInnerBytes @ clientInnerBytes @ replicate padLen 0)"

definition encrypt_client :: "IGE \<Rightarrow> bytes \<Rightarrow> goerror + bytes" where
  "encrypt_client cipher toEncrypt =
     (let n = length toEncrypt in
      case IGE_Encrypt cipher \<lparr>sptr = n, slen = n\<rparr> \<lparr>sptr = 0, slen = n\<rparr> (toEncrypt @ replicate n 0) of
        (Some err, mem) \<Rightarrow> Inl err | (None, mem) \<Rightarrow> Inr (slice_of mem n (n + n)))"

definition complete_dh ::
  "auth_env \<Rightarrow> bytes \<Rightarrow> bytes \<Rightarrow> bytes \<Rightarrow> ServerDHParamsOk \<Rightarrow> MessageIDGenerator \<Rightarrow> AuthKey auth" where
  "complete_dh v nonce serverNonce newNonce dhOk gen =
     (let (tmpAesKey, tmpAesIV) = deriveTmpAESKeys newNonce serverNonce in
      auth_bind (auth_lift same_err (NewIGE tmpAesKey tmpAesIV)) (\<lambda>cipher.
      auth_bind (auth_lift same_err (decrypt_answer cipher (string_bytes (ServerDHParamsOk_EncryptedAnswer dhOk)))) (\<lambda>innerData.
      auth_bind (auth_lift (Wrapped ''auth: decode server_DH_inner_data failed: '')
                   (fst (ServerDHInnerData_Decode (Decoder_New innerData)))) (\<lambda>dhInner.
      auth_bind (auth_lift same_err (ae_rand v 3 256)) (\<lambda>bBytes.
        let dhPrime = int (SetBytes (string_bytes (ServerDHInnerData_DhPrime dhInner)));
            g = sint (ServerDHInnerData_G dhInner);
            gA = int (SetBytes (string_bytes (ServerDHInnerData_GA dhInner)));
            b = SetBytes bBytes;
            gB = g ^ b mod dhPrime;
            gAB = gA ^ b mod dhPrime
        in auth_bind (auth_lift same_err (NewAuthKey (fixed256 (BigBytes (nat \<bar>gAB\<bar>))))) (\<lambda>authKey.
             let clientDHInner = \<lparr>ClientDHInnerData_Nonce = nonce, ClientDHInnerData_ServerNonce = serverNonce,
                   ClientDHInnerData_RetryId = 0, ClientDHInnerData_GB = bytes_string (BigBytes (nat \<bar>gB\<bar>))\<rparr>;
                 enc = ClientDHInnerData_Encode clientDHInner Encoder_New
             in auth_bind (auth_lift same_err (encrypt_client cipher (client_inner_block (Encoder_Bytes enc)))) (\<lambda>encryptedClientData.
                  let setClientDH = \<lparr>SetClientDHParams_Nonce = nonce, SetClientDHParams_ServerNonce = serverNonce,
                        SetClientDHParams_EncryptedData = bytes_string encryptedClientData\<rparr>;
                      enc = SetClientDHParams_Encode setClientDH (Encoder_Reset enc);
                      (msgID, gen) = MessageID_Next (ae_clock v 2) gen
                  in auth_bind (auth_exchange (Wrapped ''auth: send set_client_DH_params failed: '')
                                  (Wrapped ''auth: recv dh_gen_ok failed: '') same_err (ae_net v 4) (ae_net v 5)
                                  (PackUnencrypted msgID (Encoder_Bytes enc))) (\<lambda>payload.
                     auth_bind (auth_lift (Wrapped ''auth: decode SetClientDHParamsAnswer failed: '')
                                  (fst (DecodeSetClientDHParamsAnswer (Decoder_New payload)))) (\<lambda>setAnswer.
                     auth_bind (auth_check (case setAnswer of SetClientDHParamsAnswer_DhGenOk _ \<Rightarrow> True | _ \<Rightarrow> False)
                                  ''auth: DH key exchange was not accepted by server'') (\<lambda>_.
                       auth_return authKey))))))))))"

definition CreateAuthKey :: "auth_env \<Rightarrow> int32 \<Rightarrow> (AuthKey \<times> int64) auth" where
  "CreateAuthKey v dcID =
     auth_bind (request_pq v) (\<lambda>(nonce, resPQ, gen).
     auth_bind (request_dh v dcID nonce resPQ gen) (\<lambda>(newNonce, dhOk, gen).
     auth_bind (complete_dh v nonce (ResPQ_ServerNonce resPQ) newNonce dhOk gen) (\<lambda>authKey.
       auth_return (authKey, le_get (slice_of newNonce 0 8) XOR le_get (slice_of (ResPQ_ServerNonce resPQ) 0 8)))))"

section \<open>A connection in the exchange\<close>

lemma auth_bind_lift [simp]: "auth_bind (auth_lift w (Inr x)) f tr = f x tr"
  by (simp add: auth_bind_def auth_lift_def)

lemma auth_bind_return [simp]: "auth_bind (auth_return x) f tr = f x tr"
  by (simp add: auth_bind_def auth_return_def)

lemma auth_bind_check [simp]: "auth_bind (auth_check True msg) f tr = f () tr"
  by (simp add: auth_bind_def auth_check_def)

lemma auth_return_eq [simp]: "auth_return x tr = Some (Inr x, tr)"
  by (simp add: auth_return_def)

lemma auth_bind_Some: "m tr = Some (Inr x, tr') \<Longrightarrow> auth_bind m f tr = f x tr'"
  by (simp add: auth_bind_def)

lemma auth_bind_err: "m tr = Some (Inl err, tr') \<Longrightarrow> auth_bind m f tr = Some (Inl err, tr')"
  by (simp add: auth_bind_def)

lemma auth_bind_assoc: "auth_bind (auth_bind m f) g = auth_bind m (\<lambda>x. auth_bind (f x) g)"
  by (rule ext) (simp add: auth_bind_def split: option.split prod.split sum.split)

text \<open>Open, over the intermediate transport, with \<open>inp\<close> still to be received and \<open>sent\<close> written.\<close>

definition ready :: "bytes \<Rightarrow> bytes \<Rightarrow> Conn \<Rightarrow> bool" where
  "ready sent inp tr \<longleftrightarrow> \<not> conn_closed tr \<and> \<not> net_closed (conn_raw tr) \<and> conn_codec tr = IntermediateCodec \<and>
     wplan (net_out (conn_raw tr)) = [] \<and> wbuf (net_out (conn_raw tr)) = sent \<and> rin (net_in (conn_raw tr)) = inp"

lemma auth_Send_ready:
  assumes "ready sent inp tr" "quiet v"
  obtains tr' where "auth_Send wrap v p tr = Some (Inr (), tr')" "ready (sent @ length_frame p) inp tr'"
  using assms Intermediate_write [of "net_out (conn_raw tr)" p]
  by (auto simp: auth_Send_def Conn_Send_def ready_def quiet_def entry_check_def Let_def codec_WritePacket_def)

lemma auth_Recv_ready:
  assumes "ready sent (length_frame p @ inp) tr" "quiet v" "0 < length p" "length p \<le> max_packet"
  obtains tr' where "auth_Recv wrap v tr = Some (Inr p, tr')" "ready sent inp tr'"
  using assms Intermediate_read [of p "net_in (conn_raw tr)" inp]
  by (auto simp: auth_Recv_def Conn_Recv_def ready_def quiet_def entry_check_def Let_def codec_ReadPacket_def)

lemma Unpack_packet: "length p < 2 ^ 24 \<Longrightarrow> UnpackUnencrypted (PackUnencrypted mid p) = Inr (mid, p)"
  using Unpack_PackUnencrypted [of p mid "[]"] by simp

text \<open>A request, and the packet that answers it.\<close>

lemma exchange_answered:
  assumes "ready sent (length_frame (PackUnencrypted rid resp) @ inp) tr" "quiet v" "quiet v'" "length resp < 2 ^ 23"
  obtains tr' where "ready (sent @ length_frame req) inp tr'" "auth_exchange w1 w2 w3 v v' req tr = Some (Inr resp, tr')"
proof -
  obtain t1 where t1: "auth_Send w1 v req tr = Some (Inr (), t1)"
      "ready (sent @ length_frame req) (length_frame (PackUnencrypted rid resp) @ inp) t1"
    by (rule auth_Send_ready [OF assms(1,2)])
  have len: "length (PackUnencrypted rid resp) = 20 + length resp" by (rule PackUnencrypted_slices(5))
  obtain t2 where t2: "auth_Recv w2 v' t1 = Some (Inr (PackUnencrypted rid resp), t2)"
      "ready (sent @ length_frame req) inp t2"
    by (rule auth_Recv_ready [OF t1(2) assms(3), of w2]) (use len assms(4) in auto)
  have "UnpackUnencrypted (PackUnencrypted rid resp) = Inr (rid, resp)" by (rule Unpack_packet) (use assms(4) in simp)
  then show thesis
    by (intro that [OF t2(2)]) (simp add: auth_exchange_def auth_bind_Some [where m = "auth_Send w1 v req", OF t1(1)]
        auth_bind_Some [where m = "auth_Recv w2 v'", OF t2(1)])
qed

section \<open>The steps\<close>

lemma request_pq_answered:
  assumes "ready sent (length_frame (PackUnencrypted rid (ResPQ_wire resPQ)) @ inp) tr"
    and q: "\<And>i. quiet (ae_net v i)" and "ae_rand v 0 16 = Inr nonce"
    and "ResPQ_ok resPQ" "length (ResPQ_wire resPQ) < 2 ^ 23"
  obtains mid gen tr' where "MessageID_Next (ae_clock v 0) NewMessageIDGenerator = (mid, gen)"
    "ready (sent @ length_frame (PackUnencrypted mid (ReqPqMulti_wire \<lparr>ReqPqMulti_Nonce = nonce\<rparr>))) inp tr'"
    "request_pq v tr = Some (if ResPQ_Nonce resPQ = nonce then Inr (nonce, resPQ, gen)
       else Inl (NewError ''auth: nonce mismatch in resPQ''), tr')"
proof -
  obtain mid gen where g: "MessageID_Next (ae_clock v 0) NewMessageIDGenerator = (mid, gen)" by fastforce
  let ?req = "PackUnencrypted mid (Encoder_Bytes (ReqPqMulti_Encode \<lparr>ReqPqMulti_Nonce = nonce\<rparr> Encoder_New))"
  let ?ex = "auth_exchange (Wrapped ''auth: send req_pq_multi failed: '') (Wrapped ''auth: recv resPQ failed: '')
      (Wrapped ''auth: unpack resPQ failed: '') (ae_net v 0) (ae_net v 1) ?req"
  obtain tr' where tr': "ready (sent @ length_frame ?req) inp tr'" "?ex tr = Some (Inr (ResPQ_wire resPQ), tr')"
    by (rule exchange_answered [OF assms(1) q q assms(5)])
  have "fst (ResPQ_Decode (Decoder_New (ResPQ_wire resPQ))) = Inr resPQ"
    using decodes_New [OF ResPQ.get_wire [OF assms(4)], of "[]"] by simp
  then have "request_pq v tr = Some (if ResPQ_Nonce resPQ = nonce then Inr (nonce, resPQ, gen)
      else Inl (NewError ''auth: nonce mismatch in resPQ''), tr')"
    using assms(3) g
    by (simp add: request_pq_def auth_bind_Some [where m = ?ex, OF tr'(2)] del: One_nat_def)
      (simp add: auth_bind_def auth_check_def)
  moreover have "Encoder_Bytes (ReqPqMulti_Encode \<lparr>ReqPqMulti_Nonce = nonce\<rparr> Encoder_New) =
      ReqPqMulti_wire \<lparr>ReqPqMulti_Nonce = nonce\<rparr>"
    by (simp add: ReqPqMulti.put_wire)
  ultimately show thesis using tr'(1) g by (intro that) simp_all
qed

lemma length_tl_bytes_bound: "length (tl_bytes bs) \<le> length bs + 7"
proof -
  have "tl_padding n < 4" for n by (rule tl_padding_less)
  from this [of "Suc (length bs)"] this [of "Suc (Suc (Suc (Suc (length bs))))"] show ?thesis
    by (simp add: tl_bytes_def tl_header_def)
qed

lemma length_int64_bytes: "length (int64_bytes v) \<le> 8"
proof -
  have "\<bar>sint (of_nat v :: int64)\<bar> \<le> 2 ^ 63"
    using sint_range_size [of "of_nat v :: int64"] by (simp add: word_size) linarith
  then have "nat \<bar>sint (of_nat v :: int64)\<bar> < 256 ^ 8" by simp
  then show ?thesis unfolding int64_bytes_def by (rule length_BigBytes)
qed

lemma FindKey_some: "\<exists>key \<in> set DefaultTelegramKeys. FindKey fps = Some key"
proof -
  have "find_match fps DefaultTelegramKeys = Some key \<Longrightarrow> key \<in> set DefaultTelegramKeys" for key
    by (induction fps DefaultTelegramKeys rule: find_match.induct)
      (auto split: option.splits simp: find_Some_iff)
  moreover have "DefaultTelegramKeys \<noteq> []" by (simp add: DefaultTelegramKeys_def Let_def)
  ultimately show ?thesis by (auto simp: FindKey_def split: option.split)
qed

lemma RSA_Encrypt_returns:
  assumes "length data \<le> 235" "\<And>n. \<exists>bs. rnd n = Inr bs"
  shows "\<exists>out. RSA_Encrypt key rnd data = Inr out"
proof -
  obtain bs where "rnd (255 - (20 + length data)) = Inr bs" using assms(2) by blast
  then show ?thesis using assms(1) by (simp add: RSA_Encrypt_def Let_def)
qed

lemma unat_of_nat64: "n < 2 ^ 64 \<Longrightarrow> unat (of_nat n :: uint64) = n"
  by (simp add: unsigned_of_nat take_bit_nat_eq_self)

text \<open>A factor of a number below \<open>2 ^ 64\<close> that is not the number itself fits a signed 64-bit integer.\<close>

lemma SetBytes_int64_bytes: "n < 2 ^ 63 \<Longrightarrow> SetBytes (int64_bytes n) = n"
  by (simp add: int64_bytes_def signed_of_nat signed_take_bit_int_eq_self)

lemma factor_below:
  assumes "prime_nat p" "prime_nat q" "p * q < 2 ^ 64"
  shows "p < 2 ^ 63" "q < 2 ^ 63"
proof -
  have "2 \<le> p" "2 \<le> q" using assms(1,2) by (simp_all add: prime_nat_def)
  then have "2 * q \<le> p * q" "p * 2 \<le> p * q" by (intro mult_right_mono mult_left_mono; simp)+
  moreover have "2 ^ 64 = 2 * (2 :: nat) ^ 63" by simp
  ultimately have "2 * q < 2 * 2 ^ 63" "2 * p < 2 * 2 ^ 63" using assms(3) by linarith+
  then show "p < 2 ^ 63" "q < 2 ^ 63" by simp_all
qed

lemma request_dh_answered:
  assumes "ready sent (length_frame (PackUnencrypted rid (ServerDHParams_wire (ServerDHParams_ServerDHParamsOk dhOk))) @ inp) tr"
    and q: "\<And>i. quiet (ae_net v i)" and "ae_rand v 1 32 = Inr newNonce" "length newNonce = 32"
    and rsa: "\<And>n. \<exists>bs. ae_rand v 2 n = Inr bs"
    and resPQ: "ResPQ_ok resPQ" "length nonce = 16" "ParsePQ (ResPQ_Pq resPQ) = of_nat (p * q)"
    and primes: "prime_nat p" "prime_nat q" "p \<le> q" "p * q < 2 ^ 64"
    and dhOk: "ServerDHParamsOk_ok dhOk" "length (ServerDHParamsOk_wire dhOk) < 2 ^ 23"
  obtains mid req gen' tr' where "ready (sent @ length_frame (PackUnencrypted mid (ReqDHParams_wire req))) inp tr'"
    "ReqDHParams_Nonce req = nonce" "ReqDHParams_ServerNonce req = ResPQ_ServerNonce resPQ"
    "SetBytes (string_bytes (ReqDHParams_P req)) = p" "SetBytes (string_bytes (ReqDHParams_Q req)) = q"
    "request_dh v dc nonce resPQ gen tr = Some (Inr (newNonce, dhOk, gen'), tr')"
proof -
  have pq: "unat (ParsePQ (ResPQ_Pq resPQ)) = p * q"
    unfolding resPQ(3) by (rule unat_of_nat64 [OF primes(4)])
  have fac: "auth_factor (p * q) = auth_return (p, q)"
    by (rule ext) (simp add: auth_factor_def FactorPQ_semiprime [OF primes])
  define inner where "inner = \<lparr>PQInnerDataDc_Pq = bytes_string (int64_bytes (p * q)), PQInnerDataDc_P = bytes_string (int64_bytes p),
      PQInnerDataDc_Q = bytes_string (int64_bytes q), PQInnerDataDc_Nonce = nonce,
      PQInnerDataDc_ServerNonce = ResPQ_ServerNonce resPQ, PQInnerDataDc_NewNonce = newNonce, PQInnerDataDc_Dc = dc\<rparr>"
  define enc where "enc = PQInnerDataDc_Encode inner Encoder_New"
  have "length (tl_bytes (int64_bytes k)) \<le> 15" for k
    using length_tl_bytes_bound [of "int64_bytes k"] length_int64_bytes [of k] by linarith
  from this [of "p * q"] this [of p] this [of q] have "length (Encoder_Bytes enc) \<le> 235"
    using resPQ(1,2) assms(4)
    by (simp add: enc_def inner_def PQInnerDataDc.put_wire PQInnerDataDc_wire_def ResPQ_ok_def)
  note small = this
  obtain key where key: "FindKey (ResPQ_ServerPublicKeyFingerprints resPQ) = Some key"
    using FindKey_some by blast
  obtain out where out: "RSA_Encrypt key (ae_rand v 2) (Encoder_Bytes enc) = Inr out"
    using RSA_Encrypt_returns [OF small, of "ae_rand v 2" key] rsa by blast
  define r where "r = \<lparr>ReqDHParams_Nonce = nonce, ReqDHParams_ServerNonce = ResPQ_ServerNonce resPQ,
      ReqDHParams_P = bytes_string (int64_bytes p), ReqDHParams_Q = bytes_string (int64_bytes q),
      ReqDHParams_PublicKeyFingerprint = rsa_Fingerprint key,
      ReqDHParams_EncryptedData = bytes_string out\<rparr>"
  define req where "req = ReqDHParams_Encode r (Encoder_Reset enc)"
  obtain mid gen' where g: "MessageID_Next (ae_clock v 1) gen = (mid, gen')" by fastforce
  let ?ex = "auth_exchange (Wrapped ''auth: send req_DH_params failed: '') (Wrapped ''auth: recv ServerDHParams failed: '')
      same_err (ae_net v 2) (ae_net v 3) (PackUnencrypted mid (Encoder_Bytes req))"
  obtain tr' where tr': "ready (sent @ length_frame (PackUnencrypted mid (Encoder_Bytes req))) inp tr'"
      "?ex tr = Some (Inr (ServerDHParams_wire (ServerDHParams_ServerDHParamsOk dhOk)), tr')"
    by (rule exchange_answered [OF assms(1) q q]) (use dhOk(2) in simp)
  have dec: "fst (DecodeServerDHParams (Decoder_New (ServerDHParams_wire (ServerDHParams_ServerDHParamsOk dhOk)))) =
      Inr (ServerDHParams_ServerDHParamsOk dhOk)"
    using decodes_New [OF ServerDHParams.get_wire, of "ServerDHParams_ServerDHParamsOk dhOk" "[]"] dhOk(1) by simp
  have "request_dh v dc nonce resPQ gen tr = Some (Inr (newNonce, dhOk, gen'), tr')"
    using assms(3) fac pq key out g dec
    by (simp add: request_dh_def Let_def auth_bind_Some [where m = ?ex, OF tr'(2)] flip: inner_def enc_def r_def req_def
        del: One_nat_def ServerDHParams_wire.simps Encoder_Reset_New)
  moreover have "Encoder_Bytes req = ReqDHParams_wire r"
    by (simp add: req_def ReqDHParams.put_wire)
  moreover have "ReqDHParams_Nonce r = nonce" "ReqDHParams_ServerNonce r = ResPQ_ServerNonce resPQ"
    "SetBytes (string_bytes (ReqDHParams_P r)) = p" "SetBytes (string_bytes (ReqDHParams_Q r)) = q"
    using factor_below [OF primes(1,2,4)] by (simp_all add: r_def SetBytes_int64_bytes)
  ultimately show thesis using tr'(1) by (intro that) simp_all
qed

lemma tmp_key_lengths:
  "4 \<le> length newNonce \<Longrightarrow> deriveTmpAESKeys newNonce serverNonce = (key, iv) \<Longrightarrow> length key = 32 \<and> length iv = 32"
  by (auto simp: deriveTmpAESKeys_def Let_def)

text \<open>What a server that knows both nonces encrypts for the client.\<close>

definition tmp_seal :: "bytes \<Rightarrow> bytes \<Rightarrow> bytes \<Rightarrow> bytes" where
  "tmp_seal newNonce serverNonce bs =
     (case deriveTmpAESKeys newNonce serverNonce of (key, iv) \<Rightarrow>
        ige_bytes False (aes_encrypt key) (slice_of iv 0 16) (slice_of iv 16 32) bs)"

text \<open>
  The server that gets the last request: it takes the client's message out of the packet, decrypts it
  with the same keys, compares the nonces and the hash in front, and reads \<open>g_b\<close> from it.
\<close>

definition tmp_open :: "bytes \<Rightarrow> bytes \<Rightarrow> bytes \<Rightarrow> bytes" where
  "tmp_open newNonce serverNonce bs =
     (case deriveTmpAESKeys newNonce serverNonce of (key, iv) \<Rightarrow>
        ige_bytes False (aes_decrypt key) (slice_of iv 16 32) (slice_of iv 0 16) bs)"

definition server_gB :: "bytes \<Rightarrow> bytes \<Rightarrow> bytes \<Rightarrow> bytes \<Rightarrow> nat option" where
  "server_gB nonce serverNonce newNonce packet =
     (case UnpackUnencrypted packet of
        Inl _ \<Rightarrow> None
      | Inr (_, payload) \<Rightarrow>
          (case fst (SetClientDHParams_Decode (Decoder_New payload)) of
             Inl _ \<Rightarrow> None
           | Inr req \<Rightarrow>
               let plain = tmp_open newNonce serverNonce (string_bytes (SetClientDHParams_EncryptedData req))
               in (case fst (ClientDHInnerData_Decode (Decoder_New (drop 20 plain))) of
                     Inl _ \<Rightarrow> None
                   | Inr inner \<Rightarrow>
                       if SetClientDHParams_Nonce req = nonce \<and> SetClientDHParams_ServerNonce req = serverNonce \<and>
                          ClientDHInnerData_Nonce inner = nonce \<and> ClientDHInnerData_ServerNonce inner = serverNonce \<and>
                          take 20 plain = sha1 (ClientDHInnerData_wire inner)
                       then Some (SetBytes (string_bytes (ClientDHInnerData_GB inner))) else None)))"

lemma tmp_cipher:
  assumes "4 \<le> length newNonce" "deriveTmpAESKeys newNonce serverNonce = (key, iv)"
  obtains cipher where "NewIGE key iv = Inr cipher" "ige_ok key cipher" "ige_c0 cipher = slice_of iv 0 16"
    "ige_m0 cipher = slice_of iv 16 32"
  using tmp_key_lengths [OF assms] NewIGE_ok [of key iv] by (auto simp: ige_c0_def ige_m0_def)

lemma decrypt_answer_sealed:
  assumes "4 \<le> length newNonce" "deriveTmpAESKeys newNonce serverNonce = (key, iv)" "ige_ok key cipher"
    "ige_c0 cipher = slice_of iv 0 16" "ige_m0 cipher = slice_of iv 16 32" "length bs mod 16 = 0" "20 \<le> length bs"
  shows "decrypt_answer cipher (tmp_seal newNonce serverNonce bs) = Inr (drop 20 bs)"
proof -
  let ?enc = "tmp_seal newNonce serverNonce bs" and ?c = "slice_of iv 0 16" and ?m = "slice_of iv 16 32"
  have len: "length key = 32" "length ?c = 16" "length ?m = 16"
    using tmp_key_lengths [OF assms(1,2)] by simp_all
  note rt = ige_bytes_roundtrip [OF len assms(6)]
  have enc: "?enc = ige_bytes False (aes_encrypt key) ?c ?m bs" using assms(2) by (simp add: tmp_seal_def)
  then have n: "length ?enc = length bs" using rt(3) [of False] by simp
  then have ne: "(length ?enc = 0) = False" using assms(7) by auto
  have "IGE_Decrypt cipher \<lparr>sptr = length ?enc, slen = length ?enc\<rparr> \<lparr>sptr = 0, slen = length ?enc\<rparr>
      (?enc @ replicate (length ?enc) 0) = (None, ?enc @ bs)"
    using decrypt_fresh [OF assms(3) refl, of ?enc, unfolded ne assms(4,5)] n assms(6) rt(1) unfolding enc by simp
  then show ?thesis
    using n assms(7) by (simp add: decrypt_answer_def Let_def slice_of_def)
qed

lemma encrypt_client_sealed:
  assumes "4 \<le> length newNonce" "deriveTmpAESKeys newNonce serverNonce = (key, iv)" "ige_ok key cipher"
    "ige_c0 cipher = slice_of iv 0 16" "ige_m0 cipher = slice_of iv 16 32" "length bs mod 16 = 0" "bs \<noteq> []"
  shows "encrypt_client cipher bs = Inr (tmp_seal newNonce serverNonce bs)"
proof -
  let ?n = "length bs" and ?mem = "bs @ replicate (length bs) 0"
  let ?x = "ige_bytes False (aes_encrypt key) (slice_of iv 0 16) (slice_of iv 16 32) bs"
  have len: "length key = 32" "length (slice_of iv 0 16) = 16" "length (slice_of iv 16 32) = 16"
    using tmp_key_lengths [OF assms(1,2)] by simp_all
  have x: "length ?x = ?n" by (rule ige_bytes_roundtrip(3) [OF len assms(6)])
  have src: "slice_bytes ?mem \<lparr>sptr = 0, slen = ?n\<rparr> = bs" by (simp add: slice_bytes_def slice_of_def)
  have "IGE_Encrypt cipher \<lparr>sptr = ?n, slen = ?n\<rparr> \<lparr>sptr = 0, slen = ?n\<rparr> ?mem = (None, put_at ?mem ?n ?x)"
    using IGE_Encrypt_eq [OF assms(3), of ?mem "\<lparr>sptr = ?n, slen = ?n\<rparr>" "\<lparr>sptr = 0, slen = ?n\<rparr>"] assms(4-7) src
    by (simp add: slices_ok_def apart_or_same_def)
  then show ?thesis
    using x assms(2) by (simp add: encrypt_client_def Let_def tmp_seal_def)
qed

lemma tmp_open_seal:
  assumes "4 \<le> length newNonce" "length bs mod 16 = 0"
  shows "tmp_open newNonce serverNonce (tmp_seal newNonce serverNonce bs) = bs"
    "length (tmp_seal newNonce serverNonce bs) = length bs"
proof -
  obtain key iv where kv: "deriveTmpAESKeys newNonce serverNonce = (key, iv)" by fastforce
  have len: "length key = 32" "length (slice_of iv 0 16) = 16" "length (slice_of iv 16 32) = 16"
    using tmp_key_lengths [OF assms(1) kv] by simp_all
  show "tmp_open newNonce serverNonce (tmp_seal newNonce serverNonce bs) = bs"
    "length (tmp_seal newNonce serverNonce bs) = length bs"
    using ige_bytes_roundtrip [OF len assms(2)] kv by (simp_all add: tmp_seal_def tmp_open_def)
qed

lemma client_inner_block_aligned: "length (client_inner_block bs) mod 16 = 0"
proof -
  have "(n + (16 - n mod 16) mod 16) mod 16 = 0" for n :: nat
  proof -
    have "n mod 16 + (16 - n mod 16) = 16" using mod_less_divisor [of 16 n] by linarith
    then have "(n mod 16 + (16 - n mod 16) mod 16) mod 16 = 0" by (metis mod_add_right_eq mod_self)
    then show ?thesis by (simp only: mod_add_left_eq)
  qed
  from this [of "20 + length bs"] show ?thesis by (simp add: client_inner_block_def Let_def add.assoc)
qed

definition shared_key :: "ServerDHInnerData \<Rightarrow> bytes \<Rightarrow> nat" where
  "shared_key inner bBytes =
     SetBytes (string_bytes (ServerDHInnerData_GA inner)) ^ SetBytes bBytes
       mod SetBytes (string_bytes (ServerDHInnerData_DhPrime inner))"

lemma NewAuthKey_shared:
  assumes "0 < SetBytes (string_bytes (ServerDHInnerData_DhPrime inner))" "length (ServerDHInnerData_DhPrime inner) \<le> 256"
  obtains ak where "NewAuthKey (fixed256 (BigBytes (shared_key inner bBytes))) = Inr ak"
    "ak_Value ak = fixed256 (BigBytes (shared_key inner bBytes))"
proof -
  let ?p = "SetBytes (string_bytes (ServerDHInnerData_DhPrime inner))"
  have "?p < 256 ^ length (string_bytes (ServerDHInnerData_DhPrime inner))" by (rule SetBytes_less)
  also have "\<dots> \<le> 256 ^ 256" using assms(2) by (intro power_increasing) simp_all
  finally have "shared_key inner bBytes < 256 ^ 256"
    using assms(1) unfolding shared_key_def by (metis mod_less_divisor order.strict_trans)
  then have "length (fixed256 (BigBytes (shared_key inner bBytes))) = 256"
    by (intro length_fixed256 length_BigBytes)
  then show thesis by (intro that) (simp add: NewAuthKey_def, simp)
qed

lemma length_client_inner_block: "length (client_inner_block bs) \<le> length bs + 36"
  by (simp add: client_inner_block_def Let_def)

text \<open>The last request as the client builds it is one the server accepts.\<close>

lemma server_accepts:
  assumes "ClientDHInnerData_ok inner" "length (ClientDHInnerData_GB inner) \<le> 256" "4 \<le> length newNonce"
    "ClientDHInnerData_Nonce inner = nonce" "ClientDHInnerData_ServerNonce inner = serverNonce"
    "req = \<lparr>SetClientDHParams_Nonce = nonce, SetClientDHParams_ServerNonce = serverNonce,
       SetClientDHParams_EncryptedData =
         bytes_string (tmp_seal newNonce serverNonce (client_inner_block (ClientDHInnerData_wire inner)))\<rparr>"
  shows "server_gB nonce serverNonce newNonce (PackUnencrypted mid (SetClientDHParams_wire req)) =
    Some (SetBytes (string_bytes (ClientDHInnerData_GB inner)))"
proof -
  let ?w = "ClientDHInnerData_wire inner" and ?block = "client_inner_block (ClientDHInnerData_wire inner)"
  note aligned = client_inner_block_aligned [of ?w]
  have "length ?w \<le> 311"
    using assms(1,2) length_tl_bytes_bound [of "string_bytes (ClientDHInnerData_GB inner)"]
    by (simp add: ClientDHInnerData_wire_def ClientDHInnerData_ok_def)
  then have block: "length ?block \<le> 347" using length_client_inner_block [of ?w] by simp
  have sealed: "length (tmp_seal newNonce serverNonce ?block) \<le> 347"
    using tmp_open_seal(2) [OF assms(3) aligned] block by simp
  have ok: "SetClientDHParams_ok req"
    using assms(1,4-6) sealed by (simp add: SetClientDHParams_ok_def ClientDHInnerData_ok_def)
  then have "length (SetClientDHParams_wire req) < 2 ^ 24"
    using length_tl_bytes_bound [of "tmp_seal newNonce serverNonce ?block"] sealed assms(6)
    by (simp add: SetClientDHParams_wire_def SetClientDHParams_ok_def)
  then have unpack: "UnpackUnencrypted (PackUnencrypted mid (SetClientDHParams_wire req)) =
      Inr (mid, SetClientDHParams_wire req)"
    by (rule Unpack_packet)
  have dec: "fst (SetClientDHParams_Decode (Decoder_New (SetClientDHParams_wire req))) = Inr req"
    using decodes_New [OF SetClientDHParams.get_wire [OF ok], of "[]"] by simp
  have plain: "tmp_open newNonce serverNonce (string_bytes (SetClientDHParams_EncryptedData req)) = ?block"
    using tmp_open_seal(1) [OF assms(3) aligned] assms(6) by simp
  obtain pad where pad: "drop 20 ?block = ?w @ pad" by (simp add: client_inner_block_def Let_def)
  have "fst (ClientDHInnerData_Decode (Decoder_New (drop 20 ?block))) = Inr inner"
    unfolding pad using decodes_New [OF ClientDHInnerData.get_wire [OF assms(1)], of pad] by simp
  moreover have "take 20 ?block = sha1 ?w" by (simp add: client_inner_block_def Let_def)
  ultimately show ?thesis
    using unpack dec plain assms(4-6) by (simp add: server_gB_def Let_def)
qed

lemma complete_dh_answered:
  assumes rd: "ready sent (length_frame (PackUnencrypted rid (SetClientDHParamsAnswer_wire (SetClientDHParamsAnswer_DhGenOk ans))) @ inp) tr"
    and q: "\<And>i. quiet (ae_net v i)" and b: "ae_rand v 3 256 = Inr bBytes" and nn: "4 \<le> length newNonce"
    and bs: "bs = hash @ ServerDHInnerData_wire inner @ pad" "length hash = 20" "length bs mod 16 = 0"
    and inner: "ServerDHInnerData_ok inner" "0 < SetBytes (string_bytes (ServerDHInnerData_DhPrime inner))"
      "length (ServerDHInnerData_DhPrime inner) \<le> 256"
    and dhOk: "string_bytes (ServerDHParamsOk_EncryptedAnswer dhOk) = tmp_seal newNonce serverNonce bs"
    and ans: "DhGenOk_ok ans"
    and g: "sint (ServerDHInnerData_G inner) = int g" and nonces: "length nonce = 16" "length serverNonce = 16"
  obtains packet ak tr' where "ready (sent @ length_frame packet) inp tr'"
    "server_gB nonce serverNonce newNonce packet =
       Some (g ^ SetBytes bBytes mod SetBytes (string_bytes (ServerDHInnerData_DhPrime inner)))"
    "ak_Value ak = fixed256 (BigBytes (shared_key inner bBytes))"
    "complete_dh v nonce serverNonce newNonce dhOk gen tr = Some (Inr ak, tr')"
proof -
  obtain key iv where kv: "deriveTmpAESKeys newNonce serverNonce = (key, iv)" by fastforce
  obtain cipher where c: "NewIGE key iv = Inr cipher" "ige_ok key cipher" "ige_c0 cipher = slice_of iv 0 16"
      "ige_m0 cipher = slice_of iv 16 32"
    by (rule tmp_cipher [OF nn kv])
  have da: "decrypt_answer cipher (tmp_seal newNonce serverNonce bs) = Inr (ServerDHInnerData_wire inner @ pad)"
    using decrypt_answer_sealed [OF nn kv c(2-4) bs(3)] bs(1,2) by simp
  have dec: "fst (ServerDHInnerData_Decode (Decoder_New (ServerDHInnerData_wire inner @ pad))) = Inr inner"
    using decodes_New [OF ServerDHInnerData.get_wire [OF inner(1)], of pad] by simp
  obtain ak where ak: "NewAuthKey (fixed256 (BigBytes (shared_key inner bBytes))) = Inr ak"
      "ak_Value ak = fixed256 (BigBytes (shared_key inner bBytes))"
    by (rule NewAuthKey_shared [OF inner(2,3)])
  have sk: "nat \<bar>int (SetBytes (string_bytes (ServerDHInnerData_GA inner))) ^ SetBytes bBytes mod
      int (SetBytes (string_bytes (ServerDHInnerData_DhPrime inner)))\<bar> = shared_key inner bBytes"
    unfolding shared_key_def by (simp flip: of_nat_power zmod_int)
  let ?P = "SetBytes (string_bytes (ServerDHInnerData_DhPrime inner))"
  have gb: "nat \<bar>int g ^ SetBytes bBytes mod int ?P\<bar> = g ^ SetBytes bBytes mod ?P"
    by (simp flip: of_nat_power zmod_int)
  define ci where "ci = \<lparr>ClientDHInnerData_Nonce = nonce, ClientDHInnerData_ServerNonce = serverNonce,
      ClientDHInnerData_RetryId = 0, ClientDHInnerData_GB = bytes_string (BigBytes (g ^ SetBytes bBytes mod ?P))\<rparr>"
  define enc where "enc = ClientDHInnerData_Encode ci Encoder_New"
  have enc: "Encoder_Bytes enc = ClientDHInnerData_wire ci" by (simp add: enc_def ClientDHInnerData.put_wire)
  have "g ^ SetBytes bBytes mod ?P < ?P" using inner(2) by simp
  also have "?P < 256 ^ length (string_bytes (ServerDHInnerData_DhPrime inner))" by (rule SetBytes_less)
  also have "\<dots> \<le> 256 ^ 256" using inner(3) by (intro power_increasing) simp_all
  finally have "length (BigBytes (g ^ SetBytes bBytes mod ?P)) \<le> 256" by (rule length_BigBytes)
  then have ci: "ClientDHInnerData_ok ci" "length (ClientDHInnerData_GB ci) \<le> 256"
      "ClientDHInnerData_Nonce ci = nonce" "ClientDHInnerData_ServerNonce ci = serverNonce"
    using nonces by (simp_all add: ci_def ClientDHInnerData_ok_def)
  let ?block = "client_inner_block (Encoder_Bytes enc)"
  have "0 < length ?block" by (simp add: client_inner_block_def Let_def del: length_greater_0_conv)
  then have "?block \<noteq> []" by blast
  then have out: "encrypt_client cipher ?block = Inr (tmp_seal newNonce serverNonce ?block)"
    by (rule encrypt_client_sealed [OF nn kv c(2-4) client_inner_block_aligned])
  define r where "r = \<lparr>SetClientDHParams_Nonce = nonce, SetClientDHParams_ServerNonce = serverNonce,
      SetClientDHParams_EncryptedData = bytes_string (tmp_seal newNonce serverNonce ?block)\<rparr>"
  define req where "req = SetClientDHParams_Encode r (Encoder_Reset enc)"
  have req: "Encoder_Bytes req = SetClientDHParams_wire r" by (simp add: req_def SetClientDHParams.put_wire)
  obtain mid gen' where mid: "MessageID_Next (ae_clock v 2) gen = (mid, gen')" by fastforce
  let ?ex = "auth_exchange (Wrapped ''auth: send set_client_DH_params failed: '') (Wrapped ''auth: recv dh_gen_ok failed: '')
      same_err (ae_net v 4) (ae_net v 5) (PackUnencrypted mid (Encoder_Bytes req))"
  obtain tr' where tr': "ready (sent @ length_frame (PackUnencrypted mid (Encoder_Bytes req))) inp tr'"
      "?ex tr = Some (Inr (SetClientDHParamsAnswer_wire (SetClientDHParamsAnswer_DhGenOk ans)), tr')"
    by (rule exchange_answered [OF rd q q]) (use ans in \<open>simp add: DhGenOk_wire_def DhGenOk_ok_def\<close>)
  have dec2: "fst (DecodeSetClientDHParamsAnswer (Decoder_New (SetClientDHParamsAnswer_wire (SetClientDHParamsAnswer_DhGenOk ans)))) =
      Inr (SetClientDHParamsAnswer_DhGenOk ans)"
    using decodes_New [OF SetClientDHParamsAnswer.get_wire, of "SetClientDHParamsAnswer_DhGenOk ans" "[]"] ans by simp
  have "complete_dh v nonce serverNonce newNonce dhOk gen tr = Some (Inr ak, tr')"
    using kv c(1) da dec ak(1) out mid dec2 b dhOk sk g gb
    by (simp add: complete_dh_def Let_def auth_bind_Some [where m = ?ex, OF tr'(2)] flip: ci_def enc_def r_def req_def
        del: SetClientDHParamsAnswer_wire.simps Encoder_Reset_New)
  moreover have "server_gB nonce serverNonce newNonce (PackUnencrypted mid (Encoder_Bytes req)) =
      Some (g ^ SetBytes bBytes mod ?P)"
    using server_accepts [OF ci(1,2) nn ci(3,4), of r mid] unfolding req by (simp add: r_def enc ci_def)
  ultimately show thesis using tr'(1) ak(2) by (intro that)
qed

lemma dh_agree: "(g ^ a mod p) ^ b mod p = (g ^ b mod p) ^ a mod (p :: nat)"
  by (simp add: power_mod mult.commute flip: power_mult)

section \<open>Properties\<close>

text \<open>
  C2. The key exchange completes and both sides get the same key.  When a server that knows the new
  nonce answers the three requests, the client sends three packets: its nonce; the two factors of \<open>pq\<close>;
  and a message from which the server, after comparing the nonces and the hash, reads \<open>gB = g ^ b mod P\<close> for
  the \<open>g\<close> and the \<open>P\<close> it announced.  The client returns the key \<open>gA ^ b mod P\<close>, which is \<open>gB ^ a mod P\<close>, what the
  server computes with its exponent, and the salt made of the nonces.  Only the nonce of the first
  answer has to be right: the nonces of the later answers, the hash in front of the decrypted data
  and the hash of the new nonce are any values at all.
\<close>
theorem create_auth_key_agrees:
  assumes wire: "ready sent (length_frame (PackUnencrypted r1 (ResPQ_wire resPQ)) @
        length_frame (PackUnencrypted r2 (ServerDHParams_wire (ServerDHParams_ServerDHParamsOk dhOk))) @
        length_frame (PackUnencrypted r3 (SetClientDHParamsAnswer_wire (SetClientDHParamsAnswer_DhGenOk ans))) @ inp) tr"
    and env: "\<And>i. quiet (ae_net v i)" "ae_rand v 0 16 = Inr nonce" "ae_rand v 1 32 = Inr newNonce" "length newNonce = 32"
      "\<And>n. \<exists>bs. ae_rand v 2 n = Inr bs" "ae_rand v 3 256 = Inr bBytes"
    and first: "ResPQ_ok resPQ" "ResPQ_Nonce resPQ = nonce" "length (ResPQ_wire resPQ) < 2 ^ 23"
      "ParsePQ (ResPQ_Pq resPQ) = of_nat (p * q)" "prime_nat p" "prime_nat q" "p \<le> q" "p * q < 2 ^ 64"
    and second: "ServerDHParamsOk_ok dhOk" "length (ServerDHParamsOk_wire dhOk) < 2 ^ 23"
      "ServerDHParamsOk_EncryptedAnswer dhOk = bytes_string (tmp_seal newNonce (ResPQ_ServerNonce resPQ) bs)"
      "bs = hash @ ServerDHInnerData_wire inner @ pad" "length hash = 20" "length bs mod 16 = 0"
    and params: "ServerDHInnerData_ok inner" "P = SetBytes (string_bytes (ServerDHInnerData_DhPrime inner))" "0 < P"
      "length (ServerDHInnerData_DhPrime inner) \<le> 256"
      "sint (ServerDHInnerData_G inner) = int g" "SetBytes (string_bytes (ServerDHInnerData_GA inner)) = g ^ a mod P"
    and third: "DhGenOk_ok ans"
  shows "\<exists>ak tr' m1 m2 req last gB. CreateAuthKey v dc tr = Some (Inr (ak, le_get (slice_of newNonce 0 8) XOR
        le_get (slice_of (ResPQ_ServerNonce resPQ) 0 8)), tr') \<and>
      ready (sent @ length_frame (PackUnencrypted m1 (ReqPqMulti_wire \<lparr>ReqPqMulti_Nonce = nonce\<rparr>)) @
        length_frame (PackUnencrypted m2 (ReqDHParams_wire req)) @ length_frame last) inp tr' \<and>
      ReqDHParams_Nonce req = nonce \<and> ReqDHParams_ServerNonce req = ResPQ_ServerNonce resPQ \<and>
      SetBytes (string_bytes (ReqDHParams_P req)) = p \<and> SetBytes (string_bytes (ReqDHParams_Q req)) = q \<and>
      server_gB nonce (ResPQ_ServerNonce resPQ) newNonce last = Some gB \<and> gB = g ^ SetBytes bBytes mod P \<and>
      length (ak_Value ak) = 256 \<and> SetBytes (ak_Value ak) = gB ^ a mod P"
proof -
  obtain m1 gen1 t1 where 1: "ready (sent @ length_frame (PackUnencrypted m1 (ReqPqMulti_wire \<lparr>ReqPqMulti_Nonce = nonce\<rparr>))) (length_frame (PackUnencrypted r2 (ServerDHParams_wire (ServerDHParams_ServerDHParamsOk dhOk))) @
        length_frame (PackUnencrypted r3 (SetClientDHParamsAnswer_wire (SetClientDHParamsAnswer_DhGenOk ans))) @ inp) t1"
      "request_pq v tr = Some (if ResPQ_Nonce resPQ = nonce then Inr (nonce, resPQ, gen1)
        else Inl (NewError ''auth: nonce mismatch in resPQ''), t1)"
    by (rule request_pq_answered [OF wire env(1,2) first(1,3)])
  then have rq: "request_pq v tr = Some (Inr (nonce, resPQ, gen1), t1)" using first(2) by simp
  have n16: "length nonce = 16" using first(1,2) by (simp add: ResPQ_ok_def)
  obtain m2 req gen2 t2 where 2: "ready ((sent @ length_frame (PackUnencrypted m1 (ReqPqMulti_wire \<lparr>ReqPqMulti_Nonce = nonce\<rparr>))) @
        length_frame (PackUnencrypted m2 (ReqDHParams_wire req)))
        (length_frame (PackUnencrypted r3 (SetClientDHParamsAnswer_wire (SetClientDHParamsAnswer_DhGenOk ans))) @ inp) t2"
      "ReqDHParams_Nonce req = nonce" "ReqDHParams_ServerNonce req = ResPQ_ServerNonce resPQ"
      "SetBytes (string_bytes (ReqDHParams_P req)) = p" "SetBytes (string_bytes (ReqDHParams_Q req)) = q"
      "request_dh v dc nonce resPQ gen1 t1 = Some (Inr (newNonce, dhOk, gen2), t2)"
    by (rule request_dh_answered [OF 1(1) env(1,3,4,5) first(1) n16 first(4-8) second(1,2)])
  have sb: "string_bytes (ServerDHParamsOk_EncryptedAnswer dhOk) = tmp_seal newNonce (ResPQ_ServerNonce resPQ) bs"
    using second(3) by simp
  have nn: "4 \<le> length newNonce" using env(4) by simp
  have sn16: "length (ResPQ_ServerNonce resPQ) = 16" using first(1) by (simp add: ResPQ_ok_def)
  let ?sent = "sent @ length_frame (PackUnencrypted m1 (ReqPqMulti_wire \<lparr>ReqPqMulti_Nonce = nonce\<rparr>)) @
      length_frame (PackUnencrypted m2 (ReqDHParams_wire req))"
  obtain last ak t3 where 3: "ready (?sent @ length_frame last) inp t3"
      "server_gB nonce (ResPQ_ServerNonce resPQ) newNonce last = Some (g ^ SetBytes bBytes mod P)" "ak_Value ak = fixed256 (BigBytes (shared_key inner bBytes))"
      "complete_dh v nonce (ResPQ_ServerNonce resPQ) newNonce dhOk gen2 t2 = Some (Inr ak, t3)"
    by (rule complete_dh_answered [OF 2(1) env(1,6) nn second(4-6) params(1) params(3)[unfolded params(2)] params(4) sb third
          params(5) n16 sn16, folded params(2)]) (use 2(1) in simp)
  have "length (ak_Value ak) = 256"
    using NewAuthKey_shared [of inner bBytes] params 3(3) by (metis NewAuthKey_def sum.distinct(1))
  moreover have "SetBytes (ak_Value ak) = (g ^ SetBytes bBytes mod P) ^ a mod P"
    using 3(3) params(2,6) dh_agree [of g a P "SetBytes bBytes"] by (simp add: shared_key_def SetBytes_BigBytes)
  moreover have "CreateAuthKey v dc tr = Some (Inr (ak, le_get (slice_of newNonce 0 8) XOR
      le_get (slice_of (ResPQ_ServerNonce resPQ) 0 8)), t3)"
    by (simp add: CreateAuthKey_def auth_bind_Some [where m = "request_pq v", OF rq]
        auth_bind_Some [where m = "request_dh v dc nonce resPQ gen1", OF 2(6)]
        auth_bind_Some [where m = "complete_dh v nonce (ResPQ_ServerNonce resPQ) newNonce dhOk gen2", OF 3(4)])
  moreover note 2(2-5) 3(2)
  moreover have "ready (?sent @ length_frame last) inp t3" by (rule 3(1))
  ultimately show ?thesis unfolding append_assoc by blast
qed

text \<open>
  C35. An answer to the first request with another nonce ends the exchange: the error names the
  mismatch, and the first request, with the client's nonce, is all that was sent.
\<close>
theorem create_auth_key_checks_nonce:
  assumes "ready sent (length_frame (PackUnencrypted rid (ResPQ_wire resPQ)) @ inp) tr"
    and "\<And>i. quiet (ae_net v i)" and "ae_rand v 0 16 = Inr nonce"
    and "ResPQ_ok resPQ" "length (ResPQ_wire resPQ) < 2 ^ 23" "ResPQ_Nonce resPQ \<noteq> nonce"
    and "mid = fst (MessageID_Next (ae_clock v 0) NewMessageIDGenerator)"
  shows "\<exists>tr'. CreateAuthKey v dc tr = Some (Inl (NewError ''auth: nonce mismatch in resPQ''), tr') \<and>
    ready (sent @ length_frame (PackUnencrypted mid
      (Encoder_Bytes (ReqPqMulti_Encode \<lparr>ReqPqMulti_Nonce = nonce\<rparr> Encoder_New)))) inp tr'"
proof -
  obtain m gen tr' where t: "MessageID_Next (ae_clock v 0) NewMessageIDGenerator = (m, gen)"
      "ready (sent @ length_frame (PackUnencrypted m (ReqPqMulti_wire \<lparr>ReqPqMulti_Nonce = nonce\<rparr>))) inp tr'"
      "request_pq v tr = Some (if ResPQ_Nonce resPQ = nonce then Inr (nonce, resPQ, gen)
        else Inl (NewError ''auth: nonce mismatch in resPQ''), tr')"
    by (rule request_pq_answered [OF assms(1-5)])
  with assms(6) have "CreateAuthKey v dc tr = Some (Inl (NewError ''auth: nonce mismatch in resPQ''), tr')"
    by (simp add: CreateAuthKey_def auth_bind_err)
  with t(1,2) assms(7) show ?thesis by (simp add: ReqPqMulti.put_wire)
qed

text \<open>A run for the witnesses: \<open>pq = 77\<close>, the group of order 23 with generator 5.\<close>

definition wit_nonce :: bytes where "wit_nonce = replicate 16 1"

definition wit_resPQ :: ResPQ where
  "wit_resPQ = \<lparr>ResPQ_Nonce = wit_nonce, ResPQ_ServerNonce = replicate 16 2, ResPQ_Pq = bytes_string [77],
     ResPQ_ServerPublicKeyFingerprints = [5]\<rparr>"

definition wit_inner :: ServerDHInnerData where
  "wit_inner = \<lparr>ServerDHInnerData_Nonce = replicate 16 0, ServerDHInnerData_ServerNonce = replicate 16 0,
     ServerDHInnerData_G = 5, ServerDHInnerData_DhPrime = bytes_string [23], ServerDHInnerData_GA = bytes_string [8],
     ServerDHInnerData_ServerTime = 0\<rparr>"

definition wit_plain :: bytes where
  "wit_plain = replicate 20 0 @ ServerDHInnerData_wire wit_inner @ replicate 8 0"

definition wit_dhOk :: ServerDHParamsOk where
  "wit_dhOk = \<lparr>ServerDHParamsOk_Nonce = replicate 16 0, ServerDHParamsOk_ServerNonce = replicate 16 0,
     ServerDHParamsOk_EncryptedAnswer = bytes_string (tmp_seal (replicate 32 3) (replicate 16 2) wit_plain)\<rparr>"

definition wit_ans :: DhGenOk where
  "wit_ans = \<lparr>DhGenOk_Nonce = replicate 16 0, DhGenOk_ServerNonce = replicate 16 0, DhGenOk_NewNonceHash1 = replicate 16 0\<rparr>"

definition wit_env :: auth_env where
  "wit_env = \<lparr>ae_rand = (\<lambda>i n. Inr (replicate n (of_nat (if i = 0 then 1 else if i = 1 then 3 else i)))),
     ae_clock = (\<lambda>i. 0), ae_net = (\<lambda>i. live_env)\<rparr>"

definition wit_conn :: "bytes \<Rightarrow> Conn" where
  "wit_conn inp = idle_conn\<lparr>conn_raw := idle_net\<lparr>net_in := \<lparr>rin = inp, rerr = IoEOF\<rparr>\<rparr>\<rparr>"

lemma wit_conn_ready: "ready [] inp (wit_conn inp)"
  by (simp add: ready_def wit_conn_def idle_conn_def idle_net_def)

lemma wit_net: "quiet (ae_net wit_env i)"
  by (simp add: wit_env_def quiet_def live_env_def)

lemma prime_7: "prime_nat 7" and prime_11: "prime_nat 11"
  by (rule prime_nat_code; simp add: atLeastLessThan_upt upt_conv_Cons del: atLeastLessThan_iff)+

lemma wit_pq: "ParsePQ (ResPQ_Pq wit_resPQ) = of_nat (7 * 11)"
  by (simp add: wit_resPQ_def ParsePQ_def bytes_string_def string_bytes_def)

lemma wit_plain_length: "length wit_plain = 80"
  by (simp add: wit_plain_def ServerDHInnerData_wire_def wit_inner_def tl_bytes_def tl_header_def tl_padding_def)

definition wit_stream :: bytes where
  "wit_stream = length_frame (PackUnencrypted 1 (ResPQ_wire wit_resPQ)) @
     length_frame (PackUnencrypted 2 (ServerDHParams_wire (ServerDHParams_ServerDHParamsOk wit_dhOk))) @
     length_frame (PackUnencrypted 3 (SetClientDHParamsAnswer_wire (SetClientDHParamsAnswer_DhGenOk wit_ans))) @ []"

theorem create_auth_key_agrees_witness:
  "\<exists>ak salt tr' last. CreateAuthKey wit_env 2 (wit_conn wit_stream) = Some (Inr (ak, salt), tr') \<and>
     server_gB wit_nonce (replicate 16 2) (replicate 32 3) last = Some (5 ^ SetBytes (replicate 256 3) mod 23) \<and>
     SetBytes (ak_Value ak) = (5 ^ SetBytes (replicate 256 3) mod 23) ^ 6 mod 23"
proof -
  have len: "length (tmp_seal (replicate 32 3) (replicate 16 2) wit_plain) = 80"
    using tmp_open_seal(2) [of "replicate 32 3" wit_plain "replicate 16 2"] wit_plain_length by simp
  have dh: "ServerDHParamsOk_ok wit_dhOk" "length (ServerDHParamsOk_wire wit_dhOk) < 2 ^ 23"
    using len length_tl_bytes_bound [of "tmp_seal (replicate 32 3) (replicate 16 2) wit_plain"]
    by (simp_all add: ServerDHParamsOk_ok_def wit_dhOk_def ServerDHParamsOk_wire_def)
  have resp: "ResPQ_ok wit_resPQ" "ResPQ_Nonce wit_resPQ = wit_nonce" "length (ResPQ_wire wit_resPQ) < 2 ^ 23"
    by (simp_all add: wit_resPQ_def wit_nonce_def ResPQ_ok_def ResPQ_wire_def tl_vector_def tl_bytes_def tl_header_def tl_padding_def)
  have inner: "ServerDHInnerData_ok wit_inner" "SetBytes (string_bytes (ServerDHInnerData_DhPrime wit_inner)) = 23"
      "SetBytes (string_bytes (ServerDHInnerData_GA wit_inner)) = 5 ^ 6 mod 23" "sint (ServerDHInnerData_G wit_inner) = int 5"
    by (simp_all add: wit_inner_def ServerDHInnerData_ok_def SetBytes_def)
  have rnd: "ae_rand wit_env 0 16 = Inr wit_nonce" "ae_rand wit_env 1 32 = Inr (replicate 32 3)"
      "\<And>n. \<exists>bs. ae_rand wit_env 2 n = Inr bs" "ae_rand wit_env 3 256 = Inr (replicate 256 3)"
    by (simp_all add: wit_env_def wit_nonce_def)
  have ans: "DhGenOk_ok wit_ans" by (simp add: DhGenOk_ok_def wit_ans_def)
  have "7 \<le> (11 :: nat)" "7 * 11 < (2 :: nat) ^ 64" "length (replicate 32 (3 :: byte)) = 32"
      "length (replicate 20 (0 :: byte)) = 20" "length wit_plain mod 16 = 0" "0 < (23 :: nat)"
      "length (ServerDHInnerData_DhPrime wit_inner) \<le> 256"
      "ServerDHParamsOk_EncryptedAnswer wit_dhOk =
        bytes_string (tmp_seal (replicate 32 3) (ResPQ_ServerNonce wit_resPQ) wit_plain)"
    by (simp_all add: wit_plain_length wit_inner_def wit_dhOk_def wit_resPQ_def)
  note side = this
  note r = create_auth_key_agrees [OF wit_conn_ready [of wit_stream, unfolded wit_stream_def] wit_net rnd(1,2) side(3) rnd(3,4)
      resp(1,2,3) wit_pq prime_7 prime_11 side(1,2) dh side(8) wit_plain_def side(4,5) inner(1) inner(2) [symmetric]
      side(6,7) inner(4,3) ans, of 2]
  have "ResPQ_ServerNonce wit_resPQ = replicate 16 2" by (simp add: wit_resPQ_def)
  with r show ?thesis unfolding wit_stream_def by metis
qed

theorem create_auth_key_checks_nonce_witness:
  "\<exists>tr'. CreateAuthKey wit_env 2 (wit_conn (length_frame (PackUnencrypted 1
      (ResPQ_wire (wit_resPQ\<lparr>ResPQ_Nonce := replicate 16 9\<rparr>))) @ [])) =
     Some (Inl (NewError ''auth: nonce mismatch in resPQ''), tr')"
proof -
  let ?r = "wit_resPQ\<lparr>ResPQ_Nonce := replicate 16 9\<rparr>"
  have "ResPQ_ok ?r" "length (ResPQ_wire ?r) < 2 ^ 23" "ae_rand wit_env 0 16 = Inr wit_nonce" "ResPQ_Nonce ?r \<noteq> wit_nonce"
    by (simp_all add: wit_resPQ_def wit_nonce_def ResPQ_ok_def ResPQ_wire_def tl_vector_def tl_bytes_def tl_header_def tl_padding_def wit_env_def)
  with create_auth_key_checks_nonce [OF wit_conn_ready wit_net, where rid = 1 and resPQ = ?r and inp = "[]"
      and nonce = wit_nonce and dc = 2, OF _ _ _ _ refl] show ?thesis by blast
qed

text \<open>
  \<^verbatim>\<open>FindKey\<close> never reports that no key is known: with no matching fingerprint it returns the first
  key, so the error that \<^verbatim>\<open>CreateAuthKey\<close> has for that case cannot occur.
\<close>
theorem find_key_never_nil:
  "(\<exists>key \<in> set DefaultTelegramKeys. FindKey fps = Some key) \<and>
   (set fps \<inter> rsa_Fingerprint ` set DefaultTelegramKeys = {} \<longrightarrow> FindKey fps = Some (DefaultTelegramKeys ! 0))"
proof -
  have "find_match fps DefaultTelegramKeys = None" if "set fps \<inter> rsa_Fingerprint ` set DefaultTelegramKeys = {}"
    using that by (induction fps) (auto split: option.splits simp: find_Some_iff image_iff)
  moreover have "DefaultTelegramKeys \<noteq> []" by (simp add: DefaultTelegramKeys_def Let_def)
  ultimately show ?thesis using FindKey_some by (auto simp: FindKey_def)
qed

theorem find_key_never_nil_witness: "\<exists>key \<in> set DefaultTelegramKeys. FindKey [] = Some key"
  by (rule conjunct1 [OF find_key_never_nil])

lemma SetBytes_cons: "SetBytes (b # bs) = unat b * 256 ^ length bs + SetBytes bs"
proof -
  have "fold (\<lambda>b n. 256 * n + unat b) bs k = k * 256 ^ length bs + fold (\<lambda>b n. 256 * n + unat b) bs 0" for k
  proof (induction bs arbitrary: k)
    case (Cons c bs)
    show ?case
      using Cons.IH [of "256 * k + unat c"] Cons.IH [of "unat c"] by (simp add: algebra_simps)
  qed simp
  from this [of "unat b"] show ?thesis by (simp add: SetBytes_def)
qed

lemma SetBytes_ge:
  assumes "take k bs \<noteq> replicate k 0" "k \<le> length bs"
  shows "256 ^ (length bs - k) \<le> SetBytes bs"
  using assms
proof (induction k arbitrary: bs)
  case (Suc k)
  then obtain b bs' where bs: "bs = b # bs'" by (cases bs) auto
  show ?case
  proof (cases "b = 0")
    case True
    then have "256 ^ (length bs' - k) \<le> SetBytes bs'" using Suc bs by auto
    then show ?thesis using bs True by (simp add: SetBytes_cons)
  next
    case False
    then have "1 \<le> unat b" by (simp add: Suc_leI unat_gt_0)
    have "256 ^ (length bs' - k) \<le> (256 :: nat) ^ length bs'" by (intro power_increasing) simp_all
    also have "\<dots> \<le> unat b * 256 ^ length bs'" using \<open>1 \<le> unat b\<close> by simp
    finally show ?thesis using bs by (simp add: SetBytes_cons)
  qed
qed simp

lemma default_modulus: "key \<in> set DefaultTelegramKeys \<Longrightarrow> 0 < rsa_N key \<and> rsa_N key < 256 ^ 248"
  by (simp add: DefaultTelegramKeys_def Let_def)

text \<open>
  C39. The built-in key is too short for the blocks it has to carry: its modulus has 1984 bits, the block
  of the RSA step 2040, and no exponent recovers a block that does not begin with seven zero bytes, so
  the server cannot read the client's data.
\<close>
theorem default_key_cannot_carry:
  assumes "key \<in> set DefaultTelegramKeys" "rand_ok rnd" "RSA_Encrypt key rnd data = Inr out"
  shows "\<exists>tail. length (sha1 data @ data @ tail) = 255 \<and>
    out = fixed256 (BigBytes (SetBytes (sha1 data @ data @ tail) ^ rsa_E key mod rsa_N key)) \<and>
    (take 7 (sha1 data) = replicate 7 0 \<or>
     (\<forall>d. BigExp (SetBytes out) d (rsa_N key) \<noteq> SetBytes (sha1 data @ data @ tail)))"
proof -
  obtain tail where t: "length (sha1 data @ data @ tail) = 255"
      "out = fixed256 (BigBytes (SetBytes (sha1 data @ data @ tail) ^ rsa_E key mod rsa_N key))"
    using RSA_Encrypt_cases [OF assms(3,2)] by blast
  have "x mod rsa_N key \<noteq> SetBytes (sha1 data @ data @ tail)" if "take 7 (sha1 data) \<noteq> replicate 7 0" for x
  proof -
    have "take 7 (sha1 data @ data @ tail) \<noteq> replicate 7 0" using that by simp
    from SetBytes_ge [OF this] t(1) have "256 ^ 248 \<le> SetBytes (sha1 data @ data @ tail)" by simp
    then show ?thesis using default_modulus [OF assms(1)] mod_less_divisor [of "rsa_N key" x] by linarith
  qed
  then show ?thesis using t unfolding BigExp_def by blast
qed

theorem default_key_cannot_carry_witness:
  "\<exists>out. RSA_Encrypt (DefaultTelegramKeys ! 0) (\<lambda>n. Inr (replicate n 0)) [] = Inr out \<and>
     (\<exists>tail. take 7 (sha1 []) = replicate 7 0 \<or>
       (\<forall>d. BigExp (SetBytes out) d (rsa_N (DefaultTelegramKeys ! 0)) \<noteq> SetBytes (sha1 [] @ [] @ tail)))"
proof -
  let ?k = "DefaultTelegramKeys ! 0" and ?rnd = "\<lambda>n. Inr (replicate n 0) :: goerror + bytes"
  have k: "?k \<in> set DefaultTelegramKeys" by (simp add: DefaultTelegramKeys_def Let_def)
  obtain out where out: "RSA_Encrypt ?k ?rnd [] = Inr out"
    using RSA_Encrypt_returns [of "[]" ?rnd ?k] by auto
  have "rand_ok ?rnd" by (simp add: rand_ok_def)
  from default_key_cannot_carry [OF k this out] out show ?thesis by blast
qed

text \<open>
  \<^verbatim>\<open>ParsePQ\<close> reads the eight bytes of a \<open>pq\<close> as a big-endian number, unless the bytes happen to be hexadecimal
  digits: those are decoded first, and the number is that of the four bytes they spell.
\<close>
theorem parse_pq_value:
  assumes "length bs = 8"
  shows "unat (ParsePQ (bytes_string bs)) =
    (case hex_DecodeString (bytes_string bs) of None \<Rightarrow> SetBytes bs | Some ds \<Rightarrow> SetBytes ds)"
proof -
  have step: "unat (fold (\<lambda>byteVal val. push_bit 8 val OR ucast byteVal) ds (0 :: uint64)) = SetBytes ds"
    if "length ds \<le> 8" for ds :: bytes
    using that
  proof (induction ds rule: rev_induct)
    case (snoc d ds)
    let ?v = "fold (\<lambda>byteVal val. push_bit 8 val OR ucast byteVal) ds (0 :: uint64)"
    have "SetBytes ds < 256 ^ length ds" by (rule SetBytes_less)
    also have "\<dots> \<le> 256 ^ 7" using snoc.prems by (intro power_increasing) simp_all
    finally have v: "unat ?v < 2 ^ 56" using snoc by simp
    have "push_bit 8 ?v OR ucast d = push_bit 8 ?v + ucast d"
      by (rule disjunctive_add_eq_or [symmetric], rule bit_eqI) (auto simp: bit_simps dest: bit_imp_le_length)
    moreover have "unat (push_bit 8 ?v + ucast d) = 256 * unat ?v + unat d"
    proof -
      have "unat (push_bit 8 ?v) = 256 * unat ?v"
        using v by (simp add: push_bit_eq_mult unat_word_ariths)
      moreover have d: "unat d < 256" using unsigned_less [of d] by simp
      moreover have "unat (ucast d :: uint64) = unat d" using d by (simp add: unsigned_ucast_eq take_bit_nat_eq_self)
      ultimately show ?thesis using v by (simp add: unat_word_ariths)
    qed
    ultimately show ?case using snoc by (simp add: SetBytes_snoc)
  qed (simp add: SetBytes_def)
  have dec: "length ds \<le> length cs" if "hex_DecodeString cs = Some ds" for cs ds
    using that by (induction cs arbitrary: ds rule: hex_DecodeString.induct) (auto split: option.splits)
  have ne: "ds \<noteq> []" if "hex_DecodeString (bytes_string bs) = Some ds" for ds
    using that assms by (cases bs; cases "tl bs") (auto simp: bytes_string_def split: option.splits)
  show ?thesis
    using assms step ne dec [of "bytes_string bs"]
    by (auto simp: ParsePQ_def Let_def split: option.split)
qed

theorem parse_pq_value_witness:
  "unat (ParsePQ (bytes_string [49, 50, 51, 52, 53, 54, 55, 56])) = SetBytes [18, 52, 86, 120]"
proof -
  have "hex_DecodeString (bytes_string [49, 50, 51, 52, 53, 54, 55, 56]) = Some [18, 52, 86, 120]" by code_simp
  with parse_pq_value [of "[49, 50, 51, 52, 53, 54, 55, 56]"] show ?thesis by simp
qed

end
