(* ===== verification/Client.thy ===== *)
theory Client
  imports Auth Connection Upload Session
begin

text \<open>
  The package \<^verbatim>\<open>client\<close>: the configuration (\<^verbatim>\<open>config.go\<close>), the loggers (\<^verbatim>\<open>logger.go\<close>) and the client that
  puts the other packages together (\<^verbatim>\<open>client.go\<close>).  What the calls meet in their environment, the dialled
  connection, the clocks and the random bytes, are arguments.  \<^verbatim>\<open>Start\<close> also returns the network connection that it
  dialled, because the code can lose every reference to it: whether it was closed is part of what is proved.
\<close>

section \<open>logger.go\<close>

datatype level = Debug | Info | Warn | Error

text \<open>
  The value of a \<^verbatim>\<open>Logger\<close>: \<^verbatim>\<open>NopLogger\<close>, or the wrapper of a \<^verbatim>\<open>slog.Logger\<close>, which is what it has been
  given to write.  All four methods of the wrapper forward to the method with the same name.
\<close>

datatype Logger = NopLogger | slogWrap "(level \<times> string \<times> string list) list"

definition Logger_log :: "level \<Rightarrow> string \<Rightarrow> string list \<Rightarrow> Logger \<Rightarrow> Logger" where
  "Logger_log lv msg args l =
     (case l of NopLogger \<Rightarrow> NopLogger | slogWrap out \<Rightarrow> slogWrap (out @ [(lv, msg, args)]))"

section \<open>config.go\<close>

datatype storage_impl = MemoryStorage Memory | FileStorage File

record Config =
  APIID :: int64
  APIHash :: string
  ServerAddr :: string
  cfg_Session :: "storage_impl option"
  cfg_Logger :: "Logger option"
  DeviceModel :: string
  SystemVersion :: string
  AppVersion :: string
  LangCode :: string
  MaxRetries :: int64
  ConnectTimeout :: int64
  RequestTimeout :: int64
  DownloadWorkers :: int64
  UploadWorkers :: int64
  ChunkSize :: int64

definition Version :: string where
  "Version = ''0.1.0-dev''"

text \<open>Durations count nanoseconds.\<close>

definition second :: int64 where
  "second = 1000000000"

definition or_default :: "'a \<Rightarrow> 'a \<Rightarrow> 'a \<Rightarrow> 'a" where
  "or_default zero dflt x = (if x = zero then dflt else x)"

definition applyDefaults :: "Config \<Rightarrow> Config" where
  "applyDefaults c =
     c\<lparr>ServerAddr := or_default '''' ''149.154.167.51:443'' (ServerAddr c),
       MaxRetries := or_default 0 5 (MaxRetries c),
       ConnectTimeout := or_default 0 (30 * second) (ConnectTimeout c),
       RequestTimeout := or_default 0 (60 * second) (RequestTimeout c),
       DownloadWorkers := or_default 0 4 (DownloadWorkers c),
       UploadWorkers := or_default 0 4 (UploadWorkers c),
       ChunkSize := or_default 0 (512 * 1024) (ChunkSize c),
       DeviceModel := or_default '''' ''teleGofer'' (DeviceModel c),
       SystemVersion := or_default '''' ''1.0'' (SystemVersion c),
       AppVersion := or_default '''' Version (AppVersion c),
       LangCode := or_default '''' ''en'' (LangCode c),
       cfg_Logger := or_default None (Some NopLogger) (cfg_Logger c),
       cfg_Session := or_default None (Some (MemoryStorage \<lparr>mem_data = None\<rparr>)) (cfg_Session c)\<rparr>"

text \<open>Go's \<^verbatim>\<open>%\<close> takes the sign of its first operand.\<close>

definition validate :: "Config \<Rightarrow> goerror option" where
  "validate c =
     (if APIID c = 0 then Some (NewError ''telegofer: API ID is required'')
      else if APIHash c = '''' then Some (NewError ''telegofer: API hash is required'')
      else if ChunkSize c \<noteq> 0 \<and> sint (ChunkSize c) smod 1024 \<noteq> 0
      then Some (NewError ''telegofer: chunk size must be divisible by 1024'')
      else if ChunkSize c \<noteq> 0 \<and> (512 * 1024) smod sint (ChunkSize c) \<noteq> 0
      then Some (NewError ''telegofer: 512KB must be evenly divisible by chunk size'')
      else if sint (MaxRetries c) < 0 then Some (NewError ''telegofer: max retries must be non-negative'')
      else None)"

section \<open>errors.go\<close>

text \<open>The sentinels for the life of a client; no code of the repository returns them.\<close>

definition Client_ErrClosed :: goerror where
  "Client_ErrClosed = NewError ''telegofer: client is closed''"

definition Client_ErrNotAuthorized :: goerror where
  "Client_ErrNotAuthorized = NewError ''telegofer: not authorized''"

section \<open>client.go\<close>

record Client =
  cl_cfg :: Config
  cl_log :: Logger
  cl_conn :: "Connection option"

definition NewClient :: "Config \<Rightarrow> goerror + Client" where
  "NewClient cfg =
     (case validate cfg of
        Some err \<Rightarrow> Inl err
      | None \<Rightarrow>
          let cfg = applyDefaults cfg in
          Inr \<lparr>cl_cfg = cfg, cl_log = (case cfg_Logger cfg of None \<Rightarrow> NopLogger | Some l \<Rightarrow> l), cl_conn = None\<rparr>)"

definition client_log :: "string \<Rightarrow> string list \<Rightarrow> Client \<Rightarrow> Client" where
  "client_log msg args c = c\<lparr>cl_log := Logger_log Info msg args (cl_log c)\<rparr>"

text \<open>
  \<^verbatim>\<open>Start\<close>.  \<open>se_dial\<close> answers the dialling of an address within a timeout.  The second result is the
  network connection that was dialled, as \<^verbatim>\<open>Start\<close> leaves it, when the client does not keep it;
  \<open>None\<close> is a start that never returns.
\<close>

record start_env =
  se_dial :: "string \<Rightarrow> int64 \<Rightarrow> goerror + net_conn"
  se_auth :: auth_env
  se_session :: entropy

definition Start :: "start_env \<Rightarrow> Client \<Rightarrow> (goerror option \<times> net_conn option \<times> Client) option" where
  "Start v c =
     (let c = client_log ''Connecting to Telegram...'' [''addr'', ServerAddr (cl_cfg c)] c in
      case Dial (se_dial v (ServerAddr (cl_cfg c)) (ConnectTimeout (cl_cfg c))) IntermediateCodec of
        (Inl err, raw) \<Rightarrow> Some (Some (Wrapped ''client: dial failed: '' err), raw, c)
      | (Inr tr, _) \<Rightarrow>
          (case CreateAuthKey (se_auth v) 2 tr of
             None \<Rightarrow> None
           | Some (Inl err, tr) \<Rightarrow>
               Some (Some (Wrapped ''client: auth failed: '' err), Some (conn_raw (snd (Conn_Close tr))), c)
           | Some (Inr (authKey, salt), tr) \<Rightarrow>
               (case NewConnection (se_session v) tr (Some authKey) salt of
                  Inl err \<Rightarrow>
                    Some (Some (Wrapped ''client: conn init failed: '' err), Some (conn_raw (snd (Conn_Close tr))), c)
                | Inr conn \<Rightarrow>
                    Some (None, None, client_log ''Connected to Telegram'' [] (c\<lparr>cl_conn := Some conn\<rparr>)))))"

text \<open>\<open>ev\<close> is what ends the wait for the response.\<close>

definition Client_Invoke ::
  "call_env \<Rightarrow> request \<Rightarrow> (Connection \<Rightarrow> Connection) \<Rightarrow> await_event \<Rightarrow> Client \<Rightarrow>
     ((goerror + bytes) \<times> Client) outcome" where
  "Client_Invoke v req others ev c =
     (case cl_conn c of
        None \<Rightarrow> Ret (Inl (NewError ''client: not connected''), c)
      | Some conn \<Rightarrow>
          let timeout = RequestTimeout (cl_cfg c);
              timeout = (if sint timeout \<le> 0 then 60 * second else timeout)
          in case Invoke v req others ev timeout conn of
               Ret (res, conn) \<Rightarrow> Ret (res, c\<lparr>cl_conn := Some conn\<rparr>)
             | Blocks \<Rightarrow> Blocks
             | NoFuel \<Rightarrow> NoFuel)"

definition Client_Uploader :: "Client \<Rightarrow> Uploader" where
  "Client_Uploader c = NewUploader (UploadWorkers (cl_cfg c)) (ChunkSize (cl_cfg c))"

definition Client_Downloader :: "Client \<Rightarrow> Downloader" where
  "Client_Downloader c = NewDownloader (DownloadWorkers (cl_cfg c)) (ChunkSize (cl_cfg c))"

text \<open>\<^verbatim>\<open>Close\<close>: the log entry, and where the call stands then: at the start of the \<^verbatim>\<open>Close\<close> of the connection or done.\<close>

definition Client_Close :: "Client \<Rightarrow> close_pc \<times> Client" where
  "Client_Close c =
     (let c = client_log ''Closing Telegram client'' [] c in
      case cl_conn c of Some conn \<Rightarrow> (CEnter, c) | None \<Rightarrow> (CDone None, c))"

section \<open>Lemmas\<close>

text \<open>Programs of the key exchange send and receive; none closes the transport.\<close>

definition keeps_open :: "'a auth \<Rightarrow> bool" where
  "keeps_open m \<longleftrightarrow> (\<forall>tr r tr'. m tr = Some (r, tr') \<longrightarrow> conn_closed tr' = conn_closed tr)"

named_theorems keeps_open_intros "programs of the key exchange that keep the transport open"

lemma keeps_open_bind [keeps_open_intros]:
  "keeps_open m \<Longrightarrow> (\<And>x. keeps_open (f x)) \<Longrightarrow> keeps_open (auth_bind m f)"
  unfolding keeps_open_def auth_bind_def by (fastforce split: option.splits sum.splits)

lemma keeps_open_lift [keeps_open_intros]: "keeps_open (auth_lift w r)"
  by (simp add: keeps_open_def auth_lift_def)

lemma keeps_open_return [keeps_open_intros]: "keeps_open (auth_return x)"
  by (simp add: keeps_open_def)

lemma keeps_open_check [keeps_open_intros]: "keeps_open (auth_check b msg)"
  by (simp add: keeps_open_def auth_check_def)

lemma keeps_open_factor [keeps_open_intros]: "keeps_open (auth_factor n)"
  by (simp add: keeps_open_def auth_factor_def split: option.split)

lemma keeps_open_Send [keeps_open_intros]: "keeps_open (auth_Send w v p)"
  by (auto simp: keeps_open_def auth_Send_def Conn_Send_def Let_def split: option.splits prod.splits if_splits)

lemma keeps_open_Recv [keeps_open_intros]: "keeps_open (auth_Recv w v)"
  by (auto simp: keeps_open_def auth_Recv_def Conn_Recv_def Let_def split: option.splits prod.splits if_splits sum.splits)

lemma keeps_open_exchange [keeps_open_intros]: "keeps_open (auth_exchange a b c v v' p)"
  unfolding auth_exchange_def by (auto intro!: keeps_open_intros split: prod.split)

lemma keeps_open_request_pq [keeps_open_intros]: "keeps_open (request_pq v)"
  unfolding request_pq_def by (auto intro!: keeps_open_intros simp: Let_def split: prod.split)

lemma keeps_open_request_dh [keeps_open_intros]: "keeps_open (request_dh v dc nonce resPQ gen)"
  unfolding request_dh_def
  by (auto intro!: keeps_open_intros simp: Let_def split: prod.split option.split ServerDHParams.split)

lemma keeps_open_complete_dh [keeps_open_intros]: "keeps_open (complete_dh v nonce sn nn dhOk gen)"
  unfolding complete_dh_def by (auto intro!: keeps_open_intros simp: Let_def split: prod.split)

lemma keeps_open_CreateAuthKey: "keeps_open (CreateAuthKey v dc)"
  unfolding CreateAuthKey_def by (auto intro!: keeps_open_intros split: prod.split)

lemma Dial_open: "Dial d c = (Inr tr, raw) \<Longrightarrow> \<not> conn_closed tr \<and> (\<exists>n. d = Inr n)"
  by (auto simp: Dial_def WrapConn_def Let_def split: sum.splits prod.splits option.splits)

text \<open>When \<^verbatim>\<open>Dial\<close> fails, nothing was dialled or the handshake failed and the connection is closed.\<close>

lemma net_Close_closed: "net_closed (snd (net_Close n))"
  by (simp add: net_Close_def)

lemma Dial_failed:
  "Dial d c = (Inl err, raw) \<Longrightarrow>
    (case d of Inl _ \<Rightarrow> raw = None | Inr _ \<Rightarrow> (\<exists>n. raw = Some n \<and> net_closed n))"
  by (auto simp: Dial_def WrapConn_def Let_def net_Close_closed
      split: sum.splits prod.splits option.splits)

lemma Close_open:
  "\<not> conn_closed tr \<Longrightarrow> conn_closed (snd (Conn_Close tr)) \<and> net_closed (conn_raw (snd (Conn_Close tr)))"
  by (simp add: Conn_Close_def net_Close_def)

lemma client_log_same [simp]:
  "cl_conn (client_log msg args c) = cl_conn c" "cl_cfg (client_log msg args c) = cl_cfg c"
  by (simp_all add: client_log_def)

lemma good_chunk_dvd: "good_chunk c \<longleftrightarrow> 0 < sint c \<and> 1024 dvd sint c \<and> sint c dvd 524288"
  by (auto simp: good_chunk_def dvd_eq_mod_eq_0)

lemma smod_dvd: "(a :: int) smod b = 0 \<longleftrightarrow> b dvd a"
  by (auto simp: signed_modulo_int_def sgn_eq_0_iff simp flip: dvd_eq_mod_eq_0)

lemma validate_iff:
  "validate c = None \<longleftrightarrow> APIID c \<noteq> 0 \<and> APIHash c \<noteq> '''' \<and> 0 \<le> sint (MaxRetries c) \<and>
     (ChunkSize c = 0 \<or> 1024 dvd sint (ChunkSize c) \<and> sint (ChunkSize c) dvd 524288)"
  by (auto simp: validate_def smod_dvd)

section \<open>Properties\<close>

text \<open>
  C31. What \<^verbatim>\<open>Start\<close> leaves behind.  With no error the client has a connection that is open, over a transport that
  is open, with the key and the salt of the key exchange on that transport.  With an error the client keeps the
  connection it had, and the network connection is closed whenever one was dialled, also when the handshake of the
  transport failed on it.
\<close>
theorem start_outcome:
  assumes "Start v c = Some (err, left, c')"
    and dialed: "dialed = se_dial v (ServerAddr (cl_cfg c)) (ConnectTimeout (cl_cfg c))"
  shows "cl_cfg c' = cl_cfg c \<and>
    (if err = None then left = None \<and> (\<exists>conn key salt tr. cl_conn c' = Some conn \<and> \<not> cn_closed conn \<and>
       \<not> conn_closed (cn_transport conn) \<and> cn_authKey conn = key \<and> serverSalt conn = salt \<and>
       fst (Dial dialed IntermediateCodec) = Inr tr \<and>
       CreateAuthKey (se_auth v) 2 tr = Some (Inr (key, salt), cn_transport conn))
     else cl_conn c' = cl_conn c \<and>
       (case dialed of Inl _ \<Rightarrow> left = None | Inr _ \<Rightarrow> (\<exists>n. left = Some n \<and> net_closed n)))"
proof -
  obtain r raw where d: "Dial dialed IntermediateCodec = (r, raw)" by fastforce
  show ?thesis
  proof (cases r)
    case (Inl e)
    then show ?thesis
      using assms(1) d Dial_failed [of dialed IntermediateCodec e raw]
      by (auto simp: Start_def Let_def simp flip: dialed split: sum.splits)
  next
    case (Inr tr)
    note open_tr = Dial_open [OF d [unfolded Inr]]
    have "\<not> conn_closed tr'" if "CreateAuthKey (se_auth v) 2 tr = Some (r, tr')" for r tr'
      using that open_tr keeps_open_CreateAuthKey unfolding keeps_open_def by metis
    then show ?thesis
      using assms(1) d Inr open_tr
      by (auto simp: Start_def Let_def NewConnection_def Close_open simp flip: dialed
          split: sum.splits option.splits prod.splits)
  qed
qed

text \<open>
  C32. A client that \<^verbatim>\<open>NewClient\<close> returns has a complete configuration: every field is the one that was given, or
  its default when that is zero, empty or \<^verbatim>\<open>nil\<close>.  Its transfers use a chunk size that the server accepts: the
  configured one when that is positive, 512 KB otherwise, also for the negative sizes that \<^verbatim>\<open>validate\<close> lets through.
\<close>
theorem new_client_ready:
  assumes "NewClient cfg = Inr c"
  shows "APIID (cl_cfg c) = APIID cfg \<and> APIID cfg \<noteq> 0 \<and> APIHash (cl_cfg c) = APIHash cfg \<and> APIHash cfg \<noteq> '''' \<and>
    ServerAddr (cl_cfg c) = (if ServerAddr cfg = '''' then ''149.154.167.51:443'' else ServerAddr cfg) \<and>
    sint (MaxRetries (cl_cfg c)) = (if MaxRetries cfg = 0 then 5 else sint (MaxRetries cfg)) \<and>
    sint (ConnectTimeout (cl_cfg c)) = (if ConnectTimeout cfg = 0 then 30 * 10 ^ 9 else sint (ConnectTimeout cfg)) \<and>
    sint (RequestTimeout (cl_cfg c)) = (if RequestTimeout cfg = 0 then 60 * 10 ^ 9 else sint (RequestTimeout cfg)) \<and>
    sint (DownloadWorkers (cl_cfg c)) = (if DownloadWorkers cfg = 0 then 4 else sint (DownloadWorkers cfg)) \<and>
    sint (UploadWorkers (cl_cfg c)) = (if UploadWorkers cfg = 0 then 4 else sint (UploadWorkers cfg)) \<and>
    sint (ChunkSize (cl_cfg c)) = (if ChunkSize cfg = 0 then 524288 else sint (ChunkSize cfg)) \<and>
    DeviceModel (cl_cfg c) = (if DeviceModel cfg = '''' then ''teleGofer'' else DeviceModel cfg) \<and>
    SystemVersion (cl_cfg c) = (if SystemVersion cfg = '''' then ''1.0'' else SystemVersion cfg) \<and>
    AppVersion (cl_cfg c) = (if AppVersion cfg = '''' then ''0.1.0-dev'' else AppVersion cfg) \<and>
    LangCode (cl_cfg c) = (if LangCode cfg = '''' then ''en'' else LangCode cfg) \<and>
    cfg_Session (cl_cfg c) = (if cfg_Session cfg = None then Some (MemoryStorage \<lparr>mem_data = None\<rparr>) else cfg_Session cfg) \<and>
    cfg_Logger (cl_cfg c) = Some (cl_log c) \<and>
    cl_log c = (case cfg_Logger cfg of None \<Rightarrow> NopLogger | Some l \<Rightarrow> l) \<and> cl_conn c = None \<and>
    0 < sint (MaxRetries (cl_cfg c)) \<and>
    ul_chunkSize (Client_Uploader c) = (if 0 < sint (ChunkSize cfg) then ChunkSize cfg else 512 * 1024) \<and>
    dl_chunkSize (Client_Downloader c) = ul_chunkSize (Client_Uploader c) \<and>
    good_chunk (ul_chunkSize (Client_Uploader c)) \<and>
    0 < sint (ul_workers (Client_Uploader c)) \<and> 0 < sint (dl_workers (Client_Downloader c))"
proof -
  have v: "validate cfg = None" and c: "cl_cfg c = applyDefaults cfg"
      "cl_log c = (case cfg_Logger (applyDefaults cfg) of None \<Rightarrow> NopLogger | Some l \<Rightarrow> l)" "cl_conn c = None"
    using assms by (auto simp: NewClient_def Let_def split: option.splits)
  have retries: "0 < sint (or_default 0 5 (MaxRetries cfg))"
    using v signed_eq_0_iff [of "MaxRetries cfg"] by (auto simp: validate_iff or_default_def order_less_le)
  have "good_chunk (or_default 0 (512 * 1024) (ChunkSize cfg)) \<longleftrightarrow> 0 \<le> sint (ChunkSize cfg)"
    using v signed_eq_0_iff [of "ChunkSize cfg"]
    by (auto simp: validate_iff or_default_def good_chunk_dvd order_less_le)
  then have chunk: "fst (CalculateParts 1 (ChunkSize (applyDefaults cfg))) =
      (if 0 < sint (ChunkSize cfg) then ChunkSize cfg else 512 * 1024)"
    using signed_eq_0_iff [of "ChunkSize cfg"]
    by (auto simp: CalculateParts_chunk applyDefaults_def or_default_def DefaultChunkSize_def order_less_le)
  have lg: "cfg_Logger (cl_cfg c) = Some (cl_log c)"
    "cl_log c = (case cfg_Logger cfg of None \<Rightarrow> NopLogger | Some l \<Rightarrow> l)"
    using c by (cases "cfg_Logger cfg"; simp add: applyDefaults_def or_default_def)+
  have "ul_chunkSize (Client_Uploader c) = fst (CalculateParts 1 (ChunkSize (applyDefaults cfg)))"
    "dl_chunkSize (Client_Downloader c) = fst (CalculateParts 1 (ChunkSize (applyDefaults cfg)))"
    "0 < sint (ul_workers (Client_Uploader c))" "0 < sint (dl_workers (Client_Downloader c))"
    using c by (simp_all add: Client_Uploader_def Client_Downloader_def NewUploader_def NewDownloader_def case_prod_beta)
  moreover have "APIID cfg \<noteq> 0" "APIHash cfg \<noteq> []" "0 < sint (MaxRetries (cl_cfg c))"
    using v c(1) retries by (simp_all add: applyDefaults_def validate_iff)
  moreover have defaults: "sint (MaxRetries (cl_cfg c)) = (if MaxRetries cfg = 0 then 5 else sint (MaxRetries cfg))"
    "sint (ConnectTimeout (cl_cfg c)) = (if ConnectTimeout cfg = 0 then 30 * 10 ^ 9 else sint (ConnectTimeout cfg))"
    "sint (RequestTimeout (cl_cfg c)) = (if RequestTimeout cfg = 0 then 60 * 10 ^ 9 else sint (RequestTimeout cfg))"
    "sint (DownloadWorkers (cl_cfg c)) = (if DownloadWorkers cfg = 0 then 4 else sint (DownloadWorkers cfg))"
    "sint (UploadWorkers (cl_cfg c)) = (if UploadWorkers cfg = 0 then 4 else sint (UploadWorkers cfg))"
    "sint (ChunkSize (cl_cfg c)) = (if ChunkSize cfg = 0 then 524288 else sint (ChunkSize cfg))"
    by (simp_all add: c(1) applyDefaults_def or_default_def second_def)
  ultimately show ?thesis
    using lg chunk CalculateParts_good [of 1 "ChunkSize (applyDefaults cfg)"]
    by (simp only: defaults) (simp add: c(1,3) applyDefaults_def or_default_def Version_def)
qed

theorem new_client_ready_witness:
  "\<exists>c. NewClient \<lparr>APIID = 1, APIHash = ''h'', ServerAddr = '''', cfg_Session = None, cfg_Logger = None,
      DeviceModel = '''', SystemVersion = '''', AppVersion = '''', LangCode = '''', MaxRetries = 0,
      ConnectTimeout = 0, RequestTimeout = 0, DownloadWorkers = 0, UploadWorkers = 0, ChunkSize = - 1024\<rparr> = Inr c \<and>
    ul_chunkSize (Client_Uploader c) = 512 * 1024"
proof -
  let ?cfg = "\<lparr>APIID = 1, APIHash = ''h'', ServerAddr = '''', cfg_Session = None, cfg_Logger = None,
      DeviceModel = '''', SystemVersion = '''', AppVersion = '''', LangCode = '''', MaxRetries = 0,
      ConnectTimeout = 0, RequestTimeout = 0, DownloadWorkers = 0, UploadWorkers = 0, ChunkSize = - 1024\<rparr>"
  have s: "sint (- 1024 :: int64) = - 1024" by simp
  then have "validate ?cfg = None" by (simp add: validate_iff)
  then obtain c where "NewClient ?cfg = Inr c" by (simp add: NewClient_def Let_def)
  with new_client_ready [OF this] s show ?thesis by auto
qed

text \<open>Starts of a client that was just made: the peer hangs up during the handshake, or it answers nothing.\<close>

definition silent_start :: "(nat \<times> goerror) option list \<Rightarrow> start_env" where
  "silent_start plan = \<lparr>se_dial = (\<lambda>_ _. Inr \<lparr>net_out = \<lparr>wbuf = [], wplan = plan\<rparr>, net_in = \<lparr>rin = [], rerr = IoEOF\<rparr>,
       net_closed = False, net_write_deadline = None, net_read_deadline = None, net_close_err = None\<rparr>),
     se_auth = \<lparr>ae_rand = (\<lambda>_ _. Inl (IoError 5)), ae_clock = (\<lambda>_. 0), ae_net = (\<lambda>_. live_env)\<rparr>,
     se_session = (\<lambda>n. Inr (replicate n 0))\<rparr>"

definition plain_client :: Client where
  "plain_client = \<lparr>cl_cfg = applyDefaults \<lparr>APIID = 1, APIHash = ''h'', ServerAddr = '''', cfg_Session = None,
      cfg_Logger = None, DeviceModel = '''', SystemVersion = '''', AppVersion = '''', LangCode = '''', MaxRetries = 0,
      ConnectTimeout = 0, RequestTimeout = 0, DownloadWorkers = 0, UploadWorkers = 0, ChunkSize = 0\<rparr>,
     cl_log = NopLogger, cl_conn = None\<rparr>"

theorem start_outcome_witness:
  "\<exists>err n c' err2 n2 c2. Start (silent_start [Some (1, IoEOF)]) plain_client =
       Some (Some (Wrapped ''client: dial failed: '' err), Some n, c') \<and> net_closed n \<and> cl_conn c' = None \<and>
     Start (silent_start []) plain_client = Some (Some (Wrapped ''client: auth failed: '' err2), Some n2, c2) \<and>
     net_closed n2 \<and> cl_conn c2 = None"
proof -
  let ?v = "silent_start [Some (1, IoEOF)]" and ?w = "silent_start []"
  have auth: "CreateAuthKey (se_auth (silent_start p)) 2 tr = Some (Inl (IoError 5), tr)" for p tr
    by (simp add: CreateAuthKey_def request_pq_def auth_bind_def auth_lift_def silent_start_def same_err_def)
  let ?dial = "\<lambda>v. Dial (se_dial v (ServerAddr (cl_cfg plain_client)) (ConnectTimeout (cl_cfg plain_client)))
      IntermediateCodec"
  note defs = Dial_def WrapConn_def codec_Handshake_def Intermediate_Handshake_def Write_def silent_start_def Let_def
  obtain err n where d: "?dial ?v = (Inl err, Some n)" by (simp add: defs)
  then obtain c' where s: "Start ?v plain_client = Some (Some (Wrapped ''client: dial failed: '' err), Some n, c')"
    by (simp add: Start_def Let_def)
  obtain tr raw where "?dial ?w = (Inr tr, raw)" by (simp add: defs)
  then obtain err2 n2 c2 where w: "Start ?w plain_client = Some (Some (Wrapped ''client: auth failed: '' err2), Some n2, c2)"
    using auth [of "[]"] by (simp add: Start_def Let_def)
  have peer: "\<exists>raw. se_dial (silent_start p) a b = Inr raw" for p a b by (simp add: silent_start_def)
  show ?thesis
    using start_outcome [OF s refl] start_outcome [OF w refl] s w peer
    by (fastforce simp: plain_client_def split: sum.splits)
qed

end
