(* ===== verification/Lexer.thy ===== *)
theory Lexer
  imports Prelude
begin

text \<open>
  \<^verbatim>\<open>tl/parser/lexer.go\<close>: the tokens of a TL schema.  The lexer works on runes; the model has the runes up to
  255, on which \<^verbatim>\<open>unicode.IsLetter\<close>, \<^verbatim>\<open>IsDigit\<close> and \<^verbatim>\<open>IsSpace\<close> are written out, and a Go string of the package is
  the list of its runes.  The loops are recursive functions; they end because the position grows.
\<close>

section \<open>The code\<close>

datatype TokenType =
    TokenEOF | TokenIdent | TokenSectionTypes | TokenSectionFunctions | TokenColon | TokenEquals
  | TokenSemicolon | TokenQuestion | TokenHash | TokenHexID | TokenAngleOpen | TokenAngleClose
  | TokenBraceOpen | TokenBraceClose

record Token =
  tok_Type :: TokenType
  tok_Value :: string
  tok_Line :: nat

record Lexer =
  lx_input :: string
  lx_pos :: nat
  lx_line :: nat

definition NewLexer :: "string \<Rightarrow> Lexer" where
  "NewLexer input = \<lparr>lx_input = input, lx_pos = 0, lx_line = 1\<rparr>"

abbreviation newline :: char where "newline \<equiv> CHR 0x0A"

definition char_in :: "nat \<Rightarrow> nat \<Rightarrow> char \<Rightarrow> bool" where
  "char_in lo hi c \<longleftrightarrow> lo \<le> of_char c \<and> of_char c \<le> hi"

definition IsLetter :: "char \<Rightarrow> bool" where
  "IsLetter c \<longleftrightarrow> char_in 0x41 0x5A c \<or> char_in 0x61 0x7A c \<or> c \<in> {CHR 0xAA, CHR 0xB5, CHR 0xBA} \<or>
     char_in 0xC0 0xD6 c \<or> char_in 0xD8 0xF6 c \<or> char_in 0xF8 0xFF c"

definition IsDigit :: "char \<Rightarrow> bool" where
  "IsDigit c \<longleftrightarrow> char_in 0x30 0x39 c"

definition IsSpace :: "char \<Rightarrow> bool" where
  "IsSpace c \<longleftrightarrow> c \<in> {CHR 0x09, CHR 0x0A, CHR 0x0B, CHR 0x0C, CHR 0x0D, CHR 0x20, CHR 0x85, CHR 0xA0}"

definition isIdentStart :: "char \<Rightarrow> bool" where
  "isIdentStart ch \<longleftrightarrow> IsLetter ch \<or> ch = CHR ''_'' \<or> ch = CHR ''%''"

definition isIdentPart :: "char \<Rightarrow> bool" where
  "isIdentPart ch \<longleftrightarrow> IsLetter ch \<or> IsDigit ch \<or> ch = CHR ''_'' \<or> ch = CHR ''.'' \<or> ch = CHR ''%''"

definition isHexDigit :: "char \<Rightarrow> bool" where
  "isHexDigit ch \<longleftrightarrow> char_in 0x30 0x39 ch \<or> char_in 0x61 0x66 ch \<or> char_in 0x41 0x46 ch"

definition peek :: "nat \<Rightarrow> Lexer \<Rightarrow> char" where
  "peek offset l =
     (let idx = lx_pos l + offset in
      if idx < length (lx_input l) then lx_input l ! idx else CHR 0x00)"

text \<open>The loops that move on while a condition holds, and collect the runes in a \<^verbatim>\<open>strings.Builder\<close>.\<close>

function scan :: "(char \<Rightarrow> bool) \<Rightarrow> Lexer \<Rightarrow> string \<times> Lexer" where
  "scan P l =
     (if lx_pos l < length (lx_input l) \<and> P (lx_input l ! lx_pos l)
      then (case scan P (l\<lparr>lx_pos := lx_pos l + 1\<rparr>) of (w, l') \<Rightarrow> (lx_input l ! lx_pos l # w, l'))
      else ([], l))"
  by pat_completeness auto
termination by (relation "measure (\<lambda>(P, l). length (lx_input l) - lx_pos l)") auto

declare scan.simps [simp del]

abbreviation rest_of :: "Lexer \<Rightarrow> string" where
  "rest_of l \<equiv> drop (lx_pos l) (lx_input l)"

lemma scan_eq:
  "scan P l = (takeWhile P (rest_of l), l\<lparr>lx_pos := lx_pos l + length (takeWhile P (rest_of l))\<rparr>)"
proof (induction P l rule: scan.induct)
  case (1 P l)
  show ?case
  proof (cases "lx_pos l < length (lx_input l) \<and> P (lx_input l ! lx_pos l)")
    case True
    moreover have "rest_of l = lx_input l ! lx_pos l # drop (Suc (lx_pos l)) (lx_input l)"
      using True by (simp add: Cons_nth_drop_Suc)
    ultimately show ?thesis
      using "1.IH" by (subst scan.simps) simp
  next
    case False
    then have "takeWhile P (rest_of l) = []"
      by (cases "rest_of l") (auto dest: nth_via_drop)
    then show ?thesis using False by (subst scan.simps) auto
  qed
qed

function skipWhitespaceAndComments :: "Lexer \<Rightarrow> Lexer" where
  "skipWhitespaceAndComments l =
     (if lx_pos l < length (lx_input l) then
        let ch = lx_input l ! lx_pos l in
        if ch = newline then skipWhitespaceAndComments (l\<lparr>lx_line := lx_line l + 1, lx_pos := lx_pos l + 1\<rparr>)
        else if IsSpace ch then skipWhitespaceAndComments (l\<lparr>lx_pos := lx_pos l + 1\<rparr>)
        else if ch = CHR ''/'' \<and> peek 1 l = CHR ''/''
        then skipWhitespaceAndComments (snd (scan (\<lambda>c. c \<noteq> newline) (l\<lparr>lx_pos := lx_pos l + 2\<rparr>)))
        else l
      else l)"
  by pat_completeness auto
termination
  by (relation "measure (\<lambda>l. length (lx_input l) - lx_pos l)") (auto simp: scan_eq)

declare skipWhitespaceAndComments.simps [simp del]

text \<open>\<^verbatim>\<open>strings.Trim(s, "-")\<close>.\<close>

definition Trim_dash :: "string \<Rightarrow> string" where
  "Trim_dash s = rev (dropWhile (\<lambda>c. c = CHR ''-'') (rev (dropWhile (\<lambda>c. c = CHR ''-'') s)))"

text \<open>The cases of the \<^verbatim>\<open>switch\<close> that take one rune.\<close>

definition symbols :: "(char \<times> TokenType) list" where
  "symbols =
     [(CHR '':'', TokenColon), (CHR ''='', TokenEquals), (CHR '';'', TokenSemicolon), (CHR ''?'', TokenQuestion),
      (CHR ''<'', TokenAngleOpen), (CHR ''>'', TokenAngleClose), (CHR ''{'', TokenBraceOpen),
      (CHR ''}'', TokenBraceClose)]"

definition is_marker :: "Lexer \<Rightarrow> bool" where
  "is_marker l \<longleftrightarrow> lx_input l ! lx_pos l = CHR ''-'' \<and> peek 1 l = CHR ''-'' \<and> peek 2 l = CHR ''-''"

text \<open>A section marker with another word moves the position and goes on with the rune it started with.\<close>

definition lex_marker :: "Lexer \<Rightarrow> Token option \<times> Lexer" where
  "lex_marker l =
     (if is_marker l then
        case scan (\<lambda>c. IsLetter c \<or> c = CHR ''-'') (l\<lparr>lx_pos := lx_pos l + 3\<rparr>) of (word, l') \<Rightarrow>
          let str = Trim_dash word in
          (if str = ''types'' then Some \<lparr>tok_Type = TokenSectionTypes, tok_Value = ''types'', tok_Line = lx_line l\<rparr>
           else if str = ''functions''
           then Some \<lparr>tok_Type = TokenSectionFunctions, tok_Value = ''functions'', tok_Line = lx_line l\<rparr>
           else None, l')
      else (None, l))"

definition lex_rest :: "char \<Rightarrow> nat \<Rightarrow> Lexer \<Rightarrow> Token \<times> Lexer" where
  "lex_rest ch startLine l =
     (case map_of symbols ch of
        Some ty \<Rightarrow> (\<lparr>tok_Type = ty, tok_Value = [ch], tok_Line = startLine\<rparr>, l\<lparr>lx_pos := lx_pos l + 1\<rparr>)
      | None \<Rightarrow>
          if ch = CHR ''#'' then
            let l = l\<lparr>lx_pos := lx_pos l + 1\<rparr> in
            if lx_pos l < length (lx_input l) \<and> isHexDigit (lx_input l ! lx_pos l)
            then (case scan isHexDigit l of (hexStr, l) \<Rightarrow>
                    (\<lparr>tok_Type = TokenHexID, tok_Value = hexStr, tok_Line = startLine\<rparr>, l))
            else (\<lparr>tok_Type = TokenHash, tok_Value = ''#'', tok_Line = startLine\<rparr>, l)
          else if isIdentStart ch then
            (case scan isIdentPart l of (ident, l) \<Rightarrow>
               (\<lparr>tok_Type = TokenIdent, tok_Value = ident, tok_Line = startLine\<rparr>, l))
          else (\<lparr>tok_Type = TokenIdent, tok_Value = [ch], tok_Line = startLine\<rparr>, l\<lparr>lx_pos := lx_pos l + 1\<rparr>))"

definition NextToken :: "Lexer \<Rightarrow> Token \<times> Lexer" where
  "NextToken l =
     (let l = skipWhitespaceAndComments l in
      if lx_pos l \<ge> length (lx_input l)
      then (\<lparr>tok_Type = TokenEOF, tok_Value = [], tok_Line = lx_line l\<rparr>, l)
      else let startLine = lx_line l; ch = lx_input l ! lx_pos l in
           case lex_marker l of
             (Some tok, l) \<Rightarrow> (tok, l)
           | (None, l) \<Rightarrow> lex_rest ch startLine l)"

section \<open>Progress\<close>

lemma skip_induct [case_names newline space comment stop]:
  assumes "\<And>l. lx_pos l < length (lx_input l) \<Longrightarrow> lx_input l ! lx_pos l = newline \<Longrightarrow>
      P (l\<lparr>lx_line := lx_line l + 1, lx_pos := lx_pos l + 1\<rparr>)
        (skipWhitespaceAndComments (l\<lparr>lx_line := lx_line l + 1, lx_pos := lx_pos l + 1\<rparr>)) \<Longrightarrow>
      P l (skipWhitespaceAndComments (l\<lparr>lx_line := lx_line l + 1, lx_pos := lx_pos l + 1\<rparr>))"
    and "\<And>l. lx_pos l < length (lx_input l) \<Longrightarrow> lx_input l ! lx_pos l \<noteq> newline \<Longrightarrow> IsSpace (lx_input l ! lx_pos l) \<Longrightarrow>
      P (l\<lparr>lx_pos := lx_pos l + 1\<rparr>) (skipWhitespaceAndComments (l\<lparr>lx_pos := lx_pos l + 1\<rparr>)) \<Longrightarrow>
      P l (skipWhitespaceAndComments (l\<lparr>lx_pos := lx_pos l + 1\<rparr>))"
    and "\<And>l m. lx_pos l < length (lx_input l) \<Longrightarrow> lx_input l ! lx_pos l = CHR ''/'' \<Longrightarrow> peek 1 l = CHR ''/'' \<Longrightarrow>
      m = snd (scan (\<lambda>c. c \<noteq> newline) (l\<lparr>lx_pos := lx_pos l + 2\<rparr>)) \<Longrightarrow>
      P m (skipWhitespaceAndComments m) \<Longrightarrow> P l (skipWhitespaceAndComments m)"
    and "\<And>l. length (lx_input l) \<le> lx_pos l \<or> \<not> IsSpace (lx_input l ! lx_pos l) \<and>
      \<not> (lx_input l ! lx_pos l = CHR ''/'' \<and> peek 1 l = CHR ''/'') \<Longrightarrow> P l l"
  shows "P l (skipWhitespaceAndComments l)"
proof (induction l rule: skipWhitespaceAndComments.induct)
  case (1 l)
  let ?ch = "lx_input l ! lx_pos l"
  have "IsSpace newline" by (simp add: IsSpace_def)
  consider "lx_pos l < length (lx_input l)" "?ch = newline"
    | "lx_pos l < length (lx_input l)" "?ch \<noteq> newline" "IsSpace ?ch"
    | "lx_pos l < length (lx_input l)" "\<not> IsSpace ?ch" "?ch = CHR ''/''" "peek 1 l = CHR ''/''"
    | "length (lx_input l) \<le> lx_pos l \<or> \<not> IsSpace ?ch \<and> \<not> (?ch = CHR ''/'' \<and> peek 1 l = CHR ''/'')"
    by (metis leI)
  then show ?case
  proof cases
    case 1
    with assms(1) [of l] "1.IH"(1) [OF 1(1) refl] show ?thesis by (subst skipWhitespaceAndComments.simps) simp
  next
    case 2
    with assms(2) [of l] "1.IH"(2) [OF 2(1) refl] show ?thesis by (subst skipWhitespaceAndComments.simps) simp
  next
    case 3
    with assms(3) [OF 3(1,3,4) refl] "1.IH"(3) [OF 3(1) refl] \<open>IsSpace newline\<close>
    show ?thesis by (subst skipWhitespaceAndComments.simps) (auto simp: Let_def)
  next
    case 4
    with assms(4) [OF 4] \<open>IsSpace newline\<close> show ?thesis
      by (subst skipWhitespaceAndComments.simps) (auto simp: Let_def)
  qed
qed

lemma skip_same: "lx_input (skipWhitespaceAndComments l) = lx_input l"
  by (induction l rule: skip_induct) (simp_all add: scan_eq)

lemma skip_pos: "lx_pos l \<le> lx_pos (skipWhitespaceAndComments l)"
  by (induction l rule: skip_induct) (simp_all add: scan_eq)

text \<open>Where skipping stops.\<close>

lemma skip_stop:
  "length (lx_input l) \<le> lx_pos (skipWhitespaceAndComments l) \<or>
     \<not> IsSpace (lx_input l ! lx_pos (skipWhitespaceAndComments l))"
  by (induction l rule: skip_induct) (auto simp: scan_eq)

lemma start_part: "isIdentStart c \<Longrightarrow> isIdentPart c"
  by (auto simp: isIdentStart_def isIdentPart_def)

lemma lex_marker_pos:
  assumes "lex_marker l = (r, l')"
  shows "lx_input l' = lx_input l" "lx_line l' = lx_line l" "lx_pos l \<le> lx_pos l'"
    "r \<noteq> None \<Longrightarrow> lx_pos l < lx_pos l'" "r = Some t \<Longrightarrow> tok_Type t \<noteq> TokenEOF \<and> tok_Line t = lx_line l"
    "l' \<noteq> l \<Longrightarrow> lx_input l ! lx_pos l = CHR ''-''"
  using assms by (auto simp: lex_marker_def is_marker_def Let_def scan_eq split: if_splits prod.splits)

lemma lex_rest_pos:
  assumes "lex_rest ch ln l = (t, l')" "lx_pos l < length (lx_input l) \<and> ch = lx_input l ! lx_pos l \<or> ch = CHR ''-''"
  shows "lx_input l' = lx_input l" "lx_line l' = lx_line l" "lx_pos l < lx_pos l'" "tok_Type t \<noteq> TokenEOF" "tok_Line t = ln"
proof -
  have "0 < length (takeWhile isIdentPart (rest_of l))" if "isIdentStart ch"
  proof -
    have "lx_pos l < length (lx_input l) \<and> ch = lx_input l ! lx_pos l"
      using assms(2) that by (auto simp: isIdentStart_def IsLetter_def char_in_def)
    then have "rest_of l = ch # drop (Suc (lx_pos l)) (lx_input l)" by (simp add: Cons_nth_drop_Suc)
    then show ?thesis using start_part [OF that] by simp
  qed
  with assms(1) show "lx_input l' = lx_input l" "lx_line l' = lx_line l" "lx_pos l < lx_pos l'"
      "tok_Type t \<noteq> TokenEOF" "tok_Line t = ln"
    by (auto simp: lex_rest_def symbols_def Let_def scan_eq split: if_splits prod.splits option.splits)
qed

lemma NextToken_pos:
  assumes "NextToken l = (t, l')"
  shows "lx_input l' = lx_input l" "lx_pos l \<le> lx_pos l'"
    "tok_Type t = TokenEOF \<longleftrightarrow> length (lx_input l) \<le> lx_pos (skipWhitespaceAndComments l)"
    "tok_Type t \<noteq> TokenEOF \<Longrightarrow> lx_pos l < lx_pos l' \<and> lx_pos l < length (lx_input l)"
    "tok_Line t = lx_line (skipWhitespaceAndComments l)" "lx_line l' = lx_line (skipWhitespaceAndComments l)"
proof -
  let ?s = "skipWhitespaceAndComments l"
  have *: "lx_input l' = lx_input ?s \<and> lx_pos ?s < lx_pos l' \<and> tok_Type t \<noteq> TokenEOF \<and>
      tok_Line t = lx_line ?s \<and> lx_line l' = lx_line ?s" if "lx_pos ?s < length (lx_input l)"
  proof -
    obtain r m where m: "lex_marker ?s = (r, m)" by fastforce
    show ?thesis
    proof (cases r)
      case None
      then have r: "lex_rest (lx_input l ! lx_pos ?s) (lx_line ?s) m = (t, l')"
        using assms that m by (simp add: NextToken_def Let_def skip_same)
      show ?thesis
        using lex_rest_pos [OF r] lex_marker_pos [OF m] that by (cases "m = ?s") (auto simp: skip_same)
    next
      case (Some tok)
      then show ?thesis
        using assms that m lex_marker_pos [OF m] by (auto simp: NextToken_def Let_def skip_same)
    qed
  qed
  have **: "tok_Type t = TokenEOF \<and> l' = ?s \<and> tok_Line t = lx_line ?s" if "length (lx_input l) \<le> lx_pos ?s"
    using assms that by (auto simp: NextToken_def Let_def skip_same)
  show "lx_input l' = lx_input l" "lx_pos l \<le> lx_pos l'"
    "tok_Type t = TokenEOF \<longleftrightarrow> length (lx_input l) \<le> lx_pos ?s"
    "tok_Type t \<noteq> TokenEOF \<Longrightarrow> lx_pos l < lx_pos l' \<and> lx_pos l < length (lx_input l)"
    "tok_Line t = lx_line ?s" "lx_line l' = lx_line ?s"
    using * ** skip_pos [of l] skip_same [of l] by (fastforce simp: not_le)+
qed

section \<open>Line numbers\<close>

definition line_at :: "string \<Rightarrow> nat \<Rightarrow> nat" where
  "line_at text n = 1 + length (filter (\<lambda>c. c = newline) (take n text))"

definition line_ok :: "Lexer \<Rightarrow> bool" where
  "line_ok l \<longleftrightarrow> lx_line l = line_at (lx_input l) (lx_pos l)"

lemma line_at_move:
  assumes "\<And>c. c \<in> set (slice_of xs n m) \<Longrightarrow> c \<noteq> newline" "n \<le> m"
  shows "line_at xs m = line_at xs n"
proof -
  have "take m xs = take n xs @ slice_of xs n m"
    using assms(2) append_take_drop_id [of n "take m xs"] by (simp add: slice_of_def drop_take min_def)
  moreover have "filter (\<lambda>c. c = newline) (slice_of xs n m) = []"
    using assms(1) by (simp add: filter_empty_conv)
  ultimately show ?thesis by (simp add: line_at_def)
qed

lemma takeWhile_slice: "slice_of xs n (n + length (takeWhile P (drop n xs))) = takeWhile P (drop n xs)"
  by (simp add: slice_of_def takeWhile_eq_take [symmetric])

lemma line_ok_scan:
  assumes "line_ok l" "\<And>c. P c \<Longrightarrow> c \<noteq> newline"
  shows "line_ok (snd (scan P l))"
proof -
  have "newline \<notin> set (takeWhile P (rest_of l))" using assms(2) set_takeWhileD by metis
  then show ?thesis
    using assms(1) by (auto simp: line_ok_def scan_eq takeWhile_slice intro!: line_at_move [symmetric])
qed

lemma line_at_Suc:
  "n < length xs \<Longrightarrow> line_at xs (Suc n) = line_at xs n + (if xs ! n = newline then 1 else 0)"
  by (simp add: line_at_def take_Suc_conv_app_nth)

lemma line_ok_step:
  assumes "line_ok l" "lx_pos l < length (lx_input l)" "lx_input l ! lx_pos l \<noteq> newline"
  shows "line_ok (l\<lparr>lx_pos := Suc (lx_pos l)\<rparr>)"
  using assms by (simp add: line_ok_def line_at_Suc)

lemma line_ok_peeks:
  assumes "line_ok l" "\<And>i. i < k \<Longrightarrow> lx_pos l + i < length (lx_input l) \<and> lx_input l ! (lx_pos l + i) \<noteq> newline"
  shows "line_ok (l\<lparr>lx_pos := lx_pos l + k\<rparr>)"
  using assms
proof (induction k)
  case (Suc k)
  then show ?case using line_ok_step [of "l\<lparr>lx_pos := lx_pos l + k\<rparr>"] by simp
qed simp

lemma peek_some: "peek k l = c \<Longrightarrow> c \<noteq> CHR 0x00 \<Longrightarrow> lx_pos l + k < length (lx_input l) \<and> lx_input l ! (lx_pos l + k) = c"
  by (auto simp: peek_def Let_def split: if_splits)

lemma skip_line_ok: "line_ok l \<Longrightarrow> line_ok (skipWhitespaceAndComments l)"
proof (induction l rule: skip_induct)
  case (newline l)
  then show ?case by (simp add: line_ok_def line_at_Suc)
next
  case (space l)
  then show ?case using line_ok_step by simp
next
  case (comment l m)
  have "line_ok (l\<lparr>lx_pos := lx_pos l + 2\<rparr>)"
    using comment peek_some [OF comment(3)] by (intro line_ok_peeks) (auto simp: less_2_cases_iff)
  then show ?case using comment line_ok_scan by simp
qed simp

lemma lex_rest_line_ok:
  assumes "lex_rest ch ln l = (t, l')" "line_ok l" "lx_pos l < length (lx_input l)" "ch = lx_input l ! lx_pos l"
    "\<not> IsSpace ch"
  shows "line_ok l'"
proof -
  have nl: "\<not> isIdentPart newline" "\<not> isHexDigit newline" "IsSpace newline"
    by (simp_all add: isIdentPart_def IsLetter_def IsDigit_def char_in_def isHexDigit_def IsSpace_def)
  then have s: "line_ok (l\<lparr>lx_pos := Suc (lx_pos l)\<rparr>)" using line_ok_step assms(2-5) by metis
  have "line_ok (snd (scan isIdentPart l))" "line_ok (snd (scan isHexDigit (l\<lparr>lx_pos := Suc (lx_pos l)\<rparr>)))"
    using nl assms(2) s by (metis line_ok_scan)+
  with s assms(1) show ?thesis
    by (auto simp: lex_rest_def Let_def split: if_splits prod.splits option.splits)
qed

lemma lex_marker_line_ok:
  assumes "lex_marker l = (r, l')" "line_ok l" "lx_pos l < length (lx_input l)"
  shows "line_ok l'"
proof (cases "is_marker l")
  case True
  then have "line_ok (l\<lparr>lx_pos := lx_pos l + 3\<rparr>)"
    using assms peek_some [of 1 l "CHR ''-''"] peek_some [of 2 l "CHR ''-''"]
    by (intro line_ok_peeks) (auto simp: is_marker_def less_Suc_eq numeral_3_eq_3)
  then have "line_ok (snd (scan (\<lambda>c. IsLetter c \<or> c = CHR ''-'') (l\<lparr>lx_pos := lx_pos l + 3\<rparr>)))"
    by (rule line_ok_scan) (auto simp: IsLetter_def char_in_def)
  then show ?thesis using assms(1) True by (auto simp: lex_marker_def Let_def split: prod.splits)
qed (use assms in \<open>simp add: lex_marker_def\<close>)

section \<open>Token streams\<close>

lemma rest_Cons:
  "rest_of l = c # cs \<longleftrightarrow> lx_pos l < length (lx_input l) \<and> lx_input l ! lx_pos l = c \<and>
     rest_of (l\<lparr>lx_pos := Suc (lx_pos l)\<rparr>) = cs"
  using Cons_nth_drop_Suc [of "lx_pos l" "lx_input l"] by (cases "lx_pos l < length (lx_input l)") auto

lemma rest_scan: "rest_of (snd (scan P l)) = dropWhile P (rest_of l)"
  by (simp add: scan_eq dropWhile_eq_drop add.commute)

lemma peek_rest: "peek k l = (if k < length (rest_of l) then rest_of l ! k else CHR 0x00)"
  by (auto simp: peek_def Let_def less_diff_conv add.commute)

definition starts_token :: "string \<Rightarrow> bool" where
  "starts_token r \<longleftrightarrow> r = [] \<or> \<not> IsSpace (hd r) \<and> hd r \<noteq> CHR ''/''"

lemma skip_spaces:
  assumes "rest_of l = sp @ r" "list_all IsSpace sp" "starts_token r"
  shows "rest_of (skipWhitespaceAndComments l) = r"
  using assms
proof (induction sp arbitrary: l)
  case Nil
  have "IsSpace newline" by (simp add: IsSpace_def)
  moreover have "lx_pos l < length (lx_input l) \<Longrightarrow> hd r = lx_input l ! lx_pos l \<and> r \<noteq> []"
    using Nil(1) by (auto simp: hd_drop_conv_nth)
  ultimately have "skipWhitespaceAndComments l = l"
    using Nil(3) by (subst skipWhitespaceAndComments.simps) (auto simp: starts_token_def Let_def)
  then show ?case using Nil(1) by simp
next
  case (Cons c sp)
  then have l: "lx_pos l < length (lx_input l)" "lx_input l ! lx_pos l = c" "IsSpace c"
    by (auto simp: rest_Cons)
  have r: "rest_of (l\<lparr>lx_pos := Suc (lx_pos l)\<rparr>) = sp @ r" using Cons.prems(1) by (simp only: append_Cons rest_Cons)
  then have r': "rest_of (l\<lparr>lx_line := n, lx_pos := Suc (lx_pos l)\<rparr>) = sp @ r" for n by simp
  have "skipWhitespaceAndComments l = (if c = newline
      then skipWhitespaceAndComments (l\<lparr>lx_line := Suc (lx_line l), lx_pos := Suc (lx_pos l)\<rparr>)
      else skipWhitespaceAndComments (l\<lparr>lx_pos := Suc (lx_pos l)\<rparr>))"
    using l by (subst skipWhitespaceAndComments.simps) (auto simp: Let_def)
  with Cons.IH [OF r'] Cons.IH [OF r] Cons.prems show ?case by simp
qed

text \<open>White space and complete comments.\<close>

function blank :: "string \<Rightarrow> bool" where
  "blank [] \<longleftrightarrow> True"
| "blank (c # cs) \<longleftrightarrow>
     (if IsSpace c then blank cs
      else c = CHR ''/'' \<and> cs \<noteq> [] \<and> hd cs = CHR ''/'' \<and> newline \<in> set cs \<and> blank (dropWhile (\<lambda>c. c \<noteq> newline) (tl cs)))"
  by pat_completeness auto
termination
  by (relation "measure length") (auto intro: le_less_trans [OF length_dropWhile_le])

lemma spaces_blank: "list_all IsSpace sp \<Longrightarrow> blank sp"
  by (induction sp) auto

lemma skip_blank:
  assumes "rest_of l = sp @ r" "blank sp" "starts_token r"
  shows "rest_of (skipWhitespaceAndComments l) = r"
  using assms
proof (induction sp arbitrary: l rule: blank.induct)
  case 1
  then show ?case using skip_spaces [of l "[]" r] by simp
next
  case (2 c sp)
  have l: "lx_pos l < length (lx_input l)" "lx_input l ! lx_pos l = c" using "2.prems"(1) by (auto simp: rest_Cons)
  have r: "rest_of (l\<lparr>lx_pos := Suc (lx_pos l)\<rparr>) = sp @ r" using "2.prems"(1) by (simp only: append_Cons rest_Cons)
  show ?case
  proof (cases "IsSpace c")
    case True
    have r': "rest_of (l\<lparr>lx_line := n, lx_pos := Suc (lx_pos l)\<rparr>) = sp @ r" for n using r by simp
    have "skipWhitespaceAndComments l = (if c = newline
        then skipWhitespaceAndComments (l\<lparr>lx_line := Suc (lx_line l), lx_pos := Suc (lx_pos l)\<rparr>)
        else skipWhitespaceAndComments (l\<lparr>lx_pos := Suc (lx_pos l)\<rparr>))"
      using l True by (subst skipWhitespaceAndComments.simps) (auto simp: Let_def)
    with "2.IH"(1) [OF True r'] "2.IH"(1) [OF True r] "2.prems" True show ?thesis by simp
  next
    case False
    then have c: "c = CHR ''/''" "sp \<noteq> []" "hd sp = CHR ''/''" "newline \<in> set sp"
        "blank (dropWhile (\<lambda>c. c \<noteq> newline) (tl sp))"
      using "2.prems"(2) by auto
    then obtain sp' where sp: "sp = CHR ''/'' # sp'" by (cases sp) auto
    then have nl: "newline \<in> set sp'" using c(4) by auto
    let ?l = "l\<lparr>lx_pos := lx_pos l + 2\<rparr>"
    have "rest_of ?l = drop 2 (rest_of l)" by (simp add: add.commute)
    then have rl: "rest_of ?l = sp' @ r" using "2.prems"(1) sp by simp
    have "rest_of (snd (scan (\<lambda>c. c \<noteq> newline) ?l)) = dropWhile (\<lambda>c. c \<noteq> newline) sp' @ r"
      unfolding rest_scan rl using nl by (simp add: dropWhile_append1)
    moreover have "peek 1 l = CHR ''/''" unfolding peek_rest using "2.prems"(1) sp by simp
    then have "skipWhitespaceAndComments l = skipWhitespaceAndComments (snd (scan (\<lambda>c. c \<noteq> newline) ?l))"
      using l c(1) False by (subst skipWhitespaceAndComments.simps) (auto simp: Let_def)
    ultimately show ?thesis using "2.IH"(2) [OF False, of "snd (scan (\<lambda>c. c \<noteq> newline) ?l)"] c "2.prems"(3) sp by simp
  qed
qed

text \<open>The text of a token, and what may follow it.\<close>

definition token_text :: "TokenType \<Rightarrow> string \<Rightarrow> string" where
  "token_text ty v =
     (if ty = TokenHexID then CHR ''#'' # v
      else if ty = TokenSectionTypes \<or> ty = TokenSectionFunctions then ''---'' @ v @ ''---''
      else v)"

definition ends :: "(char \<Rightarrow> bool) \<Rightarrow> string \<Rightarrow> bool" where
  "ends P r \<longleftrightarrow> r = [] \<or> \<not> P (hd r)"

definition is_ident :: "string \<Rightarrow> bool" where
  "is_ident v \<longleftrightarrow> v \<noteq> [] \<and> isIdentStart (hd v) \<and> list_all isIdentPart v"

fun good_token :: "TokenType \<Rightarrow> string \<Rightarrow> string \<Rightarrow> bool" where
  "good_token TokenIdent v r \<longleftrightarrow> is_ident v \<and> ends isIdentPart r"
| "good_token TokenHexID v r \<longleftrightarrow> v \<noteq> [] \<and> list_all isHexDigit v \<and> ends isHexDigit r"
| "good_token TokenHash v r \<longleftrightarrow> v = ''#'' \<and> ends isHexDigit r"
| "good_token TokenSectionTypes v r \<longleftrightarrow> v = ''types'' \<and> ends (\<lambda>c. IsLetter c \<or> c = CHR ''-'') r"
| "good_token TokenSectionFunctions v r \<longleftrightarrow> v = ''functions'' \<and> ends (\<lambda>c. IsLetter c \<or> c = CHR ''-'') r"
| "good_token TokenEOF v r \<longleftrightarrow> False"
| "good_token ty v r \<longleftrightarrow> v \<noteq> [] \<and> v = [hd v] \<and> map_of symbols (hd v) = Some ty"

lemma takeWhile_ends: "list_all P v \<Longrightarrow> ends P r \<Longrightarrow> takeWhile P (v @ r) = v"
  by (cases r) (auto simp: ends_def list_all_iff)

lemma scan_ends:
  assumes "rest_of l = v @ r" "list_all P v" "ends P r"
  obtains l' where "scan P l = (v, l')" "rest_of l' = r"
proof
  have "dropWhile P (v @ r) = r"
    using assms(2,3) by (cases r) (auto simp: ends_def list_all_iff dropWhile_append2)
  then show "rest_of (snd (scan P l)) = r" using assms(1) by (simp add: rest_scan)
  show "scan P l = (v, snd (scan P l))" using assms takeWhile_ends by (simp add: scan_eq)
qed

lemma lex_rest_good:
  assumes "rest_of l = token_text ty v @ r" "good_token ty v r"
    "ty \<noteq> TokenSectionTypes" "ty \<noteq> TokenSectionFunctions"
  shows "\<exists>t l'. lex_rest (hd (token_text ty v)) ln l = (t, l') \<and> tok_Type t = ty \<and> tok_Value t = v \<and> rest_of l' = r"
proof -
  consider (id) "ty = TokenIdent" | (hex) "ty = TokenHexID" | (hash) "ty = TokenHash"
    | (sym) c where "v = [c]" "map_of symbols c = Some ty" "ty \<notin> {TokenIdent, TokenHexID, TokenHash}"
    using assms(2-4) by (cases ty; cases v) auto
  then show ?thesis
  proof cases
    case id
    then have v: "is_ident v" "ends isIdentPart r" "rest_of l = v @ r" using assms by (auto simp: token_text_def)
    then obtain l' where "scan isIdentPart l = (v, l')" "rest_of l' = r"
      using scan_ends [of l v r isIdentPart] by (auto simp: is_ident_def)
    moreover have "map_of symbols (hd v) = None" "hd v \<noteq> CHR ''#''"
      using v(1) by (auto simp: is_ident_def isIdentStart_def IsLetter_def char_in_def symbols_def)
    ultimately show ?thesis
      using v id by (auto simp: lex_rest_def token_text_def is_ident_def)
  next
    case hex
    then have r: "rest_of (l\<lparr>lx_pos := Suc (lx_pos l)\<rparr>) = v @ r" "v \<noteq> []" "list_all isHexDigit v"
      using assms by (auto simp: token_text_def rest_Cons)
    then obtain l' where "scan isHexDigit (l\<lparr>lx_pos := Suc (lx_pos l)\<rparr>) = (v, l')" "rest_of l' = r"
      using hex assms(2) scan_ends [of "l\<lparr>lx_pos := Suc (lx_pos l)\<rparr>" v r isHexDigit] by auto
    moreover have "Suc (lx_pos l) < length (lx_input l) \<and> isHexDigit (lx_input l ! Suc (lx_pos l))"
      using r by (cases v) (auto simp: rest_Cons [of "l\<lparr>lx_pos := Suc (lx_pos l)\<rparr>", simplified])
    ultimately show ?thesis
      using r hex by (auto simp: lex_rest_def token_text_def symbols_def Let_def)
  next
    case hash
    then have r: "rest_of (l\<lparr>lx_pos := Suc (lx_pos l)\<rparr>) = r" "v = ''#''" "ends isHexDigit r"
      using assms by (auto simp: token_text_def rest_Cons)
    then have "\<not> (Suc (lx_pos l) < length (lx_input l) \<and> isHexDigit (lx_input l ! Suc (lx_pos l)))"
      by (auto simp: ends_def hd_drop_conv_nth)
    then show ?thesis using r hash by (auto simp: lex_rest_def token_text_def symbols_def Let_def)
  next
    case sym
    then have "rest_of (l\<lparr>lx_pos := Suc (lx_pos l)\<rparr>) = r"
      using assms(1,3,4) by (auto simp: token_text_def rest_Cons)
    then show ?thesis using sym assms(3,4) by (auto simp: lex_rest_def token_text_def)
  qed
qed

lemma lex_marker_good:
  assumes "rest_of l = token_text ty v @ r" "good_token ty v r" "ty = TokenSectionTypes \<or> ty = TokenSectionFunctions"
  shows "\<exists>t l'. lex_marker l = (Some t, l') \<and> tok_Type t = ty \<and> tok_Value t = v \<and> rest_of l' = r"
proof -
  let ?P = "\<lambda>c. IsLetter c \<or> c = CHR ''-''"
  have v: "v = ''types'' \<and> ty = TokenSectionTypes \<or> v = ''functions'' \<and> ty = TokenSectionFunctions" "ends ?P r"
    using assms(2,3) by auto
  have l: "rest_of l = ''---'' @ (v @ ''---'') @ r" using assms(1,3) by (auto simp: token_text_def)
  have "peek 1 l = CHR ''-''" "peek 2 l = CHR ''-''" unfolding peek_rest l by simp_all
  then have m: "is_marker l" using l rest_Cons [of l] by (simp add: is_marker_def)
  have "rest_of (l\<lparr>lx_pos := lx_pos l + 3\<rparr>) = drop 3 (rest_of l)" by (simp add: add.commute)
  then have "rest_of (l\<lparr>lx_pos := lx_pos l + 3\<rparr>) = (v @ ''---'') @ r" using l by simp
  moreover have "list_all ?P (v @ ''---'')"
    using v(1) by (auto simp: IsLetter_def char_in_def)
  ultimately obtain l' where "scan ?P (l\<lparr>lx_pos := lx_pos l + 3\<rparr>) = (v @ ''---'', l')" "rest_of l' = r"
    using v(2) by (rule scan_ends)
  with m v(1) show ?thesis by (auto simp: lex_marker_def Trim_dash_def)
qed

lemma good_start:
  assumes "good_token ty v r"
  shows "token_text ty v \<noteq> [] \<and> starts_token (token_text ty v @ r) \<and>
    (hd (token_text ty v) = CHR ''-'' \<longleftrightarrow> ty = TokenSectionTypes \<or> ty = TokenSectionFunctions)"
proof (cases "ty = TokenIdent")
  case True
  then show ?thesis
    using assms by (auto simp: token_text_def is_ident_def starts_token_def isIdentStart_def IsLetter_def char_in_def IsSpace_def)
next
  case False
  then show ?thesis
    using assms
    by (cases ty; cases v)
      (auto simp: token_text_def starts_token_def IsSpace_def symbols_def split: if_splits)
qed

lemma NextToken_good:
  assumes "rest_of l = sp @ token_text ty v @ r" "blank sp" "good_token ty v r"
  obtains t l' where "NextToken l = (t, l')" "tok_Type t = ty" "tok_Value t = v" "rest_of l' = r"
proof -
  let ?s = "skipWhitespaceAndComments l"
  note g = good_start [OF assms(3)]
  have s: "rest_of ?s = token_text ty v @ r" using skip_blank [OF assms(1,2)] g by simp
  then have pos: "lx_pos ?s < length (lx_input ?s)" and hd: "lx_input ?s ! lx_pos ?s = hd (token_text ty v)"
    using g rest_Cons [of ?s "hd (token_text ty v)" "tl (token_text ty v) @ r"] by simp_all
  show thesis
  proof (cases "ty = TokenSectionTypes \<or> ty = TokenSectionFunctions")
    case True
    then show thesis
      using lex_marker_good [OF s assms(3)] that pos by (auto simp: NextToken_def Let_def)
  next
    case False
    then have "lex_marker ?s = (None, ?s)" using g hd by (simp add: lex_marker_def is_marker_def)
    then show thesis
      using lex_rest_good [OF s assms(3), of "lx_line ?s"] False that pos hd by (auto simp: NextToken_def Let_def)
  qed
qed

text \<open>The tokens that follow, up to the end of the input.\<close>

fun lexes :: "Lexer \<Rightarrow> (TokenType \<times> string) list \<Rightarrow> bool" where
  "lexes l [] \<longleftrightarrow> tok_Type (fst (NextToken l)) = TokenEOF"
| "lexes l ((ty, v) # ts) \<longleftrightarrow>
     (case NextToken l of (t, l') \<Rightarrow> tok_Type t = ty \<and> tok_Value t = v \<and> lexes l' ts)"

lemma skip_end: "length (lx_input l) \<le> lx_pos l \<Longrightarrow> skipWhitespaceAndComments l = l"
  by (subst skipWhitespaceAndComments.simps) simp

lemma lexes_end: "lexes l [] \<Longrightarrow> lexes (snd (NextToken l)) [] \<and> tok_Value (fst (NextToken l)) = []"
  using NextToken_pos(3) [of l "fst (NextToken l)" "snd (NextToken l)"]
  by (simp add: NextToken_def Let_def skip_same skip_end)

text \<open>A text of tokens, each with the white space in front of it.\<close>

fun items_text :: "(string \<times> TokenType \<times> string) list \<Rightarrow> string" where
  "items_text [] = []"
| "items_text ((sp, ty, v) # its) = sp @ token_text ty v @ items_text its"

fun spaced :: "(string \<times> TokenType \<times> string) list \<Rightarrow> string \<Rightarrow> bool" where
  "spaced [] r \<longleftrightarrow> True"
| "spaced ((sp, ty, v) # its) r \<longleftrightarrow> blank sp \<and> good_token ty v (items_text its @ r) \<and> spaced its r"

lemma items_text_append [simp]: "items_text (xs @ ys) = items_text xs @ items_text ys"
  by (induction xs rule: items_text.induct) simp_all

lemma spaced_append [simp]: "spaced (xs @ ys) r \<longleftrightarrow> spaced xs (items_text ys @ r) \<and> spaced ys r"
  by (induction xs rule: items_text.induct) auto

lemma lexes_items:
  "rest_of l = items_text its @ r \<Longrightarrow> spaced its r \<Longrightarrow> blank r \<Longrightarrow> lexes l (map snd its)"
proof (induction its arbitrary: l)
  case Nil
  have "rest_of (skipWhitespaceAndComments l) = []"
    using Nil skip_blank [of l r "[]"] by (simp add: starts_token_def)
  then show ?case using NextToken_pos(3) [of l "fst (NextToken l)" "snd (NextToken l)"] by (simp add: skip_same)
next
  case (Cons it its)
  obtain sp ty v where it: "it = (sp, ty, v)" by (cases it) auto
  then have "rest_of l = sp @ token_text ty v @ items_text its @ r" "blank sp"
      "good_token ty v (items_text its @ r)" using Cons.prems by auto
  then obtain t l' where "NextToken l = (t, l')" "tok_Type t = ty" "tok_Value t = v" "rest_of l' = items_text its @ r"
    by (rule NextToken_good)
  with Cons it show ?case by simp
qed

section \<open>Properties\<close>

text \<open>
  Every token carries the number of its line, counted by the line feeds in front of it, and the count stays right
  after the token unless the token is a lone dash, which is also what an unknown section marker becomes.
\<close>
theorem token_lines:
  assumes "line_ok l" "NextToken l = (t, l')"
  shows "line_ok (NewLexer text) \<and> tok_Line t = line_at (lx_input l) (lx_pos (skipWhitespaceAndComments l)) \<and>
    (tok_Value t = ''-'' \<or> line_ok l')"
proof -
  let ?s = "skipWhitespaceAndComments l"
  have s: "line_ok ?s" by (rule skip_line_ok [OF assms(1)])
  have "tok_Value t = ''-'' \<or> line_ok l'"
  proof (cases "lx_pos ?s < length (lx_input l)")
    case True
    obtain r m where m: "lex_marker ?s = (r, m)" by fastforce
    then have "line_ok m" using lex_marker_line_ok [OF m s] True by (simp add: skip_same)
    show ?thesis
    proof (cases "r = None \<and> m = ?s")
      case rest: True
      then have "lex_rest (lx_input l ! lx_pos ?s) (lx_line ?s) ?s = (t, l')"
        using assms(2) True m by (simp add: NextToken_def Let_def skip_same)
      from lex_rest_line_ok [OF this s] True skip_stop [of l] show ?thesis by (simp add: skip_same)
    next
      case False
      have "tok_Value t = ''-''" if "r = None"
        using assms(2) True m False that lex_marker_pos(6) [OF m]
        by (auto simp: NextToken_def Let_def skip_same lex_rest_def symbols_def isIdentStart_def IsLetter_def char_in_def)
      moreover have "l' = m" if "r = Some tok" for tok
        using assms(2) True m that by (simp add: NextToken_def Let_def skip_same)
      ultimately show ?thesis using \<open>line_ok m\<close> by (cases r) auto
    qed
  next
    case False
    then show ?thesis using s assms(2) by (auto simp: NextToken_def Let_def skip_same)
  qed
  then show ?thesis
    using s NextToken_pos(5) [OF assms(2)] by (simp add: line_ok_def skip_same NewLexer_def line_at_def)
qed

theorem token_lines_witness:
  "tok_Line (fst (NextToken (NewLexer (newline # ''// c'' @ newline # ''a'')))) = 3"
proof -
  let ?l = "NewLexer (newline # ''// c'' @ newline # ''a'')"
  have "line_ok ?l" by (simp add: line_ok_def line_at_def NewLexer_def)
  from token_lines [OF this, of "fst (NextToken ?l)" "snd (NextToken ?l)"]
  have "tok_Line (fst (NextToken ?l)) = line_at (lx_input ?l) (lx_pos (skipWhitespaceAndComments ?l))" by simp
  also have "lx_pos (skipWhitespaceAndComments ?l) = 6" by code_simp
  finally show ?thesis by (simp add: line_at_def NewLexer_def)
qed

end
