(* ===== verification/Parser.thy ===== *)
theory Parser
  imports Lexer Go_Std
begin

text \<open>
  \<^verbatim>\<open>tl/parser/parser.go\<close> and \<^verbatim>\<open>schema.go\<close>: from the tokens to the definitions of a schema.  The parser keeps one
  token of look-ahead; every loop ends because reading a token that is not the last uses up input.
\<close>

section \<open>schema.go\<close>

record FlagCondition =
  fc_Field :: string
  fc_Bit :: int
  fc_IsTrue :: bool

record Param =
  pm_Name :: string
  pm_Type :: string
  pm_Flag :: "FlagCondition option"
  pm_IsVector :: bool
  pm_ElemType :: string

record Definition =
  df_Name :: string
  df_ID :: uint32
  df_Params :: "Param list"
  df_ResultType :: string
  df_IsFunction :: bool

record Schema =
  Constructors :: "Definition list"
  Functions :: "Definition list"

section \<open>parser.go\<close>

datatype parse_error =
    ExpectedName nat TokenType string
  | InvalidHexID nat string
  | ExpectedEquals nat string
  | ExpectedResult nat TokenType

record Parser =
  ps_lexer :: Lexer
  ps_cur :: Token
  ps_isFunction :: bool

definition nextToken :: "Parser \<Rightarrow> Parser" where
  "nextToken p = (case NextToken (ps_lexer p) of (t, l) \<Rightarrow> p\<lparr>ps_lexer := l, ps_cur := t\<rparr>)"

abbreviation cur_is :: "Parser \<Rightarrow> TokenType \<Rightarrow> bool" where
  "cur_is p ty \<equiv> tok_Type (ps_cur p) = ty"

text \<open>The input that is left, with the token read ahead; it decreases.\<close>

definition todo :: "Parser \<Rightarrow> nat" where
  "todo p = length (lx_input (ps_lexer p)) - lx_pos (ps_lexer p) + (if cur_is p TokenEOF then 0 else 1)"

lemma todo_next: "todo (nextToken p) \<le> todo p" "\<not> cur_is p TokenEOF \<Longrightarrow> todo (nextToken p) < todo p"
proof -
  obtain t l where n: "NextToken (ps_lexer p) = (t, l)" by fastforce
  show "todo (nextToken p) \<le> todo p" "\<not> cur_is p TokenEOF \<Longrightarrow> todo (nextToken p) < todo p"
    using NextToken_pos [OF n] n by (auto simp: todo_def nextToken_def)
qed

function skip_to_close :: "Parser \<Rightarrow> Parser" where
  "skip_to_close p =
     (if \<not> cur_is p TokenBraceClose \<and> \<not> cur_is p TokenEOF then skip_to_close (nextToken p) else p)"
  by pat_completeness auto
termination by (relation "measure todo") (auto intro: todo_next(2))

declare skip_to_close.simps [simp del]

definition skip_braces :: "Parser \<Rightarrow> Parser" where
  "skip_braces p =
     (let p = skip_to_close p in if cur_is p TokenBraceClose then nextToken p else p)"

lemma todo_skip_to_close: "todo (skip_to_close p) \<le> todo p"
proof (induction p rule: skip_to_close.induct)
  case (1 p)
  then show ?case using todo_next(1) [of p] by (subst skip_to_close.simps) auto
qed

lemma todo_skip_braces:
  assumes "cur_is p TokenBraceOpen"
  shows "todo (skip_braces p) < todo p"
proof -
  have "skip_to_close p = skip_to_close (nextToken p)" using assms by (subst skip_to_close.simps) simp
  moreover have "todo (nextToken p) < todo p" using assms todo_next(2) by simp
  ultimately show ?thesis
    using todo_skip_to_close [of "nextToken p"] todo_next(1) [of "skip_to_close (nextToken p)"]
    by (simp add: skip_braces_def Let_def)
qed

text \<open>The element type of a vector, after \<^verbatim>\<open>Vector\<close> and in front of \<^verbatim>\<open><\<close>.\<close>

definition parse_elem :: "Parser \<Rightarrow> string \<times> Parser" where
  "parse_elem p =
     (let p = nextToken p; elem = tok_Value (ps_cur p); p = nextToken p
      in (elem, if cur_is p TokenAngleClose then nextToken p else p))"

definition vector_of :: "string \<Rightarrow> string" where
  "vector_of elem = ''Vector<'' @ elem @ ''>''"

text \<open>\<^verbatim>\<open>strings.IndexByte\<close>: \<open>None\<close> is \<open>-1\<close>.\<close>

definition IndexByte :: "string \<Rightarrow> char \<Rightarrow> nat option" where
  "IndexByte s c = (if c \<in> set s then Some (length (takeWhile (\<lambda>x. x \<noteq> c) s)) else None)"

definition flag_field :: "string \<Rightarrow> string \<times> int" where
  "flag_field rawType =
     (case IndexByte rawType (CHR ''.'') of
        Some dotIdx \<Rightarrow>
          if dotIdx > 0 then
            (take dotIdx rawType,
             case Atoi (drop (dotIdx + 1) rawType) of Some parsedBit \<Rightarrow> parsedBit | None \<Rightarrow> 0)
          else (''flags'', 0)
      | None \<Rightarrow> (''flags'', 0))"

text \<open>The error that \<^verbatim>\<open>parseParamType\<close> can return in Go is always nil.\<close>

definition parseParamType :: "string \<Rightarrow> Parser \<Rightarrow> Param \<times> string \<times> Parser" where
  "parseParamType paramName p =
     (let rawType = tok_Value (ps_cur p); p = nextToken p in
      if cur_is p TokenQuestion then
        let p = nextToken p; condType = tok_Value (ps_cur p); p = nextToken p;
            isVec = (condType = ''Vector'' \<and> cur_is p TokenAngleOpen);
            (elem, p) = (if isVec then parse_elem p else ([], p));
            condType = (if isVec then vector_of elem else condType);
            (flagField, bitIdx) = flag_field rawType
        in (\<lparr>pm_Name = paramName, pm_Type = condType,
             pm_Flag = Some \<lparr>fc_Field = flagField, fc_Bit = bitIdx, fc_IsTrue = (condType = ''true'')\<rparr>,
             pm_IsVector = isVec, pm_ElemType = elem\<rparr>,
            paramName @ '':'' @ rawType @ ''?'' @ condType, p)
      else if rawType = ''Vector'' \<and> cur_is p TokenAngleOpen then
        let (elem, p) = parse_elem p in
        (\<lparr>pm_Name = paramName, pm_Type = vector_of elem, pm_Flag = None, pm_IsVector = True, pm_ElemType = elem\<rparr>,
         paramName @ '':'' @ vector_of elem, p)
      else
        (\<lparr>pm_Name = paramName, pm_Type = rawType, pm_Flag = None, pm_IsVector = False, pm_ElemType = []\<rparr>,
         paramName @ '':'' @ rawType, p))"

lemma todo_parse_elem: "parse_elem p = (elem, p') \<Longrightarrow> todo p' \<le> todo p"
  using todo_next(1) [of p] todo_next(1) [of "nextToken p"] todo_next(1) [of "nextToken (nextToken p)"]
  by (auto simp: parse_elem_def Let_def split: if_splits)

lemma todo_parseParamType:
  assumes "parseParamType name p = (param, sig, p')"
  shows "todo p' \<le> todo p"
proof -
  let ?n = "nextToken"
  have le: "todo (?n p) \<le> todo p" "todo (?n (?n (?n p))) \<le> todo p"
    using todo_next(1) [of p] todo_next(1) [of "?n p"] todo_next(1) [of "?n (?n p)"] by simp_all
  have "p' \<in> {?n p, ?n (?n (?n p)), snd (parse_elem (?n p)), snd (parse_elem (?n (?n (?n p))))}"
    using assms by (auto simp: parseParamType_def Let_def split: if_splits prod.splits)
  moreover have "todo (snd (parse_elem q)) \<le> todo q" for q
    by (rule todo_parse_elem [of q "fst (parse_elem q)"]) simp
  ultimately show ?thesis using le by (auto intro: le_trans)
qed

lemma todo_param:
  assumes "\<not> cur_is p TokenEOF" "parseParamType name (nextToken (nextToken p)) = (param, sig, p')"
  shows "todo p' < todo p"
  using todo_parseParamType [OF assms(2)] todo_next(1) [of "nextToken p"] todo_next(2) [OF assms(1)] by simp

text \<open>The loop over the parameters.\<close>

function parse_params :: "Parser \<Rightarrow> Param list \<Rightarrow> string list \<Rightarrow> Param list \<times> string list \<times> Parser" where
  "parse_params p params sigParts =
     (if cur_is p TokenEquals \<or> cur_is p TokenEOF \<or> cur_is p TokenSemicolon then (params, sigParts, p)
      else if cur_is p TokenBraceOpen then parse_params (skip_braces p) params sigParts
      else if \<not> cur_is p TokenIdent then parse_params (nextToken p) params sigParts
      else
        let paramName = tok_Value (ps_cur p); p = nextToken p in
        if \<not> cur_is p TokenColon then parse_params p params sigParts
        else case parseParamType paramName (nextToken p) of
               (param, sigPart, p) \<Rightarrow> parse_params p (params @ [param]) (sigParts @ [sigPart]))"
  by pat_completeness auto
termination
  by (relation "measure (\<lambda>(p, _). todo p)")
    (auto intro: todo_next(2) todo_skip_braces todo_param [OF _ sym])

declare parse_params.simps [simp del]

definition parseResultType :: "Parser \<Rightarrow> parse_error + string \<times> Parser" where
  "parseResultType p =
     (if \<not> cur_is p TokenIdent then Inl (ExpectedResult (tok_Line (ps_cur p)) (tok_Type (ps_cur p)))
      else let result = tok_Value (ps_cur p); p = nextToken p in
           if result = ''Vector'' \<and> cur_is p TokenAngleOpen
           then let (elem, p) = parse_elem p in Inr (vector_of elem, p)
           else Inr (result, p))"

text \<open>\<^verbatim>\<open>strconv.ParseUint(s, 16, 32)\<close> on hexadecimal digits, which is all it is called with.\<close>

definition hex_val :: "char \<Rightarrow> nat" where
  "hex_val c = (let n = of_char c in if n \<le> 0x39 then n - 0x30 else if n \<le> 0x46 then n - 0x37 else n - 0x57)"

definition ParseUint16_32 :: "string \<Rightarrow> uint32 option" where
  "ParseUint16_32 s =
     (let n = fold (\<lambda>c acc. 16 * acc + hex_val c) s 0 in if n < 2 ^ 32 then Some (of_nat n) else None)"

text \<open>\<^verbatim>\<open>[]byte(s)\<close>: the UTF-8 encoding of the runes.\<close>

definition utf8 :: "string \<Rightarrow> bytes" where
  "utf8 s = concat (map (\<lambda>c. let n = of_char c in
     if n < 0x80 then [of_nat n] else [of_nat (0xC0 + n div 0x40), of_nat (0x80 + n mod 0x40)]) s)"

definition Join :: "string list \<Rightarrow> string \<Rightarrow> string" where
  "Join parts sep = concat (case parts of [] \<Rightarrow> [] | x # xs \<Rightarrow> x # map (\<lambda>y. sep @ y) xs)"

definition parse_id :: "Parser \<Rightarrow> parse_error + uint32 option \<times> Parser" where
  "parse_id p =
     (if cur_is p TokenHexID then
        case ParseUint16_32 (tok_Value (ps_cur p)) of
          None \<Rightarrow> Inl (InvalidHexID (tok_Line (ps_cur p)) (tok_Value (ps_cur p)))
        | Some parsed \<Rightarrow> Inr (Some parsed, nextToken p)
      else Inr (None, p))"

definition parseDefinition :: "Parser \<Rightarrow> parse_error + Definition \<times> Parser" where
  "parseDefinition p =
     (let p = (if cur_is p TokenBraceOpen then skip_braces p else p) in
      if \<not> cur_is p TokenIdent
      then Inl (ExpectedName (tok_Line (ps_cur p)) (tok_Type (ps_cur p)) (tok_Value (ps_cur p)))
      else
        let name = tok_Value (ps_cur p) in
        case parse_id (nextToken p) of
          Inl err \<Rightarrow> Inl err
        | Inr (explicitID, p) \<Rightarrow>
            (case parse_params p [] [name] of (params, sigParts, p) \<Rightarrow>
               if \<not> cur_is p TokenEquals then Inl (ExpectedEquals (tok_Line (ps_cur p)) name)
               else case parseResultType (nextToken p) of
                      Inl err \<Rightarrow> Inl err
                    | Inr (resultType, p) \<Rightarrow>
                        let p = (if cur_is p TokenSemicolon then nextToken p else p);
                            ident = (case explicitID of
                                       Some i \<Rightarrow> i
                                     | None \<Rightarrow> ChecksumIEEE (utf8 (Join sigParts '' '' @ '' = '' @ resultType)))
                        in Inr (\<lparr>df_Name = name, df_ID = ident, df_Params = params, df_ResultType = resultType,
                                df_IsFunction = ps_isFunction p\<rparr>, p)))"

lemma todo_parse_id: "parse_id p = Inr (i, p') \<Longrightarrow> todo p' \<le> todo p"
  using todo_next(1) [of p] by (auto simp: parse_id_def split: if_splits option.splits)

lemma todo_parse_params: "parse_params p params sigs = (r, s, p') \<Longrightarrow> todo p' \<le> todo p"
proof (induction p params sigs arbitrary: r s p' rule: parse_params.induct)
  case (1 p params sigs)
  note step = parse_params.simps [of p params sigs]
  consider "cur_is p TokenEquals \<or> cur_is p TokenEOF \<or> cur_is p TokenSemicolon"
    | (braces) "cur_is p TokenBraceOpen"
    | (other) "\<not> (cur_is p TokenEquals \<or> cur_is p TokenEOF \<or> cur_is p TokenSemicolon)" "\<not> cur_is p TokenBraceOpen"
        "\<not> cur_is p TokenIdent"
    | (bare) "cur_is p TokenIdent" "\<not> cur_is (nextToken p) TokenColon"
    | (param) "cur_is p TokenIdent" "cur_is (nextToken p) TokenColon"
    by blast
  then show ?case
  proof cases
    case 1
    then show ?thesis using "1.prems" step by auto
  next
    case braces
    then show ?thesis using "1.prems" step "1.IH"(1) [of r s p'] todo_skip_braces [of p] by auto
  next
    case other
    then show ?thesis using "1.prems" step "1.IH"(2) [of r s p'] todo_next(1) [of p] by auto
  next
    case bare
    then show ?thesis
      using "1.prems" step "1.IH"(3) [OF _ _ _ refl refl, of r s p'] todo_next(1) [of p] by (auto simp: Let_def)
  next
    case param
    obtain a b q where q: "parseParamType (tok_Value (ps_cur p)) (nextToken (nextToken p)) = (a, b, q)"
      by (metis prod_cases3)
    have "\<not> cur_is p TokenEOF" using param by simp
    from todo_param [OF this q] param q show ?thesis
      using "1.prems" step "1.IH"(4) [OF _ _ _ refl refl _ q [symmetric] refl, of r s p'] by (auto simp: Let_def)
  qed
qed

lemma todo_parseResultType: "parseResultType p = Inr (r, p') \<Longrightarrow> todo p' < todo p"
  using todo_next(2) [of p] todo_parse_elem [of "nextToken p"]
  by (fastforce simp: parseResultType_def Let_def split: if_splits prod.splits)

lemma todo_parseDefinition:
  assumes "parseDefinition p = Inr (d, p')"
  shows "todo p' < todo p"
proof -
  let ?p = "if cur_is p TokenBraceOpen then skip_braces p else p"
  have 1: "todo ?p \<le> todo p" using todo_skip_braces [of p] by auto
  have id: "cur_is ?p TokenIdent" using assms by (auto simp: parseDefinition_def Let_def split: if_splits)
  then have 2: "todo (nextToken ?p) < todo ?p" by (intro todo_next(2)) simp
  obtain i p1 where p1: "parse_id (nextToken ?p) = Inr (i, p1)"
    using assms id by (auto simp: parseDefinition_def Let_def split: sum.splits if_splits)
  obtain ps sg p2 where p2: "parse_params p1 [] [tok_Value (ps_cur ?p)] = (ps, sg, p2)" by (metis prod_cases3)
  obtain r p3 where p3: "parseResultType (nextToken p2) = Inr (r, p3)"
      and p': "p' = (if cur_is p3 TokenSemicolon then nextToken p3 else p3)"
    using assms id p1 p2 by (auto simp: parseDefinition_def Let_def split: sum.splits if_splits)
  have "todo p' \<le> todo p3" using p' todo_next(1) by simp
  with 1 2 todo_parse_id [OF p1] todo_parse_params [OF p2] todo_next(1) [of p2] todo_parseResultType [OF p3]
  show ?thesis by linarith
qed

lemma todo_section: "\<not> cur_is p TokenEOF \<Longrightarrow> todo (nextToken (p\<lparr>ps_isFunction := b\<rparr>)) < todo p"
  using todo_next(2) [of "p\<lparr>ps_isFunction := b\<rparr>"] by (simp add: todo_def)

function parse_loop :: "Parser \<Rightarrow> Schema \<Rightarrow> parse_error + Schema" where
  "parse_loop p schema =
     (if cur_is p TokenEOF then Inr schema
      else if cur_is p TokenSectionTypes then parse_loop (nextToken (p\<lparr>ps_isFunction := False\<rparr>)) schema
      else if cur_is p TokenSectionFunctions then parse_loop (nextToken (p\<lparr>ps_isFunction := True\<rparr>)) schema
      else if cur_is p TokenSemicolon then parse_loop (nextToken p) schema
      else case parseDefinition p of
             Inl err \<Rightarrow> Inl err
           | Inr (def, p) \<Rightarrow>
               parse_loop p
                 (if df_IsFunction def then schema\<lparr>Functions := Functions schema @ [def]\<rparr>
                  else schema\<lparr>Constructors := Constructors schema @ [def]\<rparr>))"
  by pat_completeness auto
termination
  by (relation "measure (\<lambda>(p, _). todo p)") (auto intro: todo_next(2) todo_parseDefinition todo_section)

declare parse_loop.simps [simp del]

definition Parse :: "string \<Rightarrow> parse_error + Schema" where
  "Parse input =
     parse_loop (nextToken \<lparr>ps_lexer = NewLexer input, ps_cur = \<lparr>tok_Type = TokenEOF, tok_Value = [], tok_Line = 0\<rparr>,
       ps_isFunction = False\<rparr>) \<lparr>Constructors = [], Functions = []\<rparr>"

section \<open>Parsing a stream of tokens\<close>

text \<open>The tokens in front of the parser: the one it has read and the ones the lexer will deliver.\<close>

fun at :: "Parser \<Rightarrow> (TokenType \<times> string) list \<Rightarrow> bool" where
  "at p [] \<longleftrightarrow> cur_is p TokenEOF \<and> lexes (ps_lexer p) []"
| "at p ((ty, v) # ts) \<longleftrightarrow> cur_is p ty \<and> tok_Value (ps_cur p) = v \<and> lexes (ps_lexer p) ts"

lemma isFunction_next [simp]: "ps_isFunction (nextToken p) = ps_isFunction p"
  by (simp add: nextToken_def split: prod.split)

lemma lexes_next: "lexes (ps_lexer p) ts \<Longrightarrow> at (nextToken p) ts"
proof (cases ts)
  case Nil
  then show "lexes (ps_lexer p) ts \<Longrightarrow> at (nextToken p) ts"
    using lexes_end [of "ps_lexer p"] by (simp add: nextToken_def case_prod_beta)
qed (auto simp: nextToken_def split: prod.splits)

lemma at_next: "at p ((ty, v) # ts) \<Longrightarrow> at (nextToken p) ts"
  by (simp add: lexes_next)

lemma at_cur: "at p ((ty, v) # ts) \<Longrightarrow> cur_is p ty" "at p ((ty, v) # ts) \<Longrightarrow> tok_Value (ps_cur p) = v"
  by simp_all

text \<open>A parser reaches \<open>q\<close> and then the tokens \<open>ts\<close> are in front of it.\<close>

definition leaves :: "Parser \<Rightarrow> Parser \<Rightarrow> (TokenType \<times> string) list \<Rightarrow> bool" where
  "leaves p q ts \<longleftrightarrow> at q ts \<and> ps_isFunction q = ps_isFunction p"

lemma parse_elem_at:
  assumes "at p ((TokenAngleOpen, ''<'') # (TokenIdent, e) # (TokenAngleClose, ''>'') # ts)"
  shows "\<exists>q. parse_elem p = (e, q) \<and> leaves p q ts"
proof -
  have 1: "at (nextToken p) ((TokenIdent, e) # (TokenAngleClose, ''>'') # ts)" by (rule at_next [OF assms])
  have 2: "at (nextToken (nextToken p)) ((TokenAngleClose, ''>'') # ts)" by (rule at_next [OF 1])
  have 3: "at (nextToken (nextToken (nextToken p))) ts" by (rule at_next [OF 2])
  show ?thesis using at_cur [OF 1] at_cur(1) [OF 2] 3 by (simp add: parse_elem_def Let_def leaves_def)
qed

section \<open>Printing\<close>

definition type_items :: "string \<Rightarrow> Param \<Rightarrow> (string \<times> TokenType \<times> string) list" where
  "type_items sp pm =
     (if pm_IsVector pm then
        [(sp, TokenIdent, ''Vector''), ('''', TokenAngleOpen, ''<''), ('''', TokenIdent, pm_ElemType pm),
         ('''', TokenAngleClose, ''>'')]
      else if pm_Type pm = ''#'' then [(sp, TokenHash, ''#'')]
      else [(sp, TokenIdent, pm_Type pm)])"

definition flag_text :: "FlagCondition \<Rightarrow> string" where
  "flag_text f = fc_Field f @ ''.'' @ fmt_nat (nat (fc_Bit f))"

definition param_items :: "Param \<Rightarrow> (string \<times> TokenType \<times> string) list" where
  "param_items pm =
     ('' '', TokenIdent, pm_Name pm) # ('''', TokenColon, '':'') #
     (case pm_Flag pm of
        None \<Rightarrow> []
      | Some f \<Rightarrow> [('''', TokenIdent, flag_text f), ('''', TokenQuestion, ''?'')]) @
     type_items '''' pm"

definition result_items :: "string \<Rightarrow> (string \<times> TokenType \<times> string) list" where
  "result_items r =
     (if is_ident r then [('' '', TokenIdent, r)]
      else [('' '', TokenIdent, ''Vector''), ('''', TokenAngleOpen, ''<''),
            ('''', TokenIdent, butlast (drop 7 r)), ('''', TokenAngleClose, ''>'')])"

definition def_items :: "Definition \<Rightarrow> (string \<times> TokenType \<times> string) list" where
  "def_items d =
     ([newline], TokenIdent, df_Name d) # ('''', TokenHexID, fmt_hex 8 (unat (df_ID d))) #
     concat (map param_items (df_Params d)) @ ('' '', TokenEquals, ''='') #
     result_items (df_ResultType d) @ [('''', TokenSemicolon, '';'')]"

definition schema_items :: "Schema \<Rightarrow> (string \<times> TokenType \<times> string) list" where
  "schema_items s =
     concat (map def_items (Constructors s)) @ ([newline], TokenSectionFunctions, ''functions'') #
     concat (map def_items (Functions s))"

definition print_schema :: "Schema \<Rightarrow> string" where
  "print_schema s = items_text (schema_items s) @ [newline]"

definition flag_ok :: "Param \<Rightarrow> FlagCondition \<Rightarrow> bool" where
  "flag_ok pm f \<longleftrightarrow> is_ident (fc_Field f) \<and> CHR ''.'' \<notin> set (fc_Field f) \<and> 0 \<le> fc_Bit f \<and> fc_Bit f < 2 ^ 63 \<and>
     fc_IsTrue f = (pm_Type pm = ''true'')"

definition param_ok :: "Param \<Rightarrow> bool" where
  "param_ok pm \<longleftrightarrow> is_ident (pm_Name pm) \<and>
     (if pm_IsVector pm then is_ident (pm_ElemType pm) \<and> pm_Type pm = vector_of (pm_ElemType pm)
      else pm_ElemType pm = [] \<and> (is_ident (pm_Type pm) \<or> pm_Type pm = ''#'')) \<and>
     (case pm_Flag pm of None \<Rightarrow> True | Some f \<Rightarrow> flag_ok pm f)"

definition result_ok :: "string \<Rightarrow> bool" where
  "result_ok r \<longleftrightarrow> is_ident r \<or> (\<exists>e. r = vector_of e \<and> is_ident e)"

definition def_ok :: "bool \<Rightarrow> Definition \<Rightarrow> bool" where
  "def_ok fn d \<longleftrightarrow> is_ident (df_Name d) \<and> list_all param_ok (df_Params d) \<and> result_ok (df_ResultType d) \<and>
     df_IsFunction d = fn"

definition schema_ok :: "Schema \<Rightarrow> bool" where
  "schema_ok s \<longleftrightarrow> list_all (def_ok False) (Constructors s) \<and> list_all (def_ok True) (Functions s)"

text \<open>The printed text falls into the tokens it was made of.\<close>

definition breaks :: "string \<Rightarrow> bool" where
  "breaks r \<longleftrightarrow> r = [] \<or> hd r \<in> {CHR '' '', newline, CHR '';''}"

lemma breaks_ends:
  "breaks r \<Longrightarrow> ends isIdentPart r" "breaks r \<Longrightarrow> ends isHexDigit r" "breaks r \<Longrightarrow> ends (\<lambda>c. IsLetter c \<or> c = CHR ''-'') r"
  by (auto simp: breaks_def ends_def isIdentPart_def isHexDigit_def IsLetter_def IsDigit_def char_in_def)

lemma ends_Cons [simp]: "ends P (c # r) \<longleftrightarrow> \<not> P c"
  by (simp add: ends_def)

lemma not_ident [simp]:
  "\<not> isIdentPart CHR '':''" "\<not> isIdentPart CHR ''?''" "\<not> isIdentPart CHR ''<''" "\<not> isIdentPart CHR ''>''"
  "\<not> isIdentPart CHR ''#''" "\<not> isIdentPart CHR '';''"
  by (simp_all add: isIdentPart_def IsLetter_def IsDigit_def char_in_def)

lemma breaks_Cons [simp]: "breaks (CHR '' '' # r)" "breaks (newline # r)" "breaks (CHR '';'' # r)" "breaks []"
  by (simp_all add: breaks_def)

lemma IsSpace_simps [simp]: "IsSpace CHR '' ''" "IsSpace newline"
  by (simp_all add: IsSpace_def)

lemma ident_Vector: "is_ident ''Vector''"
  by (simp add: is_ident_def isIdentStart_def isIdentPart_def IsLetter_def char_in_def)

lemma digit_ident: "isIdentPart (digit_char d)"
proof -
  have "d mod 10 \<le> 9" by presburger
  then show ?thesis by (simp add: isIdentPart_def IsDigit_def char_in_def digit_char_def of_char_of)
qed

lemma fmt_nat_ident: "list_all isIdentPart (fmt_nat n)"
  by (induction n rule: fmt_nat.induct) (subst fmt_nat.simps, auto simp: digit_ident)

lemma flag_text_ident: "flag_ok pm f \<Longrightarrow> is_ident (flag_text f)"
  using fmt_nat_ident by (auto simp: flag_ok_def is_ident_def flag_text_def isIdentPart_def)

lemma hex_digit_is: "isHexDigit (hex_digit d)"
proof -
  have "hex_digit d \<in> set ''0123456789abcdef''" unfolding hex_digit_def by (rule nth_mem) simp
  then show ?thesis by (auto simp: isHexDigit_def char_in_def)
qed

lemma fmt_hex_is: "list_all isHexDigit (fmt_hex n v)"
  by (induction n v rule: fmt_hex.induct) (simp_all add: hex_digit_is)

lemma spaced_type:
  assumes "param_ok pm" "breaks r" "blank sp"
  shows "spaced (type_items sp pm) r"
  using assms ident_Vector breaks_ends
  by (auto simp: type_items_def param_ok_def token_text_def symbols_def)

lemma spaced_param:
  assumes "param_ok pm" "breaks r"
  shows "spaced (param_items pm) r"
proof (cases "pm_Flag pm")
  case None
  then show ?thesis
    using assms spaced_type by (auto simp: param_items_def token_text_def symbols_def param_ok_def)
next
  case (Some f)
  then have "is_ident (flag_text f)" using assms(1) flag_text_ident by (auto simp: param_ok_def)
  then show ?thesis
    using Some assms spaced_type by (auto simp: param_items_def token_text_def symbols_def param_ok_def)
qed

lemma param_starts: "items_text (param_items pm) \<noteq> [] \<and> hd (items_text (param_items pm)) = CHR '' ''"
  by (simp add: param_items_def)

lemma spaced_params:
  "list_all param_ok ps \<Longrightarrow> breaks r \<Longrightarrow>
   spaced (concat (map param_items ps)) r \<and> breaks (items_text (concat (map param_items ps)) @ r)"
  by (induction ps) (simp_all add: spaced_param breaks_def param_starts)

lemma vector_not_ident: "\<not> is_ident (vector_of e)"
  by (simp add: is_ident_def vector_of_def)

lemma spaced_result: "result_ok r \<Longrightarrow> breaks s \<Longrightarrow> spaced (result_items r) s"
  using ident_Vector breaks_ends
  by (auto simp: result_ok_def result_items_def token_text_def symbols_def vector_not_ident vector_of_def)

lemma spaced_def:
  assumes "def_ok fn d" "breaks r"
  shows "spaced (def_items d) r"
proof -
  let ?e = "items_text (result_items (df_ResultType d)) @ CHR '';'' # r"
  have ok: "is_ident (df_Name d)" "list_all param_ok (df_Params d)" "result_ok (df_ResultType d)"
    using assms(1) by (simp_all add: def_ok_def)
  have hex: "fmt_hex 8 (unat (df_ID d)) \<noteq> []" using fmt_hex.simps(2) [of 7 "unat (df_ID d)"] by simp
  have ps: "spaced (concat (map param_items (df_Params d))) (CHR '' '' # CHR ''='' # ?e)"
      "breaks (items_text (concat (map param_items (df_Params d))) @ CHR '' '' # CHR ''='' # ?e)"
    using spaced_params [OF ok(2), of "CHR '' '' # CHR ''='' # ?e"] by simp_all
  have "spaced (result_items (df_ResultType d)) (CHR '';'' # r)" by (rule spaced_result [OF ok(3)]) simp
  then show ?thesis
    using ok(1) hex fmt_hex_is ps breaks_ends(2) [OF ps(2)]
    by (simp add: def_items_def token_text_def symbols_def)
qed

lemma def_starts: "items_text (def_items d) \<noteq> [] \<and> hd (items_text (def_items d)) = newline"
  by (simp add: def_items_def)

lemma spaced_defs:
  "list_all (def_ok fn) ds \<Longrightarrow> breaks r \<Longrightarrow>
   spaced (concat (map def_items ds)) r \<and> breaks (items_text (concat (map def_items ds)) @ r)"
proof (induction ds)
  case (Cons d ds)
  then show ?case using spaced_def [of fn d] def_starts [of d] by (simp add: breaks_def)
qed simp

lemma spaced_schema: "schema_ok s \<Longrightarrow> spaced (schema_items s) [newline]"
  using spaced_defs [of False "Constructors s"] spaced_defs [of True "Functions s" "[newline]"] breaks_ends(3)
  by (auto simp: schema_ok_def schema_items_def token_text_def)

lemma lexes_print:
  assumes "schema_ok s"
  shows "lexes (NewLexer (print_schema s)) (map snd (schema_items s))"
  by (rule lexes_items [of _ _ "[newline]"]) (use assms spaced_schema in \<open>auto simp: NewLexer_def print_schema_def\<close>)

section \<open>Reading the text back\<close>

lemma flag_field_text:
  assumes "flag_ok pm f"
  shows "flag_field (flag_text f) = (fc_Field f, fc_Bit f)"
proof -
  let ?n = "nat (fc_Bit f)"
  have f: "fc_Field f \<noteq> []" "CHR ''.'' \<notin> set (fc_Field f)" "?n < 2 ^ 63" "int ?n = fc_Bit f"
    using assms by (auto simp: flag_ok_def is_ident_def)
  have "takeWhile (\<lambda>x. x \<noteq> CHR ''.'') (flag_text f) = fc_Field f"
    using f(2) by (auto simp: flag_text_def takeWhile_tail takeWhile_eq_all_conv)
  then have "IndexByte (flag_text f) (CHR ''.'') = Some (length (fc_Field f))"
    by (simp add: IndexByte_def) (simp add: flag_text_def)
  moreover have "Atoi (fmt_nat ?n) = Some (fc_Bit f)" using Atoi_fmt_nat [of ?n] f(3,4) by simp
  ultimately show ?thesis using f(1) by (simp add: flag_field_def flag_text_def)
qed

text \<open>What may not follow a parameter: the tokens that would continue its type.\<close>

definition stops :: "(TokenType \<times> string) list \<Rightarrow> bool" where
  "stops ts \<longleftrightarrow> ts = [] \<or> fst (hd ts) \<notin> {TokenQuestion, TokenAngleOpen}"

lemma at_stops: "at p ts \<Longrightarrow> stops ts \<Longrightarrow> \<not> cur_is p TokenQuestion \<and> \<not> cur_is p TokenAngleOpen"
  by (cases ts) (auto simp: stops_def)

text \<open>A type, after the flag or without one.\<close>

lemma type_at:
  assumes "at p (map snd (type_items sp pm) @ ts)" "param_ok pm" "stops ts"
  shows "\<exists>q. (if tok_Value (ps_cur p) = ''Vector'' \<and> cur_is (nextToken p) TokenAngleOpen
        then pm_IsVector pm \<and> parse_elem (nextToken p) = (pm_ElemType pm, q) \<and> pm_Type pm = vector_of (pm_ElemType pm)
        else \<not> pm_IsVector pm \<and> pm_ElemType pm = [] \<and> nextToken p = q \<and> tok_Value (ps_cur p) = pm_Type pm) \<and>
      \<not> cur_is (nextToken p) TokenQuestion \<and> leaves p q ts"
proof (cases "pm_IsVector pm")
  case True
  then have a: "at p ((TokenIdent, ''Vector'') # (TokenAngleOpen, ''<'') # (TokenIdent, pm_ElemType pm) #
      (TokenAngleClose, ''>'') # ts)" using assms(1) by (simp add: type_items_def)
  note n = at_next [OF a]
  obtain q where "parse_elem (nextToken p) = (pm_ElemType pm, q)" "leaves (nextToken p) q ts"
    using parse_elem_at [OF n] by blast
  then show ?thesis
    using True assms(2) at_cur [OF a] at_cur(1) [OF n] by (auto simp: leaves_def param_ok_def)
next
  case False
  then obtain ty where a: "at p ((ty, pm_Type pm) # ts)"
    using assms(1) by (auto simp: type_items_def split: if_splits)
  note n = at_next [OF a]
  show ?thesis
    using False assms(2) at_cur(2) [OF a] n at_stops [OF n assms(3)] by (auto simp: leaves_def param_ok_def)
qed

lemma param_type_at:
  assumes "at p (map snd (drop 2 (param_items pm)) @ ts)" "param_ok pm" "stops ts"
  shows "\<exists>sg q. parseParamType (pm_Name pm) p = (pm, sg, q) \<and> leaves p q ts"
proof (cases "pm_Flag pm")
  case None
  then have "at p (map snd (type_items [] pm) @ ts)" using assms(1) by (simp add: param_items_def)
  from type_at [OF this assms(2,3)] obtain q where q:
      "(if tok_Value (ps_cur p) = ''Vector'' \<and> cur_is (nextToken p) TokenAngleOpen
        then pm_IsVector pm \<and> parse_elem (nextToken p) = (pm_ElemType pm, q) \<and> pm_Type pm = vector_of (pm_ElemType pm)
        else \<not> pm_IsVector pm \<and> pm_ElemType pm = [] \<and> nextToken p = q \<and> tok_Value (ps_cur p) = pm_Type pm)"
      "\<not> cur_is (nextToken p) TokenQuestion" "leaves p q ts" by blast
  then show ?thesis
    using None by (cases pm) (auto simp: parseParamType_def Let_def split: if_splits)
next
  case (Some f)
  then have f: "flag_ok pm f" using assms(2) by (simp add: param_ok_def)
  have a: "at p ((TokenIdent, flag_text f) # (TokenQuestion, ''?'') # map snd (type_items [] pm) @ ts)"
    using Some assms(1) by (simp add: param_items_def)
  note n = at_next [OF a]
  note m = at_next [OF n]
  let ?p = "nextToken (nextToken p)"
  from type_at [OF m assms(2,3)] obtain q where q:
      "(if tok_Value (ps_cur ?p) = ''Vector'' \<and> cur_is (nextToken ?p) TokenAngleOpen
        then pm_IsVector pm \<and> parse_elem (nextToken ?p) = (pm_ElemType pm, q) \<and> pm_Type pm = vector_of (pm_ElemType pm)
        else \<not> pm_IsVector pm \<and> pm_ElemType pm = [] \<and> nextToken ?p = q \<and> tok_Value (ps_cur ?p) = pm_Type pm)"
      "leaves ?p q ts" by blast
  have fl: "pm_Flag pm = Some \<lparr>fc_Field = fc_Field f, fc_Bit = fc_Bit f, fc_IsTrue = (pm_Type pm = ''true'')\<rparr>"
    using Some f by (simp add: flag_ok_def)
  show ?thesis
    using q fl at_cur [OF a] at_cur [OF n] flag_field_text [OF f]
    by (cases pm) (auto simp: parseParamType_def Let_def leaves_def split: if_splits)
qed

lemma param_tokens:
  "map snd (param_items pm) = (TokenIdent, pm_Name pm) # (TokenColon, '':'') # map snd (drop 2 (param_items pm))"
  by (simp add: param_items_def)

lemma params_at:
  assumes "at p (map snd (concat (map param_items ps)) @ (TokenEquals, ''='') # ts)" "list_all param_ok ps"
  shows "\<exists>sg' q. parse_params p acc sg = (acc @ ps, sg', q) \<and> leaves p q ((TokenEquals, ''='') # ts)"
  using assms
proof (induction ps arbitrary: p acc sg)
  case Nil
  then show ?case by (subst parse_params.simps) (simp add: leaves_def)
next
  case (Cons pm ps)
  let ?ts = "map snd (concat (map param_items ps)) @ (TokenEquals, ''='') # ts"
  have st: "stops ?ts" by (cases ps) (simp_all add: stops_def param_items_def)
  have a: "at p ((TokenIdent, pm_Name pm) # (TokenColon, '':'') # map snd (drop 2 (param_items pm)) @ ?ts)"
    using Cons.prems(1) by (simp add: param_tokens del: at.simps)
  note n = at_next [OF a]
  obtain sg1 q where q: "parseParamType (pm_Name pm) (nextToken (nextToken p)) = (pm, sg1, q)"
      "leaves (nextToken (nextToken p)) q ?ts"
    using param_type_at [OF at_next [OF n] _ st] Cons.prems(2) by auto
  then have "at q ?ts" by (simp add: leaves_def)
  from Cons.IH [OF this, of "acc @ [pm]" "sg @ [sg1]"] Cons.prems(2) q at_cur [OF a] at_cur(1) [OF n]
  show ?case by (subst parse_params.simps) (auto simp: leaves_def Let_def)
qed

lemma result_at:
  assumes "at p (map snd (result_items r) @ ts)" "result_ok r" "stops ts"
  shows "\<exists>q. parseResultType p = Inr (r, q) \<and> leaves p q ts"
proof (cases "is_ident r")
  case True
  then have a: "at p ((TokenIdent, r) # ts)" using assms(1) by (simp add: result_items_def)
  note n = at_next [OF a]
  show ?thesis
    using at_cur [OF a] n at_stops [OF n assms(3)] by (simp add: parseResultType_def Let_def leaves_def)
next
  case False
  then obtain e where r: "r = vector_of e" using assms(2) by (auto simp: result_ok_def)
  then have a: "at p ((TokenIdent, ''Vector'') # (TokenAngleOpen, ''<'') # (TokenIdent, e) # (TokenAngleClose, ''>'') # ts)"
    using assms(1) False by (simp add: result_items_def vector_of_def)
  note n = at_next [OF a]
  obtain q where "parse_elem (nextToken p) = (e, q)" "leaves (nextToken p) q ts"
    using parse_elem_at [OF n] by blast
  then show ?thesis
    using r at_cur [OF a] at_cur(1) [OF n] by (auto simp: parseResultType_def Let_def leaves_def)
qed

lemma hex_val_digit: "hex_val (hex_digit d) = d mod 16"
proof -
  have "list_all (\<lambda>i. hex_val (''0123456789abcdef'' ! i) = i) [0..<16]" by code_simp
  then show ?thesis by (simp add: hex_digit_def list_all_iff)
qed

lemma fold_fmt_hex: "fold (\<lambda>c acc. 16 * acc + hex_val c) (fmt_hex n v) 0 = v mod 16 ^ n"
  by (induction n v rule: fmt_hex.induct) (simp_all add: hex_val_digit mod_mult2_eq [of _ 16, symmetric])

lemma ParseUint_fmt: "ParseUint16_32 (fmt_hex 8 (unat w)) = Some w"
proof -
  have "unat w < 2 ^ 32" using unsigned_less [of w] by simp
  then show ?thesis by (simp add: ParseUint16_32_def fold_fmt_hex)
qed

lemma def_at:
  assumes "at p (map snd (def_items d) @ ts)" "def_ok (ps_isFunction p) d"
  shows "\<exists>q. parseDefinition p = Inr (d, q) \<and> leaves p q ts"
proof -
  let ?ps = "map snd (concat (map param_items (df_Params d)))"
  let ?r = "map snd (result_items (df_ResultType d)) @ (TokenSemicolon, '';'') # ts"
  have a: "at p ((TokenIdent, df_Name d) # (TokenHexID, fmt_hex 8 (unat (df_ID d))) # ?ps @ (TokenEquals, ''='') # ?r)"
    using assms(1) by (simp add: def_items_def)
  note n = at_next [OF a]
  have id: "parse_id (nextToken p) = Inr (Some (df_ID d), nextToken (nextToken p))"
    using at_cur [OF n] ParseUint_fmt by (simp add: parse_id_def)
  obtain sg q where q: "parse_params (nextToken (nextToken p)) [] [df_Name d] = ([] @ df_Params d, sg, q)"
      "leaves (nextToken (nextToken p)) q ((TokenEquals, ''='') # ?r)"
    using params_at [OF at_next [OF n]] assms(2) by (metis def_ok_def)
  then have e: "at q ((TokenEquals, ''='') # ?r)" by (simp add: leaves_def)
  obtain q' where q': "parseResultType (nextToken q) = Inr (df_ResultType d, q')"
      "leaves (nextToken q) q' ((TokenSemicolon, '';'') # ts)"
    using result_at [OF at_next [OF e]] assms(2) by (auto simp: def_ok_def stops_def)
  then have s: "at q' ((TokenSemicolon, '';'') # ts)" by (simp add: leaves_def)
  have "df_IsFunction d = ps_isFunction p" using assms(2) by (simp add: def_ok_def)
  then show ?thesis
    using at_cur [OF a] id q q' at_cur(1) [OF e] at_cur(1) [OF s] at_next [OF s]
    by (cases d) (simp add: parseDefinition_def leaves_def)
qed

lemma defs_at:
  assumes "at p (map snd (concat (map def_items ds)) @ ts)" "list_all (def_ok (ps_isFunction p)) ds"
  shows "\<exists>q. parse_loop p s = parse_loop q (if ps_isFunction p then s\<lparr>Functions := Functions s @ ds\<rparr>
      else s\<lparr>Constructors := Constructors s @ ds\<rparr>) \<and> leaves p q ts"
  using assms
proof (induction ds arbitrary: p s)
  case Nil
  then show ?case by (auto simp: leaves_def)
next
  case (Cons d ds)
  let ?ts = "map snd (concat (map def_items ds)) @ ts"
  have a: "at p (map snd (def_items d) @ ?ts)" using Cons.prems(1) by simp
  then have c: "cur_is p TokenIdent" by (simp add: def_items_def)
  obtain q where q: "parseDefinition p = Inr (d, q)" "leaves p q ?ts" using def_at [OF a] Cons.prems(2) by auto
  have fn: "df_IsFunction d = ps_isFunction p" "ps_isFunction q = ps_isFunction p" "at q ?ts"
    using Cons.prems(2) q(2) by (auto simp: def_ok_def leaves_def)
  have step: "parse_loop p s = parse_loop q (if ps_isFunction p then s\<lparr>Functions := Functions s @ [d]\<rparr>
      else s\<lparr>Constructors := Constructors s @ [d]\<rparr>)"
    using c q(1) fn(1) by (subst parse_loop.simps) simp
  show ?case
    unfolding step using Cons.IH [OF fn(3), of "if ps_isFunction p then s\<lparr>Functions := Functions s @ [d]\<rparr>
      else s\<lparr>Constructors := Constructors s @ [d]\<rparr>"] Cons.prems(2) fn(2) by (auto simp: leaves_def)
qed

text \<open>Any text that falls into the tokens of a schema is read as that schema.\<close>

lemma parse_tokens:
  assumes "schema_ok s" "lexes (NewLexer text) (map snd (schema_items s))"
  shows "Parse text = Inr s"
proof -
  let ?p = "nextToken \<lparr>ps_lexer = NewLexer (text),
      ps_cur = \<lparr>tok_Type = TokenEOF, tok_Value = [], tok_Line = 0\<rparr>, ps_isFunction = False\<rparr>"
  let ?fs = "map snd (concat (map def_items (Functions s)))"
  have "at ?p (map snd (schema_items s))" by (rule lexes_next) (simp add: assms(2))
  then have "at ?p (map snd (concat (map def_items (Constructors s))) @ (TokenSectionFunctions, ''functions'') # ?fs)"
    by (simp add: schema_items_def)
  from defs_at [OF this, of "\<lparr>Constructors = [], Functions = []\<rparr>"] assms(1) obtain q where
      q: "Parse (text) = parse_loop q \<lparr>Constructors = Constructors s, Functions = []\<rparr>"
      "at q ((TokenSectionFunctions, ''functions'') # ?fs)"
    by (auto simp: schema_ok_def Parse_def leaves_def)
  let ?q = "nextToken (q\<lparr>ps_isFunction := True\<rparr>)"
  have "at (q\<lparr>ps_isFunction := True\<rparr>) ((TokenSectionFunctions, ''functions'') # ?fs)" using q(2) by simp
  then have "at ?q (?fs @ [])" using at_next by simp
  from defs_at [OF this, of "\<lparr>Constructors = Constructors s, Functions = []\<rparr>"] assms(1) obtain q' where
      q': "parse_loop ?q \<lparr>Constructors = Constructors s, Functions = []\<rparr> = parse_loop q' s" "at q' []"
    by (cases s) (auto simp: schema_ok_def leaves_def)
  have "parse_loop q \<lparr>Constructors = Constructors s, Functions = []\<rparr> =
      parse_loop ?q \<lparr>Constructors = Constructors s, Functions = []\<rparr>"
    using q(2) by (subst parse_loop.simps) simp
  moreover have "parse_loop q' s = Inr s" using q'(2) by (subst parse_loop.simps) simp
  ultimately show ?thesis using q(1) q'(1) by simp
qed

section \<open>Properties\<close>

text \<open>
  C7. A schema that is printed in the notation of TL is read back by \<^verbatim>\<open>Parse\<close>: every definition with its name, its
  number, its parameters with their flags and vectors, its result type, in order and in its section.
\<close>
theorem parse_print:
  assumes "schema_ok s"
  shows "Parse (print_schema s) = Inr s"
  by (rule parse_tokens [OF assms lexes_print [OF assms]])

text \<open>Two definitions of the schema in \<^verbatim>\<open>scripts/generate.go\<close>, with the text they are printed as.\<close>

definition sample_schema :: Schema where
  "sample_schema = \<lparr>Constructors = [\<lparr>df_Name = ''msgs_ack'', df_ID = 0x62d6b459,
       df_Params = [\<lparr>pm_Name = ''msg_ids'', pm_Type = ''Vector<long>'', pm_Flag = None, pm_IsVector = True, pm_ElemType = ''long''\<rparr>],
       df_ResultType = ''MsgsAck'', df_IsFunction = False\<rparr>],
     Functions = [\<lparr>df_Name = ''upload_getFile'', df_ID = 0xbe250529,
       df_Params = [\<lparr>pm_Name = ''flags'', pm_Type = ''#'', pm_Flag = None, pm_IsVector = False, pm_ElemType = []\<rparr>,
         \<lparr>pm_Name = ''precise'', pm_Type = ''true'', pm_Flag = Some \<lparr>fc_Field = ''flags'', fc_Bit = 0, fc_IsTrue = True\<rparr>,
          pm_IsVector = False, pm_ElemType = []\<rparr>,
         \<lparr>pm_Name = ''limit'', pm_Type = ''int'', pm_Flag = None, pm_IsVector = False, pm_ElemType = []\<rparr>],
       df_ResultType = ''UploadFile'', df_IsFunction = True\<rparr>]\<rparr>"

definition sample_text :: string where
  "sample_text = newline # ''msgs_ack#62d6b459 msg_ids:Vector<long> = MsgsAck;'' @ newline # ''---functions---'' @
     newline # ''upload_getFile#be250529 flags:# precise:flags.0?true limit:int = UploadFile;'' @ [newline]"

theorem parse_print_witness: "print_schema sample_schema = sample_text \<and> Parse sample_text = Inr sample_schema"
proof -
  have hex: "fmt_hex (numeral k) v = fmt_hex (pred_numeral k) (v div 16) @ [hex_digit v]" for k v
    by (simp only: numeral_eq_Suc [of k] fmt_hex.simps)
  have zero: "fmt_nat 0 = ''0''" by code_simp
  have "print_schema sample_schema = sample_text"
    by (simp add: print_schema_def schema_items_def sample_schema_def sample_text_def def_items_def param_items_def
        type_items_def result_items_def is_ident_def isIdentStart_def isIdentPart_def IsLetter_def char_in_def token_text_def
        flag_text_def hex hex_digit_def zero)
  moreover have "schema_ok sample_schema"
    by (simp add: schema_ok_def sample_schema_def def_ok_def param_ok_def flag_ok_def result_ok_def is_ident_def
        isIdentStart_def isIdentPart_def IsLetter_def IsDigit_def char_in_def vector_of_def)
  ultimately show ?thesis using parse_print [of sample_schema] by simp
qed

end
