(* ===== verification/Generator.thy ===== *)
theory Generator
  imports Parser
begin

text \<open>
  \<^verbatim>\<open>tl/generator/generator.go\<close>: the Go source for a schema, as text.  Strings are Go strings here, their
  characters are bytes; for a schema in ASCII they are the strings of the parser.  Go visits the keys of a map in
  any order, which is an argument, and \<^verbatim>\<open>format.Source\<close> is another.
\<close>

section \<open>Names\<close>

text \<open>\<^verbatim>\<open>strings.ToUpper\<close> of a string of one byte: a byte that is no character becomes the encoding of U+FFFD.\<close>

definition ToUpper1 :: "char \<Rightarrow> string" where
  "ToUpper1 c =
     (if char_in 0x61 0x7A c then [char_of (of_char c - 32 :: nat)]
      else if of_char c < (128 :: nat) then [c]
      else [CHR 0xEF, CHR 0xBF, CHR 0xBD])"

text \<open>\<^verbatim>\<open>strings.FieldsFunc\<close> at dots and underscores.\<close>

definition is_separator :: "char \<Rightarrow> bool" where
  "is_separator r \<longleftrightarrow> r = CHR ''.'' \<or> r = CHR ''_''"

fun FieldsFunc :: "(char \<Rightarrow> bool) \<Rightarrow> string \<Rightarrow> string \<Rightarrow> string list" where
  "FieldsFunc f cur [] = (if cur = [] then [] else [cur])"
| "FieldsFunc f cur (c # cs) =
     (if f c then (if cur = [] then FieldsFunc f [] cs else cur # FieldsFunc f [] cs)
      else FieldsFunc f (cur @ [c]) cs)"

definition toGoPublicName :: "string \<Rightarrow> string" where
  "toGoPublicName s =
     concat (map (\<lambda>p. case p of [] \<Rightarrow> [] | c # cs \<Rightarrow> ToUpper1 c @ cs) (FieldsFunc is_separator [] s))"

definition isPrimitiveType :: "string \<Rightarrow> bool" where
  "isPrimitiveType t \<longleftrightarrow> t \<in> {''int'', ''long'', ''double'', ''string'', ''bytes'', ''int128'', ''int256''}"

definition isPointerType :: "Param \<Rightarrow> bool" where
  "isPointerType p \<longleftrightarrow> \<not> isPrimitiveType (pm_Type p) \<and> \<not> pm_IsVector p \<and> pm_Type p \<noteq> ''Bool'' \<and>
     pm_Type p \<noteq> ''string'' \<and> pm_Type p \<noteq> ''bytes''"

definition getStructName :: "Definition \<Rightarrow> string" where
  "getStructName d = toGoPublicName (df_Name d)"

definition getInterfaceName :: "string \<Rightarrow> Definition list \<Rightarrow> string" where
  "getInterfaceName typeName constructors =
     (let baseName = toGoPublicName typeName in
      if list_ex (\<lambda>c. toGoPublicName (df_Name c) = baseName) constructors then baseName @ ''Class'' else baseName)"

type_synonym types_map = "string \<Rightarrow> Definition list option"

text \<open>The first loop of \<^verbatim>\<open>Generate\<close>.\<close>

definition group_types :: "Definition list \<Rightarrow> types_map" where
  "group_types cs =
     fold (\<lambda>c m. m(df_ResultType c \<mapsto> (case m (df_ResultType c) of None \<Rightarrow> [] | Some ds \<Rightarrow> ds) @ [c])) cs Map.empty"

definition isPolymorphic :: "string \<Rightarrow> types_map \<Rightarrow> bool" where
  "isPolymorphic typeName m = (case m typeName of Some ctors \<Rightarrow> length ctors > 1 | None \<Rightarrow> False)"

definition ctors_of :: "types_map \<Rightarrow> string \<Rightarrow> Definition list" where
  "ctors_of m t = (case m t of Some ctors \<Rightarrow> ctors | None \<Rightarrow> [])"

definition toGoSingleType :: "string \<Rightarrow> types_map \<Rightarrow> string" where
  "toGoSingleType t m =
     (case map_of [(''int'', ''int32''), (''long'', ''int64''), (''double'', ''float64''), (''string'', ''string''),
         (''bytes'', ''[]byte''), (''Bool'', ''bool''), (''int128'', ''[16]byte''), (''int256'', ''[32]byte'')] t of
        Some g \<Rightarrow> g
      | None \<Rightarrow> if isPolymorphic t m then getInterfaceName t (ctors_of m t) else toGoPublicName t)"

definition toGoType :: "Param \<Rightarrow> types_map \<Rightarrow> string" where
  "toGoType p m =
     (if (case pm_Flag p of Some f \<Rightarrow> fc_IsTrue f | None \<Rightarrow> False) then ''bool''
      else if pm_IsVector p then ''[]'' @ toGoSingleType (pm_ElemType p) m
      else toGoSingleType (pm_Type p) m)"

section \<open>Text\<close>

text \<open>A line of the output: indentation, parts, line feed.\<close>

definition ln :: "string \<Rightarrow> string list \<Rightarrow> string" where
  "ln indent parts = indent @ concat parts @ [newline]"

abbreviation tab :: string where "tab \<equiv> [CHR 0x09]"
abbreviation tab2 :: string where "tab2 \<equiv> [CHR 0x09, CHR 0x09]"
abbreviation quote :: char where "quote \<equiv> CHR 0x22"

definition hex_id :: "Definition \<Rightarrow> string" where
  "hex_id d = fmt_hex 8 (unat (df_ID d))"

text \<open>The bit of a flag: \<^verbatim>\<open>(1 << %d)\<close>.\<close>

definition flag_bit :: "FlagCondition \<Rightarrow> string" where
  "flag_bit f = ''(1 << '' @ fmt_int (fc_Bit f) @ '')''"

section \<open>Fields\<close>

definition encode_methods :: "(string \<times> string) list" where
  "encode_methods = [(''int'', ''PutInt''), (''long'', ''PutLong''), (''double'', ''PutDouble''),
     (''string'', ''PutString''), (''bytes'', ''PutBytes''), (''Bool'', ''PutBool''),
     (''int128'', ''PutInt128''), (''int256'', ''PutInt256'')]"

definition decode_methods :: "(string \<times> string) list" where
  "decode_methods = [(''int'', ''Int''), (''long'', ''Long''), (''double'', ''Double''), (''string'', ''String''),
     (''bytes'', ''Bytes''), (''Bool'', ''Bool''), (''int128'', ''Int128''), (''int256'', ''Int256'')]"

text \<open>The types that \<^verbatim>\<open>writeEncodePrimitive\<close> and \<^verbatim>\<open>writeDecodePrimitive\<close> have a case for.\<close>

definition element_types :: "string list" where
  "element_types = [''int'', ''long'', ''string'', ''bytes'']"

definition put_line :: "string \<Rightarrow> string \<Rightarrow> string \<Rightarrow> string" where
  "put_line meth access indent = ln indent [''e.'', meth, ''('', access, '')'']"

text \<open>A call whose error ends the method: \<open>head\<close> is its statement.\<close>

definition checked :: "string \<Rightarrow> string list \<Rightarrow> string" where
  "checked indent head =
     ln indent ([''if ''] @ head @ [''; err != nil {'']) @ ln (indent @ tab) [''return err''] @ ln indent [''}'']"

definition get_lines :: "string \<Rightarrow> string \<Rightarrow> string \<Rightarrow> string" where
  "get_lines meth access indent = checked indent [access, '', err = d.'', meth, ''()'']"

definition writeEncodePrimitive :: "string \<Rightarrow> string \<Rightarrow> string \<Rightarrow> string" where
  "writeEncodePrimitive typ access indent =
     (if typ \<in> set element_types
      then (case map_of encode_methods typ of Some m \<Rightarrow> put_line m access indent | None \<Rightarrow> [])
      else [])"

definition writeDecodePrimitive :: "string \<Rightarrow> string \<Rightarrow> string \<Rightarrow> string" where
  "writeDecodePrimitive typ access indent =
     (if typ \<in> set element_types
      then (case map_of decode_methods typ of Some m \<Rightarrow> get_lines m access indent | None \<Rightarrow> [])
      else [])"

definition writeEncodeField :: "Param \<Rightarrow> string \<Rightarrow> string \<Rightarrow> string" where
  "writeEncodeField p access indent =
     (case map_of encode_methods (pm_Type p) of
        Some m \<Rightarrow> put_line m access indent
      | None \<Rightarrow>
          if pm_IsVector p then
            ln indent [''e.PutVectorHeader(len('', access, ''))''] @
            ln indent [''for _, item := range '', access, '' {''] @
            (if isPrimitiveType (pm_ElemType p) then writeEncodePrimitive (pm_ElemType p) ''item'' (indent @ tab)
             else checked (indent @ tab) [''err := item.Encode(e)'']) @
            ln indent [''}'']
          else checked indent [''err := '', access, ''.Encode(e)''])"

text \<open>The call of the decoder of a sum type.\<close>

definition decode_item :: "string \<Rightarrow> string \<Rightarrow> string \<Rightarrow> string" where
  "decode_item ifaceName access indent =
     ln indent [''item, err := Decode'', ifaceName, ''(d)''] @ ln indent [''if err != nil {''] @
     ln (indent @ tab) [''return err''] @ ln indent [''}''] @ ln indent [access, '' = item'']"

definition writeDecodeField :: "Param \<Rightarrow> string \<Rightarrow> string \<Rightarrow> types_map \<Rightarrow> string" where
  "writeDecodeField p access indent m =
     (case map_of decode_methods (pm_Type p) of
        Some meth \<Rightarrow> get_lines meth access indent
      | None \<Rightarrow>
          if pm_IsVector p then
            ln indent [''vecLen, err := d.VectorHeader()''] @ ln indent [''if err != nil {''] @
            ln (indent @ tab) [''return err''] @ ln indent [''}''] @
            ln indent [access, '' = make([]'', toGoSingleType (pm_ElemType p) m, '', vecLen)''] @
            ln indent [''for i := 0; i < vecLen; i++ {''] @
            (if isPrimitiveType (pm_ElemType p) then
               writeDecodePrimitive (pm_ElemType p) (access @ ''[i]'') (indent @ tab)
             else if isPolymorphic (pm_ElemType p) m then
               decode_item (getInterfaceName (pm_ElemType p) (ctors_of m (pm_ElemType p))) (access @ ''[i]'') (indent @ tab)
             else checked (indent @ tab) [''err := '', access, ''[i].Decode(d)'']) @
            ln indent [''}'']
          else if isPolymorphic (pm_Type p) m then
            decode_item (getInterfaceName (pm_Type p) (ctors_of m (pm_Type p))) access indent
          else checked indent [''err := '', access, ''.Decode(d)''])"

section \<open>Structs\<close>

definition flag_param :: "Param \<Rightarrow> bool" where
  "flag_param p \<longleftrightarrow> pm_Type p = ''#''"

text \<open>The name of the last flags field; the code keeps it in a variable that starts as the empty string.\<close>

definition flag_field_name :: "Param list \<Rightarrow> string" where
  "flag_field_name ps = fold (\<lambda>p name. if flag_param p then toGoPublicName (pm_Name p) else name) ps []"

definition struct_field :: "types_map \<Rightarrow> Param \<Rightarrow> string" where
  "struct_field m p =
     (if flag_param p then ln tab [toGoPublicName (pm_Name p), '' uint32'']
      else ln tab [toGoPublicName (pm_Name p), '' '', toGoType p m])"

text \<open>The code in \<^verbatim>\<open>Encode\<close> that sets the bit of an optional field.\<close>

definition set_flag :: "string \<Rightarrow> Param \<Rightarrow> string" where
  "set_flag flagField p =
     (case pm_Flag p of
        None \<Rightarrow> []
      | Some f \<Rightarrow>
          let access = ''v.'' @ toGoPublicName (pm_Name p);
              body = ln tab2 [''v.'', flagField, '' |= '', flag_bit f] @ ln tab [''}'']
          in if fc_IsTrue f then ln tab [''if '', access, '' {''] @ body
             else if isPointerType p then ln tab [''if '', access, '' != nil {''] @ body
             else if pm_Type p = ''string'' \<or> pm_Type p = ''bytes'' \<or> pm_IsVector p
             then ln tab [''if len('', access, '') > 0 {''] @ body
             else [])"

text \<open>The test of the bit around an optional field.\<close>

definition if_flag :: "string \<Rightarrow> FlagCondition \<Rightarrow> string \<Rightarrow> string" where
  "if_flag flagField f body =
     ln tab [''if (v.'', flagField, '' & '', flag_bit f, '') != 0 {''] @ body @ ln tab [''}'']"

definition encode_field :: "string \<Rightarrow> Param \<Rightarrow> string" where
  "encode_field flagField p =
     (let access = ''v.'' @ toGoPublicName (pm_Name p) in
      if flag_param p then ln tab [''e.PutUint('', access, '')'']
      else case pm_Flag p of
             Some f \<Rightarrow> if fc_IsTrue f then [] else if_flag flagField f (writeEncodeField p access tab2)
           | None \<Rightarrow> writeEncodeField p access tab)"

definition decode_field :: "types_map \<Rightarrow> string \<Rightarrow> Param \<Rightarrow> string" where
  "decode_field m flagField p =
     (let access = ''v.'' @ toGoPublicName (pm_Name p) in
      if flag_param p then checked tab [access, '', err = d.Uint()'']
      else case pm_Flag p of
             Some f \<Rightarrow>
               if fc_IsTrue f then ln tab [access, '' = (v.'', flagField, '' & '', flag_bit f, '') != 0'']
               else if_flag flagField f (writeDecodeField p access tab2 m)
           | None \<Rightarrow> writeDecodeField p access tab m)"

definition generateStruct :: "Definition \<Rightarrow> bool \<Rightarrow> types_map \<Rightarrow> string" where
  "generateStruct d isFn m =
     (let structName = getStructName d; ps = df_Params d; flagField = flag_field_name ps; recv = ''func (v *'' @ structName
      in ln [] [''// '', structName, '' represents the TL '', if isFn then ''function'' else ''constructor'', '' '',
             CHR 0x60 # df_Name d, ''#'', hex_id d, [CHR 0x60], ''.''] @
         ln [] [''type '', structName, '' struct {''] @ concat (map (struct_field m) ps) @ ln [] [''}''] @ ln [] [] @
         ln [] [recv, '') TLID() uint32 { return 0x'', hex_id d, '' }''] @ ln [] [] @
         (if \<not> isFn \<and> isPolymorphic (df_ResultType d) m then
            ln [] [recv, '') is'', getInterfaceName (df_ResultType d) (ctors_of m (df_ResultType d)), ''() {}''] @ ln [] []
          else []) @
         ln [] [recv, '') Encode(e *encoder.Encoder) error {''] @
         ln tab [''e.PutUint(0x'', hex_id d, '')''] @
         (if list_ex flag_param ps then concat (map (set_flag flagField) ps) else []) @
         concat (map (encode_field flagField) ps) @
         ln tab [''return nil''] @ ln [] [''}''] @ ln [] [] @
         ln [] [recv, '') Decode(d *decoder.Decoder) error {''] @
         ln tab [''crc, err := d.Uint()''] @ ln tab [''if err != nil {''] @ ln tab2 [''return err''] @ ln tab [''}''] @
         ln tab [''if crc != 0x'', hex_id d, '' {''] @
         ln tab2 [''return fmt.Errorf('', quote # ''mismatched constructor: expected 0x'', hex_id d,
             '', got 0x%08x'', [quote], '', crc)''] @
         ln tab [''}''] @
         concat (map (decode_field m flagField) ps) @
         ln tab [''return nil''] @ ln [] [''}''] @ ln [] [])"

section \<open>Sum types\<close>

definition decode_case :: "Definition \<Rightarrow> string" where
  "decode_case c =
     ln tab [''case 0x'', hex_id c, '':''] @
     ln tab2 [''v := &'', getStructName c, ''{}''] @
     ln tab2 [''if err := v.Decode(d); err != nil {''] @ ln (tab @ tab2) [''return nil, err''] @ ln tab2 [''}''] @
     ln tab2 [''return v, nil'']"

definition generate_sum :: "string \<Rightarrow> Definition list \<Rightarrow> string" where
  "generate_sum typeName constructors =
     (if isPrimitiveType typeName \<or> typeName = ''Bool'' \<or> typeName = ''True'' then []
      else if length constructors \<le> 1 then []
      else let i = getInterfaceName typeName constructors in
        ln [] [''// '', i, '' represents the polymorphic TL sum type for '', typeName, ''.''] @
        ln [] [''type '', i, '' interface {''] @ ln tab [''TLID() uint32''] @
        ln tab [''Encode(e *encoder.Encoder) error''] @ ln tab [''Decode(d *decoder.Decoder) error''] @
        ln tab [''is'', i, ''()''] @ ln [] [''}''] @ ln [] [] @
        ln [] [''// Decode'', i, '' reads a boxed '', i, '' constructor from the decoder.''] @
        ln [] [''func Decode'', i, ''(d *decoder.Decoder) ('', i, '', error) {''] @
        ln tab [''crc, err := d.PeekUint()''] @ ln tab [''if err != nil {''] @ ln tab2 [''return nil, err''] @ ln tab [''}''] @
        ln tab [''switch crc {''] @ concat (map decode_case constructors) @
        ln tab [''default:''] @
        ln tab2 [''return nil, fmt.Errorf('', quote # ''unknown constructor 0x%08x for '', i, [quote], '', crc)''] @
        ln tab [''}''] @ ln [] [''}''] @ ln [] [])"

section \<open>The file\<close>

definition file_header :: "string \<Rightarrow> string" where
  "file_header pkgName =
     ln [] [''// Code generated by teleGofer TL generator. DO NOT EDIT.''] @ ln [] [] @
     ln [] [''package '', pkgName] @ ln [] [] @
     ln [] [''import (''] @
     ln tab [quote # ''fmt'', [quote]] @
     ln tab [quote # ''github.com/mrabhi2k3/telegofer/tl/decoder'', [quote]] @
     ln tab [quote # ''github.com/mrabhi2k3/telegofer/tl/encoder'', [quote]] @
     ln [] ['')''] @ ln [] []"

text \<open>\<open>keys\<close> is the order in which the loop over the map visits its keys.\<close>

definition generate_source :: "string \<Rightarrow> string list \<Rightarrow> Schema \<Rightarrow> string" where
  "generate_source pkgName keys s =
     (let m = group_types (Constructors s) in
      file_header pkgName @
      concat (map (\<lambda>t. generate_sum t (ctors_of m t)) keys) @
      concat (map (\<lambda>c. generateStruct c False m) (Constructors s)) @
      concat (map (\<lambda>f. generateStruct f True m) (Functions s)))"

text \<open>The first result is the text also when \<^verbatim>\<open>format.Source\<close> fails.\<close>

definition Generate ::
  "(string \<Rightarrow> string + string) \<Rightarrow> string \<Rightarrow> string list \<Rightarrow> Schema \<Rightarrow> string \<times> string option" where
  "Generate format_Source pkgName keys s =
     (let src = generate_source pkgName keys s in
      case format_Source src of
        Inl err \<Rightarrow> (src, Some (''gofmt error: '' @ err @ [newline] @ ''Source:'' @ [newline] @ src))
      | Inr formatted \<Rightarrow> (formatted, None))"

section \<open>Brackets\<close>

text \<open>A text with the stack of the brackets that are open; \<open>None\<close> is a closing bracket that does not fit.\<close>

definition opening_of :: "(char \<times> char) list" where
  "opening_of = [(CHR '')'', CHR ''(''), (CHR '']'', CHR ''[''), (CHR ''}'', CHR ''{'')]"

fun nesting :: "char list \<Rightarrow> string \<Rightarrow> char list option" where
  "nesting st [] = Some st"
| "nesting st (c # cs) =
     (if c \<in> set ''([{'' then nesting (c # st) cs
      else case map_of opening_of c of
             Some x \<Rightarrow> if st \<noteq> [] \<and> hd st = x then nesting (tl st) cs else None
           | None \<Rightarrow> nesting st cs)"

definition balanced :: "string \<Rightarrow> bool" where
  "balanced s \<longleftrightarrow> (\<forall>st. nesting st s = Some st)"

lemmas [simp] = opening_of_def

lemma nesting_append [simp]:
  "nesting st (a @ b) = (case nesting st a of None \<Rightarrow> None | Some st' \<Rightarrow> nesting st' b)"
  by (induction st a rule: nesting.induct) (auto split: option.split)

lemma nesting_balanced [simp]: "balanced s \<Longrightarrow> nesting st s = Some st"
  by (simp add: balanced_def)

lemma balanced_Nil [simp]: "balanced []"
  by (simp add: balanced_def)

lemma balanced_append [intro]: "balanced a \<Longrightarrow> balanced b \<Longrightarrow> balanced (a @ b)"
  by (simp add: balanced_def)

lemma balanced_concat: "(\<And>s. s \<in> set ss \<Longrightarrow> balanced s) \<Longrightarrow> balanced (concat ss)"
  by (induction ss) (auto intro: balanced_append)

text \<open>A name has no brackets.\<close>

definition plain :: "string \<Rightarrow> bool" where
  "plain s \<longleftrightarrow> set s \<inter> set ''()[]{}'' = {}"

lemma plain_balanced: "plain s \<Longrightarrow> balanced s"
proof -
  have "nesting st s = Some st" if "plain s" for st
    using that by (induction st s rule: nesting.induct) (auto simp: plain_def opening_of_def)
  then show "plain s \<Longrightarrow> balanced s" by (simp add: balanced_def)
qed

lemma plain_parts: "is_ident s \<Longrightarrow> plain s"
  by (force simp: is_ident_def plain_def list_all_iff isIdentPart_def IsLetter_def IsDigit_def char_in_def)

lemma plain_fields:
  "plain cur \<Longrightarrow> plain s \<Longrightarrow> p \<in> set (FieldsFunc f cur s) \<Longrightarrow> plain p"
  by (induction f cur s arbitrary: p rule: FieldsFunc.induct) (auto simp: plain_def split: if_splits)

lemma plain_code: "65 \<le> (of_char d :: nat) \<Longrightarrow> of_char d \<le> (90 :: nat) \<Longrightarrow> plain [d]"
  by (auto simp: plain_def)

lemma plain_upper: "plain (ToUpper1 c)" if "c \<notin> set ''()[]{}''"
proof (cases "char_in 0x61 0x7A c")
  case True
  then have "of_char c - 32 \<le> (90 :: nat)" "65 \<le> of_char c - (32 :: nat)" by (auto simp: char_in_def)
  then have "plain [char_of (of_char c - 32 :: nat)]" by (intro plain_code) (simp_all add: of_char_of)
  then show ?thesis using True by (simp add: ToUpper1_def)
qed (use that in \<open>auto simp: ToUpper1_def plain_def\<close>)

lemma plain_public: "plain s \<Longrightarrow> plain (toGoPublicName s)"
proof -
  assume s: "plain s"
  have "plain (case p of [] \<Rightarrow> [] | c # cs \<Rightarrow> ToUpper1 c @ cs)" if "p \<in> set (FieldsFunc is_separator [] s)" for p
  proof -
    have "plain p" using plain_fields [OF _ s that] by (simp add: plain_def)
    then show ?thesis using plain_upper by (fastforce simp: plain_def split: list.splits)
  qed
  then show ?thesis by (fastforce simp: toGoPublicName_def plain_def)
qed

lemma plain_interface: "plain t \<Longrightarrow> plain (getInterfaceName t cs)"
  using plain_public [of t] by (auto simp: getInterfaceName_def Let_def plain_def)

lemma plain_digits: "plain (fmt_nat n)" "plain (fmt_hex k n)"
proof -
  have "list_all isIdentPart (fmt_nat n)" by (rule fmt_nat_ident)
  then show "plain (fmt_nat n)"
    by (force simp: plain_def list_all_iff isIdentPart_def IsLetter_def IsDigit_def char_in_def)
  have "list_all isHexDigit (fmt_hex k n)" by (rule fmt_hex_is)
  then show "plain (fmt_hex k n)" by (force simp: plain_def list_all_iff isHexDigit_def char_in_def)
qed

lemma nesting_ln [simp]:
  "nesting st (ln indent parts) =
     (case nesting st indent of None \<Rightarrow> None | Some st' \<Rightarrow> nesting st' (concat parts))"
  by (auto simp: ln_def split: option.split)

named_theorems balanced_intros "pieces of the output with balanced brackets"

lemmas [balanced_intros] = balanced_append balanced_Nil plain_public [THEN plain_balanced]
  plain_interface [THEN plain_balanced] plain_digits [THEN plain_balanced]

lemma balanced_method:
  "map_of encode_methods t = Some m \<Longrightarrow> balanced m" "map_of decode_methods t = Some m \<Longrightarrow> balanced m"
  by (auto simp: encode_methods_def decode_methods_def balanced_def split: if_splits)

lemma balanced_put [balanced_intros]:
  "balanced m \<Longrightarrow> balanced access \<Longrightarrow> balanced indent \<Longrightarrow> balanced (put_line m access indent)"
  by (simp add: balanced_def put_line_def)

lemma balanced_checked [balanced_intros]:
  "balanced indent \<Longrightarrow> balanced (concat head) \<Longrightarrow> balanced (checked indent head)"
  by (simp add: balanced_def checked_def)

lemma balanced_get [balanced_intros]:
  "balanced m \<Longrightarrow> balanced access \<Longrightarrow> balanced indent \<Longrightarrow> balanced (get_lines m access indent)"
  unfolding get_lines_def by (rule balanced_checked) (simp_all add: balanced_def)

lemma balanced_tab [balanced_intros]: "balanced indent \<Longrightarrow> balanced (indent @ tab)" "balanced tab" "balanced tab2"
  by (simp_all add: balanced_def)

lemma balanced_encode_primitive [balanced_intros]:
  "balanced access \<Longrightarrow> balanced indent \<Longrightarrow> balanced (writeEncodePrimitive t access indent)"
  by (auto simp: writeEncodePrimitive_def intro: balanced_put balanced_method split: option.split)

lemma balanced_decode_primitive [balanced_intros]:
  "balanced access \<Longrightarrow> balanced indent \<Longrightarrow> balanced (writeDecodePrimitive t access indent)"
  by (auto simp: writeDecodePrimitive_def intro: balanced_get balanced_method split: option.split)

lemma balanced_decode_item [balanced_intros]:
  "balanced i \<Longrightarrow> balanced access \<Longrightarrow> balanced indent \<Longrightarrow> balanced (decode_item i access indent)"
  by (simp add: balanced_def decode_item_def)

lemma balanced_index [balanced_intros]: "balanced access \<Longrightarrow> balanced (access @ ''[i]'')"
  by (simp add: balanced_def)

lemma balanced_loop:
  assumes "balanced indent" "balanced access" "balanced body"
  shows "balanced (ln indent [''for _, item := range '', access, '' {''] @ body @ ln indent [''}''])"
    "balanced (ln indent [''for i := 0; i < vecLen; i++ {''] @ body @ ln indent [''}''])"
  using assms by (simp_all add: balanced_def)

lemma balanced_lines [balanced_intros]:
  assumes "balanced indent" "balanced access"
  shows "balanced (ln indent [''e.PutVectorHeader(len('', access, ''))''])"
    "balanced (ln indent [''vecLen, err := d.VectorHeader()''] @ ln indent [''if err != nil {''] @
       ln (indent @ tab) [''return err''] @ ln indent [''}''])"
    "balanced t \<Longrightarrow> balanced (ln indent [access, '' = make([]'', t, '', vecLen)''])"
    "balanced (concat [''err := '', access, ''.Encode(e)''])" "balanced (concat [''err := '', access, ''.Decode(d)''])"
    "balanced (concat [''err := item.Encode(e)''])" "balanced (concat [''err := '', access, ''[i].Decode(d)''])"
    "balanced ''item''"
  using assms by (simp_all add: balanced_def)

lemma balanced_encode_field [balanced_intros]:
  assumes a: "balanced access" "balanced indent"
  shows "balanced (writeEncodeField p access indent)"
proof (cases "map_of encode_methods (pm_Type p)")
  case None
  define body where "body = (if isPrimitiveType (pm_ElemType p) then writeEncodePrimitive (pm_ElemType p) ''item'' (indent @ tab)
      else checked (indent @ tab) [''err := item.Encode(e)''])"
  have "balanced body" unfolding body_def using a by (auto intro!: balanced_intros)
  from balanced_append [OF balanced_lines(1) [OF a(2,1)] balanced_loop(1) [OF a(2,1) this]]
  show ?thesis
    using None a by (auto simp: writeEncodeField_def body_def [symmetric] intro!: balanced_checked balanced_lines)
next
  case (Some m)
  then show ?thesis using a balanced_method(1) [OF Some] by (simp add: writeEncodeField_def balanced_put)
qed

lemma plain_types: "plain t \<Longrightarrow> balanced (toGoSingleType t m)"
proof (cases "map_of [(''int'', ''int32''), (''long'', ''int64''), (''double'', ''float64''), (''string'', ''string''),
         (''bytes'', ''[]byte''), (''Bool'', ''bool''), (''int128'', ''[16]byte''), (''int256'', ''[32]byte'')] t")
  case None
  then show "plain t \<Longrightarrow> balanced (toGoSingleType t m)"
    unfolding toGoSingleType_def None by (auto intro: plain_balanced plain_interface plain_public)
next
  case (Some g)
  then have "balanced g" by (auto simp: balanced_def split: if_splits)
  then show ?thesis unfolding toGoSingleType_def Some by simp
qed

lemma balanced_decode_field [balanced_intros]:
  assumes a: "balanced access" "balanced indent"
    and p: "if pm_IsVector p then plain (pm_ElemType p) else plain (pm_Type p)"
  shows "balanced (writeDecodeField p access indent m)"
proof (cases "map_of decode_methods (pm_Type p)")
  case None
  let ?t = "pm_ElemType p"
  define body where "body = (if isPrimitiveType ?t then writeDecodePrimitive ?t (access @ ''[i]'') (indent @ tab)
      else if isPolymorphic ?t m then decode_item (getInterfaceName ?t (ctors_of m ?t)) (access @ ''[i]'') (indent @ tab)
      else checked (indent @ tab) [''err := '', access, ''[i].Decode(d)''])"
  show ?thesis
  proof (cases "pm_IsVector p")
    case True
    then have t: "plain ?t" using p by simp
    then have "balanced body" unfolding body_def using a by (auto intro!: balanced_intros)
    from balanced_append [OF balanced_lines(2) [OF a(2,1)] balanced_append [OF balanced_lines(3) [OF a(2,1) plain_types [OF t, of m]]
      balanced_loop(2) [OF a(2,1) this]]]
    show ?thesis using None True by (simp add: writeDecodeField_def body_def [symmetric])
  next
    case False
    then show ?thesis
      using None p a by (auto simp: writeDecodeField_def intro!: balanced_intros)
  qed
next
  case (Some meth)
  then show ?thesis using a balanced_method(2) [OF Some] by (simp add: writeDecodeField_def balanced_get)
qed

definition plain_param :: "Param \<Rightarrow> bool" where
  "plain_param p \<longleftrightarrow> plain (pm_Name p) \<and> plain (pm_Type p) \<and> plain (pm_ElemType p)"

definition plain_def :: "Definition \<Rightarrow> bool" where
  "plain_def d \<longleftrightarrow> plain (df_Name d) \<and> plain (df_ResultType d) \<and> list_all plain_param (df_Params d)"

lemma plain_vector: "plain e \<Longrightarrow> plain (vector_of e)"
  by (auto simp: plain_def vector_of_def)

lemma param_ok_plain: "param_ok p \<Longrightarrow> plain_param p"
  by (auto simp: param_ok_def plain_param_def plain_parts plain_vector split: if_splits) (simp_all add: plain_def)

lemma def_ok_plain: "def_ok fn d \<Longrightarrow> plain_def d"
  by (auto simp: def_ok_def plain_def_def list_all_iff param_ok_plain plain_parts plain_vector result_ok_def)

lemma balanced_bit [simp]: "balanced (flag_bit f)"
proof -
  have "balanced (fmt_int (fc_Bit f))"
    using plain_digits(1) [THEN plain_balanced] by (simp add: fmt_int_def balanced_def)
  then show ?thesis by (simp add: flag_bit_def balanced_def)
qed

lemma balanced_access: "plain_param p \<Longrightarrow> balanced (''v.'' @ toGoPublicName (pm_Name p))"
  using plain_public [THEN plain_balanced, of "pm_Name p"] by (simp add: plain_param_def balanced_def)

lemma balanced_struct_field: "plain_param p \<Longrightarrow> balanced (struct_field m p)"
proof -
  assume p: "plain_param p"
  have "balanced (toGoPublicName (pm_Name p))" "balanced (toGoSingleType (pm_Type p) m)" "balanced (toGoSingleType (pm_ElemType p) m)"
    using p plain_types plain_public [THEN plain_balanced] by (simp_all add: plain_param_def)
  then have "balanced (toGoPublicName (pm_Name p))" "balanced (toGoType p m)"
    by (simp_all add: toGoType_def balanced_def)
  then show ?thesis by (simp add: struct_field_def balanced_def)
qed

lemma balanced_if_flag: "balanced ff \<Longrightarrow> balanced body \<Longrightarrow> balanced (if_flag ff f body)"
  using balanced_bit [of f] by (simp add: if_flag_def balanced_def)

lemma balanced_set_flag: "plain_param p \<Longrightarrow> balanced ff \<Longrightarrow> balanced (set_flag ff p)"
proof -
  assume p: "plain_param p" "balanced ff"
  define access where "access = ''v.'' @ toGoPublicName (pm_Name p)"
  have a: "balanced access" using balanced_access [OF p(1)] by (simp only: access_def)
  have b: "balanced (ln tab [''if '', access, '' {''] @ ln tab2 [''v.'', ff, '' |= '', flag_bit f] @ ln tab [''}''])"
    "balanced (ln tab [''if '', access, '' != nil {''] @ ln tab2 [''v.'', ff, '' |= '', flag_bit f] @ ln tab [''}''])"
    "balanced (ln tab [''if len('', access, '') > 0 {''] @ ln tab2 [''v.'', ff, '' |= '', flag_bit f] @ ln tab [''}''])" for f
    using a p(2) balanced_bit [of f] by (simp_all add: balanced_def)
  then show ?thesis
    unfolding set_flag_def Let_def access_def [symmetric] by (auto split: option.split)
qed

lemma balanced_encode: "plain_param p \<Longrightarrow> balanced ff \<Longrightarrow> balanced (encode_field ff p)"
proof -
  assume p: "plain_param p" "balanced ff"
  define access where "access = ''v.'' @ toGoPublicName (pm_Name p)"
  have a: "balanced access" using balanced_access [OF p(1)] by (simp only: access_def)
  then have "balanced (ln tab [''e.PutUint('', access, '')''])" by (simp add: balanced_def)
  with a p(2) show ?thesis
    unfolding encode_field_def Let_def access_def [symmetric]
    by (auto intro!: balanced_if_flag balanced_encode_field balanced_tab(2,3) split: option.split)
qed

lemma balanced_decode: "plain_param p \<Longrightarrow> balanced ff \<Longrightarrow> balanced (decode_field m ff p)"
proof -
  assume p: "plain_param p" "balanced ff"
  define access where "access = ''v.'' @ toGoPublicName (pm_Name p)"
  have a: "balanced access" using balanced_access [OF p(1)] by (simp only: access_def)
  then have "balanced (concat [access, '', err = d.Uint()''])" by (simp add: balanced_def)
  moreover have "balanced (ln tab [access, '' = (v.'', ff, '' & '', flag_bit f, '') != 0''])" for f
    using a p(2) balanced_bit [of f] by (simp add: balanced_def)
  ultimately show ?thesis
    using a p unfolding decode_field_def Let_def access_def [symmetric] plain_param_def
    by (auto intro!: balanced_if_flag balanced_decode_field balanced_checked balanced_tab(2,3) split: option.split)
qed

lemma balanced_flag_name: "list_all plain_param ps \<Longrightarrow> balanced (flag_field_name ps)"
proof -
  have "balanced (fold (\<lambda>p name. if flag_param p then toGoPublicName (pm_Name p) else name) ps n)"
    if "balanced n" "list_all plain_param ps" for n
    using that plain_public [THEN plain_balanced]
    by (induction ps arbitrary: n) (auto simp: plain_param_def)
  then show "list_all plain_param ps \<Longrightarrow> balanced (flag_field_name ps)" by (simp add: flag_field_name_def)
qed

lemma balanced_struct:
  assumes "plain_def d"
  shows "balanced (generateStruct d isFn m)"
proof -
  let ?ps = "df_Params d" and ?ff = "flag_field_name (df_Params d)"
  have p: "\<And>p. p \<in> set ?ps \<Longrightarrow> plain_param p" "list_all plain_param ?ps" using assms by (auto simp: plain_def_def list_all_iff)
  note ff = balanced_flag_name [OF p(2)]
  define fields sets encs decs where "fields = concat (map (struct_field m) ?ps)"
    and "sets = (if list_ex flag_param ?ps then concat (map (set_flag ?ff) ?ps) else [])"
    and "encs = concat (map (encode_field ?ff) ?ps)" and "decs = concat (map (decode_field m ?ff) ?ps)"
  define sn nm hx iface where "sn = getStructName d" and "nm = df_Name d" and "hx = hex_id d"
    and "iface = getInterfaceName (df_ResultType d) (ctors_of m (df_ResultType d))"
  have b: "balanced fields" "balanced sets" "balanced encs" "balanced decs"
    unfolding fields_def sets_def encs_def decs_def
    using p ff by (auto intro!: balanced_concat balanced_struct_field balanced_set_flag balanced_encode balanced_decode)
  have n: "balanced sn" "balanced nm" "balanced hx" "balanced iface"
    using assms unfolding sn_def nm_def hx_def iface_def getStructName_def hex_id_def plain_def_def
    by (auto intro!: plain_balanced plain_public plain_interface plain_digits)
  show ?thesis
    unfolding generateStruct_def Let_def fields_def [symmetric] sets_def [symmetric] encs_def [symmetric] decs_def [symmetric]
      sn_def [symmetric] nm_def [symmetric] hx_def [symmetric] iface_def [symmetric]
    using b n by (simp add: balanced_def)
qed

lemma group_types_filter: "ctors_of (group_types cs) t = filter (\<lambda>c. df_ResultType c = t) cs"
proof -
  have "ctors_of (fold (\<lambda>c m. m(df_ResultType c \<mapsto> (case m (df_ResultType c) of None \<Rightarrow> [] | Some ds \<Rightarrow> ds) @ [c])) cs m) t =
      ctors_of m t @ filter (\<lambda>c. df_ResultType c = t) cs" for m
    by (induction cs arbitrary: m) (auto simp: ctors_of_def split: option.splits)
  from this [of Map.empty] show ?thesis by (simp add: group_types_def ctors_of_def)
qed

lemma balanced_case: "plain_def c \<Longrightarrow> balanced (decode_case c)"
proof -
  assume "plain_def c"
  then have "balanced (getStructName c)" "balanced (hex_id c)"
    using plain_public [THEN plain_balanced] plain_digits [THEN plain_balanced]
    by (simp_all add: getStructName_def hex_id_def plain_def_def)
  then show ?thesis by (simp add: decode_case_def balanced_def)
qed

lemma balanced_sum:
  assumes "\<And>c. c \<in> set cs \<Longrightarrow> plain_def c" "1 < length cs \<Longrightarrow> plain t"
  shows "balanced (generate_sum t cs)"
proof (cases "1 < length cs")
  case True
  define i cases where "i = getInterfaceName t cs" and "cases = concat (map decode_case cs)"
  have "balanced cases" using assms(1) unfolding cases_def by (auto intro!: balanced_concat balanced_case)
  moreover have "balanced i" "balanced t"
    using assms(2) [OF True] plain_interface [THEN plain_balanced] plain_balanced unfolding i_def by auto
  ultimately have "balanced (ln [] [''// '', i, '' represents the polymorphic TL sum type for '', t, ''.''] @
        ln [] [''type '', i, '' interface {''] @ ln tab [''TLID() uint32''] @
        ln tab [''Encode(e *encoder.Encoder) error''] @ ln tab [''Decode(d *decoder.Decoder) error''] @
        ln tab [''is'', i, ''()''] @ ln [] [''}''] @ ln [] [] @
        ln [] [''// Decode'', i, '' reads a boxed '', i, '' constructor from the decoder.''] @
        ln [] [''func Decode'', i, ''(d *decoder.Decoder) ('', i, '', error) {''] @
        ln tab [''crc, err := d.PeekUint()''] @ ln tab [''if err != nil {''] @ ln tab2 [''return nil, err''] @ ln tab [''}''] @
        ln tab [''switch crc {''] @ cases @
        ln tab [''default:''] @
        ln tab2 [''return nil, fmt.Errorf('', quote # ''unknown constructor 0x%08x for '', i, [quote], '', crc)''] @
        ln tab [''}''] @ ln [] [''}''] @ ln [] [])"
    by (simp add: balanced_def)
  then show ?thesis by (simp add: generate_sum_def Let_def i_def cases_def)
qed (simp add: generate_sum_def)

section \<open>Properties\<close>

text \<open>
  C23. For every schema in the notation of TL, whatever the order in which its types are visited, the brackets of the
  generated source are balanced, and inside it those of every struct with its methods and of every sum type with its decoder.
\<close>
theorem generated_balanced:
  assumes "schema_ok s" "plain pkgName"
  shows "balanced (generate_source pkgName keys s) \<and>
    (\<forall>d \<in> set (Constructors s) \<union> set (Functions s). \<forall>isFn m. balanced (generateStruct d isFn m)) \<and>
    (\<forall>t. balanced (generate_sum t (filter (\<lambda>c. df_ResultType c = t) (Constructors s))))"
proof -
  have d: "plain_def c" if "c \<in> set (Constructors s) \<union> set (Functions s)" for c
    using assms(1) that def_ok_plain by (auto simp: schema_ok_def list_all_iff)
  have st: "balanced (generateStruct c isFn m)" if "c \<in> set (Constructors s) \<union> set (Functions s)" for c isFn m
    by (rule balanced_struct [OF d [OF that]])
  have "plain t" if "1 < length (filter (\<lambda>c. df_ResultType c = t) (Constructors s))" for t
  proof -
    have "filter (\<lambda>c. df_ResultType c = t) (Constructors s) \<noteq> []" using that by auto
    then obtain c where "c \<in> set (Constructors s)" "df_ResultType c = t" by (auto simp: filter_empty_conv)
    then show ?thesis using d [of c] by (simp add: plain_def_def)
  qed
  then have sum: "balanced (generate_sum t (filter (\<lambda>c. df_ResultType c = t) (Constructors s)))" for t
    using d by (auto intro!: balanced_sum)
  have "balanced (file_header pkgName)"
    using plain_balanced [OF assms(2)] by (simp add: file_header_def balanced_def)
  then have "balanced (generate_source pkgName keys s)"
    using st sum by (auto simp: generate_source_def Let_def group_types_filter intro!: balanced_append balanced_concat)
  with st sum show ?thesis by blast
qed

theorem generated_balanced_witness: "balanced (generate_source ''generated'' [''MsgsAck''] sample_schema)"
proof -
  have "schema_ok sample_schema"
    by (simp add: schema_ok_def sample_schema_def def_ok_def param_ok_def flag_ok_def result_ok_def is_ident_def
        isIdentStart_def isIdentPart_def IsLetter_def IsDigit_def char_in_def vector_of_def)
  moreover have "plain ''generated''" by (simp add: plain_def)
  ultimately show ?thesis using generated_balanced [of sample_schema "''generated''" "[''MsgsAck'']"] by simp
qed

end
