(* ===== verification/Core_Schema.thy ===== *)
theory Core_Schema
  imports Generator
begin

text \<open>
  \<^verbatim>\<open>scripts/generate.go\<close>: the schema of the library as text, line by line, and the program that turns it into
  \<^verbatim>\<open>tl/generated/core.go\<close>.  The schema is read as the definitions written out here, so what is stated of these
  definitions is stated of the text.
\<close>

section \<open>The text\<close>

definition core_lines :: "string list" where
  "core_lines =
     ['''',
      ''// Core MTProto 2.0 Service & File Transfer Schema'',
      '''',
      ''// Auth Key Creation'',
      ''resPQ#05162463 nonce:int128 server_nonce:int128 pq:string server_public_key_fingerprints:Vector<long> = ResPQ;'',
      ''p_q_inner_data_dc#a9f55f95 pq:string p:string q:string nonce:int128 server_nonce:int128 new_nonce:int256 dc:int = P_Q_inner_data;'',
      ''server_DH_params_ok#d0e8075c nonce:int128 server_nonce:int128 encrypted_answer:string = Server_DH_Params;'',
      ''server_DH_params_fail#79cb045d nonce:int128 server_nonce:int128 new_nonce_hash:int128 = Server_DH_Params;'',
      ''server_DH_inner_data#b5890dba nonce:int128 server_nonce:int128 g:int dh_prime:string g_a:string server_time:int = Server_DH_inner_data;'',
      ''client_DH_inner_data#6643b654 nonce:int128 server_nonce:int128 retry_id:long g_b:string = Client_DH_Inner_Data;'',
      ''dh_gen_ok#3bcbf734 nonce:int128 server_nonce:int128 new_nonce_hash1:int128 = Set_client_DH_params_answer;'',
      ''dh_gen_retry#462de825 nonce:int128 server_nonce:int128 new_nonce_hash2:int128 = Set_client_DH_params_answer;'',
      ''dh_gen_fail#a69dae02 nonce:int128 server_nonce:int128 new_nonce_hash3:int128 = Set_client_DH_params_answer;'',
      '''',
      ''// MTProto Service Messages'',
      ''rpc_error#2144ca19 error_code:int error_message:string = RpcError;'',
      ''msgs_ack#62d6b459 msg_ids:Vector<long> = MsgsAck;'',
      ''bad_msg_notification#a7eff811 bad_msg_id:long bad_msg_seqno:int error_code:int = BadMsgNotification;'',
      ''bad_server_salt#edab447b bad_msg_id:long bad_msg_seqno:int error_code:int new_server_salt:long = BadMsgNotification;'',
      ''new_session_created#9ec20908 first_msg_id:long unique_id:long server_salt:long = NewSession;'',
      ''pong#347773c5 msg_id:long ping_id:long = Pong;'',
      ''destroy_session_ok#e22045fc session_id:long = DestroySessionRes;'',
      ''destroy_session_none#62d350c9 session_id:long = DestroySessionRes;'',
      '''',
      ''// File Upload & Download Core'',
      ''inputFile#f52ff27f id:long parts:int name:string md5_checksum:string = InputFile;'',
      ''inputFileBig#fa4f0bb5 id:long parts:int name:string = InputFile;'',
      ''inputPeerEmpty#7f0783fa = InputPeer;'',
      ''inputPeerSelf#7da07ec9 = InputPeer;'',
      ''inputPeerChat#35a95697 chat_id:long = InputPeer;'',
      ''inputPeerUser#dde8a529 user_id:long access_hash:long = InputPeer;'',
      ''inputPeerChannel#27bcb61f channel_id:long access_hash:long = InputPeer;'',
      '''',
      ''inputFileLocation#dfdaabe1 volume_id:long local_id:int secret:long file_reference:bytes = InputFileLocation;'',
      ''inputDocumentFileLocation#bad07284 id:long access_hash:long file_reference:bytes thumb_size:string = InputFileLocation;'',
      '''',
      ''fileHash#6242c773 offset:long limit:int hash:bytes = FileHash;'',
      '''',
      ''storage_fileUnknown#aa963b05 = StorageFileType;'',
      ''storage_filePartial#40bc6f52 = StorageFileType;'',
      ''storage_fileJpeg#007efe0e = StorageFileType;'',
      ''storage_filePng#0a4f63c0 = StorageFileType;'',
      ''storage_fileMp4#b3cea0e4 = StorageFileType;'',
      '''',
      ''upload_file#096a18d3 mtime:int bytes:bytes = UploadFile;'',
      ''upload_fileCdnRedirect#f18cda44 dc_id:int file_token:bytes encryption_key:bytes encryption_iv:bytes file_hashes:Vector<FileHash> = UploadFile;'',
      ''upload_cdnFile#a99fca4f bytes:bytes = UploadCdnFile;'',
      ''upload_cdnFileReuploadNeeded#eea8e486 request_token:bytes = UploadCdnFile;'',
      '''',
      ''---functions---'',
      '''',
      ''req_pq_multi#be7e8ef1 nonce:int128 = ResPQ;'',
      ''req_DH_params#d712e4be nonce:int128 server_nonce:int128 p:string q:string public_key_fingerprint:long encrypted_data:string = Server_DH_Params;'',
      ''set_client_DH_params#f5045f1f nonce:int128 server_nonce:int128 encrypted_data:string = Set_client_DH_params_answer;'',
      ''ping#7abe77ec ping_id:long = Pong;'',
      ''destroy_session#e7512126 session_id:long = DestroySessionRes;'',
      '''',
      ''upload_saveFilePart#b304a621 file_id:long file_part:int bytes:bytes = Bool;'',
      ''upload_saveBigFilePart#de7b673d file_id:long file_part:int file_total_parts:int bytes:bytes = Bool;'',
      ''upload_getFile#be250529 flags:# precise:flags.0?true cdn_supported:flags.1?true location:InputFileLocation offset:long limit:int = UploadFile;'',
      ''upload_getCdnFile#20005570 file_token:bytes offset:long limit:int = UploadCdnFile;'',
      ''upload_reuploadCdnFile#9b2754a8 file_token:bytes request_token:bytes = Vector<FileHash>;'',
      ''upload_getCdnFileHashes#4e545469 file_token:bytes offset:long = Vector<FileHash>;'']"

definition coreSchema :: string where
  "coreSchema = concat (map (\<lambda>l. l @ [newline]) core_lines)"

section \<open>The definitions\<close>

definition field :: "string \<Rightarrow> string \<Rightarrow> Param" where
  "field name ty = \<lparr>pm_Name = name, pm_Type = ty, pm_Flag = None, pm_IsVector = False, pm_ElemType = []\<rparr>"

definition vector :: "string \<Rightarrow> string \<Rightarrow> Param" where
  "vector name elem =
     \<lparr>pm_Name = name, pm_Type = vector_of elem, pm_Flag = None, pm_IsVector = True, pm_ElemType = elem\<rparr>"

definition flagged :: "string \<Rightarrow> int \<Rightarrow> string \<Rightarrow> Param" where
  "flagged name i ty = \<lparr>pm_Name = name, pm_Type = ty,
     pm_Flag = Some \<lparr>fc_Field = ''flags'', fc_Bit = i, fc_IsTrue = (ty = ''true'')\<rparr>,
     pm_IsVector = False, pm_ElemType = []\<rparr>"

definition schema_resPQ :: Definition where
  "schema_resPQ = \<lparr>df_Name = ''resPQ'', df_ID = 0x05162463,
     df_Params = [field ''nonce'' ''int128'',
       field ''server_nonce'' ''int128'',
       field ''pq'' ''string'',
       vector ''server_public_key_fingerprints'' ''long''],
     df_ResultType = ''ResPQ'', df_IsFunction = False\<rparr>"

definition schema_p_q_inner_data_dc :: Definition where
  "schema_p_q_inner_data_dc = \<lparr>df_Name = ''p_q_inner_data_dc'', df_ID = 0xa9f55f95,
     df_Params = [field ''pq'' ''string'',
       field ''p'' ''string'',
       field ''q'' ''string'',
       field ''nonce'' ''int128'',
       field ''server_nonce'' ''int128'',
       field ''new_nonce'' ''int256'',
       field ''dc'' ''int''],
     df_ResultType = ''P_Q_inner_data'', df_IsFunction = False\<rparr>"

definition schema_server_DH_params_ok :: Definition where
  "schema_server_DH_params_ok = \<lparr>df_Name = ''server_DH_params_ok'', df_ID = 0xd0e8075c,
     df_Params = [field ''nonce'' ''int128'',
       field ''server_nonce'' ''int128'',
       field ''encrypted_answer'' ''string''],
     df_ResultType = ''Server_DH_Params'', df_IsFunction = False\<rparr>"

definition schema_server_DH_params_fail :: Definition where
  "schema_server_DH_params_fail = \<lparr>df_Name = ''server_DH_params_fail'', df_ID = 0x79cb045d,
     df_Params = [field ''nonce'' ''int128'',
       field ''server_nonce'' ''int128'',
       field ''new_nonce_hash'' ''int128''],
     df_ResultType = ''Server_DH_Params'', df_IsFunction = False\<rparr>"

definition schema_server_DH_inner_data :: Definition where
  "schema_server_DH_inner_data = \<lparr>df_Name = ''server_DH_inner_data'', df_ID = 0xb5890dba,
     df_Params = [field ''nonce'' ''int128'',
       field ''server_nonce'' ''int128'',
       field ''g'' ''int'',
       field ''dh_prime'' ''string'',
       field ''g_a'' ''string'',
       field ''server_time'' ''int''],
     df_ResultType = ''Server_DH_inner_data'', df_IsFunction = False\<rparr>"

definition schema_client_DH_inner_data :: Definition where
  "schema_client_DH_inner_data = \<lparr>df_Name = ''client_DH_inner_data'', df_ID = 0x6643b654,
     df_Params = [field ''nonce'' ''int128'',
       field ''server_nonce'' ''int128'',
       field ''retry_id'' ''long'',
       field ''g_b'' ''string''],
     df_ResultType = ''Client_DH_Inner_Data'', df_IsFunction = False\<rparr>"

definition schema_dh_gen_ok :: Definition where
  "schema_dh_gen_ok = \<lparr>df_Name = ''dh_gen_ok'', df_ID = 0x3bcbf734,
     df_Params = [field ''nonce'' ''int128'',
       field ''server_nonce'' ''int128'',
       field ''new_nonce_hash1'' ''int128''],
     df_ResultType = ''Set_client_DH_params_answer'', df_IsFunction = False\<rparr>"

definition schema_dh_gen_retry :: Definition where
  "schema_dh_gen_retry = \<lparr>df_Name = ''dh_gen_retry'', df_ID = 0x462de825,
     df_Params = [field ''nonce'' ''int128'',
       field ''server_nonce'' ''int128'',
       field ''new_nonce_hash2'' ''int128''],
     df_ResultType = ''Set_client_DH_params_answer'', df_IsFunction = False\<rparr>"

definition schema_dh_gen_fail :: Definition where
  "schema_dh_gen_fail = \<lparr>df_Name = ''dh_gen_fail'', df_ID = 0xa69dae02,
     df_Params = [field ''nonce'' ''int128'',
       field ''server_nonce'' ''int128'',
       field ''new_nonce_hash3'' ''int128''],
     df_ResultType = ''Set_client_DH_params_answer'', df_IsFunction = False\<rparr>"

definition schema_rpc_error :: Definition where
  "schema_rpc_error = \<lparr>df_Name = ''rpc_error'', df_ID = 0x2144ca19,
     df_Params = [field ''error_code'' ''int'',
       field ''error_message'' ''string''],
     df_ResultType = ''RpcError'', df_IsFunction = False\<rparr>"

definition schema_msgs_ack :: Definition where
  "schema_msgs_ack = \<lparr>df_Name = ''msgs_ack'', df_ID = 0x62d6b459,
     df_Params = [vector ''msg_ids'' ''long''],
     df_ResultType = ''MsgsAck'', df_IsFunction = False\<rparr>"

definition schema_bad_msg_notification :: Definition where
  "schema_bad_msg_notification = \<lparr>df_Name = ''bad_msg_notification'', df_ID = 0xa7eff811,
     df_Params = [field ''bad_msg_id'' ''long'',
       field ''bad_msg_seqno'' ''int'',
       field ''error_code'' ''int''],
     df_ResultType = ''BadMsgNotification'', df_IsFunction = False\<rparr>"

definition schema_bad_server_salt :: Definition where
  "schema_bad_server_salt = \<lparr>df_Name = ''bad_server_salt'', df_ID = 0xedab447b,
     df_Params = [field ''bad_msg_id'' ''long'',
       field ''bad_msg_seqno'' ''int'',
       field ''error_code'' ''int'',
       field ''new_server_salt'' ''long''],
     df_ResultType = ''BadMsgNotification'', df_IsFunction = False\<rparr>"

definition schema_new_session_created :: Definition where
  "schema_new_session_created = \<lparr>df_Name = ''new_session_created'', df_ID = 0x9ec20908,
     df_Params = [field ''first_msg_id'' ''long'',
       field ''unique_id'' ''long'',
       field ''server_salt'' ''long''],
     df_ResultType = ''NewSession'', df_IsFunction = False\<rparr>"

definition schema_pong :: Definition where
  "schema_pong = \<lparr>df_Name = ''pong'', df_ID = 0x347773c5,
     df_Params = [field ''msg_id'' ''long'',
       field ''ping_id'' ''long''],
     df_ResultType = ''Pong'', df_IsFunction = False\<rparr>"

definition schema_destroy_session_ok :: Definition where
  "schema_destroy_session_ok = \<lparr>df_Name = ''destroy_session_ok'', df_ID = 0xe22045fc,
     df_Params = [field ''session_id'' ''long''],
     df_ResultType = ''DestroySessionRes'', df_IsFunction = False\<rparr>"

definition schema_destroy_session_none :: Definition where
  "schema_destroy_session_none = \<lparr>df_Name = ''destroy_session_none'', df_ID = 0x62d350c9,
     df_Params = [field ''session_id'' ''long''],
     df_ResultType = ''DestroySessionRes'', df_IsFunction = False\<rparr>"

definition schema_inputFile :: Definition where
  "schema_inputFile = \<lparr>df_Name = ''inputFile'', df_ID = 0xf52ff27f,
     df_Params = [field ''id'' ''long'',
       field ''parts'' ''int'',
       field ''name'' ''string'',
       field ''md5_checksum'' ''string''],
     df_ResultType = ''InputFile'', df_IsFunction = False\<rparr>"

definition schema_inputFileBig :: Definition where
  "schema_inputFileBig = \<lparr>df_Name = ''inputFileBig'', df_ID = 0xfa4f0bb5,
     df_Params = [field ''id'' ''long'',
       field ''parts'' ''int'',
       field ''name'' ''string''],
     df_ResultType = ''InputFile'', df_IsFunction = False\<rparr>"

definition schema_inputPeerEmpty :: Definition where
  "schema_inputPeerEmpty = \<lparr>df_Name = ''inputPeerEmpty'', df_ID = 0x7f0783fa,
     df_Params = [],
     df_ResultType = ''InputPeer'', df_IsFunction = False\<rparr>"

definition schema_inputPeerSelf :: Definition where
  "schema_inputPeerSelf = \<lparr>df_Name = ''inputPeerSelf'', df_ID = 0x7da07ec9,
     df_Params = [],
     df_ResultType = ''InputPeer'', df_IsFunction = False\<rparr>"

definition schema_inputPeerChat :: Definition where
  "schema_inputPeerChat = \<lparr>df_Name = ''inputPeerChat'', df_ID = 0x35a95697,
     df_Params = [field ''chat_id'' ''long''],
     df_ResultType = ''InputPeer'', df_IsFunction = False\<rparr>"

definition schema_inputPeerUser :: Definition where
  "schema_inputPeerUser = \<lparr>df_Name = ''inputPeerUser'', df_ID = 0xdde8a529,
     df_Params = [field ''user_id'' ''long'',
       field ''access_hash'' ''long''],
     df_ResultType = ''InputPeer'', df_IsFunction = False\<rparr>"

definition schema_inputPeerChannel :: Definition where
  "schema_inputPeerChannel = \<lparr>df_Name = ''inputPeerChannel'', df_ID = 0x27bcb61f,
     df_Params = [field ''channel_id'' ''long'',
       field ''access_hash'' ''long''],
     df_ResultType = ''InputPeer'', df_IsFunction = False\<rparr>"

definition schema_inputFileLocation :: Definition where
  "schema_inputFileLocation = \<lparr>df_Name = ''inputFileLocation'', df_ID = 0xdfdaabe1,
     df_Params = [field ''volume_id'' ''long'',
       field ''local_id'' ''int'',
       field ''secret'' ''long'',
       field ''file_reference'' ''bytes''],
     df_ResultType = ''InputFileLocation'', df_IsFunction = False\<rparr>"

definition schema_inputDocumentFileLocation :: Definition where
  "schema_inputDocumentFileLocation = \<lparr>df_Name = ''inputDocumentFileLocation'', df_ID = 0xbad07284,
     df_Params = [field ''id'' ''long'',
       field ''access_hash'' ''long'',
       field ''file_reference'' ''bytes'',
       field ''thumb_size'' ''string''],
     df_ResultType = ''InputFileLocation'', df_IsFunction = False\<rparr>"

definition schema_fileHash :: Definition where
  "schema_fileHash = \<lparr>df_Name = ''fileHash'', df_ID = 0x6242c773,
     df_Params = [field ''offset'' ''long'',
       field ''limit'' ''int'',
       field ''hash'' ''bytes''],
     df_ResultType = ''FileHash'', df_IsFunction = False\<rparr>"

definition schema_storage_fileUnknown :: Definition where
  "schema_storage_fileUnknown = \<lparr>df_Name = ''storage_fileUnknown'', df_ID = 0xaa963b05,
     df_Params = [],
     df_ResultType = ''StorageFileType'', df_IsFunction = False\<rparr>"

definition schema_storage_filePartial :: Definition where
  "schema_storage_filePartial = \<lparr>df_Name = ''storage_filePartial'', df_ID = 0x40bc6f52,
     df_Params = [],
     df_ResultType = ''StorageFileType'', df_IsFunction = False\<rparr>"

definition schema_storage_fileJpeg :: Definition where
  "schema_storage_fileJpeg = \<lparr>df_Name = ''storage_fileJpeg'', df_ID = 0x007efe0e,
     df_Params = [],
     df_ResultType = ''StorageFileType'', df_IsFunction = False\<rparr>"

definition schema_storage_filePng :: Definition where
  "schema_storage_filePng = \<lparr>df_Name = ''storage_filePng'', df_ID = 0x0a4f63c0,
     df_Params = [],
     df_ResultType = ''StorageFileType'', df_IsFunction = False\<rparr>"

definition schema_storage_fileMp4 :: Definition where
  "schema_storage_fileMp4 = \<lparr>df_Name = ''storage_fileMp4'', df_ID = 0xb3cea0e4,
     df_Params = [],
     df_ResultType = ''StorageFileType'', df_IsFunction = False\<rparr>"

definition schema_upload_file :: Definition where
  "schema_upload_file = \<lparr>df_Name = ''upload_file'', df_ID = 0x096a18d3,
     df_Params = [field ''mtime'' ''int'',
       field ''bytes'' ''bytes''],
     df_ResultType = ''UploadFile'', df_IsFunction = False\<rparr>"

definition schema_upload_fileCdnRedirect :: Definition where
  "schema_upload_fileCdnRedirect = \<lparr>df_Name = ''upload_fileCdnRedirect'', df_ID = 0xf18cda44,
     df_Params = [field ''dc_id'' ''int'',
       field ''file_token'' ''bytes'',
       field ''encryption_key'' ''bytes'',
       field ''encryption_iv'' ''bytes'',
       vector ''file_hashes'' ''FileHash''],
     df_ResultType = ''UploadFile'', df_IsFunction = False\<rparr>"

definition schema_upload_cdnFile :: Definition where
  "schema_upload_cdnFile = \<lparr>df_Name = ''upload_cdnFile'', df_ID = 0xa99fca4f,
     df_Params = [field ''bytes'' ''bytes''],
     df_ResultType = ''UploadCdnFile'', df_IsFunction = False\<rparr>"

definition schema_upload_cdnFileReuploadNeeded :: Definition where
  "schema_upload_cdnFileReuploadNeeded = \<lparr>df_Name = ''upload_cdnFileReuploadNeeded'', df_ID = 0xeea8e486,
     df_Params = [field ''request_token'' ''bytes''],
     df_ResultType = ''UploadCdnFile'', df_IsFunction = False\<rparr>"

definition schema_req_pq_multi :: Definition where
  "schema_req_pq_multi = \<lparr>df_Name = ''req_pq_multi'', df_ID = 0xbe7e8ef1,
     df_Params = [field ''nonce'' ''int128''],
     df_ResultType = ''ResPQ'', df_IsFunction = True\<rparr>"

definition schema_req_DH_params :: Definition where
  "schema_req_DH_params = \<lparr>df_Name = ''req_DH_params'', df_ID = 0xd712e4be,
     df_Params = [field ''nonce'' ''int128'',
       field ''server_nonce'' ''int128'',
       field ''p'' ''string'',
       field ''q'' ''string'',
       field ''public_key_fingerprint'' ''long'',
       field ''encrypted_data'' ''string''],
     df_ResultType = ''Server_DH_Params'', df_IsFunction = True\<rparr>"

definition schema_set_client_DH_params :: Definition where
  "schema_set_client_DH_params = \<lparr>df_Name = ''set_client_DH_params'', df_ID = 0xf5045f1f,
     df_Params = [field ''nonce'' ''int128'',
       field ''server_nonce'' ''int128'',
       field ''encrypted_data'' ''string''],
     df_ResultType = ''Set_client_DH_params_answer'', df_IsFunction = True\<rparr>"

definition schema_ping :: Definition where
  "schema_ping = \<lparr>df_Name = ''ping'', df_ID = 0x7abe77ec,
     df_Params = [field ''ping_id'' ''long''],
     df_ResultType = ''Pong'', df_IsFunction = True\<rparr>"

definition schema_destroy_session :: Definition where
  "schema_destroy_session = \<lparr>df_Name = ''destroy_session'', df_ID = 0xe7512126,
     df_Params = [field ''session_id'' ''long''],
     df_ResultType = ''DestroySessionRes'', df_IsFunction = True\<rparr>"

definition schema_upload_saveFilePart :: Definition where
  "schema_upload_saveFilePart = \<lparr>df_Name = ''upload_saveFilePart'', df_ID = 0xb304a621,
     df_Params = [field ''file_id'' ''long'',
       field ''file_part'' ''int'',
       field ''bytes'' ''bytes''],
     df_ResultType = ''Bool'', df_IsFunction = True\<rparr>"

definition schema_upload_saveBigFilePart :: Definition where
  "schema_upload_saveBigFilePart = \<lparr>df_Name = ''upload_saveBigFilePart'', df_ID = 0xde7b673d,
     df_Params = [field ''file_id'' ''long'',
       field ''file_part'' ''int'',
       field ''file_total_parts'' ''int'',
       field ''bytes'' ''bytes''],
     df_ResultType = ''Bool'', df_IsFunction = True\<rparr>"

definition schema_upload_getFile :: Definition where
  "schema_upload_getFile = \<lparr>df_Name = ''upload_getFile'', df_ID = 0xbe250529,
     df_Params = [field ''flags'' ''#'',
       flagged ''precise'' 0 ''true'',
       flagged ''cdn_supported'' 1 ''true'',
       field ''location'' ''InputFileLocation'',
       field ''offset'' ''long'',
       field ''limit'' ''int''],
     df_ResultType = ''UploadFile'', df_IsFunction = True\<rparr>"

definition schema_upload_getCdnFile :: Definition where
  "schema_upload_getCdnFile = \<lparr>df_Name = ''upload_getCdnFile'', df_ID = 0x20005570,
     df_Params = [field ''file_token'' ''bytes'',
       field ''offset'' ''long'',
       field ''limit'' ''int''],
     df_ResultType = ''UploadCdnFile'', df_IsFunction = True\<rparr>"

definition schema_upload_reuploadCdnFile :: Definition where
  "schema_upload_reuploadCdnFile = \<lparr>df_Name = ''upload_reuploadCdnFile'', df_ID = 0x9b2754a8,
     df_Params = [field ''file_token'' ''bytes'',
       field ''request_token'' ''bytes''],
     df_ResultType = ''Vector<FileHash>'', df_IsFunction = True\<rparr>"

definition schema_upload_getCdnFileHashes :: Definition where
  "schema_upload_getCdnFileHashes = \<lparr>df_Name = ''upload_getCdnFileHashes'', df_ID = 0x4e545469,
     df_Params = [field ''file_token'' ''bytes'',
       field ''offset'' ''long''],
     df_ResultType = ''Vector<FileHash>'', df_IsFunction = True\<rparr>"

definition core_schema :: Schema where
  "core_schema = \<lparr>
     Constructors = [schema_resPQ,
       schema_p_q_inner_data_dc,
       schema_server_DH_params_ok,
       schema_server_DH_params_fail,
       schema_server_DH_inner_data,
       schema_client_DH_inner_data,
       schema_dh_gen_ok,
       schema_dh_gen_retry,
       schema_dh_gen_fail,
       schema_rpc_error,
       schema_msgs_ack,
       schema_bad_msg_notification,
       schema_bad_server_salt,
       schema_new_session_created,
       schema_pong,
       schema_destroy_session_ok,
       schema_destroy_session_none,
       schema_inputFile,
       schema_inputFileBig,
       schema_inputPeerEmpty,
       schema_inputPeerSelf,
       schema_inputPeerChat,
       schema_inputPeerUser,
       schema_inputPeerChannel,
       schema_inputFileLocation,
       schema_inputDocumentFileLocation,
       schema_fileHash,
       schema_storage_fileUnknown,
       schema_storage_filePartial,
       schema_storage_fileJpeg,
       schema_storage_filePng,
       schema_storage_fileMp4,
       schema_upload_file,
       schema_upload_fileCdnRedirect,
       schema_upload_cdnFile,
       schema_upload_cdnFileReuploadNeeded],
     Functions = [schema_req_pq_multi,
       schema_req_DH_params,
       schema_set_client_DH_params,
       schema_ping,
       schema_destroy_session,
       schema_upload_saveFilePart,
       schema_upload_saveBigFilePart,
       schema_upload_getFile,
       schema_upload_getCdnFile,
       schema_upload_reuploadCdnFile,
       schema_upload_getCdnFileHashes]\<rparr>"

section \<open>The program\<close>

text \<open>
  \<^verbatim>\<open>main\<close>: the exit with \<^verbatim>\<open>log.Fatalf\<close> in one of its three places, or the text that was written and its length.  \<open>write\<close> answers
  \<^verbatim>\<open>os.WriteFile\<close> on the target.
\<close>

datatype script_result = ParseFatal parse_error | GenerateFatal string | WriteFatal goerror | Written string nat

definition generate_main ::
  "(string \<Rightarrow> string + string) \<Rightarrow> string list \<Rightarrow> (string \<Rightarrow> goerror option) \<Rightarrow> script_result" where
  "generate_main format_Source keys write =
     (case Parse coreSchema of
        Inl err \<Rightarrow> ParseFatal err
      | Inr schema \<Rightarrow>
          (case Generate format_Source ''generated'' keys schema of
             (_, Some err) \<Rightarrow> GenerateFatal err
           | (code, None) \<Rightarrow>
               (case write code of Some err \<Rightarrow> WriteFatal err | None \<Rightarrow> Written code (length code))))"

section \<open>The text is the schema\<close>

text \<open>The tokens of a definition behind other white space than the printer puts there.\<close>

definition respace :: "string \<Rightarrow> (string \<times> TokenType \<times> string) list \<Rightarrow> (string \<times> TokenType \<times> string) list" where
  "respace sp its = (case its of [] \<Rightarrow> [] | (_, t) # its \<Rightarrow> (sp, t) # its)"

lemma spaced_respace: "spaced its r \<Longrightarrow> blank sp \<Longrightarrow> spaced (respace sp its) r"
  by (cases its) (auto simp: respace_def)

lemma respace_tokens [simp]: "map snd (respace sp its) = map snd its"
  by (cases its) (auto simp: respace_def)

lemma respace_text: "items_text (respace sp (def_items d)) = sp @ tl (items_text (def_items d))"
  by (simp add: respace_def def_items_def)

lemma section_text: "token_text TokenSectionFunctions ''functions'' = ''---functions---''"
  by (simp add: token_text_def)

lemma hex_step: "fmt_hex (numeral k) v = fmt_hex (pred_numeral k) (v div 16) @ [hex_digit v]"
  by (simp only: numeral_eq_Suc [of k] fmt_hex.simps)

lemma hex_digits:
  "hex_digit v = ''0123456789abcdef'' ! (v mod 16)"
  by (simp add: hex_digit_def)

lemma fmt_nat_flags: "fmt_nat 0 = ''0''" "fmt_nat (Suc 0) = ''1''"
  by (simp_all add: fmt_nat.simps [of 0] fmt_nat.simps [of "Suc 0"] digit_char_def char_of_def bit_0)

lemmas text_simps = def_items_def param_items_def type_items_def result_items_def is_ident_def isIdentStart_def
  isIdentPart_def IsLetter_def IsDigit_def char_in_def token_text_def flag_text_def hex_step hex_digits fmt_nat_flags
  field_def vector_def flagged_def vector_of_def

lemma text_resPQ: "tl (items_text (def_items schema_resPQ)) = ''resPQ#05162463 nonce:int128 server_nonce:int128 pq:string server_public_key_fingerprints:Vector<long> = ResPQ;''"
  by (simp add: schema_resPQ_def text_simps)

lemma text_p_q_inner_data_dc: "tl (items_text (def_items schema_p_q_inner_data_dc)) = ''p_q_inner_data_dc#a9f55f95 pq:string p:string q:string nonce:int128 server_nonce:int128 new_nonce:int256 dc:int = P_Q_inner_data;''"
  by (simp add: schema_p_q_inner_data_dc_def text_simps)

lemma text_server_DH_params_ok: "tl (items_text (def_items schema_server_DH_params_ok)) = ''server_DH_params_ok#d0e8075c nonce:int128 server_nonce:int128 encrypted_answer:string = Server_DH_Params;''"
  by (simp add: schema_server_DH_params_ok_def text_simps)

lemma text_server_DH_params_fail: "tl (items_text (def_items schema_server_DH_params_fail)) = ''server_DH_params_fail#79cb045d nonce:int128 server_nonce:int128 new_nonce_hash:int128 = Server_DH_Params;''"
  by (simp add: schema_server_DH_params_fail_def text_simps)

lemma text_server_DH_inner_data: "tl (items_text (def_items schema_server_DH_inner_data)) = ''server_DH_inner_data#b5890dba nonce:int128 server_nonce:int128 g:int dh_prime:string g_a:string server_time:int = Server_DH_inner_data;''"
  by (simp add: schema_server_DH_inner_data_def text_simps)

lemma text_client_DH_inner_data: "tl (items_text (def_items schema_client_DH_inner_data)) = ''client_DH_inner_data#6643b654 nonce:int128 server_nonce:int128 retry_id:long g_b:string = Client_DH_Inner_Data;''"
  by (simp add: schema_client_DH_inner_data_def text_simps)

lemma text_dh_gen_ok: "tl (items_text (def_items schema_dh_gen_ok)) = ''dh_gen_ok#3bcbf734 nonce:int128 server_nonce:int128 new_nonce_hash1:int128 = Set_client_DH_params_answer;''"
  by (simp add: schema_dh_gen_ok_def text_simps)

lemma text_dh_gen_retry: "tl (items_text (def_items schema_dh_gen_retry)) = ''dh_gen_retry#462de825 nonce:int128 server_nonce:int128 new_nonce_hash2:int128 = Set_client_DH_params_answer;''"
  by (simp add: schema_dh_gen_retry_def text_simps)

lemma text_dh_gen_fail: "tl (items_text (def_items schema_dh_gen_fail)) = ''dh_gen_fail#a69dae02 nonce:int128 server_nonce:int128 new_nonce_hash3:int128 = Set_client_DH_params_answer;''"
  by (simp add: schema_dh_gen_fail_def text_simps)

lemma text_rpc_error: "tl (items_text (def_items schema_rpc_error)) = ''rpc_error#2144ca19 error_code:int error_message:string = RpcError;''"
  by (simp add: schema_rpc_error_def text_simps)

lemma text_msgs_ack: "tl (items_text (def_items schema_msgs_ack)) = ''msgs_ack#62d6b459 msg_ids:Vector<long> = MsgsAck;''"
  by (simp add: schema_msgs_ack_def text_simps)

lemma text_bad_msg_notification: "tl (items_text (def_items schema_bad_msg_notification)) = ''bad_msg_notification#a7eff811 bad_msg_id:long bad_msg_seqno:int error_code:int = BadMsgNotification;''"
  by (simp add: schema_bad_msg_notification_def text_simps)

lemma text_bad_server_salt: "tl (items_text (def_items schema_bad_server_salt)) = ''bad_server_salt#edab447b bad_msg_id:long bad_msg_seqno:int error_code:int new_server_salt:long = BadMsgNotification;''"
  by (simp add: schema_bad_server_salt_def text_simps)

lemma text_new_session_created: "tl (items_text (def_items schema_new_session_created)) = ''new_session_created#9ec20908 first_msg_id:long unique_id:long server_salt:long = NewSession;''"
  by (simp add: schema_new_session_created_def text_simps)

lemma text_pong: "tl (items_text (def_items schema_pong)) = ''pong#347773c5 msg_id:long ping_id:long = Pong;''"
  by (simp add: schema_pong_def text_simps)

lemma text_destroy_session_ok: "tl (items_text (def_items schema_destroy_session_ok)) = ''destroy_session_ok#e22045fc session_id:long = DestroySessionRes;''"
  by (simp add: schema_destroy_session_ok_def text_simps)

lemma text_destroy_session_none: "tl (items_text (def_items schema_destroy_session_none)) = ''destroy_session_none#62d350c9 session_id:long = DestroySessionRes;''"
  by (simp add: schema_destroy_session_none_def text_simps)

lemma text_inputFile: "tl (items_text (def_items schema_inputFile)) = ''inputFile#f52ff27f id:long parts:int name:string md5_checksum:string = InputFile;''"
  by (simp add: schema_inputFile_def text_simps)

lemma text_inputFileBig: "tl (items_text (def_items schema_inputFileBig)) = ''inputFileBig#fa4f0bb5 id:long parts:int name:string = InputFile;''"
  by (simp add: schema_inputFileBig_def text_simps)

lemma text_inputPeerEmpty: "tl (items_text (def_items schema_inputPeerEmpty)) = ''inputPeerEmpty#7f0783fa = InputPeer;''"
  by (simp add: schema_inputPeerEmpty_def text_simps)

lemma text_inputPeerSelf: "tl (items_text (def_items schema_inputPeerSelf)) = ''inputPeerSelf#7da07ec9 = InputPeer;''"
  by (simp add: schema_inputPeerSelf_def text_simps)

lemma text_inputPeerChat: "tl (items_text (def_items schema_inputPeerChat)) = ''inputPeerChat#35a95697 chat_id:long = InputPeer;''"
  by (simp add: schema_inputPeerChat_def text_simps)

lemma text_inputPeerUser: "tl (items_text (def_items schema_inputPeerUser)) = ''inputPeerUser#dde8a529 user_id:long access_hash:long = InputPeer;''"
  by (simp add: schema_inputPeerUser_def text_simps)

lemma text_inputPeerChannel: "tl (items_text (def_items schema_inputPeerChannel)) = ''inputPeerChannel#27bcb61f channel_id:long access_hash:long = InputPeer;''"
  by (simp add: schema_inputPeerChannel_def text_simps)

lemma text_inputFileLocation: "tl (items_text (def_items schema_inputFileLocation)) = ''inputFileLocation#dfdaabe1 volume_id:long local_id:int secret:long file_reference:bytes = InputFileLocation;''"
  by (simp add: schema_inputFileLocation_def text_simps)

lemma text_inputDocumentFileLocation: "tl (items_text (def_items schema_inputDocumentFileLocation)) = ''inputDocumentFileLocation#bad07284 id:long access_hash:long file_reference:bytes thumb_size:string = InputFileLocation;''"
  by (simp add: schema_inputDocumentFileLocation_def text_simps)

lemma text_fileHash: "tl (items_text (def_items schema_fileHash)) = ''fileHash#6242c773 offset:long limit:int hash:bytes = FileHash;''"
  by (simp add: schema_fileHash_def text_simps)

lemma text_storage_fileUnknown: "tl (items_text (def_items schema_storage_fileUnknown)) = ''storage_fileUnknown#aa963b05 = StorageFileType;''"
  by (simp add: schema_storage_fileUnknown_def text_simps)

lemma text_storage_filePartial: "tl (items_text (def_items schema_storage_filePartial)) = ''storage_filePartial#40bc6f52 = StorageFileType;''"
  by (simp add: schema_storage_filePartial_def text_simps)

lemma text_storage_fileJpeg: "tl (items_text (def_items schema_storage_fileJpeg)) = ''storage_fileJpeg#007efe0e = StorageFileType;''"
  by (simp add: schema_storage_fileJpeg_def text_simps)

lemma text_storage_filePng: "tl (items_text (def_items schema_storage_filePng)) = ''storage_filePng#0a4f63c0 = StorageFileType;''"
  by (simp add: schema_storage_filePng_def text_simps)

lemma text_storage_fileMp4: "tl (items_text (def_items schema_storage_fileMp4)) = ''storage_fileMp4#b3cea0e4 = StorageFileType;''"
  by (simp add: schema_storage_fileMp4_def text_simps)

lemma text_upload_file: "tl (items_text (def_items schema_upload_file)) = ''upload_file#096a18d3 mtime:int bytes:bytes = UploadFile;''"
  by (simp add: schema_upload_file_def text_simps)

lemma text_upload_fileCdnRedirect: "tl (items_text (def_items schema_upload_fileCdnRedirect)) = ''upload_fileCdnRedirect#f18cda44 dc_id:int file_token:bytes encryption_key:bytes encryption_iv:bytes file_hashes:Vector<FileHash> = UploadFile;''"
  by (simp add: schema_upload_fileCdnRedirect_def text_simps)

lemma text_upload_cdnFile: "tl (items_text (def_items schema_upload_cdnFile)) = ''upload_cdnFile#a99fca4f bytes:bytes = UploadCdnFile;''"
  by (simp add: schema_upload_cdnFile_def text_simps)

lemma text_upload_cdnFileReuploadNeeded: "tl (items_text (def_items schema_upload_cdnFileReuploadNeeded)) = ''upload_cdnFileReuploadNeeded#eea8e486 request_token:bytes = UploadCdnFile;''"
  by (simp add: schema_upload_cdnFileReuploadNeeded_def text_simps)

lemma text_req_pq_multi: "tl (items_text (def_items schema_req_pq_multi)) = ''req_pq_multi#be7e8ef1 nonce:int128 = ResPQ;''"
  by (simp add: schema_req_pq_multi_def text_simps)

lemma text_req_DH_params: "tl (items_text (def_items schema_req_DH_params)) = ''req_DH_params#d712e4be nonce:int128 server_nonce:int128 p:string q:string public_key_fingerprint:long encrypted_data:string = Server_DH_Params;''"
  by (simp add: schema_req_DH_params_def text_simps)

lemma text_set_client_DH_params: "tl (items_text (def_items schema_set_client_DH_params)) = ''set_client_DH_params#f5045f1f nonce:int128 server_nonce:int128 encrypted_data:string = Set_client_DH_params_answer;''"
  by (simp add: schema_set_client_DH_params_def text_simps)

lemma text_ping: "tl (items_text (def_items schema_ping)) = ''ping#7abe77ec ping_id:long = Pong;''"
  by (simp add: schema_ping_def text_simps)

lemma text_destroy_session: "tl (items_text (def_items schema_destroy_session)) = ''destroy_session#e7512126 session_id:long = DestroySessionRes;''"
  by (simp add: schema_destroy_session_def text_simps)

lemma text_upload_saveFilePart: "tl (items_text (def_items schema_upload_saveFilePart)) = ''upload_saveFilePart#b304a621 file_id:long file_part:int bytes:bytes = Bool;''"
  by (simp add: schema_upload_saveFilePart_def text_simps)

lemma text_upload_saveBigFilePart: "tl (items_text (def_items schema_upload_saveBigFilePart)) = ''upload_saveBigFilePart#de7b673d file_id:long file_part:int file_total_parts:int bytes:bytes = Bool;''"
  by (simp add: schema_upload_saveBigFilePart_def text_simps)

lemma text_upload_getFile: "tl (items_text (def_items schema_upload_getFile)) = ''upload_getFile#be250529 flags:# precise:flags.0?true cdn_supported:flags.1?true location:InputFileLocation offset:long limit:int = UploadFile;''"
  by (simp add: schema_upload_getFile_def text_simps)

lemma text_upload_getCdnFile: "tl (items_text (def_items schema_upload_getCdnFile)) = ''upload_getCdnFile#20005570 file_token:bytes offset:long limit:int = UploadCdnFile;''"
  by (simp add: schema_upload_getCdnFile_def text_simps)

lemma text_upload_reuploadCdnFile: "tl (items_text (def_items schema_upload_reuploadCdnFile)) = ''upload_reuploadCdnFile#9b2754a8 file_token:bytes request_token:bytes = Vector<FileHash>;''"
  by (simp add: schema_upload_reuploadCdnFile_def text_simps)

lemma text_upload_getCdnFileHashes: "tl (items_text (def_items schema_upload_getCdnFileHashes)) = ''upload_getCdnFileHashes#4e545469 file_token:bytes offset:long = Vector<FileHash>;''"
  by (simp add: schema_upload_getCdnFileHashes_def text_simps)

lemma ok_resPQ: "def_ok False schema_resPQ"
  by (simp add: schema_resPQ_def def_ok_def param_ok_def flag_ok_def result_ok_def text_simps)

lemma ok_p_q_inner_data_dc: "def_ok False schema_p_q_inner_data_dc"
  by (simp add: schema_p_q_inner_data_dc_def def_ok_def param_ok_def flag_ok_def result_ok_def text_simps)

lemma ok_server_DH_params_ok: "def_ok False schema_server_DH_params_ok"
  by (simp add: schema_server_DH_params_ok_def def_ok_def param_ok_def flag_ok_def result_ok_def text_simps)

lemma ok_server_DH_params_fail: "def_ok False schema_server_DH_params_fail"
  by (simp add: schema_server_DH_params_fail_def def_ok_def param_ok_def flag_ok_def result_ok_def text_simps)

lemma ok_server_DH_inner_data: "def_ok False schema_server_DH_inner_data"
  by (simp add: schema_server_DH_inner_data_def def_ok_def param_ok_def flag_ok_def result_ok_def text_simps)

lemma ok_client_DH_inner_data: "def_ok False schema_client_DH_inner_data"
  by (simp add: schema_client_DH_inner_data_def def_ok_def param_ok_def flag_ok_def result_ok_def text_simps)

lemma ok_dh_gen_ok: "def_ok False schema_dh_gen_ok"
  by (simp add: schema_dh_gen_ok_def def_ok_def param_ok_def flag_ok_def result_ok_def text_simps)

lemma ok_dh_gen_retry: "def_ok False schema_dh_gen_retry"
  by (simp add: schema_dh_gen_retry_def def_ok_def param_ok_def flag_ok_def result_ok_def text_simps)

lemma ok_dh_gen_fail: "def_ok False schema_dh_gen_fail"
  by (simp add: schema_dh_gen_fail_def def_ok_def param_ok_def flag_ok_def result_ok_def text_simps)

lemma ok_rpc_error: "def_ok False schema_rpc_error"
  by (simp add: schema_rpc_error_def def_ok_def param_ok_def flag_ok_def result_ok_def text_simps)

lemma ok_msgs_ack: "def_ok False schema_msgs_ack"
  by (simp add: schema_msgs_ack_def def_ok_def param_ok_def flag_ok_def result_ok_def text_simps)

lemma ok_bad_msg_notification: "def_ok False schema_bad_msg_notification"
  by (simp add: schema_bad_msg_notification_def def_ok_def param_ok_def flag_ok_def result_ok_def text_simps)

lemma ok_bad_server_salt: "def_ok False schema_bad_server_salt"
  by (simp add: schema_bad_server_salt_def def_ok_def param_ok_def flag_ok_def result_ok_def text_simps)

lemma ok_new_session_created: "def_ok False schema_new_session_created"
  by (simp add: schema_new_session_created_def def_ok_def param_ok_def flag_ok_def result_ok_def text_simps)

lemma ok_pong: "def_ok False schema_pong"
  by (simp add: schema_pong_def def_ok_def param_ok_def flag_ok_def result_ok_def text_simps)

lemma ok_destroy_session_ok: "def_ok False schema_destroy_session_ok"
  by (simp add: schema_destroy_session_ok_def def_ok_def param_ok_def flag_ok_def result_ok_def text_simps)

lemma ok_destroy_session_none: "def_ok False schema_destroy_session_none"
  by (simp add: schema_destroy_session_none_def def_ok_def param_ok_def flag_ok_def result_ok_def text_simps)

lemma ok_inputFile: "def_ok False schema_inputFile"
  by (simp add: schema_inputFile_def def_ok_def param_ok_def flag_ok_def result_ok_def text_simps)

lemma ok_inputFileBig: "def_ok False schema_inputFileBig"
  by (simp add: schema_inputFileBig_def def_ok_def param_ok_def flag_ok_def result_ok_def text_simps)

lemma ok_inputPeerEmpty: "def_ok False schema_inputPeerEmpty"
  by (simp add: schema_inputPeerEmpty_def def_ok_def param_ok_def flag_ok_def result_ok_def text_simps)

lemma ok_inputPeerSelf: "def_ok False schema_inputPeerSelf"
  by (simp add: schema_inputPeerSelf_def def_ok_def param_ok_def flag_ok_def result_ok_def text_simps)

lemma ok_inputPeerChat: "def_ok False schema_inputPeerChat"
  by (simp add: schema_inputPeerChat_def def_ok_def param_ok_def flag_ok_def result_ok_def text_simps)

lemma ok_inputPeerUser: "def_ok False schema_inputPeerUser"
  by (simp add: schema_inputPeerUser_def def_ok_def param_ok_def flag_ok_def result_ok_def text_simps)

lemma ok_inputPeerChannel: "def_ok False schema_inputPeerChannel"
  by (simp add: schema_inputPeerChannel_def def_ok_def param_ok_def flag_ok_def result_ok_def text_simps)

lemma ok_inputFileLocation: "def_ok False schema_inputFileLocation"
  by (simp add: schema_inputFileLocation_def def_ok_def param_ok_def flag_ok_def result_ok_def text_simps)

lemma ok_inputDocumentFileLocation: "def_ok False schema_inputDocumentFileLocation"
  by (simp add: schema_inputDocumentFileLocation_def def_ok_def param_ok_def flag_ok_def result_ok_def text_simps)

lemma ok_fileHash: "def_ok False schema_fileHash"
  by (simp add: schema_fileHash_def def_ok_def param_ok_def flag_ok_def result_ok_def text_simps)

lemma ok_storage_fileUnknown: "def_ok False schema_storage_fileUnknown"
  by (simp add: schema_storage_fileUnknown_def def_ok_def param_ok_def flag_ok_def result_ok_def text_simps)

lemma ok_storage_filePartial: "def_ok False schema_storage_filePartial"
  by (simp add: schema_storage_filePartial_def def_ok_def param_ok_def flag_ok_def result_ok_def text_simps)

lemma ok_storage_fileJpeg: "def_ok False schema_storage_fileJpeg"
  by (simp add: schema_storage_fileJpeg_def def_ok_def param_ok_def flag_ok_def result_ok_def text_simps)

lemma ok_storage_filePng: "def_ok False schema_storage_filePng"
  by (simp add: schema_storage_filePng_def def_ok_def param_ok_def flag_ok_def result_ok_def text_simps)

lemma ok_storage_fileMp4: "def_ok False schema_storage_fileMp4"
  by (simp add: schema_storage_fileMp4_def def_ok_def param_ok_def flag_ok_def result_ok_def text_simps)

lemma ok_upload_file: "def_ok False schema_upload_file"
  by (simp add: schema_upload_file_def def_ok_def param_ok_def flag_ok_def result_ok_def text_simps)

lemma ok_upload_fileCdnRedirect: "def_ok False schema_upload_fileCdnRedirect"
  by (simp add: schema_upload_fileCdnRedirect_def def_ok_def param_ok_def flag_ok_def result_ok_def text_simps)

lemma ok_upload_cdnFile: "def_ok False schema_upload_cdnFile"
  by (simp add: schema_upload_cdnFile_def def_ok_def param_ok_def flag_ok_def result_ok_def text_simps)

lemma ok_upload_cdnFileReuploadNeeded: "def_ok False schema_upload_cdnFileReuploadNeeded"
  by (simp add: schema_upload_cdnFileReuploadNeeded_def def_ok_def param_ok_def flag_ok_def result_ok_def text_simps)

lemma ok_req_pq_multi: "def_ok True schema_req_pq_multi"
  by (simp add: schema_req_pq_multi_def def_ok_def param_ok_def flag_ok_def result_ok_def text_simps)

lemma ok_req_DH_params: "def_ok True schema_req_DH_params"
  by (simp add: schema_req_DH_params_def def_ok_def param_ok_def flag_ok_def result_ok_def text_simps)

lemma ok_set_client_DH_params: "def_ok True schema_set_client_DH_params"
  by (simp add: schema_set_client_DH_params_def def_ok_def param_ok_def flag_ok_def result_ok_def text_simps)

lemma ok_ping: "def_ok True schema_ping"
  by (simp add: schema_ping_def def_ok_def param_ok_def flag_ok_def result_ok_def text_simps)

lemma ok_destroy_session: "def_ok True schema_destroy_session"
  by (simp add: schema_destroy_session_def def_ok_def param_ok_def flag_ok_def result_ok_def text_simps)

lemma ok_upload_saveFilePart: "def_ok True schema_upload_saveFilePart"
  by (simp add: schema_upload_saveFilePart_def def_ok_def param_ok_def flag_ok_def result_ok_def text_simps)

lemma ok_upload_saveBigFilePart: "def_ok True schema_upload_saveBigFilePart"
  by (simp add: schema_upload_saveBigFilePart_def def_ok_def param_ok_def flag_ok_def result_ok_def text_simps)

lemma ok_upload_getFile: "def_ok True schema_upload_getFile"
  by (simp add: schema_upload_getFile_def def_ok_def param_ok_def flag_ok_def result_ok_def text_simps)

lemma ok_upload_getCdnFile: "def_ok True schema_upload_getCdnFile"
  by (simp add: schema_upload_getCdnFile_def def_ok_def param_ok_def flag_ok_def result_ok_def text_simps)

lemma ok_upload_reuploadCdnFile: "def_ok True schema_upload_reuploadCdnFile"
  by (simp add: schema_upload_reuploadCdnFile_def def_ok_def param_ok_def flag_ok_def result_ok_def text_simps)

lemma ok_upload_getCdnFileHashes: "def_ok True schema_upload_getCdnFileHashes"
  by (simp add: schema_upload_getCdnFileHashes_def def_ok_def param_ok_def flag_ok_def result_ok_def text_simps)

lemmas def_oks = ok_resPQ
  ok_p_q_inner_data_dc
  ok_server_DH_params_ok
  ok_server_DH_params_fail
  ok_server_DH_inner_data
  ok_client_DH_inner_data
  ok_dh_gen_ok
  ok_dh_gen_retry
  ok_dh_gen_fail
  ok_rpc_error
  ok_msgs_ack
  ok_bad_msg_notification
  ok_bad_server_salt
  ok_new_session_created
  ok_pong
  ok_destroy_session_ok
  ok_destroy_session_none
  ok_inputFile
  ok_inputFileBig
  ok_inputPeerEmpty
  ok_inputPeerSelf
  ok_inputPeerChat
  ok_inputPeerUser
  ok_inputPeerChannel
  ok_inputFileLocation
  ok_inputDocumentFileLocation
  ok_fileHash
  ok_storage_fileUnknown
  ok_storage_filePartial
  ok_storage_fileJpeg
  ok_storage_filePng
  ok_storage_fileMp4
  ok_upload_file
  ok_upload_fileCdnRedirect
  ok_upload_cdnFile
  ok_upload_cdnFileReuploadNeeded
  ok_req_pq_multi
  ok_req_DH_params
  ok_set_client_DH_params
  ok_ping
  ok_destroy_session
  ok_upload_saveFilePart
  ok_upload_saveBigFilePart
  ok_upload_getFile
  ok_upload_getCdnFile
  ok_upload_reuploadCdnFile
  ok_upload_getCdnFileHashes

text \<open>The tokens of the text with the white space and the comments in front of them.\<close>

definition spaced_defs_items :: "(string \<times> Definition) list \<Rightarrow> (string \<times> TokenType \<times> string) list" where
  "spaced_defs_items ds = concat (map (\<lambda>(sp, d). respace sp (def_items d)) ds)"

definition core_constructors :: "(string \<times> Definition) list" where
  "core_constructors =
     [([newline] @ ''// Core MTProto 2.0 Service & File Transfer Schema'' @ [newline] @ [newline] @ ''// Auth Key Creation'' @ [newline], schema_resPQ),
      ([newline], schema_p_q_inner_data_dc),
      ([newline], schema_server_DH_params_ok),
      ([newline], schema_server_DH_params_fail),
      ([newline], schema_server_DH_inner_data),
      ([newline], schema_client_DH_inner_data),
      ([newline], schema_dh_gen_ok),
      ([newline], schema_dh_gen_retry),
      ([newline], schema_dh_gen_fail),
      ([newline] @ [newline] @ ''// MTProto Service Messages'' @ [newline], schema_rpc_error),
      ([newline], schema_msgs_ack),
      ([newline], schema_bad_msg_notification),
      ([newline], schema_bad_server_salt),
      ([newline], schema_new_session_created),
      ([newline], schema_pong),
      ([newline], schema_destroy_session_ok),
      ([newline], schema_destroy_session_none),
      ([newline] @ [newline] @ ''// File Upload & Download Core'' @ [newline], schema_inputFile),
      ([newline], schema_inputFileBig),
      ([newline], schema_inputPeerEmpty),
      ([newline], schema_inputPeerSelf),
      ([newline], schema_inputPeerChat),
      ([newline], schema_inputPeerUser),
      ([newline], schema_inputPeerChannel),
      ([newline] @ [newline], schema_inputFileLocation),
      ([newline], schema_inputDocumentFileLocation),
      ([newline] @ [newline], schema_fileHash),
      ([newline] @ [newline], schema_storage_fileUnknown),
      ([newline], schema_storage_filePartial),
      ([newline], schema_storage_fileJpeg),
      ([newline], schema_storage_filePng),
      ([newline], schema_storage_fileMp4),
      ([newline] @ [newline], schema_upload_file),
      ([newline], schema_upload_fileCdnRedirect),
      ([newline], schema_upload_cdnFile),
      ([newline], schema_upload_cdnFileReuploadNeeded)]"

definition core_functions :: "(string \<times> Definition) list" where
  "core_functions =
     [([newline] @ [newline], schema_req_pq_multi),
      ([newline], schema_req_DH_params),
      ([newline], schema_set_client_DH_params),
      ([newline], schema_ping),
      ([newline], schema_destroy_session),
      ([newline] @ [newline], schema_upload_saveFilePart),
      ([newline], schema_upload_saveBigFilePart),
      ([newline], schema_upload_getFile),
      ([newline], schema_upload_getCdnFile),
      ([newline], schema_upload_reuploadCdnFile),
      ([newline], schema_upload_getCdnFileHashes)]"

definition core_items :: "(string \<times> TokenType \<times> string) list" where
  "core_items = spaced_defs_items core_constructors @ ([newline] @ [newline], TokenSectionFunctions, ''functions'') #
     spaced_defs_items core_functions"

lemma spaced_items:
  assumes "list_all (\<lambda>(sp, d). blank sp \<and> sp \<noteq> [] \<and> hd sp = newline \<and> def_ok fn d) ds" "breaks r"
  shows "spaced (spaced_defs_items ds) r \<and> breaks (items_text (spaced_defs_items ds) @ r)"
  using assms
proof (induction ds)
  case (Cons x ds)
  obtain sp d where x: "x = (sp, d)" by (cases x) auto
  have "breaks (sp @ rest)" for rest using Cons.prems x by (cases sp) (auto simp: breaks_def)
  then show ?case
    using Cons x spaced_respace [OF spaced_def [of fn d "items_text (spaced_defs_items ds) @ r"]]
    by (auto simp: spaced_defs_items_def respace_text)
qed (simp add: spaced_defs_items_def)

lemmas schema_defs = schema_resPQ_def
  schema_p_q_inner_data_dc_def
  schema_server_DH_params_ok_def
  schema_server_DH_params_fail_def
  schema_server_DH_inner_data_def
  schema_client_DH_inner_data_def
  schema_dh_gen_ok_def
  schema_dh_gen_retry_def
  schema_dh_gen_fail_def
  schema_rpc_error_def
  schema_msgs_ack_def
  schema_bad_msg_notification_def
  schema_bad_server_salt_def
  schema_new_session_created_def
  schema_pong_def
  schema_destroy_session_ok_def
  schema_destroy_session_none_def
  schema_inputFile_def
  schema_inputFileBig_def
  schema_inputPeerEmpty_def
  schema_inputPeerSelf_def
  schema_inputPeerChat_def
  schema_inputPeerUser_def
  schema_inputPeerChannel_def
  schema_inputFileLocation_def
  schema_inputDocumentFileLocation_def
  schema_fileHash_def
  schema_storage_fileUnknown_def
  schema_storage_filePartial_def
  schema_storage_fileJpeg_def
  schema_storage_filePng_def
  schema_storage_fileMp4_def
  schema_upload_file_def
  schema_upload_fileCdnRedirect_def
  schema_upload_cdnFile_def
  schema_upload_cdnFileReuploadNeeded_def
  schema_req_pq_multi_def
  schema_req_DH_params_def
  schema_set_client_DH_params_def
  schema_ping_def
  schema_destroy_session_def
  schema_upload_saveFilePart_def
  schema_upload_saveBigFilePart_def
  schema_upload_getFile_def
  schema_upload_getCdnFile_def
  schema_upload_reuploadCdnFile_def
  schema_upload_getCdnFileHashes_def

lemma core_tokens: "map snd core_items = map snd (schema_items core_schema)"
  by (simp add: core_items_def core_constructors_def core_functions_def spaced_defs_items_def schema_items_def core_schema_def)

lemma core_text: "coreSchema = items_text core_items @ [newline]"
  unfolding coreSchema_def core_lines_def core_items_def core_constructors_def core_functions_def
  by (simp only: spaced_defs_items_def prod.case items_text_append items_text.simps respace_text list.map concat.simps append_assoc append_Nil append_Nil2
      section_text text_resPQ
      text_p_q_inner_data_dc
      text_server_DH_params_ok
      text_server_DH_params_fail
      text_server_DH_inner_data
      text_client_DH_inner_data
      text_dh_gen_ok
      text_dh_gen_retry
      text_dh_gen_fail
      text_rpc_error
      text_msgs_ack
      text_bad_msg_notification
      text_bad_server_salt
      text_new_session_created
      text_pong
      text_destroy_session_ok
      text_destroy_session_none
      text_inputFile
      text_inputFileBig
      text_inputPeerEmpty
      text_inputPeerSelf
      text_inputPeerChat
      text_inputPeerUser
      text_inputPeerChannel
      text_inputFileLocation
      text_inputDocumentFileLocation
      text_fileHash
      text_storage_fileUnknown
      text_storage_filePartial
      text_storage_fileJpeg
      text_storage_filePng
      text_storage_fileMp4
      text_upload_file
      text_upload_fileCdnRedirect
      text_upload_cdnFile
      text_upload_cdnFileReuploadNeeded
      text_req_pq_multi
      text_req_DH_params
      text_set_client_DH_params
      text_ping
      text_destroy_session
      text_upload_saveFilePart
      text_upload_saveBigFilePart
      text_upload_getFile
      text_upload_getCdnFile
      text_upload_reuploadCdnFile
      text_upload_getCdnFileHashes)

lemma core_ok: "schema_ok core_schema"
  unfolding schema_ok_def core_schema_def by (simp add: def_oks)

lemma core_spaced: "spaced core_items [newline]"
proof -
  have "list_all (\<lambda>(sp, d). blank sp \<and> sp \<noteq> [] \<and> hd sp = newline \<and> def_ok True d) core_functions"
    by (simp add: core_functions_def def_oks IsSpace_def)
  from spaced_items [OF this, of "[newline]"]
  have f: "spaced (spaced_defs_items core_functions) [newline]"
    "breaks (items_text (spaced_defs_items core_functions) @ [newline])" by simp_all
  have "list_all (\<lambda>(sp, d). blank sp \<and> sp \<noteq> [] \<and> hd sp = newline \<and> def_ok False d) core_constructors"
    by (simp add: core_constructors_def def_oks IsSpace_def)
  from spaced_items [OF this] f show ?thesis
    using breaks_ends(3) [OF f(2)] by (simp add: core_items_def section_text)
qed

section \<open>Properties\<close>

text \<open>
  C14. The schema text of the script, with its comments and sections, is read by the parser without an error, as exactly
  the definitions of \<open>core_schema\<close>, so \<^verbatim>\<open>main\<close> never stops at \<^verbatim>\<open>Parse error\<close>.
\<close>
theorem core_schema_parsed:
  "Parse coreSchema = Inr core_schema \<and> (\<forall>err. generate_main format_Source keys write \<noteq> ParseFatal err)"
proof -
  have "Parse coreSchema = Inr core_schema"
  proof (rule parse_tokens [OF core_ok])
    have "rest_of (NewLexer coreSchema) = items_text core_items @ [newline]" by (simp add: NewLexer_def core_text)
    from lexes_items [OF this core_spaced] show "lexes (NewLexer coreSchema) (map snd (schema_items core_schema))"
      by (simp add: core_tokens)
  qed
  then show ?thesis by (simp add: generate_main_def split: prod.split option.split)
qed

end
