(* ===== verification/Schema_Match.thy ===== *)
theory Schema_Match
  imports Core_Schema Generated_Auth Generated_Service Generated_Files
begin

text \<open>
  What TL prescribes for a definition of a schema, as a reference encoder that is driven by the definition, and the
  generated types against it: every \<^verbatim>\<open>Encode\<close> of \<^verbatim>\<open>tl/generated/core.go\<close> writes what the schema of
  \<^verbatim>\<open>scripts/generate.go\<close>, as the parser reads it, prescribes for the fields.
\<close>

section \<open>The reference encoder\<close>

text \<open>
  The values of parameters.  A boxed value is given by its bytes, an optional parameter of type \<open>true\<close> by its presence, and
  the flags have no value of their own.
\<close>

datatype tl_value =
    VInt int32 | VLong int64 | VStr string | VBytes bytes | V128 bytes | V256 bytes
  | VVector "tl_value list" | VBoxed bytes | VTrue bool | VFlags

text \<open>The bytes begin with the number of a constructor of the type.\<close>

definition boxed_of :: "Schema \<Rightarrow> string \<Rightarrow> bytes \<Rightarrow> bool" where
  "boxed_of s t bs \<longleftrightarrow> list_ex (\<lambda>c. df_ResultType c = t \<and> take 4 bs = le_put 4 (df_ID c)) (Constructors s)"

definition value_bytes :: "Schema \<Rightarrow> string \<Rightarrow> tl_value \<Rightarrow> bytes option" where
  "value_bytes s t v =
     (case v of
        VInt w \<Rightarrow> if t = ''int'' then Some (le_put 4 w) else None
      | VLong w \<Rightarrow> if t = ''long'' then Some (le_put 8 w) else None
      | VStr cs \<Rightarrow> if t = ''string'' then Some (tl_bytes (string_bytes cs)) else None
      | VBytes bs \<Rightarrow> if t = ''bytes'' then Some (tl_bytes bs) else None
      | V128 bs \<Rightarrow> if t = ''int128'' then Some bs else None
      | V256 bs \<Rightarrow> if t = ''int256'' then Some bs else None
      | VBoxed bs \<Rightarrow> if boxed_of s t bs then Some bs else None
      | _ \<Rightarrow> None)"

text \<open>The bit of every optional parameter that is present.\<close>

definition flags_word :: "Param list \<Rightarrow> tl_value list \<Rightarrow> uint32" where
  "flags_word ps vs =
     fold (OR) (map (\<lambda>(p, v). case pm_Flag p of
         Some f \<Rightarrow> if v = VTrue False then 0 else push_bit (nat (fc_Bit f)) 1
       | None \<Rightarrow> 0) (zip ps vs)) 0"

definition param_bytes :: "Schema \<Rightarrow> uint32 \<Rightarrow> Param \<Rightarrow> tl_value \<Rightarrow> bytes option" where
  "param_bytes s flags p v =
     (if pm_Type p = ''#'' then (if v = VFlags then Some (le_put 4 flags) else None)
      else if pm_Flag p \<noteq> None then
        (case v of VTrue _ \<Rightarrow> if pm_Type p = ''true'' then Some [] else None | _ \<Rightarrow> None)
      else if pm_IsVector p then
        (case v of
           VVector vs \<Rightarrow>
             map_option (\<lambda>bss. le_put 4 (0x1cb5c415 :: uint32) @ le_put 4 (of_nat (length vs) :: uint32) @ concat bss)
               (those (map (value_bytes s (pm_ElemType p)) vs))
         | _ \<Rightarrow> None)
      else value_bytes s (pm_Type p) v)"

text \<open>\<open>None\<close> when the values are not those of the parameters.\<close>

definition schema_bytes :: "Schema \<Rightarrow> Definition \<Rightarrow> tl_value list \<Rightarrow> bytes option" where
  "schema_bytes s d vs =
     (if length vs = length (df_Params d) then
        map_option (\<lambda>bss. le_put 4 (df_ID d) @ concat bss)
          (those (map2 (param_bytes s (flags_word (df_Params d) vs)) (df_Params d) vs))
      else None)"

section \<open>The generated types against it\<close>

lemma those_Some: "those (map (\<lambda>x. Some (f x)) xs) = Some (map f xs)"
  by (induction xs) simp_all

lemma value_bytes_basic [simp]:
  "value_bytes s ''int'' (VInt w) = Some (le_put 4 w)" "value_bytes s ''long'' (VLong x) = Some (le_put 8 x)"
  "value_bytes s ''string'' (VStr cs) = Some (tl_bytes (string_bytes cs))"
  "value_bytes s ''bytes'' (VBytes bs) = Some (tl_bytes bs)"
  "value_bytes s ''int128'' (V128 bs) = Some bs" "value_bytes s ''int256'' (V256 bs) = Some bs"
  by (simp_all add: value_bytes_def)

lemma file_hash_boxed:
  "value_bytes core_schema ''FileHash'' (VBoxed (Encoder_Bytes (FileHash_Encode h Encoder_New))) = Some (FileHash_wire h)"
proof -
  have "take 4 (FileHash_wire h) = le_put 4 (0x6242c773 :: uint32)" by (simp add: FileHash_wire_def)
  then have "boxed_of core_schema ''FileHash'' (FileHash_wire h)"
    by (simp add: boxed_of_def core_schema_def schema_fileHash_def)
  then show ?thesis by (simp add: value_bytes_def FileHash.put_wire)
qed

lemma location_boxed:
  "value_bytes core_schema ''InputFileLocation'' (VBoxed (Encoder_Bytes (InputFileLocationClass_Encode l Encoder_New))) =
     Some (InputFileLocationClass_wire l)"
proof -
  have "take 4 (InputFileLocationClass_wire l) = le_put 4 (0xdfdaabe1 :: uint32) \<or>
      take 4 (InputFileLocationClass_wire l) = le_put 4 (0xbad07284 :: uint32)"
    by (cases l) (simp_all add: InputFileLocation_wire_def InputDocumentFileLocation_wire_def)
  then have "boxed_of core_schema ''InputFileLocation'' (InputFileLocationClass_wire l)"
    by (auto simp: boxed_of_def core_schema_def schema_inputFileLocation_def schema_inputDocumentFileLocation_def)
  then show ?thesis by (simp add: value_bytes_def InputFileLocationClass.put_wire)
qed

lemmas match_simps = schema_bytes_def param_bytes_def field_def vector_def flagged_def vector_of_def tl_vector_def
  CRCVector_def those_Some o_def flags_word_def

lemma match_ResPQ:
  "schema_bytes core_schema schema_resPQ [V128 (ResPQ_Nonce v),
      V128 (ResPQ_ServerNonce v),
      VStr (ResPQ_Pq v),
      VVector (map VLong (ResPQ_ServerPublicKeyFingerprints v))] =
     Some (Encoder_Bytes (ResPQ_Encode v Encoder_New))"
  by (simp add: match_simps schema_resPQ_def ResPQ_wire_def ResPQ.put_wire)

lemma match_PQInnerDataDc:
  "schema_bytes core_schema schema_p_q_inner_data_dc [VStr (PQInnerDataDc_Pq v),
      VStr (PQInnerDataDc_P v),
      VStr (PQInnerDataDc_Q v),
      V128 (PQInnerDataDc_Nonce v),
      V128 (PQInnerDataDc_ServerNonce v),
      V256 (PQInnerDataDc_NewNonce v),
      VInt (PQInnerDataDc_Dc v)] =
     Some (Encoder_Bytes (PQInnerDataDc_Encode v Encoder_New))"
  by (simp add: match_simps schema_p_q_inner_data_dc_def PQInnerDataDc_wire_def PQInnerDataDc.put_wire)

lemma match_ServerDHParamsOk:
  "schema_bytes core_schema schema_server_DH_params_ok [V128 (ServerDHParamsOk_Nonce v),
      V128 (ServerDHParamsOk_ServerNonce v),
      VStr (ServerDHParamsOk_EncryptedAnswer v)] =
     Some (Encoder_Bytes (ServerDHParamsOk_Encode v Encoder_New))"
  by (simp add: match_simps schema_server_DH_params_ok_def ServerDHParamsOk_wire_def ServerDHParamsOk.put_wire)

lemma match_ServerDHParamsFail:
  "schema_bytes core_schema schema_server_DH_params_fail [V128 (ServerDHParamsFail_Nonce v),
      V128 (ServerDHParamsFail_ServerNonce v),
      V128 (ServerDHParamsFail_NewNonceHash v)] =
     Some (Encoder_Bytes (ServerDHParamsFail_Encode v Encoder_New))"
  by (simp add: match_simps schema_server_DH_params_fail_def ServerDHParamsFail_wire_def ServerDHParamsFail.put_wire)

lemma match_ServerDHInnerData:
  "schema_bytes core_schema schema_server_DH_inner_data [V128 (ServerDHInnerData_Nonce v),
      V128 (ServerDHInnerData_ServerNonce v),
      VInt (ServerDHInnerData_G v),
      VStr (ServerDHInnerData_DhPrime v),
      VStr (ServerDHInnerData_GA v),
      VInt (ServerDHInnerData_ServerTime v)] =
     Some (Encoder_Bytes (ServerDHInnerData_Encode v Encoder_New))"
  by (simp add: match_simps schema_server_DH_inner_data_def ServerDHInnerData_wire_def ServerDHInnerData.put_wire)

lemma match_ClientDHInnerData:
  "schema_bytes core_schema schema_client_DH_inner_data [V128 (ClientDHInnerData_Nonce v),
      V128 (ClientDHInnerData_ServerNonce v),
      VLong (ClientDHInnerData_RetryId v),
      VStr (ClientDHInnerData_GB v)] =
     Some (Encoder_Bytes (ClientDHInnerData_Encode v Encoder_New))"
  by (simp add: match_simps schema_client_DH_inner_data_def ClientDHInnerData_wire_def ClientDHInnerData.put_wire)

lemma match_DhGenOk:
  "schema_bytes core_schema schema_dh_gen_ok [V128 (DhGenOk_Nonce v),
      V128 (DhGenOk_ServerNonce v),
      V128 (DhGenOk_NewNonceHash1 v)] =
     Some (Encoder_Bytes (DhGenOk_Encode v Encoder_New))"
  by (simp add: match_simps schema_dh_gen_ok_def DhGenOk_wire_def DhGenOk.put_wire)

lemma match_DhGenRetry:
  "schema_bytes core_schema schema_dh_gen_retry [V128 (DhGenRetry_Nonce v),
      V128 (DhGenRetry_ServerNonce v),
      V128 (DhGenRetry_NewNonceHash2 v)] =
     Some (Encoder_Bytes (DhGenRetry_Encode v Encoder_New))"
  by (simp add: match_simps schema_dh_gen_retry_def DhGenRetry_wire_def DhGenRetry.put_wire)

lemma match_DhGenFail:
  "schema_bytes core_schema schema_dh_gen_fail [V128 (DhGenFail_Nonce v),
      V128 (DhGenFail_ServerNonce v),
      V128 (DhGenFail_NewNonceHash3 v)] =
     Some (Encoder_Bytes (DhGenFail_Encode v Encoder_New))"
  by (simp add: match_simps schema_dh_gen_fail_def DhGenFail_wire_def DhGenFail.put_wire)

lemma match_RpcError:
  "schema_bytes core_schema schema_rpc_error [VInt (RpcError_ErrorCode v),
      VStr (RpcError_ErrorMessage v)] =
     Some (Encoder_Bytes (RpcError_Encode v Encoder_New))"
  by (simp add: match_simps schema_rpc_error_def RpcError_wire_def RpcError.put_wire)

lemma match_MsgsAck:
  "schema_bytes core_schema schema_msgs_ack [VVector (map VLong (MsgsAck_MsgIds v))] =
     Some (Encoder_Bytes (MsgsAck_Encode v Encoder_New))"
  by (simp add: match_simps schema_msgs_ack_def MsgsAck_wire_def MsgsAck.put_wire)

lemma match_BadMsgNotification:
  "schema_bytes core_schema schema_bad_msg_notification [VLong (BadMsgNotification_BadMsgId v),
      VInt (BadMsgNotification_BadMsgSeqno v),
      VInt (BadMsgNotification_ErrorCode v)] =
     Some (Encoder_Bytes (BadMsgNotification_Encode v Encoder_New))"
  by (simp add: match_simps schema_bad_msg_notification_def BadMsgNotification_wire_def BadMsgNotification.put_wire)

lemma match_BadServerSalt:
  "schema_bytes core_schema schema_bad_server_salt [VLong (BadServerSalt_BadMsgId v),
      VInt (BadServerSalt_BadMsgSeqno v),
      VInt (BadServerSalt_ErrorCode v),
      VLong (BadServerSalt_NewServerSalt v)] =
     Some (Encoder_Bytes (BadServerSalt_Encode v Encoder_New))"
  by (simp add: match_simps schema_bad_server_salt_def BadServerSalt_wire_def BadServerSalt.put_wire)

lemma match_NewSessionCreated:
  "schema_bytes core_schema schema_new_session_created [VLong (NewSessionCreated_FirstMsgId v),
      VLong (NewSessionCreated_UniqueId v),
      VLong (NewSessionCreated_ServerSalt v)] =
     Some (Encoder_Bytes (NewSessionCreated_Encode v Encoder_New))"
  by (simp add: match_simps schema_new_session_created_def NewSessionCreated_wire_def NewSessionCreated.put_wire)

lemma match_Pong:
  "schema_bytes core_schema schema_pong [VLong (Pong_MsgId v),
      VLong (Pong_PingId v)] =
     Some (Encoder_Bytes (Pong_Encode v Encoder_New))"
  by (simp add: match_simps schema_pong_def Pong_wire_def Pong.put_wire)

lemma match_DestroySessionOk:
  "schema_bytes core_schema schema_destroy_session_ok [VLong (DestroySessionOk_SessionId v)] =
     Some (Encoder_Bytes (DestroySessionOk_Encode v Encoder_New))"
  by (simp add: match_simps schema_destroy_session_ok_def DestroySessionOk_wire_def DestroySessionOk.put_wire)

lemma match_DestroySessionNone:
  "schema_bytes core_schema schema_destroy_session_none [VLong (DestroySessionNone_SessionId v)] =
     Some (Encoder_Bytes (DestroySessionNone_Encode v Encoder_New))"
  by (simp add: match_simps schema_destroy_session_none_def DestroySessionNone_wire_def DestroySessionNone.put_wire)

lemma match_InputFile:
  "schema_bytes core_schema schema_inputFile [VLong (InputFile_Id v),
      VInt (InputFile_Parts v),
      VStr (InputFile_Name v),
      VStr (InputFile_Md5Checksum v)] =
     Some (Encoder_Bytes (InputFile_Encode v Encoder_New))"
  by (simp add: match_simps schema_inputFile_def InputFile_wire_def InputFile.put_wire)

lemma match_InputFileBig:
  "schema_bytes core_schema schema_inputFileBig [VLong (InputFileBig_Id v),
      VInt (InputFileBig_Parts v),
      VStr (InputFileBig_Name v)] =
     Some (Encoder_Bytes (InputFileBig_Encode v Encoder_New))"
  by (simp add: match_simps schema_inputFileBig_def InputFileBig_wire_def InputFileBig.put_wire)

lemma match_InputPeerEmpty:
  "schema_bytes core_schema schema_inputPeerEmpty [] =
     Some (Encoder_Bytes (InputPeerEmpty_Encode v Encoder_New))"
  by (simp add: match_simps schema_inputPeerEmpty_def InputPeerEmpty_wire_def InputPeerEmpty.put_wire)

lemma match_InputPeerSelf:
  "schema_bytes core_schema schema_inputPeerSelf [] =
     Some (Encoder_Bytes (InputPeerSelf_Encode v Encoder_New))"
  by (simp add: match_simps schema_inputPeerSelf_def InputPeerSelf_wire_def InputPeerSelf.put_wire)

lemma match_InputPeerChat:
  "schema_bytes core_schema schema_inputPeerChat [VLong (InputPeerChat_ChatId v)] =
     Some (Encoder_Bytes (InputPeerChat_Encode v Encoder_New))"
  by (simp add: match_simps schema_inputPeerChat_def InputPeerChat_wire_def InputPeerChat.put_wire)

lemma match_InputPeerUser:
  "schema_bytes core_schema schema_inputPeerUser [VLong (InputPeerUser_UserId v),
      VLong (InputPeerUser_AccessHash v)] =
     Some (Encoder_Bytes (InputPeerUser_Encode v Encoder_New))"
  by (simp add: match_simps schema_inputPeerUser_def InputPeerUser_wire_def InputPeerUser.put_wire)

lemma match_InputPeerChannel:
  "schema_bytes core_schema schema_inputPeerChannel [VLong (InputPeerChannel_ChannelId v),
      VLong (InputPeerChannel_AccessHash v)] =
     Some (Encoder_Bytes (InputPeerChannel_Encode v Encoder_New))"
  by (simp add: match_simps schema_inputPeerChannel_def InputPeerChannel_wire_def InputPeerChannel.put_wire)

lemma match_InputFileLocation:
  "schema_bytes core_schema schema_inputFileLocation [VLong (InputFileLocation_VolumeId v),
      VInt (InputFileLocation_LocalId v),
      VLong (InputFileLocation_Secret v),
      VBytes (InputFileLocation_FileReference v)] =
     Some (Encoder_Bytes (InputFileLocation_Encode v Encoder_New))"
  by (simp add: match_simps schema_inputFileLocation_def InputFileLocation_wire_def InputFileLocation.put_wire)

lemma match_InputDocumentFileLocation:
  "schema_bytes core_schema schema_inputDocumentFileLocation [VLong (InputDocumentFileLocation_Id v),
      VLong (InputDocumentFileLocation_AccessHash v),
      VBytes (InputDocumentFileLocation_FileReference v),
      VStr (InputDocumentFileLocation_ThumbSize v)] =
     Some (Encoder_Bytes (InputDocumentFileLocation_Encode v Encoder_New))"
  by (simp add: match_simps schema_inputDocumentFileLocation_def InputDocumentFileLocation_wire_def InputDocumentFileLocation.put_wire)

lemma match_FileHash:
  "schema_bytes core_schema schema_fileHash [VLong (FileHash_Offset v),
      VInt (FileHash_Limit v),
      VBytes (FileHash_Hash v)] =
     Some (Encoder_Bytes (FileHash_Encode v Encoder_New))"
  by (simp add: match_simps schema_fileHash_def FileHash_wire_def FileHash.put_wire)

lemma match_StorageFileUnknown:
  "schema_bytes core_schema schema_storage_fileUnknown [] =
     Some (Encoder_Bytes (StorageFileUnknown_Encode v Encoder_New))"
  by (simp add: match_simps schema_storage_fileUnknown_def StorageFileUnknown_wire_def StorageFileUnknown.put_wire)

lemma match_StorageFilePartial:
  "schema_bytes core_schema schema_storage_filePartial [] =
     Some (Encoder_Bytes (StorageFilePartial_Encode v Encoder_New))"
  by (simp add: match_simps schema_storage_filePartial_def StorageFilePartial_wire_def StorageFilePartial.put_wire)

lemma match_StorageFileJpeg:
  "schema_bytes core_schema schema_storage_fileJpeg [] =
     Some (Encoder_Bytes (StorageFileJpeg_Encode v Encoder_New))"
  by (simp add: match_simps schema_storage_fileJpeg_def StorageFileJpeg_wire_def StorageFileJpeg.put_wire)

lemma match_StorageFilePng:
  "schema_bytes core_schema schema_storage_filePng [] =
     Some (Encoder_Bytes (StorageFilePng_Encode v Encoder_New))"
  by (simp add: match_simps schema_storage_filePng_def StorageFilePng_wire_def StorageFilePng.put_wire)

lemma match_StorageFileMp4:
  "schema_bytes core_schema schema_storage_fileMp4 [] =
     Some (Encoder_Bytes (StorageFileMp4_Encode v Encoder_New))"
  by (simp add: match_simps schema_storage_fileMp4_def StorageFileMp4_wire_def StorageFileMp4.put_wire)

lemma match_UploadFile:
  "schema_bytes core_schema schema_upload_file [VInt (UploadFile_Mtime v),
      VBytes (UploadFile_Bytes v)] =
     Some (Encoder_Bytes (UploadFile_Encode v Encoder_New))"
  by (simp add: match_simps schema_upload_file_def UploadFile_wire_def UploadFile.put_wire)

lemma match_UploadFileCdnRedirect:
  "schema_bytes core_schema schema_upload_fileCdnRedirect [VInt (UploadFileCdnRedirect_DcId v),
      VBytes (UploadFileCdnRedirect_FileToken v),
      VBytes (UploadFileCdnRedirect_EncryptionKey v),
      VBytes (UploadFileCdnRedirect_EncryptionIv v),
      VVector (map (\<lambda>h. VBoxed (Encoder_Bytes (FileHash_Encode h Encoder_New))) (UploadFileCdnRedirect_FileHashes v))] =
     Some (Encoder_Bytes (UploadFileCdnRedirect_Encode v Encoder_New))"
  by (simp add: match_simps schema_upload_fileCdnRedirect_def UploadFileCdnRedirect_wire_def UploadFileCdnRedirect.put_wire file_hash_boxed)

lemma match_UploadCdnFile:
  "schema_bytes core_schema schema_upload_cdnFile [VBytes (UploadCdnFile_Bytes v)] =
     Some (Encoder_Bytes (UploadCdnFile_Encode v Encoder_New))"
  by (simp add: match_simps schema_upload_cdnFile_def UploadCdnFile_wire_def UploadCdnFile.put_wire)

lemma match_UploadCdnFileReuploadNeeded:
  "schema_bytes core_schema schema_upload_cdnFileReuploadNeeded [VBytes (UploadCdnFileReuploadNeeded_RequestToken v)] =
     Some (Encoder_Bytes (UploadCdnFileReuploadNeeded_Encode v Encoder_New))"
  by (simp add: match_simps schema_upload_cdnFileReuploadNeeded_def UploadCdnFileReuploadNeeded_wire_def UploadCdnFileReuploadNeeded.put_wire)

lemma match_ReqPqMulti:
  "schema_bytes core_schema schema_req_pq_multi [V128 (ReqPqMulti_Nonce v)] =
     Some (Encoder_Bytes (ReqPqMulti_Encode v Encoder_New))"
  by (simp add: match_simps schema_req_pq_multi_def ReqPqMulti_wire_def ReqPqMulti.put_wire)

lemma match_ReqDHParams:
  "schema_bytes core_schema schema_req_DH_params [V128 (ReqDHParams_Nonce v),
      V128 (ReqDHParams_ServerNonce v),
      VStr (ReqDHParams_P v),
      VStr (ReqDHParams_Q v),
      VLong (ReqDHParams_PublicKeyFingerprint v),
      VStr (ReqDHParams_EncryptedData v)] =
     Some (Encoder_Bytes (ReqDHParams_Encode v Encoder_New))"
  by (simp add: match_simps schema_req_DH_params_def ReqDHParams_wire_def ReqDHParams.put_wire)

lemma match_SetClientDHParams:
  "schema_bytes core_schema schema_set_client_DH_params [V128 (SetClientDHParams_Nonce v),
      V128 (SetClientDHParams_ServerNonce v),
      VStr (SetClientDHParams_EncryptedData v)] =
     Some (Encoder_Bytes (SetClientDHParams_Encode v Encoder_New))"
  by (simp add: match_simps schema_set_client_DH_params_def SetClientDHParams_wire_def SetClientDHParams.put_wire)

lemma match_Ping:
  "schema_bytes core_schema schema_ping [VLong (Ping_PingId v)] =
     Some (Encoder_Bytes (Ping_Encode v Encoder_New))"
  by (simp add: match_simps schema_ping_def Ping_wire_def Ping.put_wire)

lemma match_DestroySession:
  "schema_bytes core_schema schema_destroy_session [VLong (DestroySession_SessionId v)] =
     Some (Encoder_Bytes (DestroySession_Encode v Encoder_New))"
  by (simp add: match_simps schema_destroy_session_def DestroySession_wire_def DestroySession.put_wire)

lemma match_UploadSaveFilePart:
  "schema_bytes core_schema schema_upload_saveFilePart [VLong (UploadSaveFilePart_FileId v),
      VInt (UploadSaveFilePart_FilePart v),
      VBytes (UploadSaveFilePart_Bytes v)] =
     Some (Encoder_Bytes (UploadSaveFilePart_Encode v Encoder_New))"
  by (simp add: match_simps schema_upload_saveFilePart_def UploadSaveFilePart_wire_def UploadSaveFilePart.put_wire)

lemma match_UploadSaveBigFilePart:
  "schema_bytes core_schema schema_upload_saveBigFilePart [VLong (UploadSaveBigFilePart_FileId v),
      VInt (UploadSaveBigFilePart_FilePart v),
      VInt (UploadSaveBigFilePart_FileTotalParts v),
      VBytes (UploadSaveBigFilePart_Bytes v)] =
     Some (Encoder_Bytes (UploadSaveBigFilePart_Encode v Encoder_New))"
  by (simp add: match_simps schema_upload_saveBigFilePart_def UploadSaveBigFilePart_wire_def UploadSaveBigFilePart.put_wire)

lemma match_UploadGetFile:
  "schema_bytes core_schema schema_upload_getFile [VFlags,
      VTrue (UploadGetFile_Precise v),
      VTrue (UploadGetFile_CdnSupported v),
      VBoxed (Encoder_Bytes (InputFileLocationClass_Encode (UploadGetFile_Location v) Encoder_New)),
      VLong (UploadGetFile_Offset v),
      VInt (UploadGetFile_Limit v)] =
     Some (Encoder_Bytes (snd (UploadGetFile_Encode (v\<lparr>UploadGetFile_Flags := 0\<rparr>) Encoder_New)))"
  by (simp add: match_simps schema_upload_getFile_def UploadGetFile_wire_def UploadGetFile_Encode_eq UploadGetFile_flags_def location_boxed)

text \<open>Any other flag bit, left from an earlier \<^verbatim>\<open>Encode\<close> or set by hand, makes the bytes differ.\<close>

lemma le_put_4_inject: "le_put 4 (a :: uint32) = le_put 4 b \<longleftrightarrow> a = b"
proof
  assume "le_put 4 a = le_put 4 b"
  then have "(le_get (le_put 4 a) :: uint32) = le_get (le_put 4 b)" by simp
  then show "a = b" by simp
qed simp

definition UploadGetFile_needed :: "UploadGetFile \<Rightarrow> uint32" where
  "UploadGetFile_needed v = (if UploadGetFile_Precise v then 1 else 0) OR (if UploadGetFile_CdnSupported v then 2 else 0)"

lemma match_UploadGetFile_iff:
  "schema_bytes core_schema schema_upload_getFile [VFlags,
      VTrue (UploadGetFile_Precise v),
      VTrue (UploadGetFile_CdnSupported v),
      VBoxed (Encoder_Bytes (InputFileLocationClass_Encode (UploadGetFile_Location v) Encoder_New)),
      VLong (UploadGetFile_Offset v),
      VInt (UploadGetFile_Limit v)] =
     Some (Encoder_Bytes (snd (UploadGetFile_Encode v Encoder_New))) \<longleftrightarrow>
   UploadGetFile_Flags v OR UploadGetFile_needed v = UploadGetFile_needed v"
proof -
  have flags: "UploadGetFile_flags v = UploadGetFile_Flags v OR UploadGetFile_needed v"
    "UploadGetFile_flags (v\<lparr>UploadGetFile_Flags := 0\<rparr>) = UploadGetFile_needed v"
    by (simp_all add: UploadGetFile_flags_def UploadGetFile_needed_def or.assoc)
  show ?thesis
    unfolding match_UploadGetFile
    by (simp add: UploadGetFile_Encode_eq UploadGetFile_wire_def flags le_put_4_inject eq_commute)
qed

lemma match_UploadGetCdnFile:
  "schema_bytes core_schema schema_upload_getCdnFile [VBytes (UploadGetCdnFile_FileToken v),
      VLong (UploadGetCdnFile_Offset v),
      VInt (UploadGetCdnFile_Limit v)] =
     Some (Encoder_Bytes (UploadGetCdnFile_Encode v Encoder_New))"
  by (simp add: match_simps schema_upload_getCdnFile_def UploadGetCdnFile_wire_def UploadGetCdnFile.put_wire)

lemma match_UploadReuploadCdnFile:
  "schema_bytes core_schema schema_upload_reuploadCdnFile [VBytes (UploadReuploadCdnFile_FileToken v),
      VBytes (UploadReuploadCdnFile_RequestToken v)] =
     Some (Encoder_Bytes (UploadReuploadCdnFile_Encode v Encoder_New))"
  by (simp add: match_simps schema_upload_reuploadCdnFile_def UploadReuploadCdnFile_wire_def UploadReuploadCdnFile.put_wire)

lemma match_UploadGetCdnFileHashes:
  "schema_bytes core_schema schema_upload_getCdnFileHashes [VBytes (UploadGetCdnFileHashes_FileToken v),
      VLong (UploadGetCdnFileHashes_Offset v)] =
     Some (Encoder_Bytes (UploadGetCdnFileHashes_Encode v Encoder_New))"
  by (simp add: match_simps schema_upload_getCdnFileHashes_def UploadGetCdnFileHashes_wire_def UploadGetCdnFileHashes.put_wire)

lemmas matches = match_ResPQ match_PQInnerDataDc match_ServerDHParamsOk match_ServerDHParamsFail match_ServerDHInnerData
     match_ClientDHInnerData match_DhGenOk match_DhGenRetry match_DhGenFail match_RpcError match_MsgsAck
     match_BadMsgNotification match_BadServerSalt match_NewSessionCreated match_Pong match_DestroySessionOk
     match_DestroySessionNone match_InputFile match_InputFileBig match_InputPeerEmpty match_InputPeerSelf
     match_InputPeerChat match_InputPeerUser match_InputPeerChannel match_InputFileLocation
     match_InputDocumentFileLocation match_FileHash match_StorageFileUnknown match_StorageFilePartial
     match_StorageFileJpeg match_StorageFilePng match_StorageFileMp4 match_UploadFile match_UploadFileCdnRedirect
     match_UploadCdnFile match_UploadCdnFileReuploadNeeded match_ReqPqMulti match_ReqDHParams
     match_SetClientDHParams match_Ping match_DestroySession match_UploadSaveFilePart match_UploadSaveBigFilePart
     match_UploadGetFile match_UploadGetFile_iff match_UploadGetCdnFile match_UploadReuploadCdnFile match_UploadGetCdnFileHashes

lemmas tlid_defs = ResPQ_TLID_def PQInnerDataDc_TLID_def ServerDHParamsOk_TLID_def ServerDHParamsFail_TLID_def
     ServerDHInnerData_TLID_def ClientDHInnerData_TLID_def DhGenOk_TLID_def DhGenRetry_TLID_def DhGenFail_TLID_def
     RpcError_TLID_def MsgsAck_TLID_def BadMsgNotification_TLID_def BadServerSalt_TLID_def
     NewSessionCreated_TLID_def Pong_TLID_def DestroySessionOk_TLID_def DestroySessionNone_TLID_def
     InputFile_TLID_def InputFileBig_TLID_def InputPeerEmpty_TLID_def InputPeerSelf_TLID_def InputPeerChat_TLID_def
     InputPeerUser_TLID_def InputPeerChannel_TLID_def InputFileLocation_TLID_def InputDocumentFileLocation_TLID_def
     FileHash_TLID_def StorageFileUnknown_TLID_def StorageFilePartial_TLID_def StorageFileJpeg_TLID_def
     StorageFilePng_TLID_def StorageFileMp4_TLID_def UploadFile_TLID_def UploadFileCdnRedirect_TLID_def
     UploadCdnFile_TLID_def UploadCdnFileReuploadNeeded_TLID_def ReqPqMulti_TLID_def ReqDHParams_TLID_def
     SetClientDHParams_TLID_def Ping_TLID_def DestroySession_TLID_def UploadSaveFilePart_TLID_def
     UploadSaveBigFilePart_TLID_def UploadGetFile_TLID_def UploadGetCdnFile_TLID_def UploadReuploadCdnFile_TLID_def
     UploadGetCdnFileHashes_TLID_def

section \<open>Properties\<close>

text \<open>
  C12. The generated types implement the schema: the constructor numbers are those of its definitions, in order, and for
  every constructor and every function \<^verbatim>\<open>Encode\<close> writes the bytes that TL prescribes for the definition and the values
  of the fields, boxed fields holding an encoded value of their type.  \<^verbatim>\<open>upload.getFile\<close>, the one type with flags, does
  so exactly when \<^verbatim>\<open>Flags\<close> has no bit of a field that is not set (and no bit of no field), so always when it is zero.
\<close>
theorem generated_types_match_schema:
  "map df_ID (Constructors core_schema) =
     [ResPQ_TLID, PQInnerDataDc_TLID, ServerDHParamsOk_TLID, ServerDHParamsFail_TLID, ServerDHInnerData_TLID,
     ClientDHInnerData_TLID, DhGenOk_TLID, DhGenRetry_TLID, DhGenFail_TLID, RpcError_TLID, MsgsAck_TLID,
     BadMsgNotification_TLID, BadServerSalt_TLID, NewSessionCreated_TLID, Pong_TLID, DestroySessionOk_TLID,
     DestroySessionNone_TLID, InputFile_TLID, InputFileBig_TLID, InputPeerEmpty_TLID, InputPeerSelf_TLID,
     InputPeerChat_TLID, InputPeerUser_TLID, InputPeerChannel_TLID, InputFileLocation_TLID,
     InputDocumentFileLocation_TLID, FileHash_TLID, StorageFileUnknown_TLID, StorageFilePartial_TLID,
     StorageFileJpeg_TLID, StorageFilePng_TLID, StorageFileMp4_TLID, UploadFile_TLID, UploadFileCdnRedirect_TLID,
     UploadCdnFile_TLID, UploadCdnFileReuploadNeeded_TLID] \<and>
   map df_ID (Functions core_schema) =
     [ReqPqMulti_TLID, ReqDHParams_TLID, SetClientDHParams_TLID, Ping_TLID, DestroySession_TLID,
     UploadSaveFilePart_TLID, UploadSaveBigFilePart_TLID, UploadGetFile_TLID, UploadGetCdnFile_TLID,
     UploadReuploadCdnFile_TLID, UploadGetCdnFileHashes_TLID] \<and>
   schema_bytes core_schema schema_resPQ [V128 (ResPQ_Nonce v1),  V128 (ResPQ_ServerNonce v1),  VStr (ResPQ_Pq
     v1),  VVector (map VLong (ResPQ_ServerPublicKeyFingerprints v1))] = Some (Encoder_Bytes (ResPQ_Encode v1
     Encoder_New)) \<and>
   schema_bytes core_schema schema_p_q_inner_data_dc [VStr (PQInnerDataDc_Pq v2),  VStr (PQInnerDataDc_P v2), 
     VStr (PQInnerDataDc_Q v2),  V128 (PQInnerDataDc_Nonce v2),  V128 (PQInnerDataDc_ServerNonce v2),  V256
     (PQInnerDataDc_NewNonce v2),  VInt (PQInnerDataDc_Dc v2)] = Some (Encoder_Bytes (PQInnerDataDc_Encode v2
     Encoder_New)) \<and>
   schema_bytes core_schema schema_server_DH_params_ok [V128 (ServerDHParamsOk_Nonce v3),  V128
     (ServerDHParamsOk_ServerNonce v3),  VStr (ServerDHParamsOk_EncryptedAnswer v3)] = Some (Encoder_Bytes
     (ServerDHParamsOk_Encode v3 Encoder_New)) \<and>
   schema_bytes core_schema schema_server_DH_params_fail [V128 (ServerDHParamsFail_Nonce v4),  V128
     (ServerDHParamsFail_ServerNonce v4),  V128 (ServerDHParamsFail_NewNonceHash v4)] = Some (Encoder_Bytes
     (ServerDHParamsFail_Encode v4 Encoder_New)) \<and>
   schema_bytes core_schema schema_server_DH_inner_data [V128 (ServerDHInnerData_Nonce v5),  V128
     (ServerDHInnerData_ServerNonce v5),  VInt (ServerDHInnerData_G v5),  VStr (ServerDHInnerData_DhPrime v5),  VStr
     (ServerDHInnerData_GA v5),  VInt (ServerDHInnerData_ServerTime v5)] = Some (Encoder_Bytes
     (ServerDHInnerData_Encode v5 Encoder_New)) \<and>
   schema_bytes core_schema schema_client_DH_inner_data [V128 (ClientDHInnerData_Nonce v6),  V128
     (ClientDHInnerData_ServerNonce v6),  VLong (ClientDHInnerData_RetryId v6),  VStr (ClientDHInnerData_GB v6)] =
     Some (Encoder_Bytes (ClientDHInnerData_Encode v6 Encoder_New)) \<and>
   schema_bytes core_schema schema_dh_gen_ok [V128 (DhGenOk_Nonce v7),  V128 (DhGenOk_ServerNonce v7),  V128
     (DhGenOk_NewNonceHash1 v7)] = Some (Encoder_Bytes (DhGenOk_Encode v7 Encoder_New)) \<and>
   schema_bytes core_schema schema_dh_gen_retry [V128 (DhGenRetry_Nonce v8),  V128 (DhGenRetry_ServerNonce v8), 
     V128 (DhGenRetry_NewNonceHash2 v8)] = Some (Encoder_Bytes (DhGenRetry_Encode v8 Encoder_New)) \<and>
   schema_bytes core_schema schema_dh_gen_fail [V128 (DhGenFail_Nonce v9),  V128 (DhGenFail_ServerNonce v9),  V128
     (DhGenFail_NewNonceHash3 v9)] = Some (Encoder_Bytes (DhGenFail_Encode v9 Encoder_New)) \<and>
   schema_bytes core_schema schema_rpc_error [VInt (RpcError_ErrorCode v10),  VStr (RpcError_ErrorMessage v10)] =
     Some (Encoder_Bytes (RpcError_Encode v10 Encoder_New)) \<and>
   schema_bytes core_schema schema_msgs_ack [VVector (map VLong (MsgsAck_MsgIds v11))] = Some (Encoder_Bytes
     (MsgsAck_Encode v11 Encoder_New)) \<and>
   schema_bytes core_schema schema_bad_msg_notification [VLong (BadMsgNotification_BadMsgId v12),  VInt
     (BadMsgNotification_BadMsgSeqno v12),  VInt (BadMsgNotification_ErrorCode v12)] = Some (Encoder_Bytes
     (BadMsgNotification_Encode v12 Encoder_New)) \<and>
   schema_bytes core_schema schema_bad_server_salt [VLong (BadServerSalt_BadMsgId v13),  VInt
     (BadServerSalt_BadMsgSeqno v13),  VInt (BadServerSalt_ErrorCode v13),  VLong (BadServerSalt_NewServerSalt v13)]
     = Some (Encoder_Bytes (BadServerSalt_Encode v13 Encoder_New)) \<and>
   schema_bytes core_schema schema_new_session_created [VLong (NewSessionCreated_FirstMsgId v14),  VLong
     (NewSessionCreated_UniqueId v14),  VLong (NewSessionCreated_ServerSalt v14)] = Some (Encoder_Bytes
     (NewSessionCreated_Encode v14 Encoder_New)) \<and>
   schema_bytes core_schema schema_pong [VLong (Pong_MsgId v15),  VLong (Pong_PingId v15)] = Some (Encoder_Bytes
     (Pong_Encode v15 Encoder_New)) \<and>
   schema_bytes core_schema schema_destroy_session_ok [VLong (DestroySessionOk_SessionId v16)] = Some
     (Encoder_Bytes (DestroySessionOk_Encode v16 Encoder_New)) \<and>
   schema_bytes core_schema schema_destroy_session_none [VLong (DestroySessionNone_SessionId v17)] = Some
     (Encoder_Bytes (DestroySessionNone_Encode v17 Encoder_New)) \<and>
   schema_bytes core_schema schema_inputFile [VLong (InputFile_Id v18),  VInt (InputFile_Parts v18),  VStr
     (InputFile_Name v18),  VStr (InputFile_Md5Checksum v18)] = Some (Encoder_Bytes (InputFile_Encode v18
     Encoder_New)) \<and>
   schema_bytes core_schema schema_inputFileBig [VLong (InputFileBig_Id v19),  VInt (InputFileBig_Parts v19), 
     VStr (InputFileBig_Name v19)] = Some (Encoder_Bytes (InputFileBig_Encode v19 Encoder_New)) \<and>
   schema_bytes core_schema schema_inputPeerEmpty [] = Some (Encoder_Bytes (InputPeerEmpty_Encode v20
     Encoder_New)) \<and>
   schema_bytes core_schema schema_inputPeerSelf [] = Some (Encoder_Bytes (InputPeerSelf_Encode v21 Encoder_New)) \<and>
   schema_bytes core_schema schema_inputPeerChat [VLong (InputPeerChat_ChatId v22)] = Some (Encoder_Bytes
     (InputPeerChat_Encode v22 Encoder_New)) \<and>
   schema_bytes core_schema schema_inputPeerUser [VLong (InputPeerUser_UserId v23),  VLong
     (InputPeerUser_AccessHash v23)] = Some (Encoder_Bytes (InputPeerUser_Encode v23 Encoder_New)) \<and>
   schema_bytes core_schema schema_inputPeerChannel [VLong (InputPeerChannel_ChannelId v24),  VLong
     (InputPeerChannel_AccessHash v24)] = Some (Encoder_Bytes (InputPeerChannel_Encode v24 Encoder_New)) \<and>
   schema_bytes core_schema schema_inputFileLocation [VLong (InputFileLocation_VolumeId v25),  VInt
     (InputFileLocation_LocalId v25),  VLong (InputFileLocation_Secret v25),  VBytes
     (InputFileLocation_FileReference v25)] = Some (Encoder_Bytes (InputFileLocation_Encode v25 Encoder_New)) \<and>
   schema_bytes core_schema schema_inputDocumentFileLocation [VLong (InputDocumentFileLocation_Id v26),  VLong
     (InputDocumentFileLocation_AccessHash v26),  VBytes (InputDocumentFileLocation_FileReference v26),  VStr
     (InputDocumentFileLocation_ThumbSize v26)] = Some (Encoder_Bytes (InputDocumentFileLocation_Encode v26
     Encoder_New)) \<and>
   schema_bytes core_schema schema_fileHash [VLong (FileHash_Offset v27),  VInt (FileHash_Limit v27),  VBytes
     (FileHash_Hash v27)] = Some (Encoder_Bytes (FileHash_Encode v27 Encoder_New)) \<and>
   schema_bytes core_schema schema_storage_fileUnknown [] = Some (Encoder_Bytes (StorageFileUnknown_Encode v28
     Encoder_New)) \<and>
   schema_bytes core_schema schema_storage_filePartial [] = Some (Encoder_Bytes (StorageFilePartial_Encode v29
     Encoder_New)) \<and>
   schema_bytes core_schema schema_storage_fileJpeg [] = Some (Encoder_Bytes (StorageFileJpeg_Encode v30
     Encoder_New)) \<and>
   schema_bytes core_schema schema_storage_filePng [] = Some (Encoder_Bytes (StorageFilePng_Encode v31
     Encoder_New)) \<and>
   schema_bytes core_schema schema_storage_fileMp4 [] = Some (Encoder_Bytes (StorageFileMp4_Encode v32
     Encoder_New)) \<and>
   schema_bytes core_schema schema_upload_file [VInt (UploadFile_Mtime v33),  VBytes (UploadFile_Bytes v33)] =
     Some (Encoder_Bytes (UploadFile_Encode v33 Encoder_New)) \<and>
   schema_bytes core_schema schema_upload_fileCdnRedirect [VInt (UploadFileCdnRedirect_DcId v34),  VBytes
     (UploadFileCdnRedirect_FileToken v34),  VBytes (UploadFileCdnRedirect_EncryptionKey v34),  VBytes
     (UploadFileCdnRedirect_EncryptionIv v34),  VVector (map (\<lambda>h. VBoxed (Encoder_Bytes (FileHash_Encode h
     Encoder_New))) (UploadFileCdnRedirect_FileHashes v34))] = Some (Encoder_Bytes (UploadFileCdnRedirect_Encode v34
     Encoder_New)) \<and>
   schema_bytes core_schema schema_upload_cdnFile [VBytes (UploadCdnFile_Bytes v35)] = Some (Encoder_Bytes
     (UploadCdnFile_Encode v35 Encoder_New)) \<and>
   schema_bytes core_schema schema_upload_cdnFileReuploadNeeded [VBytes (UploadCdnFileReuploadNeeded_RequestToken
     v36)] = Some (Encoder_Bytes (UploadCdnFileReuploadNeeded_Encode v36 Encoder_New)) \<and>
   schema_bytes core_schema schema_req_pq_multi [V128 (ReqPqMulti_Nonce v37)] = Some (Encoder_Bytes
     (ReqPqMulti_Encode v37 Encoder_New)) \<and>
   schema_bytes core_schema schema_req_DH_params [V128 (ReqDHParams_Nonce v38),  V128 (ReqDHParams_ServerNonce
     v38),  VStr (ReqDHParams_P v38),  VStr (ReqDHParams_Q v38),  VLong (ReqDHParams_PublicKeyFingerprint v38), 
     VStr (ReqDHParams_EncryptedData v38)] = Some (Encoder_Bytes (ReqDHParams_Encode v38 Encoder_New)) \<and>
   schema_bytes core_schema schema_set_client_DH_params [V128 (SetClientDHParams_Nonce v39),  V128
     (SetClientDHParams_ServerNonce v39),  VStr (SetClientDHParams_EncryptedData v39)] = Some (Encoder_Bytes
     (SetClientDHParams_Encode v39 Encoder_New)) \<and>
   schema_bytes core_schema schema_ping [VLong (Ping_PingId v40)] = Some (Encoder_Bytes (Ping_Encode v40
     Encoder_New)) \<and>
   schema_bytes core_schema schema_destroy_session [VLong (DestroySession_SessionId v41)] = Some (Encoder_Bytes
     (DestroySession_Encode v41 Encoder_New)) \<and>
   schema_bytes core_schema schema_upload_saveFilePart [VLong (UploadSaveFilePart_FileId v42),  VInt
     (UploadSaveFilePart_FilePart v42),  VBytes (UploadSaveFilePart_Bytes v42)] = Some (Encoder_Bytes
     (UploadSaveFilePart_Encode v42 Encoder_New)) \<and>
   schema_bytes core_schema schema_upload_saveBigFilePart [VLong (UploadSaveBigFilePart_FileId v43),  VInt
     (UploadSaveBigFilePart_FilePart v43),  VInt (UploadSaveBigFilePart_FileTotalParts v43),  VBytes
     (UploadSaveBigFilePart_Bytes v43)] = Some (Encoder_Bytes (UploadSaveBigFilePart_Encode v43 Encoder_New)) \<and>
   schema_bytes core_schema schema_upload_getFile [VFlags,  VTrue (UploadGetFile_Precise v44),  VTrue
     (UploadGetFile_CdnSupported v44),  VBoxed (Encoder_Bytes (InputFileLocationClass_Encode (UploadGetFile_Location
     v44) Encoder_New)),  VLong (UploadGetFile_Offset v44),  VInt (UploadGetFile_Limit v44)] = Some (Encoder_Bytes
     (snd (UploadGetFile_Encode (v44\<lparr>UploadGetFile_Flags := 0\<rparr>) Encoder_New))) \<and>
   (schema_bytes core_schema schema_upload_getFile [VFlags,  VTrue (UploadGetFile_Precise v44),  VTrue
    (UploadGetFile_CdnSupported v44),  VBoxed (Encoder_Bytes (InputFileLocationClass_Encode (UploadGetFile_Location
    v44) Encoder_New)),  VLong (UploadGetFile_Offset v44),  VInt (UploadGetFile_Limit v44)] = Some (Encoder_Bytes
    (snd (UploadGetFile_Encode v44 Encoder_New))) \<longleftrightarrow>
    UploadGetFile_Flags v44 OR UploadGetFile_needed v44 = UploadGetFile_needed v44) \<and>
   schema_bytes core_schema schema_upload_getCdnFile [VBytes (UploadGetCdnFile_FileToken v45),  VLong
     (UploadGetCdnFile_Offset v45),  VInt (UploadGetCdnFile_Limit v45)] = Some (Encoder_Bytes
     (UploadGetCdnFile_Encode v45 Encoder_New)) \<and>
   schema_bytes core_schema schema_upload_reuploadCdnFile [VBytes (UploadReuploadCdnFile_FileToken v46),  VBytes
     (UploadReuploadCdnFile_RequestToken v46)] = Some (Encoder_Bytes (UploadReuploadCdnFile_Encode v46 Encoder_New)) \<and>
   schema_bytes core_schema schema_upload_getCdnFileHashes [VBytes (UploadGetCdnFileHashes_FileToken v47),  VLong
     (UploadGetCdnFileHashes_Offset v47)] = Some (Encoder_Bytes (UploadGetCdnFileHashes_Encode v47 Encoder_New))"
proof (intro conjI)
  show "map df_ID (Constructors core_schema) =
     [ResPQ_TLID, PQInnerDataDc_TLID, ServerDHParamsOk_TLID, ServerDHParamsFail_TLID, ServerDHInnerData_TLID,
     ClientDHInnerData_TLID, DhGenOk_TLID, DhGenRetry_TLID, DhGenFail_TLID, RpcError_TLID, MsgsAck_TLID,
     BadMsgNotification_TLID, BadServerSalt_TLID, NewSessionCreated_TLID, Pong_TLID, DestroySessionOk_TLID,
     DestroySessionNone_TLID, InputFile_TLID, InputFileBig_TLID, InputPeerEmpty_TLID, InputPeerSelf_TLID,
     InputPeerChat_TLID, InputPeerUser_TLID, InputPeerChannel_TLID, InputFileLocation_TLID,
     InputDocumentFileLocation_TLID, FileHash_TLID, StorageFileUnknown_TLID, StorageFilePartial_TLID,
     StorageFileJpeg_TLID, StorageFilePng_TLID, StorageFileMp4_TLID, UploadFile_TLID, UploadFileCdnRedirect_TLID,
     UploadCdnFile_TLID, UploadCdnFileReuploadNeeded_TLID]"
    by (simp add: core_schema_def schema_defs tlid_defs)
  show "map df_ID (Functions core_schema) =
     [ReqPqMulti_TLID, ReqDHParams_TLID, SetClientDHParams_TLID, Ping_TLID, DestroySession_TLID,
     UploadSaveFilePart_TLID, UploadSaveBigFilePart_TLID, UploadGetFile_TLID, UploadGetCdnFile_TLID,
     UploadReuploadCdnFile_TLID, UploadGetCdnFileHashes_TLID]"
    by (simp add: core_schema_def schema_defs tlid_defs)
qed (rule matches)+

end
