(* ===== verification/Generated_Text.thy ===== *)
theory Generated_Text
  imports Core_Schema
begin

text \<open>
  The text of \<^verbatim>\<open>tl/generated/core.go\<close> for one request, as what the generator makes of its definition in the schema.
\<close>

section \<open>Evaluating the generator\<close>

lemma polymorphic_group: "isPolymorphic t (group_types cs) \<longleftrightarrow> 1 < length (filter (\<lambda>c. df_ResultType c = t) cs)"
  unfolding group_types_filter [symmetric] by (simp add: isPolymorphic_def ctors_of_def split: option.split)

lemma polymorphic_location [simp]: "isPolymorphic ''InputFileLocation'' (group_types (Constructors core_schema))"
  by (simp add: polymorphic_group core_schema_def schema_defs)

lemma interface_location [simp]:
  "getInterfaceName ''InputFileLocation'' (ctors_of (group_types (Constructors core_schema)) ''InputFileLocation'') =
     ''InputFileLocationClass''"
proof -
  have "toGoPublicName ''inputFileLocation'' = ''InputFileLocation''" "toGoPublicName ''InputFileLocation'' = ''InputFileLocation''"
    by code_simp+
  then show ?thesis
    by (simp add: getInterfaceName_def group_types_filter core_schema_def schema_defs)
qed

lemma get_file_names [simp]:
  "toGoPublicName ''upload_getFile'' = ''UploadGetFile''" "toGoPublicName ''flags'' = ''Flags''"
  "toGoPublicName ''precise'' = ''Precise''" "toGoPublicName ''cdn_supported'' = ''CdnSupported''"
  "toGoPublicName ''location'' = ''Location''" "toGoPublicName ''offset'' = ''Offset''" "toGoPublicName ''limit'' = ''Limit''"
  by code_simp+

section \<open>Properties\<close>

text \<open>
  For the definition of \<^verbatim>\<open>upload_getFile\<close> in the schema the generator writes the text that stands in
  \<^verbatim>\<open>tl/generated/core.go\<close>, up to the alignment of the fields by \<^verbatim>\<open>gofmt\<close>: the struct, the number, the flag bits that
  \<^verbatim>\<open>Encode\<close> sets and never clears, the fields in the order of the schema, and the checked reads of \<^verbatim>\<open>Decode\<close>.
\<close>
theorem generated_get_file:
  "generateStruct schema_upload_getFile True (group_types (Constructors core_schema)) = concat
     [ln [] [''// UploadGetFile represents the TL function `upload_getFile#be250529`.''],
      ln [] [''type UploadGetFile struct {''],
      ln tab [''Flags uint32''],
      ln tab [''Precise bool''],
      ln tab [''CdnSupported bool''],
      ln tab [''Location InputFileLocationClass''],
      ln tab [''Offset int64''],
      ln tab [''Limit int32''],
      ln [] [''}''],
      ln [] [],
      ln [] [''func (v *UploadGetFile) TLID() uint32 { return 0xbe250529 }''],
      ln [] [],
      ln [] [''func (v *UploadGetFile) Encode(e *encoder.Encoder) error {''],
      ln tab [''e.PutUint(0xbe250529)''],
      ln tab [''if v.Precise {''],
      ln tab2 [''v.Flags |= (1 << 0)''],
      ln tab [''}''],
      ln tab [''if v.CdnSupported {''],
      ln tab2 [''v.Flags |= (1 << 1)''],
      ln tab [''}''],
      ln tab [''e.PutUint(v.Flags)''],
      ln tab [''if err := v.Location.Encode(e); err != nil {''],
      ln tab2 [''return err''],
      ln tab [''}''],
      ln tab [''e.PutLong(v.Offset)''],
      ln tab [''e.PutInt(v.Limit)''],
      ln tab [''return nil''],
      ln [] [''}''],
      ln [] [],
      ln [] [''func (v *UploadGetFile) Decode(d *decoder.Decoder) error {''],
      ln tab [''crc, err := d.Uint()''],
      ln tab [''if err != nil {''],
      ln tab2 [''return err''],
      ln tab [''}''],
      ln tab [''if crc != 0xbe250529 {''],
      ln tab2 [''return fmt.Errorf(\"mismatched constructor: expected 0xbe250529, got 0x%08x\", crc)''],
      ln tab [''}''],
      ln tab [''if v.Flags, err = d.Uint(); err != nil {''],
      ln tab2 [''return err''],
      ln tab [''}''],
      ln tab [''v.Precise = (v.Flags & (1 << 0)) != 0''],
      ln tab [''v.CdnSupported = (v.Flags & (1 << 1)) != 0''],
      ln tab [''item, err := DecodeInputFileLocationClass(d)''],
      ln tab [''if err != nil {''],
      ln tab2 [''return err''],
      ln tab [''}''],
      ln tab [''v.Location = item''],
      ln tab [''if v.Offset, err = d.Long(); err != nil {''],
      ln tab2 [''return err''],
      ln tab [''}''],
      ln tab [''if v.Limit, err = d.Int(); err != nil {''],
      ln tab2 [''return err''],
      ln tab [''}''],
      ln tab [''return nil''],
      ln [] [''}''],
      ln [] []]"
  by (simp add: generateStruct_def getStructName_def hex_id_def schema_upload_getFile_def field_def flagged_def Let_def
      flag_field_name_def flag_param_def struct_field_def toGoType_def toGoSingleType_def set_flag_def encode_field_def
      decode_field_def if_flag_def flag_bit_def fmt_int_def fmt_nat_flags hex_step hex_digits writeEncodeField_def
      writeDecodeField_def encode_methods_def decode_methods_def put_line_def get_lines_def checked_def decode_item_def ln_def)

end
