(* ===== verification/Encoder_Buffer.thy ===== *)
theory Encoder_Buffer
  imports Encoder
begin

text \<open>
  The storage under the TL serializer of \<^verbatim>\<open>tl/encoder/encoder.go\<close>: the slice with its capacity, \<^verbatim>\<open>Grow\<close>, and
  \<^verbatim>\<open>append\<close>, on which all \<^verbatim>\<open>Put\<close> methods rest.  How much the Go runtime reserves when \<^verbatim>\<open>append\<close> has to
  reallocate is an argument, as is the size of the largest slice it can make.
\<close>

section \<open>The code\<close>

record backing =
  st_buf :: bytes
  st_cap :: int64
  st_allocs :: nat

text \<open>\<open>st_allocs\<close> counts the allocations, so that a reallocation shows.\<close>

definition st_len :: "backing \<Rightarrow> int64" where
  "st_len s = of_nat (length (st_buf s))"

definition Storage_New :: backing where
  "Storage_New = \<lparr>st_buf = [], st_cap = 256, st_allocs = 1\<rparr>"

definition Storage_Reset :: "backing \<Rightarrow> backing" where
  "Storage_Reset s = s\<lparr>st_buf := take 0 (st_buf s)\<rparr>"

text \<open>\<^verbatim>\<open>Grow\<close>; \<open>None\<close> is the panic of \<^verbatim>\<open>make\<close> for a capacity that is out of range.\<close>

definition Encoder_Grow :: "int64 \<Rightarrow> int64 \<Rightarrow> backing \<Rightarrow> backing option" where
  "Encoder_Grow maxAlloc n s =
     (if sint (st_cap s - st_len s) < sint n then
        let newCap = 2 * st_cap s + n in
        if sint newCap < sint (st_len s) \<or> sint maxAlloc < sint newCap then None
        else
          let newBuf = replicate (length (st_buf s)) 0;
              newBuf = take (length newBuf) (st_buf s) @ drop (length (st_buf s)) newBuf
          in Some (s\<lparr>st_buf := newBuf, st_cap := newCap, st_allocs := st_allocs s + 1\<rparr>)
      else Some s)"

text \<open>\<^verbatim>\<open>e.buf = append(e.buf, b...)\<close>.\<close>

definition Storage_append :: "(nat \<Rightarrow> nat \<Rightarrow> int64) \<Rightarrow> bytes \<Rightarrow> backing \<Rightarrow> backing" where
  "Storage_append reserve bs s =
     (if length (st_buf s) + length bs \<le> unat (st_cap s) then s\<lparr>st_buf := st_buf s @ bs\<rparr>
      else s\<lparr>st_buf := st_buf s @ bs, st_cap := reserve (unat (st_cap s)) (length (st_buf s) + length bs),
             st_allocs := st_allocs s + 1\<rparr>)"

section \<open>The abstraction\<close>

text \<open>What a Go slice satisfies.\<close>

definition storage_ok :: "int64 \<Rightarrow> backing \<Rightarrow> bool" where
  "storage_ok maxAlloc s \<longleftrightarrow> int (length (st_buf s)) \<le> sint (st_cap s) \<and> sint (st_cap s) \<le> sint maxAlloc"

definition encoder_of :: "backing \<Rightarrow> encoder" where
  "encoder_of s = \<lparr>ebuf = st_buf s\<rparr>"

lemma storage_New:
  "256 \<le> sint maxAlloc \<Longrightarrow> storage_ok maxAlloc Storage_New" "encoder_of Storage_New = Encoder_New"
  by (simp add: storage_ok_def Storage_New_def) (simp add: Storage_New_def encoder_of_def Encoder_New_def)

lemma storage_Reset:
  "storage_ok m s \<Longrightarrow> storage_ok m (Storage_Reset s)" "encoder_of (Storage_Reset s) = Encoder_Reset (encoder_of s)"
  by (auto simp add: storage_ok_def Storage_Reset_def encoder_of_def Encoder_New_def)

lemma storage_append_of [simp]: "encoder_of (Storage_append reserve bs s) = Encoder_PutRaw bs (encoder_of s)"
  by (simp add: Storage_append_def encoder_of_def Encoder_PutRaw_def)

lemma unat_sint: "0 \<le> sint w \<Longrightarrow> unat w = nat (sint w)" for w :: int64
  using sint_ge [of w] sint_lt [of w] uint_sint [of w] take_bit_int_eq_self [of "sint w" 64]
  by (simp add: unat_eq_nat_uint)

lemma storage_len: "storage_ok m s \<Longrightarrow> sint (st_len s) = int (length (st_buf s))"
  using sint_of_int64 [of "int (length (st_buf s))"] sint_lt [of "st_cap s"]
  by (simp add: st_len_def storage_ok_def)

lemma storage_room:
  assumes "storage_ok m s"
  shows "sint (st_cap s - st_len s) = sint (st_cap s) - int (length (st_buf s))"
proof -
  have "st_cap s - st_len s = of_int (sint (st_cap s) - int (length (st_buf s)))" by (simp add: st_len_def)
  then show ?thesis
    using sint_of_int64 [of "sint (st_cap s) - int (length (st_buf s))"] assms sint_lt [of "st_cap s"]
    by (simp add: storage_ok_def)
qed

lemma storage_new_cap:
  assumes "storage_ok m s" "sint m \<le> 2 ^ 62" "0 \<le> sint n"
  shows "sint (2 * st_cap s + n) =
    (if 2 * sint (st_cap s) + sint n < 2 ^ 63 then 2 * sint (st_cap s) + sint n
     else 2 * sint (st_cap s) + sint n - 2 ^ 64)"
proof -
  let ?k = "2 * sint (st_cap s) + sint n"
  have w: "2 * st_cap s + n = of_int ?k" "2 * st_cap s + n = of_int (?k - 2 ^ 64)" by simp_all
  have b: "0 \<le> ?k" "?k - 2 ^ 64 < 2 ^ 63" using assms sint_lt [of n] by (auto simp: storage_ok_def)
  show ?thesis
  proof (cases "?k < 2 ^ 63")
    case True
    with b have "sint (of_int ?k :: int64) = ?k" by (intro sint_of_int64) auto
    with True show ?thesis by (simp only: w(1) if_True)
  next
    case False
    with b have "sint (of_int (?k - 2 ^ 64) :: int64) = ?k - 2 ^ 64" by (intro sint_of_int64) auto
    with False show ?thesis by (simp only: w(2) if_False)
  qed
qed

lemma storage_appends:
  assumes "storage_ok m s" "int (length (st_buf s)) + int (length (concat pieces)) \<le> sint (st_cap s)"
  shows "st_allocs (fold (Storage_append reserve) pieces s) = st_allocs s"
  using assms
proof (induction pieces arbitrary: s)
  case (Cons bs pieces)
  let ?s = "Storage_append reserve bs s"
  have "length (st_buf s) + length bs \<le> unat (st_cap s)"
    using Cons.prems unat_sint [of "st_cap s"] by (auto simp: storage_ok_def)
  then have s: "?s = s\<lparr>st_buf := st_buf s @ bs\<rparr>" by (simp add: Storage_append_def)
  then have "storage_ok m ?s" using Cons.prems by (simp add: storage_ok_def)
  from Cons.IH [OF this] show ?case using Cons.prems by (simp add: s)
qed simp

lemma storage_puts: "encoder_of (fold (Storage_append reserve) pieces s) = fold Encoder_PutRaw pieces (encoder_of s)"
  by (induction pieces arbitrary: s) simp_all

section \<open>Properties\<close>

text \<open>
  C40. \<^verbatim>\<open>Grow\<close> never changes the bytes.  When it returns, the next appends of together at most \<open>n\<close> bytes allocate
  nothing and leave the bytes that the serializer of the other theories has; it panics exactly when there is no room for
  \<open>n\<close> more bytes and twice the capacity and \<open>n\<close>, without the wrap-around of \<^verbatim>\<open>int\<close>, exceed what can be allocated.
\<close>
theorem grow_reserves:
  assumes "storage_ok m s" "sint m \<le> 2 ^ 62"
  shows "(case Encoder_Grow m n s of
      None \<Rightarrow> sint (st_cap s) < int (length (st_buf s)) + sint n \<and> sint m < 2 * sint (st_cap s) + sint n
    | Some s' \<Rightarrow>
        (sint (st_cap s) < int (length (st_buf s)) + sint n \<longrightarrow> 2 * sint (st_cap s) + sint n \<le> sint m) \<and>
        storage_ok m s' \<and> encoder_of s' = encoder_of s \<and>
        (\<forall>pieces. int (length (concat pieces)) \<le> sint n \<longrightarrow>
           st_allocs (fold (Storage_append reserve) pieces s') = st_allocs s' \<and>
           encoder_of (fold (Storage_append reserve) pieces s') = fold Encoder_PutRaw pieces (encoder_of s)))"
proof (cases "sint (st_cap s) - int (length (st_buf s)) < sint n")
  case False
  then have "Encoder_Grow m n s = Some s" by (simp add: Encoder_Grow_def storage_room [OF assms(1)])
  then show ?thesis using False storage_appends [OF assms(1)] assms(1) by (auto simp: storage_puts)
next
  case True
  then have n: "0 \<le> sint n" using assms(1) by (simp add: storage_ok_def)
  let ?cap = "2 * st_cap s + n" and ?k = "2 * sint (st_cap s) + sint n"
  let ?s = "s\<lparr>st_cap := ?cap, st_allocs := st_allocs s + 1\<rparr>"
  have g: "Encoder_Grow m n s =
      (if sint ?cap < int (length (st_buf s)) \<or> sint m < sint ?cap then None else Some ?s)"
    using True by (simp add: Encoder_Grow_def Let_def storage_room [OF assms(1)] storage_len [OF assms(1)])
  show ?thesis
  proof (cases "sint ?cap < int (length (st_buf s)) \<or> sint m < sint ?cap")
    case over: True
    then have "sint m < ?k"
      using storage_new_cap [OF assms n] n assms by (auto simp: storage_ok_def split: if_splits)
    then show ?thesis using g over True by simp
  next
    case fits: False
    have "?k - 2 ^ 64 < 0" using sint_lt [of n] assms by (auto simp: storage_ok_def)
    then have cap: "sint ?cap = ?k" using fits storage_new_cap [OF assms n] by (auto split: if_splits)
    have ok: "storage_ok m ?s" using fits by (simp add: storage_ok_def)
    have "int (length (st_buf s)) + sint n \<le> sint ?cap" using cap assms(1) by (simp add: storage_ok_def)
    then have "st_allocs (fold (Storage_append reserve) pieces ?s) = st_allocs ?s"
      if "int (length (concat pieces)) \<le> sint n" for pieces
      using storage_appends [OF ok, of pieces reserve] that by simp
    moreover have "encoder_of ?s = encoder_of s" by (simp add: encoder_of_def)
    ultimately show ?thesis using g fits ok cap by (auto simp: storage_puts)
  qed
qed

theorem grow_reserves_witness:
  "\<exists>s'. Encoder_Grow (2 ^ 48) 1000 (Storage_append (\<lambda>_ _. 512) [1, 2, 3] Storage_New) = Some s' \<and>
     st_buf s' = [1, 2, 3] \<and> sint (st_cap s') = 1512 \<and>
     st_allocs (fold (Storage_append (\<lambda>_ _. 0)) [replicate 600 7, replicate 400 8] s') = 2"
proof -
  let ?s = "\<lparr>st_buf = [1, 2, 3], st_cap = 256, st_allocs = 1\<rparr>" and ?m = "2 ^ 48 :: int64"
  have s: "Storage_append (\<lambda>_ _. 512) [1, 2, 3] Storage_New = ?s"
    by (simp add: Storage_append_def Storage_New_def)
  have ok: "storage_ok ?m ?s" "sint ?m \<le> 2 ^ 62" by (simp_all add: storage_ok_def)
  have g: "Encoder_Grow ?m 1000 ?s = Some (?s\<lparr>st_cap := 1512, st_allocs := 2\<rparr>)"
    by (simp add: Encoder_Grow_def st_len_def)
  show ?thesis
    using grow_reserves [OF ok, of 1000 "\<lambda>_ _. 0"] unfolding s g
    by (auto dest: spec [of _ "[replicate 600 7, replicate 400 8]"])
qed

end
