(* ===== verification/Service_Messages.thy ===== *)
theory Service_Messages
  imports Connection Generated_Service
begin

text \<open>
  The service messages, which \<^verbatim>\<open>mtproto/rpc/engine.go\<close> and \<^verbatim>\<open>mtproto/connection/connection.go\<close> write and read by hand, against
  the types that are generated for them, and what a connection does with the notices of a server.
\<close>

section \<open>Notices\<close>

datatype notice =
    NoticePong Pong
  | NoticeBadMsg BadMsgNotification
  | NoticeBadSalt BadServerSalt
  | NoticeNewSession NewSessionCreated

fun notice_bytes :: "notice \<Rightarrow> bytes" where
  "notice_bytes (NoticePong v) = Encoder_Bytes (Pong_Encode v Encoder_New)"
| "notice_bytes (NoticeBadMsg v) = Encoder_Bytes (BadMsgNotification_Encode v Encoder_New)"
| "notice_bytes (NoticeBadSalt v) = Encoder_Bytes (BadServerSalt_Encode v Encoder_New)"
| "notice_bytes (NoticeNewSession v) = Encoder_Bytes (NewSessionCreated_Encode v Encoder_New)"

lemma notice_header:
  obtains crc rest where "notice_bytes m = le_put 4 (crc :: uint32) @ rest"
    "crc \<notin> {CRCMsgContainer, CRCGzipPacked, CRCRPCResult}"
proof (cases m)
  case (NoticePong v)
  then show thesis
    by (intro that [of Pong_TLID]) (simp_all add: Pong.put_wire Pong_wire_def Pong_TLID_def crc_defs)
next
  case (NoticeBadMsg v)
  then show thesis
    by (intro that [of BadMsgNotification_TLID])
      (simp_all add: BadMsgNotification.put_wire BadMsgNotification_wire_def BadMsgNotification_TLID_def crc_defs)
next
  case (NoticeBadSalt v)
  then show thesis
    by (intro that [of BadServerSalt_TLID])
      (simp_all add: BadServerSalt.put_wire BadServerSalt_wire_def BadServerSalt_TLID_def crc_defs)
next
  case (NoticeNewSession v)
  then show thesis
    by (intro that [of NewSessionCreated_TLID])
      (simp_all add: NewSessionCreated.put_wire NewSessionCreated_wire_def NewSessionCreated_TLID_def crc_defs)
qed

lemma notice_length: "length (notice_bytes m) \<le> 32"
  by (cases m) (simp_all add: Pong.put_wire Pong_wire_def BadMsgNotification.put_wire
      BadMsgNotification_wire_def BadServerSalt.put_wire BadServerSalt_wire_def NewSessionCreated.put_wire NewSessionCreated_wire_def)

lemma Dispatch_notice:
  "Dispatch (Suc n) gz mid (notice_bytes m) e = Ret (None, e\<lparr>ackIDs := ackIDs e @ [mid]\<rparr>)"
proof -
  obtain crc rest where m: "notice_bytes m = le_put 4 (crc :: uint32) @ rest"
    "crc \<notin> {CRCMsgContainer, CRCGzipPacked, CRCRPCResult}" by (rule notice_header)
  have "Decoder_PeekUint (Decoder_New (notice_bytes m)) = Inr crc"
    by (rule PeekUint_header [where pre = "[]" and rest = rest]) (simp_all add: Decoder_New_def m(1))
  then show ?thesis using m(2) by (simp add: Let_def)
qed

section \<open>Properties\<close>

text \<open>
  C30. What the engine and the connection write by hand is what the generated types encode: the acknowledgement of any
  identifiers is a \<^verbatim>\<open>msgs_ack\<close> and the keepalive is a \<^verbatim>\<open>ping\<close>.  Of the eight constructor numbers of the engine the schema has
  five, with the same values: \<^verbatim>\<open>pong\<close>, \<^verbatim>\<open>rpc_error\<close>, \<^verbatim>\<open>bad_msg_notification\<close>, \<^verbatim>\<open>bad_server_salt\<close> and \<^verbatim>\<open>new_session_created\<close>.
\<close>
theorem service_messages_match:
  "PackMsgsAck ids = Encoder_Bytes (MsgsAck_Encode \<lparr>MsgsAck_MsgIds = ids\<rparr> Encoder_New) \<and>
   ping_payload now = Encoder_Bytes (Ping_Encode \<lparr>Ping_PingId = of_int now\<rparr> Encoder_New) \<and>
   CRCPong = Pong_TLID \<and> CRCRPCError = RpcError_TLID \<and> CRCBadMsgNotice = BadMsgNotification_TLID \<and>
   CRCBadServerSalt = BadServerSalt_TLID \<and> CRCNewSessionCreate = NewSessionCreated_TLID"
  by (simp add: PackMsgsAck_def ping_payload_def MsgsAck.put_wire Ping.put_wire MsgsAck_wire_def
      Ping_wire_def tl_vector_def CRCVector_def crc_defs Pong_TLID_def RpcError_TLID_def
      BadMsgNotification_TLID_def BadServerSalt_TLID_def NewSessionCreated_TLID_def)

text \<open>
  C18. A server that answers a ping, refuses a message, refuses its salt or announces a new session changes nothing for the
  callers: whatever its notice says, the read loop takes the salt of the packet, queues the acknowledgement and leaves every
  call as it was.  A request that the server refused is neither sent again nor failed; its caller waits for the timeout.
\<close>
theorem service_notices_dropped:
  assumes "inner = inner_data salt (sessionID c) mid sq (notice_bytes m) pad" "length inner mod 16 = 0"
  shows "handle_packet (Suc n) gz (seal (cn_authKey c) ServerRole inner) c =
    Ret (c\<lparr>serverSalt := (if salt = 0 then serverSalt c else salt),
           rpc := (rpc c)\<lparr>ackIDs := ackIDs (rpc c) @ [mid]\<rparr>\<rparr>)"
proof -
  have "length (notice_bytes m) < 2 ^ 32" using notice_length [of m] by (simp add: order.strict_trans1)
  then have "UnpackEncrypted (cn_authKey c) (sessionID c) (seal (cn_authKey c) ServerRole inner) =
      Inr (salt, mid, sq, notice_bytes m)"
    unfolding Unpack_accepts_iff Let_def
    by (intro exI [of _ "sessionID c"] exI [of _ pad]) (use assms in auto)
  then show ?thesis by (simp add: handle_packet_def Let_def Dispatch_notice del: Dispatch.simps)
qed

text \<open>The salt of request 4 is refused, and the new one is in the notice.\<close>

theorem service_notices_dropped_witness:
  "\<exists>c c' packet. Invoke_send live_call Inr idle_connection = (Inr (4, 0), c) \<and>
     handle_packet 1 no_gzip packet c = Ret c' \<and> pending (rpc c') = [(4, 0)] \<and> chans (rpc c') = chans (rpc c) \<and>
     serverSalt c' = serverSalt c"
proof -
  obtain c where c: "Invoke_send live_call Inr idle_connection = (Inr (4, 0), c)" "pending (rpc c) = [(4, 0)]"
    "sessionID c = 0" by (rule idle_call) blast
  let ?m = "NoticeBadSalt \<lparr>BadServerSalt_BadMsgId = 4, BadServerSalt_BadMsgSeqno = 1, BadServerSalt_ErrorCode = 48,
    BadServerSalt_NewServerSalt = 77\<rparr>"
  have len: "length (inner_data 0 0 1 1 (notice_bytes ?m) (replicate 20 0)) = 80"
    by (simp add: BadServerSalt.put_wire BadServerSalt_wire_def)
  from service_notices_dropped [of _ 0 c 1 1 ?m "replicate 20 0" 0 no_gzip, OF refl] len c show ?thesis
    by (fastforce simp del: Dispatch.simps notice_bytes.simps)
qed

end
