(* ===== verification/Request_Path.thy ===== *)
theory Request_Path
  imports Connection Generated_Service
begin

text \<open>
  A call of \<^verbatim>\<open>Invoke\<close> on its way out, through \<^verbatim>\<open>mtproto/rpc\<close>, \<^verbatim>\<open>mtproto/protocol\<close> and \<^verbatim>\<open>mtproto/transport\<close>, up to what the server
  makes of the packet.
\<close>



end
