(* ===== verification/Spec2Isabelle.thy ===== *)
theory Spec2Isabelle
  imports Generated_Auth Generated_Service Generated_Files Transport Protocol Message_IDs
    Factor RPC_Engine Session Conn Connection Upload Auth Client Schema_Match Generated_Text
    Encoder_Buffer Service_Messages Request_Path
begin

text \<open>
  TeleGofer is a Telegram client library in Go.  This development models all its packages and proves what makes them
  correct, and where the code does not do what it means to, it proves that.

  \<^bold>\<open>The program.\<close>  A schema in the TL notation (\<^verbatim>\<open>scripts/generate.go\<close>) is read by a lexer and a parser (\<^verbatim>\<open>tl/parser\<close>) and
  turned by a generator (\<^verbatim>\<open>tl/generator\<close>) into Go types (\<^verbatim>\<open>tl/generated/core.go\<close>) that serialize themselves with \<^verbatim>\<open>tl/encoder\<close> and
  \<^verbatim>\<open>tl/decoder\<close>.  A client (\<^verbatim>\<open>client\<close>) dials a server with a framing codec (\<^verbatim>\<open>mtproto/transport\<close>), agrees on an authorization
  key in unencrypted messages (\<^verbatim>\<open>mtproto/auth\<close>), and opens an encrypted connection (\<^verbatim>\<open>mtproto/connection\<close>), which numbers its
  messages, encrypts them (\<^verbatim>\<open>mtproto/protocol\<close>, \<^verbatim>\<open>mtproto/crypto\<close>) and hands what arrives to an engine that finds the caller of every
  answer (\<^verbatim>\<open>mtproto/rpc\<close>).  The transfers (\<^verbatim>\<open>transfer\<close>) call it once for every part of a file.

  \<^bold>\<open>Conventions.\<close>  A Go integer that can overflow is a word, a byte slice a list of bytes, a Go string a list of 8-bit
  characters.  A method is a function from the state to the state, with its results; all \<^verbatim>\<open>error\<close> values are one datatype, and a
  fallible call returns a sum or an option, in which every \<^verbatim>\<open>return err\<close> of the code is a branch.  What a function gets
  from outside (clocks, random bytes, contexts, answers of the network and of a server, the order of a map) is an argument.

  \<^bold>\<open>Shared theories.\<close>
  \<^item> \<open>Prelude\<close>: words, slices, byte orders, the errors, the collections of lemmas that carry the component proofs.
  \<^item> \<open>Go_Std\<close>, \<open>Std_Hash\<close>, \<open>Std_MD5\<close>, \<open>Std_AES\<close>: what the code uses of the standard library: readers and writers that can
    fail, big integers, decimal and hexadecimal numbers, durations, SHA-1, SHA-256, MD5, AES-256.

  \<^bold>\<open>Serialization\<close>, \<^verbatim>\<open>tl\<close>.
  \<^item> \<open>Encoder\<close>, \<open>Encoder_Buffer\<close> (\<^verbatim>\<open>tl/encoder\<close>): all \<^verbatim>\<open>Put\<close> methods on the bytes of the buffer; under them the slice with its
    capacity, \<^verbatim>\<open>Grow\<close> and \<^verbatim>\<open>append\<close>, which \<open>encoder_of\<close> maps to the bytes.
  \<^item> \<open>Decoder\<close> (\<^verbatim>\<open>tl/decoder\<close>): all methods, with position and every error; a read outside the buffer is the error \<open>RuntimePanic\<close>.
  \<^item> \<open>TL_Codec\<close>: the contract of a pair of encoder and decoder as the locale \<open>tl_codec\<close>, interpreted for the primitives here and for
    each generated type below: what was written is read back whatever follows, every cut of it is an error, a decoder never
    reads outside its buffer, never leaves it and never moves back.
  \<^item> \<open>Generated_Base\<close>, \<open>Generated_Auth\<close>, \<open>Generated_Service\<close>, \<open>Generated_Files\<close> (\<^verbatim>\<open>tl/generated/core.go\<close>): a record for each of
    the 47 types, a datatype for each of the 10 sum types, their \<^verbatim>\<open>Encode\<close>, \<^verbatim>\<open>Decode\<close> and constructor numbers.
  \<^item> \<open>Lexer\<close>, \<open>Parser\<close> (\<^verbatim>\<open>tl/parser\<close>): every token and every definition, with the line of each error; the loops terminate because
    the position grows.  A printer of schemas is the reference, and printing and parsing is the identity.
  \<^item> \<open>Generator\<close> (\<^verbatim>\<open>tl/generator\<close>): the generated source as text, for every order of the types; its brackets are balanced.
  \<^item> \<open>Core_Schema\<close> (\<^verbatim>\<open>scripts/generate.go\<close>): the schema text of the script, the definitions that the parser reads from it, and \<^verbatim>\<open>main\<close>.
  \<^item> \<open>Schema_Match\<close>: a reference encoder that follows a definition of the schema, and that every generated \<^verbatim>\<open>Encode\<close> agrees
    with it (for \<^verbatim>\<open>upload.getFile\<close>, whose flags are never cleared, exactly when \<^verbatim>\<open>Flags\<close> has no stale bit), so the models of the generated types are tied to the schema and not only to each other.
  \<^item> \<open>Generated_Text\<close>: the text of one generated type, with flags and a field of a sum type, as the generator writes it.  Run on the
    whole schema with the order of types that the file has, the model writes every line of \<^verbatim>\<open>core.go\<close>, up to the white space that
    \<^verbatim>\<open>gofmt\<close> aligns.

  \<^bold>\<open>The protocol\<close>, \<^verbatim>\<open>mtproto\<close>.
  \<^item> \<open>Crypto\<close>, \<open>IGE\<close>, \<open>Factor\<close> (\<^verbatim>\<open>mtproto/crypto\<close>): key derivation, authorization keys, RSA; AES-IGE on one memory, so that
    overlapping slices behave as they do in the code, over the locale \<open>keyed_cipher\<close>, which AES-256 interprets; Pollard's rho.
  \<^item> \<open>Protocol\<close>, \<open>Message_IDs\<close> (\<^verbatim>\<open>mtproto/protocol\<close>): both packet formats, message identifiers and sequence numbers.
  \<^item> \<open>Transport\<close>, \<open>Conn\<close> (\<^verbatim>\<open>mtproto/transport\<close>): the four codecs and the connection around them.  The locale \<open>framing\<close> is the contract:
    a reader sees the packets that were written, in their order, and a stream that ends inside a frame is an error.
    \<^verbatim>\<open>Dial\<close> also returns the network connection, which it closes after a failed handshake.  The full codec writes packets its
    reader refuses (over 16 MB), and the padded codec hands on its padding, so an answer on it is dropped unless no padding was drawn.
  \<^item> \<open>RPC_Errors\<close>, \<open>RPC_Engine\<close> (\<^verbatim>\<open>mtproto/rpc\<close>): the typed errors with their texts; the pending calls, containers, compressed
    messages, results.  The invariant \<open>engine_inv\<close> holds in every state that is reachable by interleaved operations, and makes each send
    to a caller find an empty channel.
  \<^item> \<open>Connection\<close> (\<^verbatim>\<open>mtproto/connection\<close>): the read loop, the keepalive loop, callers and \<^verbatim>\<open>Close\<close> as program counters that are
    interleaved by \<open>sys_step\<close>.
  \<^item> \<open>Service_Messages\<close>: the service messages that these packages write and read by hand, against the generated types.
  \<^item> \<open>Request_Path\<close>: a call of \<^verbatim>\<open>Invoke\<close> through the engine, the packet format and the transport, up to what the server decrypts.
  \<^item> \<open>Auth\<close> (\<^verbatim>\<open>mtproto/auth\<close>): the key exchange in its three steps, against a server that is specified by what it answers
    and by what it decrypts from the packets of the client.  The server is taken to know the new nonce of the client: with the
    embedded production key the RSA block cannot be recovered, which is proved as well.
  \<^item> \<open>Session\<close> (\<^verbatim>\<open>mtproto/session\<close>): the locale \<open>storage\<close>, which says that \<^verbatim>\<open>Load\<close> returns what was saved last, for both implementations.

  \<^bold>\<open>The client.\<close>
  \<^item> \<open>Download\<close>, \<open>Upload\<close> (\<^verbatim>\<open>transfer\<close>): the chunk sizes, the download loop, the upload as interleaved goroutines.
  \<^item> \<open>Client\<close> (\<^verbatim>\<open>client\<close>): configuration, loggers, \<^verbatim>\<open>Start\<close>, \<^verbatim>\<open>Invoke\<close>, \<^verbatim>\<open>Close\<close>.
  \<^item> This theory: the properties that span serialization, packets and transport.

  \<^bold>\<open>What does not end.\<close>  \<^verbatim>\<open>FactorPQ\<close> and \<^verbatim>\<open>Download\<close> have no bound in the code; they are partial functions into an option, whose
  \<open>None\<close> is a call that never returns, and it is proved when they return and when they do not.  \<^verbatim>\<open>Dispatch\<close> calls
  itself on what it decompresses and has fuel; a result never depends on the fuel.  \<open>inflation_ends\<close> is the class of payloads below
  which decompression ends, for the given decompressor: there one amount of fuel is enough for every reachable engine, and for a message that decompresses to itself no
  amount is.  A goroutine that waits has the outcome \<open>Blocks\<close> or no step.

  \<^bold>\<open>Where the model is narrower than the code.\<close>  The lexer and the parser work on runes up to 255, on which the classes of \<^verbatim>\<open>unicode\<close>
  are written out; the generator works on bytes.  A \<^verbatim>\<open>float64\<close> is its bit pattern.  A section under a mutex is one step.  The buffer
  argument of the transports and the sharing of a slice that a decoder borrows are left out.
  Identifiers that a clock gives are bounded where a property says so.

  \<^bold>\<open>Not modelled.\<close>  \<^verbatim>\<open>tl/tl.go\<close> holds two interface types and no code; a request of a connection is the \<^verbatim>\<open>Encode\<close> of one.
  \<^verbatim>\<open>RemoteAddr\<close> of a connection hands on a value of the network.  \<^verbatim>\<open>compress/gzip\<close>, \<^verbatim>\<open>go/format\<close>, the file system and the network are
  arguments.
\<close>

section \<open>Generated types\<close>

text \<open>
  C26. The answer to the first Diffie-Hellman request is read back by the switch over its
  constructors, whichever alternative was sent and whatever follows it; a constructor number
  that is not one of the alternatives is an error that names it and consumes nothing.
\<close>
theorem server_dh_params_codec:
  "(ServerDHParams_ok v \<longrightarrow>
      fst (DecodeServerDHParams (Decoder_New
        (Encoder_Bytes (ServerDHParams_Encode v Encoder_New) @ rest))) = Inr v) \<and>
   (Decoder_PeekUint d = Inr crc \<and> crc \<noteq> ServerDHParamsOk_TLID \<and> crc \<noteq> ServerDHParamsFail_TLID \<longrightarrow>
      DecodeServerDHParams d = (Inl (UnknownConstructor ''ServerDHParams'' crc), d))"
proof (intro conjI impI)
  assume "ServerDHParams_ok v"
  from ServerDHParams.roundtrip [OF this, of rest]
  show "fst (DecodeServerDHParams (Decoder_New
      (Encoder_Bytes (ServerDHParams_Encode v Encoder_New) @ rest))) = Inr v" by simp
next
  assume "Decoder_PeekUint d = Inr crc \<and> crc \<noteq> ServerDHParamsOk_TLID \<and> crc \<noteq> ServerDHParamsFail_TLID"
  then show "DecodeServerDHParams d = (Inl (UnknownConstructor ''ServerDHParams'' crc), d)"
    unfolding DecodeServerDHParams_def ServerDHParamsOk_TLID_def ServerDHParamsFail_TLID_def
    by (intro switch_unknown) auto
qed

theorem server_dh_params_codec_witness:
  "fst (DecodeServerDHParams (Decoder_New (Encoder_Bytes (ServerDHParams_Encode
      (ServerDHParams_ServerDHParamsOk \<lparr>ServerDHParamsOk_Nonce = replicate 16 1,
         ServerDHParamsOk_ServerNonce = replicate 16 2, ServerDHParamsOk_EncryptedAnswer = ''answer''\<rparr>)
      Encoder_New) @ [0]))) =
   Inr (ServerDHParams_ServerDHParamsOk \<lparr>ServerDHParamsOk_Nonce = replicate 16 1,
         ServerDHParamsOk_ServerNonce = replicate 16 2, ServerDHParamsOk_EncryptedAnswer = ''answer''\<rparr>)"
  using server_dh_params_codec [of "ServerDHParams_ServerDHParamsOk
      \<lparr>ServerDHParamsOk_Nonce = replicate 16 1, ServerDHParamsOk_ServerNonce = replicate 16 2,
       ServerDHParamsOk_EncryptedAnswer = ''answer''\<rparr>" "[0]" "Decoder_New []" 0]
  by (simp add: ServerDHParamsOk_ok_def)

text \<open>
  C27. \<^verbatim>\<open>upload.getFile\<close> encodes its options into \<^verbatim>\<open>Flags\<close> by setting bits only: once a request was
  encoded with \<^verbatim>\<open>CdnSupported\<close>, clearing that field and encoding again still announces CDN support,
  and the server reads it as set.
\<close>
theorem upload_get_file_cdn_sticky:
  assumes "UploadGetFile_CdnSupported v" "InputFileLocationClass_ok (UploadGetFile_Location v)"
  shows "let v' = (fst (UploadGetFile_Encode v e))\<lparr>UploadGetFile_CdnSupported := False\<rparr> in
    \<exists>u. fst (UploadGetFile_Decode (Decoder_New
         (Encoder_Bytes (snd (UploadGetFile_Encode v' Encoder_New))))) = Inr u \<and>
      UploadGetFile_CdnSupported u"
proof -
  let ?v = "(fst (UploadGetFile_Encode v e))\<lparr>UploadGetFile_CdnSupported := False\<rparr>"
  have "InputFileLocationClass_ok (UploadGetFile_Location ?v)"
    using assms(2) by (simp add: UploadGetFile_Encode_eq)
  from decodes_New [OF decodes_UploadGetFile [OF this], of "[]"]
  have "fst (UploadGetFile_Decode (Decoder_New (UploadGetFile_wire ?v))) = Inr (UploadGetFile_seen ?v)"
    by simp
  moreover have "Encoder_Bytes (snd (UploadGetFile_Encode ?v Encoder_New)) = UploadGetFile_wire ?v"
    by (simp only: UploadGetFile.put_wire) (simp add: app_def Encoder_New_def Encoder_Bytes_def)
  ultimately show ?thesis
    using cdn_flag_sticky [OF assms(1), of e] by (simp only: Let_def) blast
qed

theorem upload_get_file_cdn_sticky_witness:
  "\<exists>v'. fst (UploadGetFile_Decode (Decoder_New (Encoder_Bytes (snd (UploadGetFile_Encode
     ((fst (UploadGetFile_Encode \<lparr>UploadGetFile_Flags = 0, UploadGetFile_Precise = False,
         UploadGetFile_CdnSupported = True,
         UploadGetFile_Location = InputFileLocationClass_InputDocumentFileLocation
           \<lparr>InputDocumentFileLocation_Id = 1, InputDocumentFileLocation_AccessHash = 2,
            InputDocumentFileLocation_FileReference = [3], InputDocumentFileLocation_ThumbSize = ''m''\<rparr>,
         UploadGetFile_Offset = 0, UploadGetFile_Limit = 1024\<rparr> Encoder_New))
       \<lparr>UploadGetFile_CdnSupported := False\<rparr>) Encoder_New))))) = Inr v' \<and> UploadGetFile_CdnSupported v'"
  using upload_get_file_cdn_sticky [of "\<lparr>UploadGetFile_Flags = 0, UploadGetFile_Precise = False,
         UploadGetFile_CdnSupported = True,
         UploadGetFile_Location = InputFileLocationClass_InputDocumentFileLocation
           \<lparr>InputDocumentFileLocation_Id = 1, InputDocumentFileLocation_AccessHash = 2,
            InputDocumentFileLocation_FileReference = [3], InputDocumentFileLocation_ThumbSize = ''m''\<rparr>,
         UploadGetFile_Offset = 0, UploadGetFile_Limit = 1024\<rparr>" Encoder_New]
  by (simp add: InputDocumentFileLocation_ok_def Let_def)

section \<open>A request through the layers\<close>

text \<open>
  C29. From the typed request to the wire and back: the first message of the key exchange, encoded, packed
  as an unencrypted message and written through the intermediate transport, is what a server that
  reads a packet, unpacks it and decodes it gets, and nothing is left over of the packet.
\<close>
theorem unencrypted_request_delivered:
  assumes nonce: "length nonce = 16"
  shows "\<exists>w. Intermediate_WritePacket (PackUnencrypted msgID
        (Encoder_Bytes (ReqPqMulti_Encode \<lparr>ReqPqMulti_Nonce = nonce\<rparr> Encoder_New))) fresh_writer = (None, w) \<and>
    (\<exists>packet payload. Intermediate_ReadPacket \<lparr>rin = wbuf w @ later, rerr = e\<rparr> =
         (Inr packet, \<lparr>rin = later, rerr = e\<rparr>) \<and>
       UnpackUnencrypted packet = Inr (msgID, payload) \<and>
       ReqPqMulti_Decode (Decoder_New payload) =
         (Inr \<lparr>ReqPqMulti_Nonce = nonce\<rparr>, \<lparr>dbuf = payload, dpos = length payload\<rparr>))"
proof -
  let ?v = "\<lparr>ReqPqMulti_Nonce = nonce\<rparr>"
  let ?payload = "Encoder_Bytes (ReqPqMulti_Encode ?v Encoder_New)"
  let ?packet = "PackUnencrypted msgID ?payload"
  have ok: "ReqPqMulti_ok ?v" using nonce by (simp add: ReqPqMulti_ok_def)
  have pl: "?payload = ReqPqMulti_wire ?v" by (simp add: ReqPqMulti.put_wire)
  then have len: "length ?payload = 20" using nonce by (simp add: ReqPqMulti_wire_def)
  have pk: "length ?packet = 40" using len by (simp add: PackUnencrypted_slices(5))
  have "Intermediate_WritePacket ?packet fresh_writer =
      (None, \<lparr>wbuf = length_frame ?packet, wplan = []\<rparr>)"
    using Intermediate_write [of fresh_writer ?packet] by simp
  moreover have "Intermediate_ReadPacket \<lparr>rin = length_frame ?packet @ later, rerr = e\<rparr> =
      (Inr ?packet, \<lparr>rin = later, rerr = e\<rparr>)"
    using Intermediate_read [of ?packet "\<lparr>rin = length_frame ?packet @ later, rerr = e\<rparr>" later] pk by simp
  moreover have "UnpackUnencrypted ?packet = Inr (msgID, ?payload)"
    using Unpack_PackUnencrypted [of ?payload msgID "[]"] len by simp
  moreover have "ReqPqMulti_Decode (Decoder_New ?payload) =
      (Inr ?v, \<lparr>dbuf = ?payload, dpos = length ?payload\<rparr>)"
    using ReqPqMulti.roundtrip [OF ok, of "[]"] pl by simp
  ultimately show ?thesis by auto
qed

theorem unencrypted_request_delivered_witness:
  "\<exists>w. Intermediate_WritePacket (PackUnencrypted 4 (Encoder_Bytes
      (ReqPqMulti_Encode \<lparr>ReqPqMulti_Nonce = replicate 16 7\<rparr> Encoder_New))) fresh_writer = (None, w)"
  using unencrypted_request_delivered [of "replicate 16 7" 4 "[]" IoEOF] by auto

end
